(* ===== verification/Mesh_Prelude.thy ===== *)
theory Mesh_Prelude
  imports Main "HOL-Library.Word" "HOL-Library.Multiset"
begin

text \<open>
  Vocabulary shared by every component of the firmware model: the machine integers,
  byte strings, the bounded containers of \<open>heapless\<close> (capacity checked at each push),
  little-endian integer layouts, slices, \<open>swap_remove\<close>, and the generic lemmas about
  them.  \<open>mesh_defs\<close> collects the unfolding rules of small accessors, \<open>mesh_len\<close>
  the length facts of fixed-size layouts.
\<close>

unbundle bit_operations_syntax

named_theorems mesh_defs \<open>unfolding rules of small accessors and constants\<close>
named_theorems mesh_len \<open>lengths of fixed-size byte layouts\<close>

type_synonym u8 = "8 word"
type_synonym u16 = "16 word"
type_synonym u32 = "32 word"
type_synonym u64 = "64 word"
type_synonym bytes = "u8 list"

text \<open>Instants and durations of \<open>embassy_time\<close>, in whole milliseconds since boot.\<close>
type_synonym instant = nat

section \<open>Integer ranges\<close>

lemma unat_u8_less: "unat (a :: u8) < 256"
  by (rule order_less_le_trans [OF unsigned_less]) simp

lemma unat_u16_less: "unat (b :: u16) < 65536"
  by (rule order_less_le_trans [OF unsigned_less]) simp

lemma unat_u32_less: "unat (c :: u32) < 4294967296"
  by (rule order_less_le_trans [OF unsigned_less]) simp

text \<open>Widening casts \<open>as u16\<close>, \<open>as u32\<close>, \<open>as u64\<close> keep the value.\<close>

lemma unat_widen [simp]:
  "unat (ucast (a :: u8) :: u16) = unat a" "unat (ucast (a :: u8) :: u32) = unat a"
  "unat (ucast (b :: u16) :: u32) = unat b" "unat (ucast (c :: u32) :: u64) = unat c"
  using unat_u8_less [of a] unat_u16_less [of b] unat_u32_less [of c]
  by (simp_all add: unsigned_ucast_eq take_bit_nat_eq_self)

section \<open>Little-endian layouts\<close>

text \<open>\<open>uN::to_le_bytes\<close> and \<open>uN::from_le_bytes\<close> of the Rust core library.\<close>

definition le16 :: "u16 \<Rightarrow> bytes" where
  "le16 w = [ucast w, ucast (drop_bit 8 w)]"

definition of_le16 :: "u8 \<Rightarrow> u8 \<Rightarrow> u16" where
  "of_le16 a b = ucast a OR push_bit 8 (ucast b)"

definition le32 :: "u32 \<Rightarrow> bytes" where
  "le32 w = [ucast w, ucast (drop_bit 8 w), ucast (drop_bit 16 w), ucast (drop_bit 24 w)]"

definition of_le32 :: "u8 \<Rightarrow> u8 \<Rightarrow> u8 \<Rightarrow> u8 \<Rightarrow> u32" where
  "of_le32 a b c d =
     ucast a OR push_bit 8 (ucast b) OR push_bit 16 (ucast c) OR push_bit 24 (ucast d)"

definition le64 :: "u64 \<Rightarrow> bytes" where
  "le64 w = le32 (ucast w) @ le32 (ucast (drop_bit 32 w))"

definition of_le64 :: "bytes \<Rightarrow> u64" where
  "of_le64 bs =
     ucast (of_le32 (bs ! 0) (bs ! 1) (bs ! 2) (bs ! 3))
     OR push_bit 32 (ucast (of_le32 (bs ! 4) (bs ! 5) (bs ! 6) (bs ! 7)))"

lemma length_le [simp, mesh_len]:
  "length (le16 a) = 2" "length (le32 b) = 4" "length (le64 c) = 8"
  by (simp_all add: le16_def le32_def le64_def)

lemma of_le16_le16 [simp]: "of_le16 (le16 w ! 0) (le16 w ! Suc 0) = w"
  by (rule bit_word_eqI) (auto simp: of_le16_def le16_def bit_simps)

lemma of_le32_le32 [simp]:
  "of_le32 (le32 w ! 0) (le32 w ! Suc 0) (le32 w ! 2) (le32 w ! 3) = w"
proof (rule bit_word_eqI)
  fix n :: nat
  assume "n < LENGTH(32)"
  then consider "n < 8" | "8 \<le> n" "n < 16" | "16 \<le> n" "n < 24" | "24 \<le> n" "n < 32"
    by force
  then show "bit (of_le32 (le32 w ! 0) (le32 w ! Suc 0) (le32 w ! 2) (le32 w ! 3)) n = bit w n"
    by cases (auto simp: of_le32_def le32_def bit_simps)
qed

lemma of_le64_le64 [simp]: "of_le64 (le64 w) = w"
proof -
  have "of_le64 (le64 w) =
      ucast (ucast w :: u32) OR push_bit 32 (ucast (ucast (drop_bit 32 w) :: u32))"
    using of_le32_le32 [of "ucast w"] of_le32_le32 [of "ucast (drop_bit 32 w)"]
    by (simp add: of_le64_def le64_def nth_append)
  also have "\<dots> = w"
    by (rule bit_word_eqI) (auto simp: bit_simps)
  finally show ?thesis .
qed

lemma le32_of_le32 [simp]: "le32 (of_le32 a b c d) = [a, b, c, d]"
  by (auto simp: of_le32_def le32_def intro!: bit_word_eqI)
    (auto simp: bit_simps dest: bit_imp_le_length)

lemma le16_of_le16 [simp]: "le16 (of_le16 a b) = [a, b]"
  by (auto simp: of_le16_def le16_def intro!: bit_word_eqI)
    (auto simp: bit_simps dest: bit_imp_le_length)

lemma le32_nonzero: "w \<noteq> 0 \<Longrightarrow> \<exists>b \<in> set (le32 w). b \<noteq> 0"
proof (rule ccontr)
  assume "w \<noteq> 0" and "\<not> (\<exists>b \<in> set (le32 w). b \<noteq> 0)"
  then have "le32 w = [0, 0, 0, 0]" by (simp add: le32_def)
  then have "of_le32 (le32 w ! 0) (le32 w ! Suc 0) (le32 w ! 2) (le32 w ! 3) = 0"
    by (simp add: of_le32_def)
  with \<open>w \<noteq> 0\<close> show False by simp
qed

section \<open>Slices and in-place writes\<close>

text \<open>\<open>&buf[lo..hi]\<close> and \<open>buf[off..off+n].copy_from_slice(bs)\<close>.\<close>

definition slice :: "nat \<Rightarrow> nat \<Rightarrow> 'a list \<Rightarrow> 'a list" where
  "slice lo hi xs = take (hi - lo) (drop lo xs)"

definition write_at :: "nat \<Rightarrow> 'a list \<Rightarrow> 'a list \<Rightarrow> 'a list" where
  "write_at off bs buf = take off buf @ bs @ drop (off + length bs) buf"

lemma length_slice [simp]: "length (slice lo hi xs) = min (hi - lo) (length xs - lo)"
  by (auto simp: slice_def min_def)

lemma nth_slice [simp]: "\<lbrakk>hi \<le> length xs; i < hi - lo\<rbrakk> \<Longrightarrow> slice lo hi xs ! i = xs ! (lo + i)"
  by (simp add: slice_def)

lemma length_write_at [simp]:
  "off + length bs \<le> length buf \<Longrightarrow> length (write_at off bs buf) = length buf"
  by (simp add: write_at_def)

lemma nth_write_at:
  assumes "off + length bs \<le> length buf" and "i < length buf"
  shows "write_at off bs buf ! i =
     (if off \<le> i \<and> i < off + length bs then bs ! (i - off) else buf ! i)"
  using assms by (auto simp: write_at_def nth_append min_def)

lemma slice_write_same [simp]:
  "\<lbrakk>off + length bs \<le> length buf; hi = off + length bs\<rbrakk> \<Longrightarrow> slice off hi (write_at off bs buf) = bs"
  by (simp add: slice_def write_at_def)

lemma slice_write_other:
  assumes "off + length bs \<le> length buf" and "hi \<le> off \<or> off + length bs \<le> lo" and "hi \<le> length buf"
  shows "slice lo hi (write_at off bs buf) = slice lo hi buf"
  using assms by (auto intro!: nth_equalityI simp: nth_write_at)

lemma slice_update_other:
  "\<lbrakk>hi \<le> length buf; i < lo \<or> hi \<le> i\<rbrakk> \<Longrightarrow> slice lo hi (buf[i := x]) = slice lo hi buf"
  by (auto intro!: nth_equalityI)

lemma slice_0_append [simp]: "hi = length xs \<Longrightarrow> slice 0 hi (xs @ ys) = xs"
  by (simp add: slice_def)

lemma slice_append_drop [simp]:
  "\<lbrakk>lo = length xs; hi = length xs + length ys\<rbrakk> \<Longrightarrow> slice lo hi (xs @ ys @ zs) = ys"
  by (simp add: slice_def)

lemma take_write_0 [simp]: "n = length bs \<Longrightarrow> take n (write_at 0 bs buf) = bs"
  by (simp add: write_at_def)

section \<open>Bounded containers\<close>

text \<open>
  A \<open>heapless::Vec<T, N>\<close> or \<open>heapless::String<N>\<close> is a list; \<open>N\<close> is checked where
  the code pushes.  A push on a full vector is \<open>Err\<close> (here \<^term>\<open>None\<close>);
  \<open>extend_from_slice(..).ok()\<close> and \<open>push_str(..).ok()\<close> append all or nothing.
\<close>

definition vec_push :: "nat \<Rightarrow> 'a list \<Rightarrow> 'a \<Rightarrow> 'a list option" where
  "vec_push cap xs x = (if length xs < cap then Some (xs @ [x]) else None)"

definition vec_extend :: "nat \<Rightarrow> 'a list \<Rightarrow> 'a list \<Rightarrow> 'a list" where
  "vec_extend cap xs ys = (if length xs + length ys \<le> cap then xs @ ys else xs)"

text \<open>A channel's \<open>try_send\<close>: the message is dropped when the queue is full.\<close>

definition try_send :: "nat \<Rightarrow> 'a list \<Rightarrow> 'a \<Rightarrow> 'a list" where
  "try_send cap q x = (if length q < cap then q @ [x] else q)"

lemma vec_push_SomeD: "vec_push cap xs x = Some ys \<Longrightarrow> ys = xs @ [x] \<and> length ys \<le> cap"
  by (auto simp: vec_push_def split: if_splits)

lemma length_vec_extend: "length xs \<le> cap \<Longrightarrow> length (vec_extend cap xs ys) \<le> cap"
  by (simp add: vec_extend_def)

lemma length_try_send: "length q \<le> cap \<Longrightarrow> length (try_send cap q x) \<le> cap"
  by (simp add: try_send_def)

section \<open>Removal, search and minima\<close>

text \<open>\<open>Vec::swap_remove(i)\<close>: the last element takes the place of element \<open>i\<close>.\<close>

definition swap_remove :: "nat \<Rightarrow> 'a list \<Rightarrow> 'a list" where
  "swap_remove i xs =
     (if i < length xs - 1 then (butlast xs)[i := last xs] else butlast xs)"

text \<open>\<open>iter().position(p)\<close>, \<open>iter_mut().find(p)\<close> followed by a write, and
  \<open>iter().enumerate().min_by_key(k)\<close>, which returns the first of several minima.\<close>

fun position :: "('a \<Rightarrow> bool) \<Rightarrow> 'a list \<Rightarrow> nat option" where
  "position p [] = None"
| "position p (x # xs) = (if p x then Some 0 else map_option Suc (position p xs))"

fun update_first :: "('a \<Rightarrow> bool) \<Rightarrow> ('a \<Rightarrow> 'a) \<Rightarrow> 'a list \<Rightarrow> 'a list" where
  "update_first p f [] = []"
| "update_first p f (x # xs) = (if p x then f x # xs else x # update_first p f xs)"

fun min_idx :: "('a \<Rightarrow> nat) \<Rightarrow> 'a list \<Rightarrow> nat option" where
  "min_idx k [] = None"
| "min_idx k (x # xs) =
     (case min_idx k xs of None \<Rightarrow> Some 0
      | Some j \<Rightarrow> if k x \<le> k (xs ! j) then Some 0 else Some (Suc j))"

lemma length_swap_remove [simp]: "length (swap_remove i xs) = length xs - 1"
  by (simp add: swap_remove_def)

lemma swap_remove_mid:
  "swap_remove (length xs) (xs @ y # ys) = xs @ (if ys = [] then [] else last ys # butlast ys)"
  by (auto simp: swap_remove_def butlast_append list_update_append)

lemma mset_swap_remove:
  assumes "i < length xs"
  shows "add_mset (xs ! i) (mset (swap_remove i xs)) = mset xs"
proof -
  from assms obtain as bs where xs: "xs = as @ xs ! i # bs" and i: "i = length as"
    by (metis id_take_nth_drop length_take min.absorb4)
  have "mset bs = (if bs = [] then {#} else add_mset (last bs) (mset (butlast bs)))"
    by (cases bs rule: rev_cases) auto
  then show ?thesis
    by (subst (2) xs, subst (2) xs, subst i) (auto simp: swap_remove_mid)
qed

lemma take_swap_remove: "i < length xs \<Longrightarrow> take i (swap_remove i xs) = take i xs"
  by (cases "i < length xs - 1") (auto simp: swap_remove_def take_butlast butlast_conv_take)

lemma mset_drop_swap_remove:
  assumes "i < length xs"
  shows "add_mset (xs ! i) (mset (drop i (swap_remove i xs))) = mset (drop i xs)"
proof -
  have "mset (take i xs) + mset (drop i (swap_remove i xs)) = mset (swap_remove i xs)"
    by (metis take_swap_remove [OF assms] append_take_drop_id mset_append)
  then have "mset (take i xs) + add_mset (xs ! i) (mset (drop i (swap_remove i xs)))
      = mset (take i xs) + mset (drop i xs)"
    using mset_swap_remove [OF assms] by (metis append_take_drop_id mset_append union_mset_add_mset_right)
  then show ?thesis by (simp only: add_left_cancel)
qed

lemma set_swap_remove: "i < length xs \<Longrightarrow> insert (xs ! i) (set (swap_remove i xs)) = set xs"
  using mset_swap_remove [of i xs] by (metis set_mset_add_mset_insert set_mset_mset)

lemma set_swap_remove_subset: "i < length xs \<Longrightarrow> set (swap_remove i xs) \<subseteq> set xs"
  using set_swap_remove by fast

lemma distinct_map_swap_remove:
  "\<lbrakk>i < length xs; distinct (map f xs)\<rbrakk> \<Longrightarrow> distinct (map f (swap_remove i xs))"
  using mset_eq_imp_distinct_iff [of "map f (xs ! i # swap_remove i xs)" "map f xs"]
    mset_swap_remove [of i xs] by (simp flip: image_mset_add_mset)

lemma distinct_submset:
  assumes "mset ys \<subseteq># mset xs" and "distinct xs"
  shows "distinct ys"
proof -
  have "count (mset xs) a \<le> 1" for a
    using assms(2) by (metis distinct_count_atmost_1 le_refl zero_le_one)
  then have "count (mset ys) a \<le> 1" for a
    using mset_subset_eq_count [OF assms(1), of a] order_trans by blast
  then show ?thesis
    by (metis distinct_count_atmost_1 le_antisym count_greater_eq_one_iff set_mset_mset not_in_iff)
qed

lemma position_SomeD:
  "position p xs = Some i \<Longrightarrow> i < length xs \<and> p (xs ! i) \<and> (\<forall>j < i. \<not> p (xs ! j))"
  by (induction xs arbitrary: i) (auto simp: nth_Cons' less_Suc_eq_0_disj split: if_splits)

lemma position_None [simp]: "position p xs = None \<longleftrightarrow> (\<forall>x \<in> set xs. \<not> p x)"
  by (induction xs) auto

lemma find_position: "find p xs = map_option ((!) xs) (position p xs)"
  by (induction xs) (auto simp: option.map_comp comp_def)

lemma update_first_position:
  "position p xs = Some i \<Longrightarrow> xs[i := f (xs ! i)] = update_first p f xs"
  by (induction xs arbitrary: i) (auto split: if_splits)

lemma length_update_first [simp]: "length (update_first p f xs) = length xs"
  by (induction xs) auto

lemma set_update_first: "set (update_first p f xs) \<subseteq> set xs \<union> f ` {x \<in> set xs. p x}"
  by (induction xs) auto

lemma update_first_none: "\<forall>x \<in> set xs. \<not> p x \<Longrightarrow> update_first p f xs = xs"
  by (induction xs) auto

lemma map_update_first: "(\<And>x. g (f x) = g x) \<Longrightarrow> map g (update_first p f xs) = map g xs"
  by (induction xs) auto

lemma find_update_first_same:
  "(\<And>x. p x \<Longrightarrow> p (f x)) \<Longrightarrow> find p (update_first p f xs) = map_option f (find p xs)"
  by (induction xs) auto

lemma find_update_first_other:
  "(\<And>x. q (f x) = q x) \<Longrightarrow> (\<And>x. p x \<Longrightarrow> \<not> q x) \<Longrightarrow> find q (update_first p f xs) = find q xs"
  by (induction xs) auto

lemma find_append: "find p (xs @ ys) = (case find p xs of None \<Rightarrow> find p ys | Some x \<Rightarrow> Some x)"
  by (induction xs) auto

lemma min_idx_None [simp]: "min_idx k xs = None \<longleftrightarrow> xs = []"
  by (cases xs) (auto split: option.splits)

lemma min_idx_SomeD:
  "min_idx k xs = Some i \<Longrightarrow> i < length xs \<and> (\<forall>x \<in> set xs. k (xs ! i) \<le> k x)"
  by (induction xs arbitrary: i)
    (fastforce split: option.splits if_splits simp: le_trans)+

end
