(* ===== verification/Mesh_Constants.thy ===== *)
theory Mesh_Constants
  imports Mesh_Prelude
begin

text \<open>
  The configuration constants of \<open>meshtastenstein-core/src/constants.rs\<close> that the modelled
  components use, at the widths the source gives them (\<open>usize\<close> and millisecond counts are
  \<open>nat\<close>).  They are \<open>definition\<close>s, so proofs unfold them only where their value matters;
  \<open>const_defs\<close> collects the unfolding rules.
\<close>

named_theorems const_defs \<open>unfolding rules of the firmware's configuration constants\<close>

definition MESHTASTIC_PREAMBLE_LENGTH :: u16 where [const_defs]:
  "MESHTASTIC_PREAMBLE_LENGTH = 64"
definition MAX_LORA_PAYLOAD_LEN :: nat where [const_defs]:
  "MAX_LORA_PAYLOAD_LEN = 255"
definition DEFAULT_PSK :: bytes where [const_defs]:
  "DEFAULT_PSK = [0xd4, 0xf1, 0xbb, 0x3a, 0x20, 0x29, 0x07, 0x59,
     0xf0, 0xbc, 0xff, 0xab, 0xcf, 0x4e, 0x69, 0x01]"
definition LORA_TX_POWER_DBM :: "32 word" where [const_defs]: "LORA_TX_POWER_DBM = 22"
definition DEVICE_STATE_VERSION :: u32 where [const_defs]: "DEVICE_STATE_VERSION = 25"
definition MIN_APP_VERSION :: u32 where [const_defs]: "MIN_APP_VERSION = 30200"
definition DEFAULT_HOP_LIMIT :: u8 where [const_defs]: "DEFAULT_HOP_LIMIT = 3"
definition SPECIAL_NONCE_ONLY_NODES :: u32 where [const_defs]: "SPECIAL_NONCE_ONLY_NODES = 69421"
definition MAX_HOP_LIMIT :: u8 where [const_defs]: "MAX_HOP_LIMIT = 7"
definition BITFIELD_OK_TO_MQTT_SHIFT :: nat where [const_defs]: "BITFIELD_OK_TO_MQTT_SHIFT = 0"
definition BITFIELD_WANT_RESPONSE_SHIFT :: nat where [const_defs]: "BITFIELD_WANT_RESPONSE_SHIFT = 1"
definition INACTIVITY_TIMEOUT_MS :: nat where [const_defs]: "INACTIVITY_TIMEOUT_MS = 300000"
definition WATCHDOG_TIMEOUT_SECS :: nat where [const_defs]: "WATCHDOG_TIMEOUT_SECS = 10"
definition LED_HEARTBEAT_INTERVAL_MS :: nat where [const_defs]: "LED_HEARTBEAT_INTERVAL_MS = 2000"
definition CAD_MAX_RETRIES :: nat where [const_defs]: "CAD_MAX_RETRIES = 5"
definition CAD_BACKOFF_BASE_MS :: nat where [const_defs]: "CAD_BACKOFF_BASE_MS = 50"
definition CAD_BACKOFF_JITTER_MS :: nat where [const_defs]: "CAD_BACKOFF_JITTER_MS = 100"
definition NODEINFO_BROADCAST_INTERVAL_MS :: nat where [const_defs]:
  "NODEINFO_BROADCAST_INTERVAL_MS = 10800000"
definition NODEINFO_BOOT_DELAY_MS :: nat where [const_defs]: "NODEINFO_BOOT_DELAY_MS = 30000"
definition NODEINFO_MIN_INTERVAL_MS :: nat where [const_defs]: "NODEINFO_MIN_INTERVAL_MS = 300000"
definition WANT_ACK_TIMEOUT_MS :: nat where [const_defs]: "WANT_ACK_TIMEOUT_MS = 5000"
definition POSITION_BROADCAST_INTERVAL_MS :: nat where [const_defs]:
  "POSITION_BROADCAST_INTERVAL_MS = 900000"
definition TELEMETRY_LORA_INTERVAL_MS :: nat where [const_defs]:
  "TELEMETRY_LORA_INTERVAL_MS = 3600000"
definition ROUTER_BROADCAST_INTERVAL_MS :: nat where [const_defs]:
  "ROUTER_BROADCAST_INTERVAL_MS = 43200000"
definition NEIGHBORINFO_BROADCAST_INTERVAL_MS :: nat where [const_defs]:
  "NEIGHBORINFO_BROADCAST_INTERVAL_MS = 21600000"
definition CW_MIN :: nat where [const_defs]: "CW_MIN = 3"
definition CW_MAX :: nat where [const_defs]: "CW_MAX = 8"
definition SNR_MIN_DBM :: int where [const_defs]: "SNR_MIN_DBM = - 20"
definition SNR_MAX_DBM :: int where [const_defs]: "SNR_MAX_DBM = 10"
definition LOW_BATTERY_THRESHOLD :: u8 where [const_defs]: "LOW_BATTERY_THRESHOLD = 5"
definition DUPLICATE_RING_SIZE :: nat where [const_defs]: "DUPLICATE_RING_SIZE = 200"
definition OPAQUE_SEEN_RING_SIZE :: nat where [const_defs]: "OPAQUE_SEEN_RING_SIZE = 32"
definition MAX_NODES :: nat where [const_defs]: "MAX_NODES = 96"
definition MAX_CHANNELS :: nat where [const_defs]: "MAX_CHANNELS = 8"
definition PKC_CHANNEL_INDEX :: u8 where [const_defs]: "PKC_CHANNEL_INDEX = of_nat MAX_CHANNELS"
definition CONFIG_EXCHANGE_MAX_NODES :: nat where [const_defs]: "CONFIG_EXCHANGE_MAX_NODES = 10"
definition LORA_TX_QUEUE_SIZE :: nat where [const_defs]: "LORA_TX_QUEUE_SIZE = 5"
definition BLE_TX_QUEUE_SIZE :: nat where [const_defs]: "BLE_TX_QUEUE_SIZE = 64"
definition MAX_BUFFERED_MESSAGES :: nat where [const_defs]: "MAX_BUFFERED_MESSAGES = 10"
definition MESH_IN_QUEUE_SIZE :: nat where [const_defs]: "MESH_IN_QUEUE_SIZE = 16"
definition NUM_RELIABLE_RETX :: nat where [const_defs]: "NUM_RELIABLE_RETX = 3"
definition NO_NEXT_HOP :: u8 where [const_defs]: "NO_NEXT_HOP = 0"
definition RETX_AIRTIME_EXTENSION_MS :: nat where [const_defs]: "RETX_AIRTIME_EXTENSION_MS = 100"
definition MAX_RELAYERS_TRACKED :: nat where [const_defs]: "MAX_RELAYERS_TRACKED = 6"
definition OCV_TABLE :: "u16 list" where [const_defs]:
  "OCV_TABLE = [4200, 4050, 3900, 3800, 3730, 3680, 3630, 3570, 3500, 3400, 3100]"

text \<open>Sizes used as bounds everywhere; they are positive.\<close>

lemma const_pos [simp]:
  "0 < DUPLICATE_RING_SIZE" "0 < OPAQUE_SEEN_RING_SIZE" "0 < MAX_BUFFERED_MESSAGES"
  "0 < MAX_NODES" "0 < MAX_RELAYERS_TRACKED"
  by (simp_all add: const_defs)

lemma length_DEFAULT_PSK [simp, mesh_len]: "length DEFAULT_PSK = 16"
  by (simp add: DEFAULT_PSK_def)

end
