(* ===== verification/Radio_Config.thy ===== *)
theory Radio_Config
  imports Mesh_Constants Complex_Main
begin

text \<open>
  \<open>domain/radio_config.rs\<close>: modem presets, regional frequency plans, the djb2 slot hash and
  the bandwidth wire codes.  Frequencies are the source's \<open>u32\<close> Hz, so that a wrap-around
  would show.  The enumerations themselves are generated from protobuf files that are not part
  of the repository: their constructors are those the source's exhaustive matches name, and the
  conversion from a wire integer (\<open>try_from\<close>) is an argument.  \<open>f32\<close> percentages are
  rationals.
\<close>

type_synonym f32 = rat

section \<open>Enumerations\<close>

datatype region =
    Unset | Us | Eu433 | Eu868 | Cn | Jp | Anz | Kr | Tw | Ru | In | Nz865 | Th | Lora24
  | Ua433 | Ua868 | My433 | My919 | Sg923 | Ph433 | Ph868 | Ph915 | Anz433 | Kz433 | Kz863
  | Np865 | Br902 | Eu866 | Eu874 | Eu917 | EuN868
  | Itu12m | Itu22m | Itu32m | Itu2125cm | Itu170cm | Itu270cm | Itu370cm

datatype modem_preset =
    LongFast | LongSlow | VeryLongSlow | MediumSlow | MediumFast | ShortSlow | ShortFast
  | LongModerate | ShortTurbo | LongTurbo | LiteFast | LiteSlow | NarrowFast | NarrowSlow
  | TinyFast | TinySlow | MediumTurbo

record modem_config =
  mc_spreading_factor :: u8
  mc_bandwidth_hz :: u32
  mc_coding_rate :: u8

section \<open>Hash and bandwidth codes\<close>

definition djb2 :: "bytes \<Rightarrow> u32" where
  "djb2 s = foldl (\<lambda>h b. h * 33 + ucast b) 5381 s"

definition bw_code_to_hz :: "u16 \<Rightarrow> u32" where
  "bw_code_to_hz code =
     (if code = 31 then 31250 else if code = 62 then 62500 else if code = 200 then 203125
      else if code = 400 then 406250 else if code = 800 then 812500
      else if code = 1600 then 1625000 else ucast code * 1000)"

definition bw_hz_to_code :: "u32 \<Rightarrow> u16" where
  "bw_hz_to_code hz =
     (if hz = 31250 then 31 else if hz = 62500 then 62 else if hz = 203125 then 200
      else if hz = 406250 then 400 else if hz = 812500 then 800
      else if hz = 1625000 then 1600 else ucast (hz div 1000))"

section \<open>Modem presets\<close>

definition preset_from_proto :: "(int \<Rightarrow> modem_preset option) \<Rightarrow> u8 \<Rightarrow> modem_preset" where
  "preset_from_proto try_from v =
     (case try_from (uint v) of Some p \<Rightarrow> p | None \<Rightarrow> LongFast)"

fun spreading_factor :: "modem_preset \<Rightarrow> u8" where
  "spreading_factor ShortFast = 7"
| "spreading_factor ShortTurbo = 7"
| "spreading_factor NarrowFast = 7"
| "spreading_factor TinyFast = 7"
| "spreading_factor ShortSlow = 8"
| "spreading_factor NarrowSlow = 8"
| "spreading_factor TinySlow = 8"
| "spreading_factor MediumFast = 9"
| "spreading_factor LiteFast = 9"
| "spreading_factor MediumTurbo = 9"
| "spreading_factor LiteSlow = 10"
| "spreading_factor LongSlow = 12"
| "spreading_factor VeryLongSlow = 12"
| "spreading_factor _ = 11"

fun bandwidth_hz :: "modem_preset \<Rightarrow> u32" where
  "bandwidth_hz VeryLongSlow = 62500"
| "bandwidth_hz NarrowFast = 62500"
| "bandwidth_hz NarrowSlow = 62500"
| "bandwidth_hz LongSlow = 125000"
| "bandwidth_hz LongModerate = 125000"
| "bandwidth_hz LiteFast = 125000"
| "bandwidth_hz LiteSlow = 125000"
| "bandwidth_hz ShortTurbo = 500000"
| "bandwidth_hz LongTurbo = 500000"
| "bandwidth_hz MediumTurbo = 500000"
| "bandwidth_hz TinyFast = 15600"
| "bandwidth_hz TinySlow = 15600"
| "bandwidth_hz _ = 250000"

fun coding_rate :: "modem_preset \<Rightarrow> u8" where
  "coding_rate LongSlow = 8"
| "coding_rate VeryLongSlow = 8"
| "coding_rate MediumSlow = 8"
| "coding_rate LongModerate = 8"
| "coding_rate NarrowFast = 6"
| "coding_rate NarrowSlow = 6"
| "coding_rate TinySlow = 6"
| "coding_rate TinyFast = 5"
| "coding_rate MediumTurbo = 5"
| "coding_rate _ = 5"

definition preset_config :: "modem_preset \<Rightarrow> modem_config" where
  "preset_config p = \<lparr>mc_spreading_factor = spreading_factor p,
     mc_bandwidth_hz = bandwidth_hz p, mc_coding_rate = coding_rate p\<rparr>"

text \<open>Display names as ASCII bytes.\<close>

definition ascii :: "string \<Rightarrow> bytes" where
  "ascii s = map (\<lambda>c. of_nat (of_char c)) s"

fun display_name :: "modem_preset \<Rightarrow> bytes" where
  "display_name LongFast = ascii ''LongFast''"
| "display_name LongSlow = ascii ''LongSlow''"
| "display_name VeryLongSlow = ascii ''VeryLongSlow''"
| "display_name MediumSlow = ascii ''MediumSlow''"
| "display_name MediumFast = ascii ''MediumFast''"
| "display_name ShortSlow = ascii ''ShortSlow''"
| "display_name ShortFast = ascii ''ShortFast''"
| "display_name LongModerate = ascii ''LongMod''"
| "display_name ShortTurbo = ascii ''ShortTurbo''"
| "display_name LongTurbo = ascii ''LongTurbo''"
| "display_name LiteFast = ascii ''LiteFast''"
| "display_name LiteSlow = ascii ''LiteSlow''"
| "display_name NarrowFast = ascii ''NarrowFast''"
| "display_name NarrowSlow = ascii ''NarrowSlow''"
| "display_name TinyFast = ascii ''TinyFast''"
| "display_name TinySlow = ascii ''TinySlow''"
| "display_name MediumTurbo = ascii ''MediumTurbo''"

section \<open>Regions\<close>

definition region_from_proto :: "(int \<Rightarrow> region option) \<Rightarrow> u8 \<Rightarrow> region" where
  "region_from_proto try_from v =
     (case try_from (uint v) of Some r \<Rightarrow> r | None \<Rightarrow> Eu433)"

fun freq_start_hz :: "region \<Rightarrow> u32" where
  "freq_start_hz Us = 902000000" | "freq_start_hz Br902 = 902000000"
| "freq_start_hz Unset = 902000000"
| "freq_start_hz Eu433 = 433000000" | "freq_start_hz Ua433 = 433000000"
| "freq_start_hz My433 = 433000000" | "freq_start_hz Ph433 = 433000000"
| "freq_start_hz Eu868 = 869400000" | "freq_start_hz EuN868 = 869400000"
| "freq_start_hz Cn = 470000000"
| "freq_start_hz Jp = 920500000"
| "freq_start_hz Anz = 915000000"
| "freq_start_hz Anz433 = 433050000"
| "freq_start_hz Ru = 868700000"
| "freq_start_hz Kr = 920000000" | "freq_start_hz Tw = 920000000"
| "freq_start_hz Th = 920000000"
| "freq_start_hz In = 865000000" | "freq_start_hz Np865 = 865000000"
| "freq_start_hz Nz865 = 864000000"
| "freq_start_hz Ua868 = 868000000" | "freq_start_hz Ph868 = 868000000"
| "freq_start_hz My919 = 919000000"
| "freq_start_hz Sg923 = 917000000" | "freq_start_hz Eu917 = 917000000"
| "freq_start_hz Ph915 = 915000000"
| "freq_start_hz Kz433 = 433075000"
| "freq_start_hz Kz863 = 863000000"
| "freq_start_hz Lora24 = 2400000000"
| "freq_start_hz Eu866 = 865600000"
| "freq_start_hz Eu874 = 874000000"
| "freq_start_hz Itu12m = 144000000" | "freq_start_hz Itu22m = 144000000"
| "freq_start_hz Itu32m = 144000000"
| "freq_start_hz Itu2125cm = 220000000"
| "freq_start_hz Itu170cm = 430000000" | "freq_start_hz Itu370cm = 430000000"
| "freq_start_hz Itu270cm = 420000000"

fun freq_end_hz :: "region \<Rightarrow> u32" where
  "freq_end_hz Us = 928000000" | "freq_end_hz Anz = 928000000" | "freq_end_hz Unset = 928000000"
| "freq_end_hz Eu433 = 434000000"
| "freq_end_hz Eu868 = 869650000" | "freq_end_hz EuN868 = 869650000"
| "freq_end_hz Cn = 510000000"
| "freq_end_hz Jp = 923500000"
| "freq_end_hz Anz433 = 434790000"
| "freq_end_hz Ru = 869200000"
| "freq_end_hz Kr = 923000000"
| "freq_end_hz Tw = 925000000" | "freq_end_hz Th = 925000000"
| "freq_end_hz In = 867000000"
| "freq_end_hz Nz865 = 868000000" | "freq_end_hz Kz863 = 868000000"
| "freq_end_hz Np865 = 868000000"
| "freq_end_hz Ua433 = 434700000" | "freq_end_hz Ph433 = 434700000"
| "freq_end_hz Ua868 = 868600000"
| "freq_end_hz My433 = 435000000"
| "freq_end_hz My919 = 924000000"
| "freq_end_hz Sg923 = 925000000"
| "freq_end_hz Ph868 = 869400000"
| "freq_end_hz Ph915 = 918000000" | "freq_end_hz Eu917 = 918000000"
| "freq_end_hz Kz433 = 434775000"
| "freq_end_hz Br902 = 907500000"
| "freq_end_hz Lora24 = 2483500000"
| "freq_end_hz Eu866 = 867600000"
| "freq_end_hz Eu874 = 874400000"
| "freq_end_hz Itu12m = 146000000"
| "freq_end_hz Itu22m = 148000000" | "freq_end_hz Itu32m = 148000000"
| "freq_end_hz Itu2125cm = 225000000"
| "freq_end_hz Itu170cm = 440000000"
| "freq_end_hz Itu270cm = 450000000" | "freq_end_hz Itu370cm = 450000000"

definition band_hz :: "region \<Rightarrow> u32" where
  "band_hz r = freq_end_hz r - freq_start_hz r"

definition num_channels :: "region \<Rightarrow> u32 \<Rightarrow> u32" where
  "num_channels r bw = (if bw = 0 then 0 else band_hz r div bw)"

definition frequency_hz :: "region \<Rightarrow> u32 \<Rightarrow> u32 \<Rightarrow> u32" where
  "frequency_hz r bw channel_index =
     (let num_ch = num_channels r bw in
      if num_ch = 0 then freq_start_hz r
      else (let ch = channel_index mod num_ch
            in freq_start_hz r + bw div 2 + ch * bw))"

definition default_channel_index :: "region \<Rightarrow> modem_preset \<Rightarrow> u32" where
  "default_channel_index r preset =
     (let name = display_name preset; h = djb2 name;
          bw = mc_bandwidth_hz (preset_config preset)
      in if bw = 0 then 0
         else (let num_ch = band_hz r div bw in if num_ch = 0 then 0 else h mod num_ch))"

fun duty_cycle_pct :: "region \<Rightarrow> f32" where
  "duty_cycle_pct Eu433 = 10" | "duty_cycle_pct Th = 10" | "duty_cycle_pct Ua433 = 10"
| "duty_cycle_pct Eu868 = 1" | "duty_cycle_pct Ua868 = 1"
| "duty_cycle_pct Eu866 = 5 / 2"
| "duty_cycle_pct EuN868 = 10"
| "duty_cycle_pct Eu874 = 1" | "duty_cycle_pct Eu917 = 1"
| "duty_cycle_pct _ = 100"

definition preset_num_channels :: "modem_preset \<Rightarrow> region \<Rightarrow> u32" where
  "preset_num_channels p r = num_channels r (mc_bandwidth_hz (preset_config p))"

definition preset_frequency_hz :: "modem_preset \<Rightarrow> region \<Rightarrow> u32 \<Rightarrow> u32" where
  "preset_frequency_hz p r channel_index =
     frequency_hz r (mc_bandwidth_hz (preset_config p)) channel_index"

section \<open>Frequency plans stay inside their band\<close>

lemma band_ordered: "unat (freq_start_hz r) \<le> unat (freq_end_hz r)"
  by (cases r) simp_all

lemma unat_band_hz: "unat (band_hz r) = unat (freq_end_hz r) - unat (freq_start_hz r)"
  using band_ordered [of r] by (simp add: band_hz_def unat_sub word_le_nat_alt)

lemma unat_num_channels:
  "unat (num_channels r bw) = (unat (freq_end_hz r) - unat (freq_start_hz r)) div unat bw"
  by (simp add: num_channels_def unat_div unat_band_hz)

lemma unat_frequency_hz:
  assumes n: "num_channels r bw \<noteq> 0"
  shows "unat (frequency_hz r bw idx) =
       unat (freq_start_hz r) + unat bw div 2 + unat (idx mod num_channels r bw) * unat bw" (is ?eq)
    and "unat (freq_start_hz r) + (unat (idx mod num_channels r bw) + 1) * unat bw
       \<le> unat (freq_end_hz r)" (is ?le)
proof -
  let ?S = "unat (freq_start_hz r)" and ?E = "unat (freq_end_hz r)" and ?B = "unat bw"
  let ?n = "unat (num_channels r bw)" and ?c = "unat (idx mod num_channels r bw)"
  have "0 < ?n" using n by (simp add: unat_gt_0)
  then have "?c < ?n" by (simp add: unat_mod)
  then have "(?c + 1) * ?B \<le> ?n * ?B" by (intro mult_right_mono) simp_all
  also have "\<dots> \<le> ?E - ?S" by (simp add: unat_num_channels)
  finally have "(?c + 1) * ?B \<le> ?E - ?S" .
  with band_ordered [of r] show le: ?le by linarith
  have "?E < 4294967296" by (rule unat_u32_less)
  moreover have "?B div 2 \<le> ?B" by simp
  ultimately have "?S + ?B div 2 + ?c * ?B < 4294967296" using le by (simp add: algebra_simps)
  then show ?eq
    using n by (simp add: frequency_hz_def Let_def unat_word_ariths unat_div)
qed

text \<open>
  C39: for every region, bandwidth and channel slot of a plan that has at least one channel, the
  computed \<open>u32\<close> centre frequency does not wrap and the whole channel, half a bandwidth on each
  side, lies between the start and the end of the regulatory band.
\<close>
theorem frequency_in_band:
  assumes "num_channels r bw \<noteq> 0"
  shows "unat (freq_start_hz r) + unat bw div 2 \<le> unat (frequency_hz r bw idx)
     \<and> unat (frequency_hz r bw idx) + (unat bw - unat bw div 2) \<le> unat (freq_end_hz r)"
proof -
  note f = unat_frequency_hz [OF assms, of idx]
  have "unat bw div 2 \<le> unat bw" by simp
  with f show ?thesis by (simp add: algebra_simps)
qed

theorem frequency_in_band_witness:
  "num_channels Eu433 250000 \<noteq> 0 \<and> unat (frequency_hz Eu433 250000 7) = 433875000
   \<and> unat (frequency_hz Eu433 250000 7) + (unat (250000 :: u32) - unat (250000 :: u32) div 2)
       \<le> unat (freq_end_hz Eu433)"
proof -
  have n: "num_channels Eu433 250000 \<noteq> 0" by (simp add: num_channels_def band_hz_def)
  have "unat (frequency_hz Eu433 250000 7) = 433875000"
    by (simp add: frequency_hz_def num_channels_def band_hz_def Let_def)
  then show ?thesis using n frequency_in_band [OF n, of 7] by blast
qed

text \<open>
  A plan with no channel (zero bandwidth, or a bandwidth wider than the band) falls back to the
  band's start frequency: for EU 868 with a 500 kHz preset the lower half of the channel is
  outside the band.
\<close>

lemma frequency_no_channel: "num_channels r bw = 0 \<Longrightarrow> frequency_hz r bw idx = freq_start_hz r"
  by (simp add: frequency_hz_def)

lemma num_channels_0_iff:
  "num_channels r bw = 0 \<longleftrightarrow> bw = 0 \<or> unat (freq_end_hz r) - unat (freq_start_hz r) < unat bw"
proof -
  have "num_channels r bw = 0 \<longleftrightarrow> unat (num_channels r bw) = 0" by (simp add: unat_eq_zero)
  then show ?thesis by (auto simp: unat_num_channels div_eq_0_iff unat_eq_zero)
qed

text \<open>
  A default slot exists for every region, and its frequency is in the band, exactly when the
  preset's bandwidth fits the band; otherwise the transmitter is tuned to the band edge, where
  half of the occupied channel lies below the band, as with EU 868 and the 500 kHz presets.
\<close>
lemma default_slot_in_band_iff:
  "(unat (freq_start_hz r) + unat (bandwidth_hz p) div 2
      \<le> unat (preset_frequency_hz p r (default_channel_index r p)))
   \<longleftrightarrow> unat (bandwidth_hz p) \<le> unat (freq_end_hz r) - unat (freq_start_hz r)"
proof -
  have pos: "0 < unat (bandwidth_hz p) div 2" by (cases p) simp_all
  have nz: "bandwidth_hz p \<noteq> 0" by (cases p) simp_all
  show ?thesis
  proof (cases "num_channels r (bandwidth_hz p) = 0")
    case True
    then show ?thesis using pos nz
      by (auto simp: preset_frequency_hz_def preset_config_def frequency_no_channel num_channels_0_iff)
  next
    case False
    with unat_frequency_hz(1) [OF False, of "default_channel_index r p"] nz show ?thesis
      by (auto simp: preset_frequency_hz_def preset_config_def num_channels_0_iff)
  qed
qed

lemma eu868_shortturbo_out_of_band:
  "preset_frequency_hz ShortTurbo Eu868 (default_channel_index Eu868 ShortTurbo) = freq_start_hz Eu868"
  by (simp add: preset_frequency_hz_def preset_config_def frequency_hz_def num_channels_def band_hz_def)

lemma eu433_longfast_default:
  "preset_frequency_hz LongFast Eu433 (default_channel_index Eu433 LongFast) = 433875000"
  by (simp add: preset_frequency_hz_def preset_config_def frequency_hz_def num_channels_def band_hz_def
    default_channel_index_def djb2_def ascii_def Let_def)

section \<open>Bandwidth codes\<close>

lemma unat_code_times_1000: "unat (ucast (c :: u16) * 1000 :: u32) = unat c * 1000"
  using unat_u16_less [of c] by (simp add: unat_word_ariths)

text \<open>
  Every wire code survives the conversion to Hz and back, except 1625, which names the same
  bandwidth as the special code 1600 and comes back as 1600.
\<close>
lemma bw_code_roundtrip:
  "bw_hz_to_code (bw_code_to_hz c) = (if c = 1625 then 1600 else c)"
proof (cases "c \<in> {31, 62, 200, 400, 800, 1600}")
  case True
  then show ?thesis by (auto simp: bw_hz_to_code_def bw_code_to_hz_def)
next
  case False
  let ?h = "ucast c * 1000 :: u32"
  have h: "bw_code_to_hz c = ?h" using False by (simp add: bw_code_to_hz_def)
  have ne: "?h \<noteq> 31250" "?h \<noteq> 62500" "?h \<noteq> 203125" "?h \<noteq> 406250" "?h \<noteq> 812500"
    by (auto dest!: arg_cong [where f = unat] simp: unat_code_times_1000) presburger+
  have eq: "?h = 1625000 \<longleftrightarrow> c = 1625"
    by (auto dest!: arg_cong [where f = unat] simp: unat_code_times_1000 word_unat_eq_iff)
  have "ucast (?h div 1000) = c"
    by (rule word_unat_eq_iff [THEN iffD2]) (simp add: unsigned_ucast_eq unat_div unat_code_times_1000 take_bit_nat_eq_self unat_u16_less)
  with h ne eq show ?thesis by (simp add: bw_hz_to_code_def)
qed

end
