(* ===== verification/Codec.thy ===== *)
theory Codec
  imports Mesh_Prelude
begin

text \<open>
  The contract every fixed-layout record of the firmware is held to: an encoder that produces a
  fixed number of bytes and a decoder that recovers every well-formed value.  The radio header,
  the ring-buffer header, the keypair blob and the configuration blob interpret \<open>blob_codec\<close>;
  \<open>prefix_codec\<close> adds that the decoder reads a prefix only, as callers hand it a longer buffer.
\<close>

locale blob_codec =
  fixes enc :: "'a \<Rightarrow> bytes"
    and dec :: "bytes \<Rightarrow> 'a option"
    and size :: nat
    and wf :: "'a \<Rightarrow> bool"
  assumes enc_length: "wf x \<Longrightarrow> length (enc x) = size"
    and dec_enc: "wf x \<Longrightarrow> dec (enc x) = Some x"
begin

lemma enc_inj: "\<lbrakk>wf x; wf y; enc x = enc y\<rbrakk> \<Longrightarrow> x = y"
  by (metis dec_enc option.inject)

text \<open>A blob written into a flash image at some offset is read back from there.\<close>

lemma read_back:
  assumes "wf x" and "off + size \<le> length img"
  shows "dec (slice off (off + size) (write_at off (enc x) img)) = Some x"
  using assms by (simp add: enc_length dec_enc)

text \<open>Writes to a disjoint range do not disturb it.\<close>

lemma read_back_frame:
  assumes "dec (slice off (off + size) img) = Some x"
    and "off' + length bs \<le> length img" and "off + size \<le> length img"
    and "off + size \<le> off' \<or> off' + length bs \<le> off"
  shows "dec (slice off (off + size) (write_at off' bs img)) = Some x"
  using assms by (simp add: slice_write_other)

end

locale prefix_codec = blob_codec +
  assumes dec_prefix: "size \<le> length b \<Longrightarrow> dec b = dec (take size b)"
    and dec_short: "length b < size \<Longrightarrow> dec b = None"
begin

lemma dec_enc_append: "wf x \<Longrightarrow> dec (enc x @ rest) = Some x"
  using dec_prefix [of "enc x @ rest"] by (simp add: enc_length dec_enc)

lemma dec_write_0: "\<lbrakk>wf x; size \<le> length b\<rbrakk> \<Longrightarrow> dec (write_at 0 (enc x) b) = Some x"
  by (simp add: write_at_def dec_enc_append)

lemma enc_prefix_free:
  assumes "wf x" "wf y" "enc x @ r = enc y @ s"
  shows "x = y \<and> r = s"
proof -
  have "length (enc x) = length (enc y)" using assms by (simp add: enc_length)
  with assms(3) have "enc x = enc y" and "r = s" by (metis append_eq_append_conv)+
  with assms show ?thesis by (blast intro: enc_inj)
qed

end

end
