(* ===== verification/Packet.thy ===== *)
theory Packet
  imports Mesh_Constants Codec
begin

text \<open>
  \<open>domain/packet.rs\<close>: the 16-byte over-the-air header with its packed flags byte, and the radio
  frame (a 255-byte buffer with a length).  Slices that would panic in Rust are guarded by the
  frame invariant \<open>frame_ok\<close>, which every constructor establishes.
\<close>

definition HEADER_SIZE :: nat where [const_defs]: "HEADER_SIZE = 16"
definition BROADCAST_ADDR :: u32 where [const_defs]: "BROADCAST_ADDR = 0xFFFFFFFF"
definition FLAGS_HOP_LIMIT_SHIFT :: nat where [const_defs]: "FLAGS_HOP_LIMIT_SHIFT = 0"
definition FLAGS_HOP_LIMIT_MASK :: u8 where [const_defs]: "FLAGS_HOP_LIMIT_MASK = 0x07"
definition FLAGS_HOP_LIMIT_CLEAR :: u8 where [const_defs]: "FLAGS_HOP_LIMIT_CLEAR = 0b11111000"
definition FLAGS_WANT_ACK_BIT :: u8 where [const_defs]: "FLAGS_WANT_ACK_BIT = 0x08"
definition FLAGS_VIA_MQTT_BIT :: u8 where [const_defs]: "FLAGS_VIA_MQTT_BIT = 0x10"
definition FLAGS_HOP_START_SHIFT :: nat where [const_defs]: "FLAGS_HOP_START_SHIFT = 5"
definition FLAGS_HOP_START_MASK :: u8 where [const_defs]: "FLAGS_HOP_START_MASK = 0x07"

section \<open>Header\<close>

record packet_header =
  h_destination :: u32
  h_sender :: u32
  h_packet_id :: u32
  h_flags :: u8
  h_channel_index :: u8
  h_next_hop :: u8
  h_relay_node :: u8

definition hop_limit :: "packet_header \<Rightarrow> u8" where
  "hop_limit h = drop_bit FLAGS_HOP_LIMIT_SHIFT (h_flags h) AND FLAGS_HOP_LIMIT_MASK"

definition hop_start :: "packet_header \<Rightarrow> u8" where
  "hop_start h = drop_bit FLAGS_HOP_START_SHIFT (h_flags h) AND FLAGS_HOP_START_MASK"

definition want_ack :: "packet_header \<Rightarrow> bool" where
  "want_ack h \<longleftrightarrow> h_flags h AND FLAGS_WANT_ACK_BIT \<noteq> 0"

definition via_mqtt :: "packet_header \<Rightarrow> bool" where
  "via_mqtt h \<longleftrightarrow> h_flags h AND FLAGS_VIA_MQTT_BIT \<noteq> 0"

definition set_hop_limit :: "u8 \<Rightarrow> packet_header \<Rightarrow> packet_header" where
  "set_hop_limit limit h = h\<lparr>h_flags := (h_flags h AND FLAGS_HOP_LIMIT_CLEAR)
     OR push_bit FLAGS_HOP_LIMIT_SHIFT (limit AND FLAGS_HOP_LIMIT_MASK)\<rparr>"

definition make_flags :: "bool \<Rightarrow> bool \<Rightarrow> u8 \<Rightarrow> u8 \<Rightarrow> u8" where
  "make_flags ack mqtt limit start =
     (let f = (0 :: u8);
          f = (if ack then f OR FLAGS_WANT_ACK_BIT else f);
          f = (if mqtt then f OR FLAGS_VIA_MQTT_BIT else f);
          f = f OR push_bit FLAGS_HOP_LIMIT_SHIFT (limit AND FLAGS_HOP_LIMIT_MASK)
      in f OR push_bit FLAGS_HOP_START_SHIFT (start AND FLAGS_HOP_START_MASK))"

definition encode :: "packet_header \<Rightarrow> bytes" where
  "encode h = le32 (h_destination h) @ le32 (h_sender h) @ le32 (h_packet_id h)
     @ [h_flags h, h_channel_index h, h_next_hop h, h_relay_node h]"

definition decode :: "bytes \<Rightarrow> packet_header option" where
  "decode buf =
     (if length buf < HEADER_SIZE then None
      else Some \<lparr>h_destination = of_le32 (buf ! 0) (buf ! 1) (buf ! 2) (buf ! 3),
        h_sender = of_le32 (buf ! 4) (buf ! 5) (buf ! 6) (buf ! 7),
        h_packet_id = of_le32 (buf ! 8) (buf ! 9) (buf ! 10) (buf ! 11),
        h_flags = buf ! 12, h_channel_index = buf ! 13,
        h_next_hop = buf ! 14, h_relay_node = buf ! 15\<rparr>)"

definition is_for_us :: "u32 \<Rightarrow> packet_header \<Rightarrow> bool" where
  "is_for_us our_node_num h \<longleftrightarrow> h_destination h = our_node_num \<or> h_destination h = BROADCAST_ADDR"

section \<open>Frame\<close>

record radio_frame =
  fr_data :: bytes
  fr_len :: nat

definition frame_new :: radio_frame where
  "frame_new = \<lparr>fr_data = replicate MAX_LORA_PAYLOAD_LEN 0, fr_len = 0\<rparr>"

definition header :: "radio_frame \<Rightarrow> packet_header option" where
  "header f = (if HEADER_SIZE \<le> fr_len f then decode (fr_data f) else None)"

definition payload :: "radio_frame \<Rightarrow> bytes" where
  "payload f = (if HEADER_SIZE < fr_len f then slice HEADER_SIZE (fr_len f) (fr_data f) else [])"

definition from_parts :: "packet_header \<Rightarrow> bytes \<Rightarrow> radio_frame option" where
  "from_parts h encrypted_payload =
     (let total_len = HEADER_SIZE + length encrypted_payload in
      if MAX_LORA_PAYLOAD_LEN < total_len then None
      else (let frame = frame_new;
                data = write_at 0 (encode h) (fr_data frame);
                data = write_at HEADER_SIZE encrypted_payload data
            in Some (frame\<lparr>fr_data := data, fr_len := total_len\<rparr>)))"

definition from_raw :: "bytes \<Rightarrow> radio_frame option" where
  "from_raw data =
     (if length data < HEADER_SIZE \<or> MAX_LORA_PAYLOAD_LEN < length data then None
      else Some (frame_new\<lparr>fr_data := write_at 0 data (fr_data frame_new), fr_len := length data\<rparr>))"

definition as_bytes :: "radio_frame \<Rightarrow> bytes" where
  "as_bytes f = take (fr_len f) (fr_data f)"

definition with_rewritten_header :: "u8 \<Rightarrow> u8 \<Rightarrow> radio_frame \<Rightarrow> radio_frame" where
  "with_rewritten_header limit relay_node frame =
     (case header frame of
        Some hdr \<Rightarrow>
          (let hdr = set_hop_limit limit hdr;
               hdr = hdr\<lparr>h_relay_node := relay_node\<rparr>
           in frame\<lparr>fr_data := write_at 0 (encode hdr) (fr_data frame)\<rparr>)
      | None \<Rightarrow> frame)"

definition frame_ok :: "radio_frame \<Rightarrow> bool" where
  "frame_ok f \<longleftrightarrow> length (fr_data f) = MAX_LORA_PAYLOAD_LEN \<and> fr_len f \<le> MAX_LORA_PAYLOAD_LEN"

section \<open>Flags byte\<close>

lemmas flag_defs = hop_limit_def hop_start_def want_ack_def via_mqtt_def set_hop_limit_def make_flags_def

lemma and7_take: "w AND 7 = take_bit 3 (w :: u8)"
  by (simp add: take_bit_eq_mask mask_eq_exp_minus_1)

lemma and7_nth: "bit (w AND 7 :: u8) n \<longleftrightarrow> n < 3 \<and> bit w n"
  by (simp add: and7_take bit_take_bit_iff)

lemma and7_le: "w AND 7 \<le> (7 :: u8)"
  by (rule word_and_le1)

lemma and7_idem [simp]: "w AND 7 AND 7 = (w AND 7 :: u8)"
  by (simp add: and.assoc)

lemma and7_small: "w \<le> (7 :: u8) \<Longrightarrow> w AND 7 = w"
  unfolding and7_take
  by (simp add: word_unat_eq_iff unsigned_take_bit_eq take_bit_nat_eq_self word_le_nat_alt)

lemma hop_limit_le_7: "hop_limit h \<le> 7"
  by (simp add: hop_limit_def const_defs and7_le)

lemma hop_start_le_7: "hop_start h \<le> 7"
  by (simp add: hop_start_def const_defs and7_le)

text \<open>The four fields of the flags byte are independent: each reads back what was packed.\<close>

lemma flag_bits [simp]:
  "bit (0x08 :: int) n \<longleftrightarrow> n = 3" "bit (0x10 :: int) n \<longleftrightarrow> n = 4"
  "bit (7 :: int) n \<longleftrightarrow> n < 3" "bit (248 :: int) n \<longleftrightarrow> 3 \<le> n \<and> n < 8"
  "bit (224 :: int) n \<longleftrightarrow> 5 \<le> n \<and> n < 8"
proof -
  have "(7 :: int) = mask 3" "(248 :: int) = push_bit 3 (mask 5)" "(224 :: int) = push_bit 5 (mask 3)"
    by (simp_all add: mask_eq_exp_minus_1 push_bit_eq_mult)
  then show "bit (7 :: int) n \<longleftrightarrow> n < 3" "bit (248 :: int) n \<longleftrightarrow> 3 \<le> n \<and> n < 8"
    "bit (224 :: int) n \<longleftrightarrow> 5 \<le> n \<and> n < 8"
    by (auto simp only: bit_mask_iff bit_push_bit_iff possible_bit_def) auto
  show "bit (0x08 :: int) n \<longleftrightarrow> n = 3" "bit (0x10 :: int) n \<longleftrightarrow> n = 4"
    using bit_exp_iff [of 3 n, where 'a = int] bit_exp_iff [of 4 n, where 'a = int] by auto
qed

lemma and_pow2_nonzero [simp]:
  "(w AND 0x08 :: u8) = 0 \<longleftrightarrow> \<not> bit w 3" "(w AND 0x10 :: u8) = 0 \<longleftrightarrow> \<not> bit w 4"
  by (auto simp: bit_eq_iff [where 'a = "8 word"] bit_and_iff dest: spec [of _ 3] spec [of _ 4])

lemma bit_make_flags:
  "n < 8 \<Longrightarrow> bit (make_flags ack mqtt limit start) n \<longleftrightarrow>
     (if n = 3 then ack else if n = 4 then mqtt else if n < 3 then bit limit n else bit start (n - 5))"
  by (auto simp: make_flags_def const_defs Let_def bit_simps and7_nth)

lemma make_flags_fields:
  assumes "h_flags h = make_flags ack mqtt limit start"
  shows "want_ack h = ack" "via_mqtt h = mqtt"
    "hop_limit h = limit AND 7" "hop_start h = start AND 7"
  using assms
  by (auto simp: flag_defs(1-4) const_defs and_pow2_nonzero bit_make_flags and7_nth bit_drop_bit_eq
      intro!: bit_word_eqI)

lemma bit_set_hop_limit:
  "n < 8 \<Longrightarrow> bit (h_flags (set_hop_limit limit h)) n \<longleftrightarrow>
     (if n < 3 then bit limit n else bit (h_flags h) n)"
  by (auto simp: set_hop_limit_def const_defs bit_simps and7_nth)

lemma set_hop_limit_fields [simp]:
  "h_destination (set_hop_limit l h) = h_destination h" "h_sender (set_hop_limit l h) = h_sender h"
  "h_packet_id (set_hop_limit l h) = h_packet_id h" "h_next_hop (set_hop_limit l h) = h_next_hop h"
  "h_channel_index (set_hop_limit l h) = h_channel_index h"
  "h_relay_node (set_hop_limit l h) = h_relay_node h"
  by (simp_all add: set_hop_limit_def)

lemma set_hop_limit_flags [simp]:
  "hop_limit (set_hop_limit l h) = l AND 7" "hop_start (set_hop_limit l h) = hop_start h"
  "want_ack (set_hop_limit l h) = want_ack h" "via_mqtt (set_hop_limit l h) = via_mqtt h"
  by (auto simp: flag_defs(1-4) const_defs and_pow2_nonzero bit_set_hop_limit and7_nth bit_drop_bit_eq
      simp del: word_and_le1 intro!: bit_word_eqI)

section \<open>Header codec\<close>

lemma length_encode [simp, mesh_len]: "length (encode h) = HEADER_SIZE"
  by (simp add: encode_def HEADER_SIZE_def)

lemma decode_encode: "decode (encode h) = Some h"
  using of_le32_le32 [of "h_destination h"] of_le32_le32 [of "h_sender h"]
    of_le32_le32 [of "h_packet_id h"]
  by (simp add: decode_def HEADER_SIZE_def) (simp add: encode_def nth_append)

lemma decode_prefix: "HEADER_SIZE \<le> length b \<Longrightarrow> decode b = decode (take HEADER_SIZE b)"
  by (simp add: decode_def HEADER_SIZE_def)

interpretation hdr: prefix_codec encode decode HEADER_SIZE "\<lambda>_. True"
proof unfold_locales
  fix b :: bytes
  assume "HEADER_SIZE \<le> length b"
  then show "decode b = decode (take HEADER_SIZE b)" by (rule decode_prefix)
qed (simp_all add: decode_encode, simp add: decode_def)

lemma take_16: "16 \<le> length b \<Longrightarrow> take 16 b = [b ! 0, b ! 1, b ! 2, b ! 3, b ! 4, b ! 5, b ! 6, b ! 7,
    b ! 8, b ! 9, b ! 10, b ! 11, b ! 12, b ! 13, b ! 14, b ! 15]"
  by (simp add: eval_nat_numeral take_Suc_conv_app_nth) (cases b, auto)

lemma encode_decode: "decode b = Some h \<Longrightarrow> encode h = take HEADER_SIZE b"
  by (auto simp: decode_def encode_def HEADER_SIZE_def take_16 split: if_splits)

section \<open>Frames\<close>

lemma frame_new_ok [simp]: "frame_ok frame_new"
  by (simp add: frame_ok_def frame_new_def)

lemma from_parts_SomeD:
  assumes "from_parts h p = Some f"
  shows "frame_ok f \<and> header f = Some h \<and> payload f = p \<and> as_bytes f = encode h @ p
    \<and> fr_len f = HEADER_SIZE + length p"
proof -
  let ?d = "write_at HEADER_SIZE p (write_at 0 (encode h) (replicate MAX_LORA_PAYLOAD_LEN 0))"
  from assms have le: "HEADER_SIZE + length p \<le> MAX_LORA_PAYLOAD_LEN"
    and f: "f = \<lparr>fr_data = ?d, fr_len = HEADER_SIZE + length p\<rparr>"
    by (auto simp: from_parts_def frame_new_def Let_def split: if_splits)
  have d: "?d = encode h @ p @ replicate (MAX_LORA_PAYLOAD_LEN - HEADER_SIZE - length p) 0"
    using le by (simp add: write_at_def)
  show ?thesis
    using le hdr.dec_enc_append [of h] unfolding f d
    by (auto simp: frame_ok_def header_def payload_def as_bytes_def slice_def)
qed

lemma from_parts_None: "from_parts h p = None \<longleftrightarrow> MAX_LORA_PAYLOAD_LEN < HEADER_SIZE + length p"
  by (simp add: from_parts_def Let_def)

lemma from_raw_SomeD:
  "from_raw d = Some f \<Longrightarrow> frame_ok f \<and> as_bytes f = d \<and> header f = decode d \<and> header f \<noteq> None
    \<and> fr_len f = length d \<and> payload f = drop HEADER_SIZE d"
  by (auto simp: from_raw_def frame_new_def frame_ok_def as_bytes_def header_def payload_def
      write_at_def slice_def decode_def HEADER_SIZE_def nth_append split: if_splits)

lemma with_rewritten_header_ok:
  assumes "frame_ok f"
  shows "frame_ok (with_rewritten_header l r f)"
    and "fr_len (with_rewritten_header l r f) = fr_len f"
    and "payload (with_rewritten_header l r f) = payload f"
proof -
  have len: "HEADER_SIZE \<le> length (fr_data f)"
    using assms by (simp add: frame_ok_def const_defs)
  show ok: "frame_ok (with_rewritten_header l r f)"
    and l: "fr_len (with_rewritten_header l r f) = fr_len f"
    using assms len by (auto simp: with_rewritten_header_def frame_ok_def Let_def split: option.split)
  show "payload (with_rewritten_header l r f) = payload f"
    using assms len
    by (auto simp: with_rewritten_header_def payload_def frame_ok_def Let_def slice_write_other
        split: option.split)
qed

lemma header_rewritten:
  assumes "frame_ok f" "header f = Some h"
  shows "header (with_rewritten_header l r f) = Some ((set_hop_limit l h)\<lparr>h_relay_node := r\<rparr>)"
proof -
  have "HEADER_SIZE \<le> length (fr_data f)" "HEADER_SIZE \<le> fr_len f"
    using assms by (auto simp: frame_ok_def header_def const_defs split: if_splits)
  then show ?thesis
    using assms by (simp add: with_rewritten_header_def Let_def header_def hdr.dec_write_0)
qed

section \<open>Properties\<close>

text \<open>The four fields packed by \<open>make_flags\<close> are read back independently (a hop count above
  seven is truncated to its low three bits), and \<open>set_hop_limit\<close> changes the hop limit alone:
  the want-ack bit, the MQTT bit and the original hop count survive every relay.\<close>
lemma flags_independent:
  "want_ack (h\<lparr>h_flags := make_flags ack mqtt limit start\<rparr>) = ack
   \<and> via_mqtt (h\<lparr>h_flags := make_flags ack mqtt limit start\<rparr>) = mqtt
   \<and> hop_limit (h\<lparr>h_flags := make_flags ack mqtt limit start\<rparr>) = limit AND 7
   \<and> hop_start (h\<lparr>h_flags := make_flags ack mqtt limit start\<rparr>) = start AND 7
   \<and> hop_limit (set_hop_limit l h) = l AND 7 \<and> hop_start (set_hop_limit l h) = hop_start h
   \<and> want_ack (set_hop_limit l h) = want_ack h \<and> via_mqtt (set_hop_limit l h) = via_mqtt h"
  using make_flags_fields [of "h\<lparr>h_flags := make_flags ack mqtt limit start\<rparr>"] by simp

lemma from_raw_as_bytes:
  assumes "from_parts h p = Some f"
  shows "from_raw (as_bytes f) = Some f"
proof -
  let ?n = "MAX_LORA_PAYLOAD_LEN - HEADER_SIZE - length p"
  have le: "HEADER_SIZE + length p \<le> MAX_LORA_PAYLOAD_LEN"
    using assms by (auto simp: from_parts_def Let_def split: if_splits)
  have "f = \<lparr>fr_data = encode h @ p @ replicate ?n 0, fr_len = HEADER_SIZE + length p\<rparr>"
    using assms le by (auto simp: from_parts_def frame_new_def Let_def write_at_def split: if_splits)
  then show ?thesis
    using le by (simp add: from_raw_def frame_new_def as_bytes_def write_at_def)
qed

text \<open>A frame built from a header and a payload arrives intact: the receiver that parses the
  transmitted bytes rebuilds exactly that frame, reads back the header and the payload, and
  exactly the payloads that fit the 255-byte radio buffer can be framed.\<close>
lemma frame_roundtrip:
  "(from_parts h p = None \<longleftrightarrow> MAX_LORA_PAYLOAD_LEN < HEADER_SIZE + length p)
   \<and> (\<forall>f. from_parts h p = Some f \<longrightarrow> from_raw (as_bytes f) = Some f \<and> header f = Some h
        \<and> payload f = p \<and> length (as_bytes f) = HEADER_SIZE + length p)"
  using from_parts_SomeD [of h p] from_raw_as_bytes [of h p]
  by (auto simp: from_parts_None)

definition sample_header :: packet_header where
  "sample_header = \<lparr>h_destination = 7, h_sender = 9, h_packet_id = 0x01020304, h_flags = 0x63,
     h_channel_index = 8, h_next_hop = 0, h_relay_node = 9\<rparr>"

text \<open>Rewriting a frame for a relay keeps it well formed and changes nothing but the hop limit
  and the relay byte: the encrypted payload, the length and every other header field (the packet
  id and sender the nonce is built from among them) are those of the received frame.\<close>
lemma relay_rewrite_frame:
  assumes "frame_ok f" and "header f = Some h"
  shows "header (with_rewritten_header l r f) = Some ((set_hop_limit l h)\<lparr>h_relay_node := r\<rparr>)
    \<and> payload (with_rewritten_header l r f) = payload f
    \<and> frame_ok (with_rewritten_header l r f) \<and> fr_len (with_rewritten_header l r f) = fr_len f"
  using assms by (simp add: header_rewritten with_rewritten_header_ok)

end
