(* ===== verification/Proto.thy ===== *)
theory Proto
  imports Mesh_Prelude Complex_Main
begin

text \<open>
  What the code relies on of the generated protobuf types: the enumerations it names, at the
  numbers the repository documents, and the messages it stores, as records of the fields it reads
  or writes; \<open>*_rest\<close> stands for the wire content of every other field (empty in a default
  message).  Also \<open>core::str::from_utf8\<close>: strings are their UTF-8 bytes.
\<close>

section \<open>UTF-8\<close>

definition utf8_cont :: "u8 \<Rightarrow> bool" where
  "utf8_cont b \<longleftrightarrow> 0x80 \<le> b \<and> b \<le> 0xBF"

fun utf8_valid :: "bytes \<Rightarrow> bool" where
  "utf8_valid [] = True"
| "utf8_valid [a] = (a < 0x80)"
| "utf8_valid [a, b] =
     (if a < 0x80 then utf8_valid [b] else 0xC2 \<le> a \<and> a \<le> 0xDF \<and> utf8_cont b)"
| "utf8_valid [a, b, c] =
     (if a < 0x80 then utf8_valid [b, c]
      else if 0xC2 \<le> a \<and> a \<le> 0xDF then utf8_cont b \<and> utf8_valid [c]
      else (a = 0xE0 \<and> 0xA0 \<le> b \<and> b \<le> 0xBF \<or> 0xE1 \<le> a \<and> a \<le> 0xEC \<and> utf8_cont b
            \<or> a = 0xED \<and> 0x80 \<le> b \<and> b \<le> 0x9F \<or> 0xEE \<le> a \<and> a \<le> 0xEF \<and> utf8_cont b)
           \<and> utf8_cont c)"
| "utf8_valid (a # b # c # d # bs) =
     (if a < 0x80 then utf8_valid (b # c # d # bs)
      else if 0xC2 \<le> a \<and> a \<le> 0xDF then utf8_cont b \<and> utf8_valid (c # d # bs)
      else if 0xE0 \<le> a \<and> a \<le> 0xEF then
        (a = 0xE0 \<and> 0xA0 \<le> b \<and> b \<le> 0xBF \<or> 0xE1 \<le> a \<and> a \<le> 0xEC \<and> utf8_cont b
         \<or> a = 0xED \<and> 0x80 \<le> b \<and> b \<le> 0x9F \<or> 0xEE \<le> a \<and> a \<le> 0xEF \<and> utf8_cont b)
        \<and> utf8_cont c \<and> utf8_valid (d # bs)
      else (a = 0xF0 \<and> 0x90 \<le> b \<and> b \<le> 0xBF \<or> 0xF1 \<le> a \<and> a \<le> 0xF3 \<and> utf8_cont b
            \<or> a = 0xF4 \<and> 0x80 \<le> b \<and> b \<le> 0x8F)
           \<and> utf8_cont c \<and> utf8_cont d \<and> utf8_valid bs)"

definition from_utf8 :: "bytes \<Rightarrow> bytes option" where
  "from_utf8 bs = (if utf8_valid bs then Some bs else None)"

lemma utf8_valid_ascii: "\<forall>b \<in> set bs. b < 0x80 \<Longrightarrow> utf8_valid bs"
  by (induction bs rule: utf8_valid.induct) simp_all

section \<open>Enumerations\<close>

type_synonym i8 = "8 word"
type_synonym i32 = "32 word"

datatype device_role = Client | ClientMute | Router | RouterClient | Repeater | Tracker | Sensor
  | Tak | ClientHidden | LostAndFound | TakTracker | RouterLate | ClientBase

definition role_table :: "device_role list" where
  "role_table = [Client, ClientMute, Router, RouterClient, Repeater, Tracker, Sensor,
     Tak, ClientHidden, LostAndFound, TakTracker, RouterLate, ClientBase]"

definition role_try_from :: "i32 \<Rightarrow> device_role option" where
  "role_try_from n = (if unat n < length role_table then Some (role_table ! unat n) else None)"

fun role_num :: "device_role \<Rightarrow> i32" where
  "role_num Client = 0" | "role_num ClientMute = 1" | "role_num Router = 2"
| "role_num RouterClient = 3" | "role_num Repeater = 4" | "role_num Tracker = 5"
| "role_num Sensor = 6" | "role_num Tak = 7" | "role_num ClientHidden = 8"
| "role_num LostAndFound = 9" | "role_num TakTracker = 10" | "role_num RouterLate = 11"
| "role_num ClientBase = 12"

lemma role_try_from_num [simp]: "role_try_from (role_num r) = Some r"
  by (cases r) (simp_all add: role_try_from_def role_table_def)

lemma role_num_inj: "role_num r = role_num s \<Longrightarrow> r = s"
  by (metis role_try_from_num option.inject)

text \<open>Port numbers, as \<open>i32\<close> values on the wire.\<close>

definition TEXT_MESSAGE_APP :: i32 where "TEXT_MESSAGE_APP = 1"
definition REMOTE_HARDWARE_APP :: i32 where "REMOTE_HARDWARE_APP = 2"
definition POSITION_APP :: i32 where "POSITION_APP = 3"
definition NODEINFO_APP :: i32 where "NODEINFO_APP = 4"
definition ROUTING_APP :: i32 where "ROUTING_APP = 5"
definition ADMIN_APP :: i32 where "ADMIN_APP = 6"
definition TEXT_MESSAGE_COMPRESSED_APP :: i32 where "TEXT_MESSAGE_COMPRESSED_APP = 7"
definition WAYPOINT_APP :: i32 where "WAYPOINT_APP = 8"
definition TELEMETRY_APP :: i32 where "TELEMETRY_APP = 67"
definition TRACEROUTE_APP :: i32 where "TRACEROUTE_APP = 70"
definition NEIGHBORINFO_APP :: i32 where "NEIGHBORINFO_APP = 71"

lemmas portnum_defs = TEXT_MESSAGE_APP_def REMOTE_HARDWARE_APP_def POSITION_APP_def
  NODEINFO_APP_def ROUTING_APP_def ADMIN_APP_def TEXT_MESSAGE_COMPRESSED_APP_def WAYPOINT_APP_def
  TELEMETRY_APP_def TRACEROUTE_APP_def NEIGHBORINFO_APP_def

section \<open>Messages kept in the node database\<close>

record user =
  u_id :: bytes
  u_long_name :: bytes
  u_short_name :: bytes
  u_macaddr :: bytes
  u_hw_model :: i32
  u_role :: i32
  u_public_key :: bytes
  u_rest :: bytes

definition user_default :: user where
  "user_default = \<lparr>u_id = [], u_long_name = [], u_short_name = [], u_macaddr = [], u_hw_model = 0, u_role = 0,
     u_public_key = [], u_rest = []\<rparr>"

record position_msg =
  pos_time :: u32
  pos_rest :: bytes

record device_metrics =
  dm_battery_level :: "u32 option"
  dm_voltage :: "rat option"
  dm_channel_utilization :: "rat option"
  dm_air_util_tx :: "rat option"
  dm_uptime_seconds :: "u32 option"

section \<open>The \<open>Data\<close> wrapper of every application payload\<close>

record data_msg =
  d_portnum :: i32
  d_payload :: bytes
  d_want_response :: bool
  d_request_id :: u32
  d_reply_id :: u32
  d_emoji :: u32
  d_bitfield :: "u32 option"
  d_rest :: bytes

definition data_default :: data_msg where
  "data_default = \<lparr>d_portnum = 0, d_payload = [], d_want_response = False, d_request_id = 0,
     d_reply_id = 0, d_emoji = 0, d_bitfield = None, d_rest = []\<rparr>"

end
