(* ===== verification/Node_Map.thy ===== *)
theory Node_Map
  imports Mesh_Prelude
begin

text \<open>
  The interface the routing layer and the handlers use of the node table: look an entry up by
  node number, change the entry of a number in place, and make sure an entry exists.
  \<open>Node_DB\<close> provides it; the laws are the promises the clients' proofs rest on.
\<close>

locale node_map =
  fixes lookup :: "u32 \<Rightarrow> 'db \<Rightarrow> 'e option"
    and update :: "u32 \<Rightarrow> ('e \<Rightarrow> 'e) \<Rightarrow> 'db \<Rightarrow> 'db"
    and ensure :: "u32 \<Rightarrow> 'db \<Rightarrow> 'db \<times> bool"
    and key :: "'e \<Rightarrow> u32"
    and inv :: "'db \<Rightarrow> bool"
  assumes lookup_key: "lookup k db = Some e \<Longrightarrow> key e = k"
    and lookup_update: "\<forall>e. key (f e) = key e \<Longrightarrow>
      lookup k (update j f db) = (if k = j then map_option f (lookup k db) else lookup k db)"
    and lookup_ensure: "lookup k db = Some e \<Longrightarrow> lookup k (fst (ensure j db)) = Some e"
    and ensure_present: "inv db \<Longrightarrow> snd (ensure j db) \<longleftrightarrow> lookup j (fst (ensure j db)) \<noteq> None"
    and ensure_other: "k \<noteq> j \<Longrightarrow> lookup k (fst (ensure j db)) = lookup k db"
    and inv_update: "\<lbrakk>inv db; \<forall>e. key (f e) = key e\<rbrakk> \<Longrightarrow> inv (update j f db)"
    and inv_ensure: "inv db \<Longrightarrow> inv (fst (ensure j db))"
begin

definition put :: "u32 \<Rightarrow> ('e \<Rightarrow> 'e) \<Rightarrow> 'db \<Rightarrow> 'db" where
  "put j f db = (case ensure j db of (db', ok) \<Rightarrow> if ok then update j f db' else db')"

lemma put_other: "\<lbrakk>\<forall>e. key (f e) = key e; k \<noteq> j\<rbrakk> \<Longrightarrow> lookup k (put j f db) = lookup k db"
  using ensure_other [of k j db] by (auto simp: put_def lookup_update split: prod.split)

lemma put_same:
  assumes "inv db" and "\<forall>e. key (f e) = key e" and "snd (ensure j db)"
  shows "\<exists>e. lookup j (fst (ensure j db)) = Some e \<and> lookup j (put j f db) = Some (f e)"
  using assms ensure_present [of db j] by (auto simp: put_def lookup_update split: prod.split)

lemma put_existing:
  assumes "inv db" and "\<forall>e. key (f e) = key e" and "lookup j db = Some e"
  shows "lookup j (put j f db) = Some (f e)"
  using assms ensure_present [of db j] lookup_ensure [of j db e j]
  by (auto simp: put_def lookup_update split: prod.split)

lemma inv_put: "\<lbrakk>inv db; \<forall>e. key (f e) = key e\<rbrakk> \<Longrightarrow> inv (put j f db)"
  using inv_ensure [of db j] by (auto simp: put_def inv_update split: prod.split)

lemma update_other_commute:
  assumes "\<forall>e. key (f e) = key e" "\<forall>e. key (g e) = key e" "i \<noteq> j"
  shows "lookup k (update i f (update j g db)) = lookup k (update j g (update i f db))"
  using assms by (simp add: lookup_update)

end

end
