(* ===== verification/Node_DB.thy ===== *)
theory Node_DB
  imports Packet Proto Node_Map
begin

text \<open>
  \<open>domain/node_db.rs\<close>: the table of known nodes (at most \<open>MAX_NODES\<close> entries, at most one per
  node number, never a reserved number) and its 96-byte-per-record flash snapshot.  A mutable
  reference returned by \<open>get_mut\<close> or \<open>get_or_create\<close> is an index into the entry list;
  writing through it is \<open>modify_at\<close>.
\<close>

record node_entry =
  n_num :: u32
  n_user :: "user option"
  n_position :: "position_msg option"
  n_last_heard :: u32
  n_snr :: "i8 option"
  n_hops_away :: "u8 option"
  n_device_metrics :: "device_metrics option"
  n_next_hop :: u8
  n_last_seen_ms :: u64
  n_pub_key :: "bytes option"
  n_is_favorite :: bool
  n_is_ignored :: bool
  n_is_muted :: bool

record node_db =
  db_nodes :: "node_entry list"
  db_our :: u32
  db_dirty :: bool

definition node_db_new :: "u32 \<Rightarrow> node_db" where
  "node_db_new our_node_num = \<lparr>db_nodes = [], db_our = our_node_num, db_dirty = False\<rparr>"

definition mark_clean :: "node_db \<Rightarrow> node_db" where
  "mark_clean db = db\<lparr>db_dirty := False\<rparr>"

definition mark_dirty :: "node_db \<Rightarrow> node_db" where
  "mark_dirty db = db\<lparr>db_dirty := True\<rparr>"

definition sat_sub :: "'a::len word \<Rightarrow> 'a word \<Rightarrow> 'a word" where
  "sat_sub a b = (if b \<le> a then a - b else 0)"

definition fresh_enough :: "u32 \<Rightarrow> u32 \<Rightarrow> u32 \<Rightarrow> node_entry \<Rightarrow> bool" where
  "fresh_enough our now_secs max_age_secs n \<longleftrightarrow>
     n_num n = our \<or> n_last_heard n = 0 \<or> sat_sub now_secs (n_last_heard n) \<le> max_age_secs"

definition prune_stale :: "u32 \<Rightarrow> u32 \<Rightarrow> node_db \<Rightarrow> node_db \<times> nat" where
  "prune_stale now_secs max_age_secs db =
     (let before = length (db_nodes db);
          kept = filter (fresh_enough (db_our db) now_secs max_age_secs) (db_nodes db)
      in (db\<lparr>db_nodes := kept\<rparr>, before - length kept))"

definition node_stub :: "u32 \<Rightarrow> node_entry" where
  "node_stub num = \<lparr>n_num = num, n_user = None, n_position = None, n_last_heard = 0, n_snr = None,
     n_hops_away = None, n_device_metrics = None, n_next_hop = 0, n_last_seen_ms = 0,
     n_pub_key = None, n_is_favorite = False, n_is_ignored = False, n_is_muted = False\<rparr>"

definition get_or_create :: "u32 \<Rightarrow> node_db \<Rightarrow> node_db \<times> nat option" where
  "get_or_create num db =
     (if num = 0 \<or> num = BROADCAST_ADDR then (db, None)
      else case position (\<lambda>n. n_num n = num) (db_nodes db) of
             Some idx \<Rightarrow> (db, Some idx)
           | None \<Rightarrow>
               (case vec_push MAX_NODES (db_nodes db) (node_stub num) of
                  Some ns \<Rightarrow> (db\<lparr>db_nodes := ns, db_dirty := True\<rparr>, Some (length ns - 1))
                | None \<Rightarrow> (db, None)))"

definition modify_at :: "nat \<Rightarrow> (node_entry \<Rightarrow> node_entry) \<Rightarrow> node_db \<Rightarrow> node_db" where
  "modify_at idx f db = db\<lparr>db_nodes := (db_nodes db)[idx := f (db_nodes db ! idx)]\<rparr>"

definition update_user :: "u32 \<Rightarrow> user \<Rightarrow> node_db \<Rightarrow> node_db" where
  "update_user num usr db =
     (case get_or_create num db of
        (db, Some idx) \<Rightarrow> mark_dirty (modify_at idx (\<lambda>n. n\<lparr>n_user := Some usr\<rparr>) db)
      | (db, None) \<Rightarrow> db)"

definition update_pub_key :: "u32 \<Rightarrow> bytes \<Rightarrow> node_db \<Rightarrow> node_db" where
  "update_pub_key num key db =
     (case get_or_create num db of
        (db, Some idx) \<Rightarrow> mark_dirty (modify_at idx (\<lambda>n. n\<lparr>n_pub_key := Some key\<rparr>) db)
      | (db, None) \<Rightarrow> db)"

definition update_device_metrics :: "u32 \<Rightarrow> device_metrics \<Rightarrow> node_db \<Rightarrow> node_db" where
  "update_device_metrics num metrics db =
     (case get_or_create num db of
        (db, Some idx) \<Rightarrow> modify_at idx (\<lambda>n. n\<lparr>n_device_metrics := Some metrics\<rparr>) db
      | (db, None) \<Rightarrow> db)"

definition update_position :: "u32 \<Rightarrow> position_msg \<Rightarrow> node_db \<Rightarrow> node_db" where
  "update_position num pos db =
     (case get_or_create num db of
        (db, Some idx) \<Rightarrow> modify_at idx (\<lambda>n. n\<lparr>n_position := Some pos\<rparr>) db
      | (db, None) \<Rightarrow> db)"

definition get_mut :: "u32 \<Rightarrow> node_db \<Rightarrow> nat option" where
  "get_mut num db = position (\<lambda>n. n_num n = num) (db_nodes db)"

definition get :: "u32 \<Rightarrow> node_db \<Rightarrow> node_entry option" where
  "get num db = find (\<lambda>n. n_num n = num) (db_nodes db)"

text \<open>\<open>if let Some(node) = self.get_mut(num) { f(node) }\<close>.\<close>

definition with_node :: "u32 \<Rightarrow> (node_entry \<Rightarrow> node_entry) \<Rightarrow> node_db \<Rightarrow> node_db" where
  "with_node num f db = (case get_mut num db of Some idx \<Rightarrow> modify_at idx f db | None \<Rightarrow> db)"

definition set_favorite :: "u32 \<Rightarrow> bool \<Rightarrow> node_db \<Rightarrow> node_db" where
  "set_favorite num favorite db =
     (case get_mut num db of
        Some idx \<Rightarrow> mark_dirty (modify_at idx (\<lambda>n. n\<lparr>n_is_favorite := favorite\<rparr>) db)
      | None \<Rightarrow> db)"

definition ignore_entry :: "bool \<Rightarrow> node_entry \<Rightarrow> node_entry" where
  "ignore_entry ignored n =
     (let n = n\<lparr>n_is_ignored := ignored\<rparr>
      in if ignored then n\<lparr>n_position := None, n_pub_key := None\<rparr> else n)"

definition set_ignored :: "u32 \<Rightarrow> bool \<Rightarrow> node_db \<Rightarrow> node_db" where
  "set_ignored num ignored db =
     (case get_mut num db of
        Some idx \<Rightarrow> mark_dirty (modify_at idx (ignore_entry ignored) db)
      | None \<Rightarrow> db)"

definition toggle_muted :: "u32 \<Rightarrow> node_db \<Rightarrow> node_db" where
  "toggle_muted num db =
     (case get_mut num db of
        Some idx \<Rightarrow> mark_dirty (modify_at idx (\<lambda>n. n\<lparr>n_is_muted := \<not> n_is_muted n\<rparr>) db)
      | None \<Rightarrow> db)"

definition has_pub_key :: "node_db \<Rightarrow> u32 \<Rightarrow> bool" where
  "has_pub_key db num \<longleftrightarrow> Option.bind (get num db) n_pub_key \<noteq> None"

definition remove_node :: "u32 \<Rightarrow> node_db \<Rightarrow> node_db \<times> bool" where
  "remove_node num db =
     (case position (\<lambda>n. n_num n = num) (db_nodes db) of
        Some idx \<Rightarrow> (db\<lparr>db_nodes := swap_remove idx (db_nodes db), db_dirty := True\<rparr>, True)
      | None \<Rightarrow> (db, False))"

definition STALE_AGE_SECS :: u32 where [const_defs]: "STALE_AGE_SECS = 2 * 60 * 60"

definition heard_entry :: "u32 \<Rightarrow> i8 option \<Rightarrow> u64 \<Rightarrow> node_entry \<Rightarrow> node_entry" where
  "heard_entry time snr now_ms n =
     (let n = n\<lparr>n_last_heard := time\<rparr>;
          n = (if snr \<noteq> None then n\<lparr>n_snr := snr\<rparr> else n)
      in n\<lparr>n_last_seen_ms := now_ms\<rparr>)"

definition touch :: "u32 \<Rightarrow> u32 \<Rightarrow> i8 option \<Rightarrow> u64 \<Rightarrow> node_db \<Rightarrow> node_db" where
  "touch num time snr now_ms db =
     (let full = length (db_nodes db) = MAX_NODES \<and> (\<forall>n \<in> set (db_nodes db). n_num n \<noteq> num);
          (pruned_db, pruned) = prune_stale time STALE_AGE_SECS db;
          db1 = (if full then pruned_db else db)
      in if full \<and> pruned = 0 then db1
         else case get_or_create num db1 of
           (db2, Some idx) \<Rightarrow> modify_at idx (heard_entry time snr now_ms) db2
         | (db2, None) \<Rightarrow> db2)"

definition online_count :: "u64 \<Rightarrow> u64 \<Rightarrow> node_db \<Rightarrow> nat" where
  "online_count now_ms max_age_ms db =
     length (filter (\<lambda>n. 0 < n_last_seen_ms n \<and> sat_sub now_ms (n_last_seen_ms n) \<le> max_age_ms)
       (db_nodes db))"

section \<open>The table as a node map\<close>

definition db_ok :: "node_db \<Rightarrow> bool" where
  "db_ok db \<longleftrightarrow> distinct (map n_num (db_nodes db)) \<and> length (db_nodes db) \<le> MAX_NODES
     \<and> (\<forall>n \<in> set (db_nodes db). n_num n \<noteq> 0 \<and> n_num n \<noteq> BROADCAST_ADDR)"

definition ensure_node :: "u32 \<Rightarrow> node_db \<Rightarrow> node_db \<times> bool" where
  "ensure_node num db = (case get_or_create num db of (db', r) \<Rightarrow> (db', r \<noteq> None))"

lemma node_db_new_ok [simp]: "db_ok (node_db_new our)"
  by (simp add: db_ok_def node_db_new_def)

lemma dirty_simps [simp]:
  "db_nodes (mark_dirty db) = db_nodes db" "db_our (mark_dirty db) = db_our db"
  "db_nodes (mark_clean db) = db_nodes db" "db_our (mark_clean db) = db_our db"
  "db_ok (mark_dirty db) = db_ok db" "db_ok (mark_clean db) = db_ok db"
  "get k (mark_dirty db) = get k db" "get k (mark_clean db) = get k db"
  by (simp_all add: mark_dirty_def mark_clean_def db_ok_def get_def)

lemma modify_at_position:
  "position p (db_nodes db) = Some i \<Longrightarrow> db_nodes (modify_at i f db) = update_first p f (db_nodes db)"
  by (simp add: modify_at_def update_first_position)

lemma modify_at_our [simp]: "db_our (modify_at i f db) = db_our db" "db_dirty (modify_at i f db) = db_dirty db"
  by (simp_all add: modify_at_def)

lemma db_ok_update_first:
  assumes "db_ok db" "\<And>n. n_num (f n) = n_num n"
  shows "db_ok (db\<lparr>db_nodes := update_first p f (db_nodes db)\<rparr>)"
  using assms set_update_first [of p f "db_nodes db"]
  by (fastforce simp: db_ok_def map_update_first)

lemma db_ok_modify_at:
  "\<lbrakk>db_ok db; position p (db_nodes db) = Some i; \<And>n. n_num (f n) = n_num n\<rbrakk> \<Longrightarrow> db_ok (modify_at i f db)"
  using db_ok_update_first [of db f p] by (simp add: modify_at_def update_first_position)

lemma get_modify_at:
  assumes "position (\<lambda>n. n_num n = j) (db_nodes db) = Some i" "\<And>n. n_num (f n) = n_num n"
  shows "get k (modify_at i f db) = (if k = j then map_option f (get k db) else get k db)"
  using assms(2)
  by (auto simp: get_def modify_at_position [OF assms(1)] find_update_first_same find_update_first_other)

lemma get_position: "get k db = map_option ((!) (db_nodes db)) (get_mut k db)"
  by (simp add: get_def get_mut_def find_position)

text \<open>The three outcomes of \<open>get_or_create\<close>.\<close>

lemma get_or_create_cases:
  obtains (reserved) "num = 0 \<or> num = BROADCAST_ADDR" "get_or_create num db = (db, None)"
  | (found) i where "num \<noteq> 0" "num \<noteq> BROADCAST_ADDR" "get_or_create num db = (db, Some i)"
      "position (\<lambda>n. n_num n = num) (db_nodes db) = Some i"
  | (full) "num \<noteq> 0" "num \<noteq> BROADCAST_ADDR" "get num db = None"
      "get_or_create num db = (db, None)" "MAX_NODES \<le> length (db_nodes db)"
  | (created) "num \<noteq> 0" "num \<noteq> BROADCAST_ADDR" "get num db = None"
      "length (db_nodes db) < MAX_NODES"
      "get_or_create num db = (db\<lparr>db_nodes := db_nodes db @ [node_stub num], db_dirty := True\<rparr>,
         Some (length (db_nodes db)))"
proof (cases "num = 0 \<or> num = BROADCAST_ADDR")
  case True then show thesis by (auto intro: reserved simp: get_or_create_def)
next
  case False
  show thesis
  proof (cases "position (\<lambda>n. n_num n = num) (db_nodes db)")
    case None
    then have "get num db = None" by (simp only: get_def find_position option.map)
    with False None show thesis
      using full created
      by (cases "length (db_nodes db) < MAX_NODES") (auto simp: get_or_create_def vec_push_def simp del: position_None)
  next
    case (Some i)
    with False show thesis by (intro found) (auto simp: get_or_create_def)
  qed
qed

lemma position_append_new:
  "\<lbrakk>\<forall>x \<in> set xs. \<not> p x; p y\<rbrakk> \<Longrightarrow> position p (xs @ [y]) = Some (length xs)"
  by (induction xs) auto

lemma get_None: "get num db = None \<longleftrightarrow> (\<forall>n \<in> set (db_nodes db). n_num n \<noteq> num)"
  by (auto simp: get_def find_None_iff)

lemma get_or_create_SomeD:
  assumes "get_or_create num db = (db', Some i)"
  shows "position (\<lambda>n. n_num n = num) (db_nodes db') = Some i"
  by (rule get_or_create_cases [of num db])
    (use assms in \<open>auto simp: get_None node_stub_def intro!: position_append_new\<close>)

lemma get_or_create_ok: "db_ok db \<Longrightarrow> db_ok (fst (get_or_create num db))"
  by (rule get_or_create_cases [of num db]) (auto simp: db_ok_def get_None node_stub_def)

lemma get_or_create_our [simp]: "db_our (fst (get_or_create num db)) = db_our db"
  by (rule get_or_create_cases [of num db]) auto

lemma get_get_or_create:
  "get k (fst (get_or_create num db)) =
     (case get k db of Some n \<Rightarrow> Some n
      | None \<Rightarrow> if k = num \<and> snd (get_or_create num db) \<noteq> None then Some (node_stub num) else None)"
proof (cases rule: get_or_create_cases [of num db])
  case (found i)
  then have "get num db \<noteq> None" by (simp add: get_def find_position)
  with found show ?thesis by (auto split: option.split)
qed (auto simp: get_def find_append node_stub_def split: option.split)

text \<open>Every update through \<open>get_or_create\<close> or \<open>get_mut\<close> followed by a field write.\<close>

lemma goc_modify:
  assumes "get_or_create num db = (db', Some i)" and f: "\<And>n. n_num (f n) = n_num n"
  shows "get k (modify_at i f db') = (if k = num then map_option f (get k db') else get k db)"
    and "db_ok db \<Longrightarrow> db_ok (modify_at i f db')" and "get num db' \<noteq> None"
proof -
  note pos = get_or_create_SomeD [OF assms(1)]
  have "k \<noteq> num \<Longrightarrow> get k db' = get k db"
    using get_get_or_create [of k num db] assms(1) by (auto split: option.splits)
  then show "get k (modify_at i f db') = (if k = num then map_option f (get k db') else get k db)"
    by (simp add: get_modify_at [OF pos f])
  show "get num db' \<noteq> None" by (simp add: get_def find_position pos)
  show "db_ok db \<Longrightarrow> db_ok (modify_at i f db')"
    using get_or_create_ok [of db num] assms(1) pos f by (auto intro: db_ok_modify_at)
qed

lemma with_node_props:
  assumes "\<And>n. n_num (f n) = n_num n"
  shows "get k (with_node num f db) = (if k = num then map_option f (get k db) else get k db)"
    and "db_ok db \<Longrightarrow> db_ok (with_node num f db)" and "db_our (with_node num f db) = db_our db"
  using assms
  by (auto simp: with_node_def get_mut_def get_None get_modify_at find_None_iff
      split: option.split intro: db_ok_modify_at simp flip: get_None)

interpretation ndb: node_map get with_node ensure_node n_num db_ok
proof unfold_locales
  fix k j db and e :: node_entry and f :: "node_entry \<Rightarrow> node_entry"
  show "get k db = Some e \<Longrightarrow> n_num e = k"
    by (auto simp: get_def find_Some_iff)
  show "\<forall>e. n_num (f e) = n_num e \<Longrightarrow>
      get k (with_node j f db) = (if k = j then map_option f (get k db) else get k db)"
    by (simp add: with_node_props)
  show "get k db = Some e \<Longrightarrow> get k (fst (ensure_node j db)) = Some e"
    using get_get_or_create [of k j db] by (auto simp: ensure_node_def split: prod.splits)
  show "db_ok db \<Longrightarrow> snd (ensure_node j db) \<longleftrightarrow> get j (fst (ensure_node j db)) \<noteq> None"
    by (rule get_or_create_cases [of j db])
      (auto simp: ensure_node_def db_ok_def get_None node_stub_def dest!: position_SomeD)
  show "k \<noteq> j \<Longrightarrow> get k (fst (ensure_node j db)) = get k db"
    using get_get_or_create [of k j db] by (auto simp: ensure_node_def split: prod.splits option.splits)
  show "\<lbrakk>db_ok db; \<forall>e. n_num (f e) = n_num e\<rbrakk> \<Longrightarrow> db_ok (with_node j f db)"
    by (simp add: with_node_props)
  show "db_ok db \<Longrightarrow> db_ok (fst (ensure_node j db))"
    using get_or_create_ok [of db j] by (auto simp: ensure_node_def split: prod.splits)
qed

section \<open>Every operation keeps the table well formed\<close>

lemma filter_ok: "db_ok db \<Longrightarrow> db_ok (db\<lparr>db_nodes := filter p (db_nodes db)\<rparr>)"
  by (auto simp: db_ok_def distinct_map_filter intro: order_trans [OF length_filter_le])

lemma prune_stale_ok: "db_ok db \<Longrightarrow> db_ok (fst (prune_stale now age db))"
  by (simp add: prune_stale_def Let_def filter_ok)

lemma remove_node_ok: "db_ok db \<Longrightarrow> db_ok (fst (remove_node num db))"
proof (cases "position (\<lambda>n. n_num n = num) (db_nodes db)")
  case (Some i)
  assume ok: "db_ok db"
  have i: "i < length (db_nodes db)" using position_SomeD [OF Some] by simp
  with ok show ?thesis
    using set_swap_remove_subset [OF i] Some
    by (auto simp: remove_node_def db_ok_def intro: distinct_map_swap_remove)
qed (simp add: remove_node_def del: position_None)

lemma entry_num [simp]: "n_num (ignore_entry b n) = n_num n" "n_num (heard_entry t s now n) = n_num n"
  by (simp_all add: ignore_entry_def heard_entry_def Let_def)

lemma goc_case_ok:
  assumes "db_ok db" "\<And>n. n_num (f n) = n_num n"
  shows "db_ok (case get_or_create num db of (db, Some i) \<Rightarrow> modify_at i f db | (db, None) \<Rightarrow> db)"
    "db_ok (case get_or_create num db of (db, Some i) \<Rightarrow> mark_dirty (modify_at i f db) | (db, None) \<Rightarrow> db)"
  using goc_modify(2) [of num db _ _ f] get_or_create_ok [of db num] assms
  by (auto split: prod.splits option.splits)

lemma update_ok [simp]:
  assumes "db_ok db"
  shows "db_ok (update_user num usr db)" "db_ok (update_pub_key num key db)"
    "db_ok (update_device_metrics num dm db)" "db_ok (update_position num pos db)"
  using assms
  by (auto simp: update_user_def update_pub_key_def update_device_metrics_def update_position_def
      intro!: goc_case_ok)

lemma set_flag_ok [simp]:
  assumes "db_ok db"
  shows "db_ok (set_favorite num b db)" "db_ok (set_ignored num b db)" "db_ok (toggle_muted num db)"
  using assms
  by (auto simp: set_favorite_def set_ignored_def toggle_muted_def get_mut_def
      split: option.split intro: db_ok_modify_at)

lemma touch_ok [simp]: "db_ok db \<Longrightarrow> db_ok (touch num time snr now db)"
  using prune_stale_ok [of db time STALE_AGE_SECS]
    goc_case_ok(1) [of db "heard_entry time snr now" num]
    goc_case_ok(1) [of "fst (prune_stale time STALE_AGE_SECS db)" "heard_entry time snr now" num]
  by (auto simp: touch_def Let_def split: prod.split)

end
