(* ===== verification/Node_Snapshot.thy ===== *)
theory Node_Snapshot
  imports Node_DB
begin

text \<open>
  The flash snapshot of the node table (\<open>to_snapshot\<close>, \<open>restore_snapshot\<close> and the record codec
  of \<open>domain/node_db.rs\<close>): the \<open>MAX_PERSISTED_NODES\<close> most recently heard entries, 96 bytes each,
  after a 16-byte header.  \<open>sort_unstable_by_key\<close> is the parameter \<open>srt\<close>: some permutation
  of the indices ordered by the key, which is all the library documents of it.
\<close>

definition MAX_PERSISTED_NODES :: nat where [const_defs]: "MAX_PERSISTED_NODES = 42"
definition SNAPSHOT_RECORD_SIZE :: nat where [const_defs]: "SNAPSHOT_RECORD_SIZE = 96"
definition SNAPSHOT_HEADER_SIZE :: nat where [const_defs]: "SNAPSHOT_HEADER_SIZE = 16"
definition SNAPSHOT_BYTES :: nat where [const_defs]:
  "SNAPSHOT_BYTES = SNAPSHOT_HEADER_SIZE + MAX_PERSISTED_NODES * SNAPSHOT_RECORD_SIZE"
definition FLASH_SECTOR_SIZE :: nat where [const_defs]: "FLASH_SECTOR_SIZE = 4096"
definition SNAPSHOT_MAGIC :: u32 where [const_defs]: "SNAPSHOT_MAGIC = 0x4E444232"
definition SNAPSHOT_VERSION :: u8 where [const_defs]: "SNAPSHOT_VERSION = 2"

definition bit_of :: "bool \<Rightarrow> u8" where
  "bit_of b = (if b then 1 else 0)"

definition pack3 :: "bool \<Rightarrow> bool \<Rightarrow> bool \<Rightarrow> u8" where
  "pack3 a b c = bit_of a OR push_bit 1 (bit_of b) OR push_bit 2 (bit_of c)"

section \<open>Record codec\<close>

definition encode_str_field :: "bytes option \<Rightarrow> nat \<Rightarrow> bytes \<times> u8" where
  "encode_str_field src max_len =
     (let bs = (case src of Some b \<Rightarrow> b | None \<Rightarrow> []);
          n = min (length bs) max_len
      in (write_at 0 (take n bs) (replicate 28 0), of_nat n))"

text \<open>The buffer is a zeroed 96-byte slice, so the unwritten bytes are zero.\<close>

definition encode_record :: "node_entry \<Rightarrow> bytes" where
  "encode_record n =
     (let (sname, sn_len) = encode_str_field (map_option u_short_name (n_user n)) 5;
          (lname, ln_len) = encode_str_field (map_option u_long_name (n_user n)) 28
      in le32 (n_num n) @ le32 (n_last_heard n) @ le64 (n_last_seen_ms n)
         @ [case n_snr n of Some s \<Rightarrow> s | None \<Rightarrow> 0,
            case n_hops_away n of Some h \<Rightarrow> h | None \<Rightarrow> 0,
            n_next_hop n,
            pack3 (n_is_favorite n) (n_is_ignored n) (n_is_muted n),
            sn_len] @ take 5 sname @ [ln_len] @ take 28 lname
         @ [case n_user n of Some u \<Rightarrow> ucast (u_role u) | None \<Rightarrow> 0,
            case n_user n of Some u \<Rightarrow> ucast (u_hw_model u AND 0xFF) | None \<Rightarrow> 0,
            pack3 (n_snr n \<noteq> None) (n_hops_away n \<noteq> None) (n_user n \<noteq> None)] @ replicate 6 0
         @ (case n_pub_key n of Some k \<Rightarrow> k | None \<Rightarrow> replicate 32 0))"

text \<open>The fields after the node number, and the whole decoder with its rejection of reserved numbers.\<close>

definition decode_fields :: "u32 \<Rightarrow> bytes \<Rightarrow> node_entry" where
  "decode_fields node_num buf =
     (let
          last_heard = of_le32 (buf ! 4) (buf ! 5) (buf ! 6) (buf ! 7);
          last_seen_ms = of_le64 (slice 8 16 buf);
          snr = (if buf ! 57 AND 0x01 \<noteq> 0 then Some (buf ! 16) else None);
          hops_away = (if buf ! 57 AND 0x02 \<noteq> 0 then Some (buf ! 17) else None);
          sn_len = unat (min (buf ! 20) 5);
          ln_len = unat (min (buf ! 26) 28);
          short_name = from_utf8 (slice 21 (21 + sn_len) buf);
          long_name = from_utf8 (slice 27 (27 + ln_len) buf);
          has_user = (0 < sn_len \<or> 0 < ln_len \<or> buf ! 57 AND 0x04 \<noteq> 0);
          usr = (if has_user then Some (user_default\<lparr>
                   u_long_name := (case long_name of Some b \<Rightarrow> b | None \<Rightarrow> []),
                   u_short_name := (case short_name of Some b \<Rightarrow> b | None \<Rightarrow> []),
                   u_hw_model := ucast (buf ! 56), u_role := ucast (buf ! 55)\<rparr>) else None);
          key = slice 64 96 buf;
          pub_key = (if \<exists>b \<in> set key. b \<noteq> 0 then Some key else None)
      in \<lparr>n_num = node_num, n_user = usr, n_position = None, n_last_heard = last_heard,
           n_snr = snr, n_hops_away = hops_away, n_device_metrics = None, n_next_hop = buf ! 18,
           n_last_seen_ms = last_seen_ms, n_pub_key = pub_key,
           n_is_favorite = (buf ! 19 AND 0x01 \<noteq> 0), n_is_ignored = (buf ! 19 AND 0x02 \<noteq> 0),
           n_is_muted = (buf ! 19 AND 0x04 \<noteq> 0)\<rparr>)"

definition decode_record :: "bytes \<Rightarrow> node_entry option" where
  "decode_record buf =
     (let node_num = of_le32 (buf ! 0) (buf ! 1) (buf ! 2) (buf ! 3)
      in if node_num = 0 \<or> node_num = BROADCAST_ADDR then None
         else Some (decode_fields node_num buf))"

section \<open>Snapshot\<close>

type_synonym sorter = "(nat \<Rightarrow> u32) \<Rightarrow> nat list \<Rightarrow> nat list"

definition to_snapshot :: "sorter \<Rightarrow> node_db \<Rightarrow> bytes" where
  "to_snapshot srt db =
     (let order = srt (\<lambda>i. n_last_heard (db_nodes db ! i)) [0..<length (db_nodes db)];
          cnt = min (length order) MAX_PERSISTED_NODES;
          recs = map (\<lambda>node_idx. encode_record (db_nodes db ! node_idx)) (take cnt order)
      in le32 SNAPSHOT_MAGIC @ [SNAPSHOT_VERSION, of_nat cnt] @ replicate 10 0
         @ concat recs @ replicate ((MAX_PERSISTED_NODES - cnt) * SNAPSHOT_RECORD_SIZE) 0)"

fun restore_slots :: "u32 \<Rightarrow> bytes \<Rightarrow> nat list \<Rightarrow> node_entry list \<Rightarrow> node_entry list" where
  "restore_slots our buf [] ns = ns"
| "restore_slots our buf (slot # slots) ns =
     (let off = SNAPSHOT_HEADER_SIZE + slot * SNAPSHOT_RECORD_SIZE
      in case decode_record (slice off (off + SNAPSHOT_RECORD_SIZE) buf) of
           None \<Rightarrow> restore_slots our buf slots ns
         | Some entry \<Rightarrow>
             if n_num entry \<noteq> our \<and> (\<forall>n \<in> set ns. n_num n \<noteq> n_num entry)
             then (case vec_push MAX_NODES ns entry of
                     Some ns' \<Rightarrow> restore_slots our buf slots ns'
                   | None \<Rightarrow> ns)
             else restore_slots our buf slots ns)"

definition restore_snapshot :: "bytes \<Rightarrow> node_db \<Rightarrow> node_db \<times> bool" where
  "restore_snapshot buf db =
     (if length buf < SNAPSHOT_BYTES then (db, False)
      else let magic = of_le32 (buf ! 0) (buf ! 1) (buf ! 2) (buf ! 3);
               cnt = unat (buf ! 5)
           in if magic \<noteq> SNAPSHOT_MAGIC \<or> buf ! 4 \<noteq> SNAPSHOT_VERSION then (db, False)
              else if MAX_PERSISTED_NODES < cnt then (db, False)
              else let our = db_our db;
                       kept = filter (\<lambda>n. n_num n = our) (db_nodes db)
                   in (db\<lparr>db_nodes := restore_slots our buf [0..<cnt] kept, db_dirty := False\<rparr>, True))"

section \<open>What a record keeps\<close>

definition persist_str :: "nat \<Rightarrow> bytes \<Rightarrow> bytes" where
  "persist_str n b = (case from_utf8 (take n b) of Some t \<Rightarrow> t | None \<Rightarrow> [])"

definition persisted_user :: "user \<Rightarrow> user" where
  "persisted_user u = user_default\<lparr>u_long_name := persist_str 28 (u_long_name u),
     u_short_name := persist_str 5 (u_short_name u),
     u_hw_model := ucast (ucast (u_hw_model u AND 0xFF) :: u8),
     u_role := ucast (ucast (u_role u) :: u8)\<rparr>"

definition persisted_key :: "bytes \<Rightarrow> bytes option" where
  "persisted_key k = (if \<exists>b \<in> set k. b \<noteq> 0 then Some k else None)"

definition persisted :: "node_entry \<Rightarrow> node_entry" where
  "persisted n = n\<lparr>n_user := map_option persisted_user (n_user n), n_position := None,
     n_device_metrics := None, n_pub_key := Option.bind (n_pub_key n) persisted_key\<rparr>"

definition record_ok :: "node_entry \<Rightarrow> bool" where
  "record_ok n \<longleftrightarrow> n_num n \<noteq> 0 \<and> n_num n \<noteq> BROADCAST_ADDR
     \<and> (case n_pub_key n of Some k \<Rightarrow> length k = 32 | None \<Rightarrow> True)"

lemma pack3_bits [simp]:
  "pack3 a b c AND 1 = 0 \<longleftrightarrow> \<not> a" "pack3 a b c AND 2 = 0 \<longleftrightarrow> \<not> b" "pack3 a b c AND 4 = 0 \<longleftrightarrow> \<not> c"
  by (cases a; cases b; cases c; simp add: pack3_def bit_of_def)+

lemma encode_str_field_props:
  assumes "m \<le> 28"
  shows "length (fst (encode_str_field src m)) = 28"
    and "unat (snd (encode_str_field src m)) = min (length (case src of Some b \<Rightarrow> b | None \<Rightarrow> [])) m"
    and "take (min (length (case src of Some b \<Rightarrow> b | None \<Rightarrow> [])) m) (fst (encode_str_field src m))
           = take m (case src of Some b \<Rightarrow> b | None \<Rightarrow> [])"
  using assms
  by (auto simp: encode_str_field_def Let_def write_at_def unat_of_nat min_def split: option.split)

lemma length_encode_record: "record_ok n \<Longrightarrow> length (encode_record n) = SNAPSHOT_RECORD_SIZE"
  using encode_str_field_props(1) [of 5 "map_option u_short_name (n_user n)"]
    encode_str_field_props(1) [of 28 "map_option u_long_name (n_user n)"]
  by (auto simp: encode_record_def record_ok_def SNAPSHOT_RECORD_SIZE_def Let_def
      split: prod.split option.splits)

text \<open>Where each field of a record lies.\<close>

lemma record_layout:
  assumes "buf = a @ b @ c @ [x16, x17, x18, x19, x20] @ sname @ [x26] @ lname @ [x55, x56, x57] @ r @ k"
    and "length a = 4" "length b = 4" "length c = 8" "length sname = 5" "length lname = 28" "length r = 6"
      "length k = 32"
  shows "buf ! 0 = a ! 0" "buf ! 1 = a ! 1" "buf ! 2 = a ! 2" "buf ! 3 = a ! 3"
    "buf ! 4 = b ! 0" "buf ! 5 = b ! 1" "buf ! 6 = b ! 2" "buf ! 7 = b ! 3"
    "slice 8 16 buf = c" "buf ! 16 = x16" "buf ! 17 = x17" "buf ! 18 = x18" "buf ! 19 = x19"
    "buf ! 20 = x20" "buf ! 26 = x26" "buf ! 55 = x55" "buf ! 56 = x56" "buf ! 57 = x57"
    "slice 64 96 buf = k"
    "i \<le> 5 \<Longrightarrow> slice 21 (21 + i) buf = take i sname" "j \<le> 28 \<Longrightarrow> slice 27 (27 + j) buf = take j lname"
  using assms(2-) unfolding assms(1) by (simp_all add: nth_append slice_def)

lemma decode_encode_record:
  assumes "record_ok n"
  shows "decode_record (encode_record n) = Some (persisted n)"
proof -
  define sname where "sname = encode_str_field (map_option u_short_name (n_user n)) 5"
  define lname where "lname = encode_str_field (map_option u_long_name (n_user n)) 28"
  define sb where "sb = (case n_user n of Some u \<Rightarrow> u_short_name u | None \<Rightarrow> [])"
  define lb where "lb = (case n_user n of Some u \<Rightarrow> u_long_name u | None \<Rightarrow> [])"
  define key where "key = (case n_pub_key n of Some k \<Rightarrow> k | None \<Rightarrow> replicate 32 0)"
  have sname: "length (fst sname) = 28" "unat (snd sname) = min (length sb) 5"
      "take (min (length sb) 5) (fst sname) = take 5 sb"
    using encode_str_field_props [of 5 "map_option u_short_name (n_user n)"]
    by (auto simp: sname_def sb_def split: option.splits)
  have lname: "length (fst lname) = 28" "unat (snd lname) = min (length lb) 28"
      "take (min (length lb) 28) (fst lname) = take 28 lb"
    using encode_str_field_props [of 28 "map_option u_long_name (n_user n)"]
    by (auto simp: lname_def lb_def split: option.splits)
  have key: "length key = 32" using assms by (auto simp: key_def record_ok_def split: option.splits)
  have enc: "encode_record n = le32 (n_num n) @ le32 (n_last_heard n) @ le64 (n_last_seen_ms n)
     @ [case n_snr n of Some s \<Rightarrow> s | None \<Rightarrow> 0, case n_hops_away n of Some h \<Rightarrow> h | None \<Rightarrow> 0,
        n_next_hop n, pack3 (n_is_favorite n) (n_is_ignored n) (n_is_muted n), snd sname] @ take 5 (fst sname) @ [snd lname]
     @ take 28 (fst lname)
     @ [case n_user n of Some u \<Rightarrow> ucast (u_role u) | None \<Rightarrow> 0,
        case n_user n of Some u \<Rightarrow> ucast (u_hw_model u AND 0xFF) | None \<Rightarrow> 0,
        pack3 (n_snr n \<noteq> None) (n_hops_away n \<noteq> None) (n_user n \<noteq> None)] @ replicate 6 0 @ key"
    by (simp add: encode_record_def sname_def lname_def key_def Let_def split: prod.split)
  note lay = record_layout [OF enc]
  have len: "min (snd sname) 5 = snd sname" "min (snd lname) 28 = snd lname"
    using sname(2) lname(2) by (simp_all add: min_def word_le_nat_alt)
  have str: "slice 21 (21 + min (length sb) 5) (encode_record n) = take 5 sb"
    "slice 27 (27 + min (length lb) 28) (encode_record n) = take 28 lb"
    using lay(20) [of "min (length sb) 5"] lay(21) [of "min (length lb) 28"] sname lname key
    by (simp_all add: min.commute)
  have pub: "(if \<exists>b \<in> set key. b \<noteq> 0 then Some key else None) = Option.bind (n_pub_key n) persisted_key"
    by (auto simp: key_def persisted_key_def split: option.split)
  have usr: "(if 0 < min (length sb) 5 \<or> 0 < min (length lb) 28 \<or> n_user n \<noteq> None
      then Some (user_default\<lparr>u_long_name := persist_str 28 lb, u_short_name := persist_str 5 sb,
        u_hw_model := ucast (case n_user n of Some u \<Rightarrow> ucast (u_hw_model u AND 0xFF) | None \<Rightarrow> (0 :: u8)),
        u_role := ucast (case n_user n of Some u \<Rightarrow> ucast (u_role u) | None \<Rightarrow> (0 :: u8))\<rparr>)
      else None) = map_option persisted_user (n_user n)"
    by (cases "n_user n") (auto simp: sb_def lb_def persisted_user_def)
  have num: "of_le32 (encode_record n ! 0) (encode_record n ! 1) (encode_record n ! 2)
      (encode_record n ! 3) = n_num n"
    and heard: "of_le32 (encode_record n ! 4) (encode_record n ! 5) (encode_record n ! 6)
      (encode_record n ! 7) = n_last_heard n"
    using lay(1-8) sname(1) lname(1) key by simp_all
  have rest: "of_le64 (slice 8 16 (encode_record n)) = n_last_seen_ms n"
    "slice 64 96 (encode_record n) = key"
    "unat (min (encode_record n ! 20) 5) = min (length sb) 5"
    "unat (min (encode_record n ! 26) 28) = min (length lb) 28"
    using lay sname(1,2) lname(1,2) key by (simp_all add: len)
  have snr: "(if encode_record n ! 57 AND 0x01 \<noteq> 0 then Some (encode_record n ! 16) else None) = n_snr n"
    "(if encode_record n ! 57 AND 0x02 \<noteq> 0 then Some (encode_record n ! 17) else None) = n_hops_away n"
    "encode_record n ! 57 AND 0x04 \<noteq> 0 \<longleftrightarrow> n_user n \<noteq> None"
    using lay(10,11,18) sname(1) lname(1) key by (auto split: option.split)
  have flags: "encode_record n ! 19 AND 0x01 \<noteq> 0 \<longleftrightarrow> n_is_favorite n"
    "encode_record n ! 19 AND 0x02 \<noteq> 0 \<longleftrightarrow> n_is_ignored n"
    "encode_record n ! 19 AND 0x04 \<noteq> 0 \<longleftrightarrow> n_is_muted n" "encode_record n ! 18 = n_next_hop n"
    using lay(12,13) sname(1) lname(1) key by simp_all
  have role: "encode_record n ! 55 = (case n_user n of Some u \<Rightarrow> ucast (u_role u) | None \<Rightarrow> 0)"
    "encode_record n ! 56 = (case n_user n of Some u \<Rightarrow> ucast (u_hw_model u AND 0xFF) | None \<Rightarrow> 0)"
    using lay(16,17) sname(1) lname(1) key by simp_all
  show ?thesis
    unfolding decode_record_def decode_fields_def Let_def num heard rest snr flags role str
    using assms by (auto simp: record_ok_def persisted_def usr [symmetric] pub [symmetric] persist_str_def)
qed

section \<open>The snapshot round trip\<close>

definition sorts_descending :: "sorter \<Rightarrow> bool" where
  "sorts_descending srt \<longleftrightarrow>
     (\<forall>key xs. mset (srt key xs) = mset xs \<and> sorted_wrt (\<lambda>i j. key j \<le> key i) (srt key xs))"

definition most_recent :: "sorter \<Rightarrow> node_db \<Rightarrow> node_entry list" where
  "most_recent srt db = map ((!) (db_nodes db))
     (take MAX_PERSISTED_NODES (srt (\<lambda>i. n_last_heard (db_nodes db ! i)) [0..<length (db_nodes db)]))"

lemma slice_concat:
  assumes "\<forall>x \<in> set xs. length (f x) = w" "length hdr = h" "i < length xs"
  shows "slice (h + i * w) (h + i * w + w) (hdr @ concat (map f xs) @ z) = f (xs ! i)"
  using assms
proof (induction xs arbitrary: hdr h i)
  case (Cons x xs)
  show ?case
  proof (cases i)
    case 0
    with Cons.prems show ?thesis by (auto simp: slice_def)
  next
    case (Suc j)
    have "slice ((h + w) + j * w) ((h + w) + j * w + w) ((hdr @ f x) @ concat (map f xs) @ z) = f (xs ! j)"
      by (rule Cons.IH) (use Cons.prems Suc in auto)
    then show ?thesis using Suc by (simp add: algebra_simps)
  qed
qed simp

lemma restore_slots_distinct:
  assumes "\<forall>i \<in> set slots. decode_record (slice (SNAPSHOT_HEADER_SIZE + i * SNAPSHOT_RECORD_SIZE)
      (SNAPSHOT_HEADER_SIZE + i * SNAPSHOT_RECORD_SIZE + SNAPSHOT_RECORD_SIZE) buf) = Some (g i)"
    and "distinct (map (\<lambda>i. n_num (g i)) slots)"
    and "\<forall>i \<in> set slots. n_num (g i) \<noteq> our \<longrightarrow> (\<forall>n \<in> set ns. n_num n \<noteq> n_num (g i))"
    and "length ns + length slots \<le> MAX_NODES"
  shows "restore_slots our buf slots ns = ns @ filter (\<lambda>e. n_num e \<noteq> our) (map g slots)"
  using assms
  by (induction slots arbitrary: ns) (auto simp: vec_push_def Let_def image_iff)

lemma decode_fields_num [simp]: "n_num (decode_fields k b) = k"
  by (simp add: decode_fields_def Let_def)

lemma decode_record_num: "decode_record b = Some e \<Longrightarrow> n_num e \<noteq> 0 \<and> n_num e \<noteq> BROADCAST_ADDR"
  by (auto simp: decode_record_def Let_def split: if_splits)

lemma db_ok_snoc:
  "\<lbrakk>db_ok (db\<lparr>db_nodes := ns\<rparr>); vec_push MAX_NODES ns e = Some ns'; \<forall>n \<in> set ns. n_num n \<noteq> n_num e;
    n_num e \<noteq> 0; n_num e \<noteq> BROADCAST_ADDR\<rbrakk> \<Longrightarrow> db_ok (db\<lparr>db_nodes := ns'\<rparr>)"
  by (auto simp: db_ok_def vec_push_def split: if_splits) blast

lemma restore_slots_ok:
  "db_ok (db\<lparr>db_nodes := ns\<rparr>) \<Longrightarrow> db_ok (db\<lparr>db_nodes := restore_slots our buf slots ns\<rparr>)"
  by (induction slots arbitrary: ns)
    (simp_all add: Let_def db_ok_snoc decode_record_num split: option.split)

lemma most_recent_props:
  assumes "sorts_descending srt"
  shows "length (most_recent srt db) = min (length (db_nodes db)) MAX_PERSISTED_NODES"
    and "mset (most_recent srt db) \<subseteq># mset (db_nodes db)"
    and "\<lbrakk>r \<in> set (most_recent srt db); n \<in># mset (db_nodes db) - mset (most_recent srt db)\<rbrakk>
      \<Longrightarrow> n_last_heard n \<le> n_last_heard r"
proof -
  let ?h = "\<lambda>i. n_last_heard (db_nodes db ! i)"
  let ?o = "srt ?h [0..<length (db_nodes db)]"
  have o: "mset ?o = mset [0..<length (db_nodes db)]" "sorted_wrt (\<lambda>i j. ?h j \<le> ?h i) ?o"
    using assms by (auto simp: sorts_descending_def)
  have all: "mset (map ((!) (db_nodes db)) ?o) = mset (db_nodes db)"
    by (metis o(1) mset_map map_nth)
  have split: "mset (db_nodes db) = mset (most_recent srt db)
      + mset (map ((!) (db_nodes db)) (drop MAX_PERSISTED_NODES ?o))"
    unfolding most_recent_def all [symmetric]
    by (metis append_take_drop_id map_append mset_append)
  show "length (most_recent srt db) = min (length (db_nodes db)) MAX_PERSISTED_NODES"
    using arg_cong [OF o(1), of size] by (simp add: most_recent_def)
  show "mset (most_recent srt db) \<subseteq># mset (db_nodes db)"
    using split by (metis mset_subset_eq_add_left)
  assume "r \<in> set (most_recent srt db)" "n \<in># mset (db_nodes db) - mset (most_recent srt db)"
  then obtain i j where "i \<in> set (take MAX_PERSISTED_NODES ?o)" "j \<in> set (drop MAX_PERSISTED_NODES ?o)"
    "r = db_nodes db ! i" "n = db_nodes db ! j"
    unfolding split by (auto simp: most_recent_def)
  moreover have "sorted_wrt (\<lambda>i j. ?h j \<le> ?h i) (take MAX_PERSISTED_NODES ?o @ drop MAX_PERSISTED_NODES ?o)"
    using o(2) by simp
  ultimately show "n_last_heard n \<le> n_last_heard r"
    unfolding sorted_wrt_append by blast
qed

lemma to_snapshot_layout:
  assumes "sorts_descending srt"
  shows "to_snapshot srt db = (le32 SNAPSHOT_MAGIC @ [SNAPSHOT_VERSION, of_nat (length (most_recent srt db))]
      @ replicate 10 0) @ concat (map encode_record (most_recent srt db))
      @ replicate ((MAX_PERSISTED_NODES - length (most_recent srt db)) * SNAPSHOT_RECORD_SIZE) 0"
proof -
  let ?o = "srt (\<lambda>i. n_last_heard (db_nodes db ! i)) [0..<length (db_nodes db)]"
  have "length ?o = length (db_nodes db)"
    using assms by (metis sorts_descending_def size_mset length_upt minus_nat.diff_0)
  then have "min (length ?o) MAX_PERSISTED_NODES = length (most_recent srt db)"
    and "take (min (length ?o) MAX_PERSISTED_NODES) ?o = take MAX_PERSISTED_NODES ?o"
    by (simp_all add: most_recent_props [OF assms] min_def)
  then show ?thesis
    by (simp add: to_snapshot_def Let_def most_recent_def comp_def)
qed

lemma to_snapshot_facts:
  assumes "db_ok db" and rec: "\<forall>n \<in> set (db_nodes db). record_ok n" and srt: "sorts_descending srt"
  defines "rs \<equiv> most_recent srt db" and "buf \<equiv> to_snapshot srt db"
  shows "length buf = SNAPSHOT_BYTES" "unat (buf ! 5) = length rs" "buf ! 4 = SNAPSHOT_VERSION"
    "of_le32 (buf ! 0) (buf ! 1) (buf ! 2) (buf ! 3) = SNAPSHOT_MAGIC"
    "\<forall>i \<in> set [0..<length rs]. decode_record (slice (SNAPSHOT_HEADER_SIZE + i * SNAPSHOT_RECORD_SIZE)
      (SNAPSHOT_HEADER_SIZE + i * SNAPSHOT_RECORD_SIZE + SNAPSHOT_RECORD_SIZE) buf)
      = Some (persisted (rs ! i))"
    "distinct (map n_num rs)" "length rs \<le> MAX_PERSISTED_NODES"
proof -
  note props = most_recent_props [OF srt, where db = db, folded rs_def]
  show cnt: "length rs \<le> MAX_PERSISTED_NODES" by (simp add: props)
  have ok: "\<forall>n \<in> set rs. record_ok n"
    using rec props(2) by (metis set_mset_mono set_mset_mset subsetD)
  then have wide: "\<forall>n \<in> set rs. length (encode_record n) = SNAPSHOT_RECORD_SIZE"
    by (simp add: length_encode_record)
  note lay = to_snapshot_layout [OF srt, of db, folded rs_def buf_def]
  have "length (concat (map encode_record rs)) = length rs * SNAPSHOT_RECORD_SIZE"
    using wide by (induction rs) auto
  then show "length buf = SNAPSHOT_BYTES"
    using cnt unfolding lay by (simp add: const_defs)
  show "buf ! 4 = SNAPSHOT_VERSION" "unat (buf ! 5) = length rs"
    using cnt unfolding lay by (simp_all add: nth_append unat_of_nat MAX_PERSISTED_NODES_def)
  show "of_le32 (buf ! 0) (buf ! 1) (buf ! 2) (buf ! 3) = SNAPSHOT_MAGIC"
    unfolding lay by (simp add: nth_append)
  show "\<forall>i \<in> set [0..<length rs]. decode_record (slice (SNAPSHOT_HEADER_SIZE + i * SNAPSHOT_RECORD_SIZE)
      (SNAPSHOT_HEADER_SIZE + i * SNAPSHOT_RECORD_SIZE + SNAPSHOT_RECORD_SIZE) buf)
      = Some (persisted (rs ! i))"
  proof
    fix i assume "i \<in> set [0..<length rs]"
    then have i: "i < length rs" by simp
    then show "decode_record (slice (SNAPSHOT_HEADER_SIZE + i * SNAPSHOT_RECORD_SIZE)
      (SNAPSHOT_HEADER_SIZE + i * SNAPSHOT_RECORD_SIZE + SNAPSHOT_RECORD_SIZE) buf)
      = Some (persisted (rs ! i))"
      unfolding lay using ok
      by (subst slice_concat [OF wide _ i]) (auto simp: SNAPSHOT_HEADER_SIZE_def decode_encode_record)
  qed
  have "mset (map n_num rs) \<subseteq># mset (map n_num (db_nodes db))"
    using image_mset_subseteq_mono [OF props(2), of n_num] by simp
  then show "distinct (map n_num rs)"
    using assms(1) unfolding db_ok_def by (blast intro: distinct_submset)
qed

lemma filter_own_le_1: "distinct (map n_num ns) \<Longrightarrow> length (filter (\<lambda>n. n_num n = k) ns) \<le> 1"
  by (induction ns) (auto simp: filter_empty_conv image_iff)

lemma map_over_upt: "map (\<lambda>i. g (xs ! i)) [0..<length xs] = map g xs"
  by (rule nth_equalityI) simp_all

lemma persisted_num [simp]: "n_num (persisted n) = n_num n"
  by (simp add: persisted_def)

lemma snapshot_restored:
  assumes "db_ok db" and "\<forall>n \<in> set (db_nodes db). record_ok n"
    and "sorts_descending srt" and "db_ok db0"
  shows "restore_snapshot (to_snapshot srt db) db0 =
      (db0\<lparr>db_nodes := filter (\<lambda>n. n_num n = db_our db0) (db_nodes db0)
         @ filter (\<lambda>n. n_num n \<noteq> db_our db0) (map persisted (most_recent srt db)), db_dirty := False\<rparr>, True)
    \<and> length (to_snapshot srt db) = SNAPSHOT_BYTES \<and> SNAPSHOT_BYTES \<le> FLASH_SECTOR_SIZE
    \<and> (\<forall>r \<in># mset (most_recent srt db). \<forall>n \<in># mset (db_nodes db) - mset (most_recent srt db).
         n_last_heard n \<le> n_last_heard r)"
proof -
  let ?rs = "most_recent srt db"
  let ?kept = "filter (\<lambda>n. n_num n = db_our db0) (db_nodes db0)"
  note facts = to_snapshot_facts [OF assms(1-3)]
  have "distinct (map (\<lambda>i. n_num (persisted (?rs ! i))) [0..<length ?rs])"
    using facts(6) by (simp add: map_over_upt)
  moreover have "length ?kept + length [0..<length ?rs] \<le> MAX_NODES"
    using filter_own_le_1 [of "db_nodes db0" "db_our db0"] assms(4) facts(7)
    by (simp add: db_ok_def const_defs)
  ultimately have "restore_slots (db_our db0) (to_snapshot srt db) [0..<length ?rs] ?kept
      = ?kept @ filter (\<lambda>e. n_num e \<noteq> db_our db0) (map (\<lambda>i. persisted (?rs ! i)) [0..<length ?rs])"
    using facts(5) by (intro restore_slots_distinct) auto
  also have "map (\<lambda>i. persisted (?rs ! i)) [0..<length ?rs] = map persisted ?rs"
    by (rule map_over_upt)
  finally have slots: "restore_slots (db_our db0) (to_snapshot srt db) [0..<length ?rs] ?kept
      = ?kept @ filter (\<lambda>e. n_num e \<noteq> db_our db0) (map persisted ?rs)" .
  have "restore_snapshot (to_snapshot srt db) db0 = (db0\<lparr>db_nodes := ?kept
      @ filter (\<lambda>e. n_num e \<noteq> db_our db0) (map persisted ?rs), db_dirty := False\<rparr>, True)"
    using facts(1,4,7) by (simp add: restore_snapshot_def Let_def facts(2,3) slots)
  moreover have "SNAPSHOT_BYTES \<le> FLASH_SECTOR_SIZE" by (simp add: const_defs)
  ultimately show ?thesis
    using facts(1) most_recent_props(3) [OF assms(3)] by simp
qed

text \<open>C29: the flash snapshot survives a reboot.  Whatever order the library's unstable sort picks
  among equals, the snapshot fills exactly its bytes and fits a flash sector; restoring it yields
  our own entry of the running table, then the stored form of the at most 42 most recently heard
  other entries, and nothing else; no forgotten entry was heard later than a kept one; and the
  table is clean.\<close>
theorem snapshot_roundtrip:
  assumes "db_ok db" and "\<forall>n \<in> set (db_nodes db). record_ok n"
    and "sorts_descending srt" and "db_ok db0"
  shows "restore_snapshot (to_snapshot srt db) db0 =
      (db0\<lparr>db_nodes := filter (\<lambda>n. n_num n = db_our db0) (db_nodes db0)
         @ filter (\<lambda>n. n_num n \<noteq> db_our db0) (map persisted (most_recent srt db)), db_dirty := False\<rparr>, True)
    \<and> length (to_snapshot srt db) = SNAPSHOT_BYTES \<and> SNAPSHOT_BYTES \<le> FLASH_SECTOR_SIZE
    \<and> (\<forall>r \<in># mset (most_recent srt db). \<forall>n \<in># mset (db_nodes db) - mset (most_recent srt db).
         n_last_heard n \<le> n_last_heard r)"
  using assms by (rule snapshot_restored)

definition sample_node :: "u32 \<Rightarrow> u32 \<Rightarrow> node_entry" where
  "sample_node k t = (node_stub k)\<lparr>n_last_heard := t, n_snr := Some 5,
     n_user := Some (user_default\<lparr>u_short_name := [0x61, 0x62]\<rparr>), n_pub_key := Some (replicate 32 7)\<rparr>"

definition sample_db :: node_db where
  "sample_db = (node_db_new 1)\<lparr>db_nodes := [sample_node 5 10, sample_node 6 20]\<rparr>"

definition stable_desc :: sorter where
  "stable_desc key xs = rev (sort_key key xs)"

lemma stable_desc_sorts: "sorts_descending stable_desc"
  unfolding sorts_descending_def stable_desc_def
proof (intro allI conjI)
  fix key :: "nat \<Rightarrow> u32" and xs
  have "sorted_wrt (\<lambda>i j. key i \<le> key j) (sort_key key xs)"
    using sorted_sort_key [of key xs] by (simp add: sorted_wrt_map)
  then show "sorted_wrt (\<lambda>i j. key j \<le> key i) (rev (sort_key key xs))"
    by (simp add: sorted_wrt_rev)
qed simp

lemma sample_db_ok: "db_ok sample_db" "\<forall>n \<in> set (db_nodes sample_db). record_ok n"
  by (simp_all add: sample_db_def db_ok_def sample_node_def node_stub_def const_defs
      node_db_new_def record_ok_def)

lemma snapshot_roundtrip_witness:
  "snd (restore_snapshot (to_snapshot stable_desc sample_db) (node_db_new 9))
   \<and> length (to_snapshot stable_desc sample_db) = SNAPSHOT_BYTES"
  using snapshot_roundtrip [OF sample_db_ok stable_desc_sorts node_db_new_ok, of 9] by simp

lemma restore_snapshot_ok:
  assumes "db_ok db"
  shows "db_ok (fst (restore_snapshot buf db))" "db_our (fst (restore_snapshot buf db)) = db_our db"
proof -
  have "db_ok ((db\<lparr>db_nodes := filter q (db_nodes db)\<rparr>)
      \<lparr>db_nodes := restore_slots k buf slots (filter q (db_nodes db))\<rparr>)" for q k slots
    by (rule restore_slots_ok) (use filter_ok [OF assms, of q] in simp)
  then show "db_ok (fst (restore_snapshot buf db))"
    using assms by (auto simp: restore_snapshot_def Let_def db_ok_def)
qed (simp add: restore_snapshot_def Let_def)

text \<open>What the slots of a blob add to the entries that are there.\<close>

definition slot_record :: "bytes \<Rightarrow> nat \<Rightarrow> node_entry option" where
  "slot_record buf i =
     decode_record (slice (SNAPSHOT_HEADER_SIZE + i * SNAPSHOT_RECORD_SIZE) (SNAPSHOT_HEADER_SIZE + i * SNAPSHOT_RECORD_SIZE + SNAPSHOT_RECORD_SIZE) buf)"

lemma restore_slots_Cons:
  "length ns < MAX_NODES \<Longrightarrow> restore_slots our buf (i # is) ns =
     restore_slots our buf is (case slot_record buf i of
         Some e \<Rightarrow> if n_num e \<noteq> our \<and> (\<forall>n \<in> set ns. n_num n \<noteq> n_num e) then ns @ [e] else ns | None \<Rightarrow> ns)"
  by (simp add: slot_record_def Let_def vec_push_def split: option.split)

lemma restore_slots_facts:
  assumes "length ns + length is \<le> MAX_NODES"
  shows "filter (\<lambda>n. n_num n = our) (restore_slots our buf is ns) = filter (\<lambda>n. n_num n = our) ns
    \<and> set ns \<subseteq> set (restore_slots our buf is ns)
    \<and> (\<forall>n \<in> set (restore_slots our buf is ns) - set ns. \<exists>i \<in> set is. slot_record buf i = Some n)
    \<and> (\<forall>i \<in> set is. \<forall>e. slot_record buf i = Some e \<and> n_num e \<noteq> our
         \<longrightarrow> (\<exists>n \<in> set (restore_slots our buf is ns). n_num n = n_num e))"
  using assms
proof (induction "is" arbitrary: ns)
  case (Cons i js)
  let ?ns = "case slot_record buf i of
    Some e \<Rightarrow> if n_num e \<noteq> our \<and> (\<forall>n \<in> set ns. n_num n \<noteq> n_num e) then ns @ [e] else ns | None \<Rightarrow> ns"
  have r: "restore_slots our buf (i # js) ns = restore_slots our buf js ?ns" using Cons.prems by (intro restore_slots_Cons) simp
  have "length ?ns + length js \<le> MAX_NODES" using Cons.prems by (simp split: option.split)
  note IH = Cons.IH [OF this]
  have ns: "set ns \<subseteq> set ?ns" "filter (\<lambda>n. n_num n = our) ?ns = filter (\<lambda>n. n_num n = our) ns"
    by (simp_all split: option.split, blast)
  have new: "n \<in> set ?ns - set ns \<Longrightarrow> slot_record buf i = Some n" for n
    by (cases "slot_record buf i") (simp_all split: if_splits, elim conjE disjE, simp_all)
  have there: "\<exists>n \<in> set ?ns. n_num n = n_num e" if "slot_record buf i = Some e" "n_num e \<noteq> our" for e
    using that by simp
  show ?case unfolding r
  proof (intro conjI ballI)
    fix n assume "n \<in> set (restore_slots our buf js ?ns) - set ns"
    then show "\<exists>i \<in> set (i # js). slot_record buf i = Some n" using IH new [of n] by (cases "n \<in> set ?ns") auto
  next
    fix k assume "k \<in> set (i # js)"
    then consider "k = i" | "k \<in> set js" by auto
    then show "\<forall>e. slot_record buf k = Some e \<and> n_num e \<noteq> our
      \<longrightarrow> (\<exists>n \<in> set (restore_slots our buf js ?ns). n_num n = n_num e)"
    proof cases
      case 1
      then show ?thesis using IH there by (meson subsetD)
    next
      case 2
      then show ?thesis using IH by blast
    qed
  qed (use IH ns(1,2) in auto)
qed simp

lemma own_entries: "db_ok db \<Longrightarrow> length (filter (\<lambda>n. n_num n = k) (db_nodes db)) \<le> 1"
proof -
  assume ok: "db_ok db"
  then have "distinct (map n_num (filter (\<lambda>n. n_num n = k) (db_nodes db)))" by (simp add: db_ok_def distinct_map_filter)
  moreover have "set (map n_num (filter (\<lambda>n. n_num n = k) (db_nodes db))) \<subseteq> {k}" by auto
  then have "card (set (map n_num (filter (\<lambda>n. n_num n = k) (db_nodes db)))) \<le> card {k}" by (intro card_mono) simp_all
  ultimately show ?thesis using distinct_card [of "map n_num (filter (\<lambda>n. n_num n = k) (db_nodes db))"] by simp
qed

text \<open>C38: a blob is restored exactly when it is one, and then all of it.  Whatever bytes are found in flash, they are
  accepted if and only if they have the size, the magic number, the version and a record count that fits;
  refused, they change nothing.  Accepted, our own entry stays as it was, every other entry of the table is
  one of the counted records, and every counted record with a valid number other than ours has an entry with that
  number.  In any case a reserved number, a duplicate or an entry beyond the capacity never enters the table and our
  node number stays.\<close>
theorem restore_any_ok:
  assumes "db_ok db"
  shows "snd (restore_snapshot buf db) = (SNAPSHOT_BYTES \<le> length buf
        \<and> of_le32 (buf ! 0) (buf ! 1) (buf ! 2) (buf ! 3) = SNAPSHOT_MAGIC \<and> buf ! 4 = SNAPSHOT_VERSION
        \<and> unat (buf ! 5) \<le> MAX_PERSISTED_NODES)
    \<and> (if snd (restore_snapshot buf db)
       then filter (\<lambda>n. n_num n = db_our db) (db_nodes (fst (restore_snapshot buf db))) = filter (\<lambda>n. n_num n = db_our db) (db_nodes db)
         \<and> (\<forall>n. n \<in> set (db_nodes (fst (restore_snapshot buf db))) \<and> n_num n \<noteq> db_our db
              \<longrightarrow> (\<exists>i < unat (buf ! 5). slot_record buf i = Some n))
         \<and> (\<forall>i < unat (buf ! 5). \<forall>e. slot_record buf i = Some e \<and> n_num e \<noteq> db_our db
              \<longrightarrow> (\<exists>n \<in> set (db_nodes (fst (restore_snapshot buf db))). n_num n = n_num e))
       else fst (restore_snapshot buf db) = db)
    \<and> db_ok (fst (restore_snapshot buf db)) \<and> db_our (fst (restore_snapshot buf db)) = db_our db"
proof -
  let ?ok = "SNAPSHOT_BYTES \<le> length buf \<and> of_le32 (buf ! 0) (buf ! 1) (buf ! 2) (buf ! 3) = SNAPSHOT_MAGIC
    \<and> buf ! 4 = SNAPSHOT_VERSION \<and> unat (buf ! 5) \<le> MAX_PERSISTED_NODES"
    and ?own = "filter (\<lambda>n. n_num n = db_our db) (db_nodes db)"
  have r: "restore_snapshot buf db = (if ?ok
      then (db\<lparr>db_nodes := restore_slots (db_our db) buf [0..<unat (buf ! 5)] ?own, db_dirty := False\<rparr>, True) else (db, False))"
    by (simp add: restore_snapshot_def Let_def)
  show ?thesis
  proof (cases ?ok)
    case True
    then have "length ?own + length [0..<unat (buf ! 5)] \<le> MAX_NODES" using own_entries [OF assms, of "db_our db"] by (simp add: const_defs)
    note f = restore_slots_facts [OF this, of "db_our db" buf]
    have own: "n \<notin> set ?own" if "n_num n \<noteq> db_our db" for n using that by simp
    have "(\<exists>i < unat (buf ! 5). slot_record buf i = Some n)"
      if "n \<in> set (restore_slots (db_our db) buf [0..<unat (buf ! 5)] ?own)" "n_num n \<noteq> db_our db" for n
      using f that own [OF that(2)] by (metis DiffI atLeastLessThan_iff atLeast_upt set_upt)
    moreover have "\<exists>n \<in> set (restore_slots (db_our db) buf [0..<unat (buf ! 5)] ?own). n_num n = n_num e"
      if "i < unat (buf ! 5)" "slot_record buf i = Some e" "n_num e \<noteq> db_our db" for i e
      using f that by (metis atLeastLessThan_iff le0 set_upt)
    moreover have "filter (\<lambda>n. n_num n = db_our db) (restore_slots (db_our db) buf [0..<unat (buf ! 5)] ?own) = ?own"
      using f by (simp only: filter_filter conj_absorb)
    ultimately show ?thesis
      using True restore_snapshot_ok [OF assms, of buf] unfolding r if_P [OF True] by simp
  next
    case False
    then show ?thesis using assms unfolding r if_not_P [OF False] by simp
  qed
qed

lemma restore_any_ok_witness:
  "\<not> snd (restore_snapshot [1, 2, 3] sample_db) \<and> fst (restore_snapshot [1, 2, 3] sample_db) = sample_db"
  using restore_any_ok [OF sample_db_ok(1), of "[1, 2, 3]"] by (simp add: const_defs)

section \<open>Reachable tables\<close>

text \<open>Every state the firmware's operations can take the table to.\<close>

inductive db_step :: "node_db \<Rightarrow> node_db \<Rightarrow> bool" where
  step_touch: "db_step db (touch num time snr now db)"
| step_user: "db_step db (update_user num usr db)"
| step_key: "db_step db (update_pub_key num key db)"
| step_metrics: "db_step db (update_device_metrics num dm db)"
| step_position: "db_step db (update_position num pos db)"
| step_favorite: "db_step db (set_favorite num b db)"
| step_ignored: "db_step db (set_ignored num b db)"
| step_muted: "db_step db (toggle_muted num db)"
| step_remove: "db_step db (fst (remove_node num db))"
| step_ensure: "db_step db (fst (get_or_create num db))"
| step_write: "\<forall>n. n_num (f n) = n_num n \<Longrightarrow> db_step db (with_node num f db)"
| step_prune: "db_step db (fst (prune_stale now age db))"
| step_restore: "db_step db (fst (restore_snapshot buf db))"
| step_clean: "db_step db (mark_clean db)"

inductive db_reachable :: "u32 \<Rightarrow> node_db \<Rightarrow> bool" for our where
  reach_new: "db_reachable our (node_db_new our)"
| reach_step: "\<lbrakk>db_reachable our db; db_step db db'\<rbrakk> \<Longrightarrow> db_reachable our db'"

lemma goc_case_our [simp]:
  "db_our (case get_or_create num db of (db, Some i) \<Rightarrow> modify_at i f db | (db, None) \<Rightarrow> db) = db_our db"
  "db_our (case get_or_create num db of (db, Some i) \<Rightarrow> mark_dirty (modify_at i f db) | (db, None) \<Rightarrow> db)
     = db_our db"
  using get_or_create_our [of num db] by (auto split: prod.splits option.splits simp del: get_or_create_our)

lemma db_step_our: "db_step db db' \<Longrightarrow> db_our db' = db_our db"
  by (induction rule: db_step.induct)
    (auto simp: touch_def Let_def update_user_def update_pub_key_def update_device_metrics_def
      update_position_def set_favorite_def set_ignored_def toggle_muted_def remove_node_def
      with_node_def prune_stale_def restore_snapshot_def split: prod.split option.split)

lemma db_step_ok: "db_step db db' \<Longrightarrow> db_ok db \<Longrightarrow> db_ok db'"
  by (induction rule: db_step.induct)
    (simp_all add: remove_node_ok get_or_create_ok with_node_props prune_stale_ok restore_snapshot_ok)

text \<open>C30: in every state the firmware can bring the node table to, by any sequence of its
  operations and restores of any flash content, node numbers are unique and never reserved, the
  capacity is respected, and the table still belongs to this node.\<close>
theorem node_table_invariant:
  assumes "db_reachable our db"
  shows "distinct (map n_num (db_nodes db)) \<and> length (db_nodes db) \<le> MAX_NODES \<and> db_our db = our
    \<and> get 0 db = None \<and> get BROADCAST_ADDR db = None"
proof -
  from assms have "db_ok db \<and> db_our db = our"
    by induction (simp_all add: db_step_ok db_step_our, simp add: node_db_new_def)
  then show ?thesis by (auto simp: db_ok_def get_None)
qed

lemma node_table_invariant_witness:
  "length (db_nodes (touch 7 100 None 5 (node_db_new 1))) \<le> MAX_NODES
   \<and> get 0 (touch 7 100 None 5 (node_db_new 1)) = None"
  using node_table_invariant [OF reach_step [OF reach_new [of 1] step_touch [of _ 7 100 None 5]]] by simp

lemma prune_count: "snd (prune_stale now age db) = 0 \<longleftrightarrow>
   (\<forall>n \<in> set (db_nodes db). fresh_enough (db_our db) now age n)"
  using length_filter_less [of _ "db_nodes db" "fresh_enough (db_our db) now age"]
  by (auto simp: prune_stale_def Let_def filter_id_conv) blast

lemma get_prune: "get num db = None \<Longrightarrow> get num (fst (prune_stale now age db)) = None"
  by (auto simp: get_None prune_stale_def Let_def)

lemma touch_room:
  assumes "get num db = None" "length (db_nodes db) < MAX_NODES" "num \<noteq> 0" "num \<noteq> BROADCAST_ADDR"
  shows "get num (touch num time snr now db) \<noteq> None"
  by (rule get_or_create_cases [of num db])
    (use assms in \<open>auto simp: touch_def Let_def get_def find_append modify_at_def list_update_append
       node_stub_def find_None_iff split: option.split dest!: position_SomeD dest: nth_mem\<close>)

lemma touch_full:
  assumes "length (db_nodes db) = MAX_NODES" and "get num db = None"
  shows "touch num time snr now db =
    (if snd (prune_stale time STALE_AGE_SECS db) = 0 then fst (prune_stale time STALE_AGE_SECS db)
     else touch num time snr now (fst (prune_stale time STALE_AGE_SECS db)))"
proof (cases "prune_stale time STALE_AGE_SECS db")
  case (Pair db' n)
  have "n \<noteq> 0 \<Longrightarrow> length (db_nodes db') < MAX_NODES"
    using Pair assms(1) by (auto simp: prune_stale_def Let_def)
  with Pair show ?thesis
    using assms by (auto simp: touch_def Let_def get_None split: prod.split)
qed

text \<open>A full table makes room by age.  An unknown node is admitted exactly when some entry other
  than ours was last heard at a known time more than two hours before the given one; with the
  time 0 every caller of the firmware passes, nothing is ever old, so a full table drops every
  new node.\<close>
lemma full_table_touch:
  assumes "length (db_nodes db) = MAX_NODES" and "get num db = None"
    and "num \<noteq> 0" and "num \<noteq> BROADCAST_ADDR"
  shows "(get num (touch num time snr now db) \<noteq> None
      \<longleftrightarrow> (\<exists>n \<in> set (db_nodes db). n_num n \<noteq> db_our db \<and> n_last_heard n \<noteq> 0
            \<and> STALE_AGE_SECS < sat_sub time (n_last_heard n)))
    \<and> touch num 0 snr now db = db"
proof -
  let ?p = "prune_stale time STALE_AGE_SECS db"
  have stale: "fresh_enough (db_our db) time STALE_AGE_SECS n \<longleftrightarrow> \<not> (n_num n \<noteq> db_our db
      \<and> n_last_heard n \<noteq> 0 \<and> STALE_AGE_SECS < sat_sub time (n_last_heard n))" for n
    by (auto simp: fresh_enough_def)
  have zero: "fresh_enough (db_our db) 0 STALE_AGE_SECS n" for n
    by (simp add: fresh_enough_def sat_sub_def)
  then have "touch num 0 snr now db = db"
    using touch_full [OF assms(1,2), of 0 snr now] prune_count [of 0 STALE_AGE_SECS db]
    by (simp add: prune_stale_def Let_def)
  moreover have "get num (touch num time snr now db) \<noteq> None \<longleftrightarrow> snd ?p \<noteq> 0"
  proof (cases "snd ?p = 0")
    case True
    then show ?thesis using touch_full [OF assms(1,2)] get_prune [OF assms(2)] by simp
  next
    case False
    then have "length (db_nodes (fst ?p)) < MAX_NODES"
      using assms(1) by (simp add: prune_stale_def Let_def)
    from touch_room [OF get_prune [OF assms(2)] this assms(3,4)] False
    show ?thesis using touch_full [OF assms(1,2)] by simp
  qed
  ultimately show ?thesis by (auto simp: prune_count stale)
qed

end
