(* ===== verification/Float32.thy ===== *)
theory Float32
  imports Complex_Main Mesh_Prelude
begin

text \<open>
  \<open>f32\<close> arithmetic of the Rust core library: each operation is the exact result rounded to the
  nearest number with a 24-bit significand, ties to even.  The values of the firmware are finite and far
  from the exponent limits, so a number is its rational value.
\<close>

definition round_even :: "rat \<Rightarrow> int" where
  "round_even x =
     (let f = \<lfloor>x\<rfloor>; d = x - of_int f
      in if d < 1 / 2 then f else if 1 / 2 < d then f + 1 else if even f then f else f + 1)"

fun ilog2 :: "nat \<Rightarrow> nat" where
  "ilog2 n = (if n < 2 then 0 else Suc (ilog2 (n div 2)))"

declare ilog2.simps [simp del]

text \<open>The binary exponent of a positive number: \<open>2 powi exp2 x \<le> x < 2 powi (exp2 x + 1)\<close>.\<close>

definition exp2 :: "rat \<Rightarrow> int" where
  "exp2 x = (if 1 \<le> x then int (ilog2 (nat \<lfloor>x\<rfloor>)) else - int (Suc (ilog2 (nat (\<lceil>1 / x\<rceil> - 1)))))"

definition two_to :: "int \<Rightarrow> rat" where
  "two_to e = (if 0 \<le> e then 2 ^ nat e else 1 / 2 ^ nat (- e))"

definition fl :: "rat \<Rightarrow> rat" where
  "fl x =
     (if x = 0 then 0
      else let u = two_to (exp2 \<bar>x\<bar> - 23)
           in (if x < 0 then - 1 else 1) * of_int (round_even (\<bar>x\<bar> / u)) * u)"

section \<open>Rounding to an integer\<close>

lemma round_even_of_int [simp]: "round_even (of_int n) = n"
  by (simp add: round_even_def)

lemma round_even_mono:
  assumes "x \<le> y" shows "round_even x \<le> round_even y"
proof (cases "\<lfloor>x\<rfloor> = \<lfloor>y\<rfloor>")
  case True
  with assms show ?thesis by (auto simp: round_even_def Let_def)
next
  case False
  with assms have "\<lfloor>x\<rfloor> + 1 \<le> \<lfloor>y\<rfloor>" using floor_mono [OF assms] by simp
  moreover have "round_even x \<le> \<lfloor>x\<rfloor> + 1" "\<lfloor>y\<rfloor> \<le> round_even y"
    by (auto simp: round_even_def Let_def)
  ultimately show ?thesis by linarith
qed

section \<open>Exponents\<close>

lemma ilog2_bounds: "0 < n \<Longrightarrow> 2 ^ ilog2 n \<le> n \<and> n < 2 ^ Suc (ilog2 n)"
proof (induction n rule: ilog2.induct)
  case (1 n)
  show ?case
  proof (cases "n < 2")
    case True
    with "1.prems" show ?thesis by (simp add: ilog2.simps [of n])
  next
    case False
    then have "2 ^ ilog2 (n div 2) \<le> n div 2 \<and> n div 2 < 2 ^ Suc (ilog2 (n div 2))"
      using "1.IH" by simp
    with False show ?thesis by (simp add: ilog2.simps [of n]) linarith
  qed
qed

lemma two_to_pos [simp]: "0 < two_to e"
  by (simp add: two_to_def)

lemma two_to_nonneg [simp]: "0 \<le> two_to e"
  by (simp add: two_to_def)

lemma two_to_Suc: "two_to (e + 1) = 2 * two_to e"
proof (cases "0 \<le> e")
  case True
  then show ?thesis by (simp add: two_to_def nat_add_distrib)
next
  case False
  then have "nat (- e) = Suc (nat (- (e + 1)))" by simp
  with False show ?thesis by (cases "e = - 1") (simp_all add: two_to_def)
qed

lemma two_to_add_nat: "two_to (e + int k) = 2 ^ k * two_to e"
proof (induction k)
  case (Suc k)
  have "two_to (e + int (Suc k)) = two_to ((e + int k) + 1)" by (simp add: algebra_simps)
  also have "\<dots> = 2 * two_to (e + int k)" by (rule two_to_Suc)
  finally show ?case using Suc by simp
qed simp

lemma two_to_mono: "e \<le> f \<Longrightarrow> two_to e \<le> two_to f"
  using two_to_add_nat [of e "nat (f - e)"] one_le_power [of "2 :: rat" "nat (f - e)"]
    mult_right_mono [of 1 "2 ^ nat (f - e)" "two_to e"] two_to_nonneg [of e] by simp

lemma pow2_between:
  assumes "0 < m"
  shows "(2 :: rat) ^ ilog2 m \<le> of_nat m" "of_nat m + 1 \<le> (2 :: rat) ^ Suc (ilog2 m)"
proof -
  from ilog2_bounds [OF assms] have "2 ^ ilog2 m \<le> m" "m + 1 \<le> 2 ^ Suc (ilog2 m)" by simp_all
  then have "(of_nat (2 ^ ilog2 m) :: rat) \<le> of_nat m" "(of_nat (m + 1) :: rat) \<le> of_nat (2 ^ Suc (ilog2 m))"
    by (simp_all only: of_nat_le_iff)
  then show "(2 :: rat) ^ ilog2 m \<le> of_nat m" "of_nat m + 1 \<le> (2 :: rat) ^ Suc (ilog2 m)"
    by simp_all
qed

lemma exp2_bounds:
  assumes "0 < x"
  shows "two_to (exp2 x) \<le> x" "x < two_to (exp2 x + 1)"
proof -
  have "two_to (exp2 x) \<le> x \<and> x < two_to (exp2 x + 1)"
  proof (cases "1 \<le> x")
    case True
    let ?m = "nat \<lfloor>x\<rfloor>"
    have m: "0 < ?m" "of_nat ?m \<le> x" "x < of_nat ?m + 1"
      using True floor_correct [of x] by (simp_all add: le_floor_iff)
    have "(2 :: rat) ^ ilog2 ?m \<le> x" "x < 2 ^ Suc (ilog2 ?m)"
      using pow2_between [OF m(1)] m(2,3) by linarith+
    with True show ?thesis
      by (simp add: exp2_def two_to_def nat_add_distrib)
  next
    case False
    let ?m = "nat (\<lceil>1 / x\<rceil> - 1)"
    have big: "1 < 1 / x" using False assms by simp
    then have c: "1 < \<lceil>1 / x\<rceil>" by (simp add: less_ceiling_iff)
    then have "0 \<le> \<lceil>1 / x\<rceil> - 1" by linarith
    then have eq: "of_nat ?m = of_int \<lceil>1 / x\<rceil> - (1 :: rat)" by (subst of_nat_nat) simp_all
    have m: "0 < ?m" "of_nat ?m < 1 / x" "1 / x \<le> of_nat ?m + 1"
      using c ceiling_correct [of "1 / x"] unfolding eq by simp_all
    let ?k = "ilog2 ?m"
    have lo: "(2 :: rat) ^ ?k < 1 / x" and hi: "1 / x \<le> 2 ^ Suc ?k"
      using pow2_between [OF m(1)] m by linarith+
    have "two_to (exp2 x) = 1 / 2 ^ Suc ?k"
      using False by (simp add: exp2_def two_to_def nat_add_distrib)
    moreover have "two_to (exp2 x + 1) = 1 / 2 ^ ?k"
      using False by (simp add: exp2_def two_to_def)
    moreover have "1 / 2 ^ Suc ?k \<le> x" using hi assms by (simp add: field_simps)
    moreover have "x < 1 / 2 ^ ?k" using lo assms by (simp add: field_simps)
    ultimately show ?thesis by simp
  qed
  then show "two_to (exp2 x) \<le> x" "x < two_to (exp2 x + 1)" by simp_all
qed

section \<open>Rounding to \<open>f32\<close>\<close>

lemma fl_pos:
  assumes "0 < x"
  shows "fl x = of_int (round_even (x / two_to (exp2 x - 23))) * two_to (exp2 x - 23)"
    and "two_to (exp2 x) \<le> fl x" "fl x \<le> two_to (exp2 x + 1)"
proof -
  let ?u = "two_to (exp2 x - 23)"
  show fl: "fl x = of_int (round_even (x / ?u)) * ?u"
    using assms by (simp add: fl_def Let_def)
  have scale: "two_to (exp2 x) = 2 ^ 23 * ?u" "two_to (exp2 x + 1) = 2 ^ 24 * ?u"
    using two_to_add_nat [of "exp2 x - 23" 23] two_to_add_nat [of "exp2 x - 23" 24]
    by (simp_all add: add.commute)
  have "of_int (2 ^ 23) \<le> x / ?u" "x / ?u \<le> of_int (2 ^ 24)"
    using exp2_bounds [OF assms] unfolding scale by (simp_all add: field_simps)
  then have "2 ^ 23 \<le> round_even (x / ?u)" "round_even (x / ?u) \<le> 2 ^ 24"
    using round_even_mono [of "of_int (2 ^ 23)"] round_even_mono [of _ "of_int (2 ^ 24)"]
    unfolding round_even_of_int by blast+
  then have "(2 :: rat) ^ 23 \<le> of_int (round_even (x / ?u))" "of_int (round_even (x / ?u)) \<le> (2 :: rat) ^ 24"
    by (simp_all only: flip: of_int_le_iff [where 'a = rat]) simp_all
  then show "two_to (exp2 x) \<le> fl x" "fl x \<le> two_to (exp2 x + 1)"
    unfolding fl scale using two_to_pos [of "exp2 x - 23"] by (simp_all add: mult_right_mono)
qed

lemma fl_0 [simp]: "fl 0 = 0"
  by (simp add: fl_def)

lemma fl_minus: "fl (- x) = - fl x"
  by (simp add: fl_def Let_def)

lemma exp2_mono:
  assumes "0 < x" "x \<le> y" shows "exp2 x \<le> exp2 y"
proof (rule ccontr)
  assume "\<not> exp2 x \<le> exp2 y"
  then have "two_to (exp2 y + 1) \<le> two_to (exp2 x)" by (intro two_to_mono) simp
  with exp2_bounds [of x] exp2_bounds [of y] assms show False by simp
qed

lemma fl_mono_pos:
  assumes "0 < x" "x \<le> y" shows "fl x \<le> fl y"
proof (cases "exp2 x = exp2 y")
  case True
  have "round_even (x / two_to (exp2 y - 23)) \<le> round_even (y / two_to (exp2 y - 23))"
    using assms by (intro round_even_mono divide_right_mono) simp_all
  then show ?thesis
    using assms True fl_pos(1) [of x] fl_pos(1) [of y] two_to_pos [of "exp2 y - 23"]
    by (simp add: mult_right_mono)
next
  case False
  then have "two_to (exp2 x + 1) \<le> two_to (exp2 y)"
    using exp2_mono [OF assms] by (intro two_to_mono) simp
  with fl_pos(3) [of x] fl_pos(2) [of y] assms show ?thesis by simp
qed

lemma fl_nonneg: "0 \<le> x \<Longrightarrow> 0 \<le> fl x"
  using order_trans [OF two_to_nonneg fl_pos(2), of x] by (cases "x = 0") simp_all

lemma fl_mono: assumes "x \<le> y" shows "fl x \<le> fl y"
proof -
  consider "0 < x" | "x \<le> 0" "0 \<le> y" | "y < 0" by linarith
  then show ?thesis
  proof cases
    case 1
    then show ?thesis using assms by (rule fl_mono_pos)
  next
    case 2
    then have "fl x \<le> 0" using fl_nonneg [of "- x"] by (simp add: fl_minus)
    with fl_nonneg [OF 2(2)] show ?thesis by simp
  next
    case 3
    then have "fl (- y) \<le> fl (- x)" using assms by (intro fl_mono_pos) simp_all
    then show ?thesis by (simp add: fl_minus)
  qed
qed

text \<open>The relative error of one operation is at most \<open>2 ^ -24\<close>.\<close>

lemma round_even_error: "\<bar>of_int (round_even x) - x\<bar> \<le> 1 / 2"
proof -
  have "of_int \<lfloor>x\<rfloor> \<le> x" "x < of_int \<lfloor>x\<rfloor> + 1" using floor_correct [of x] by simp_all
  then show ?thesis by (auto simp: round_even_def Let_def abs_le_iff)
qed

lemma fl_error:
  assumes "0 \<le> x"
  shows "x * (1 - 1 / 2 ^ 24) \<le> fl x" "fl x \<le> x * (1 + 1 / 2 ^ 24)"
proof -
  have "x * (1 - 1 / 2 ^ 24) \<le> fl x \<and> fl x \<le> x * (1 + 1 / 2 ^ 24)"
  proof (cases "x = 0")
    case False
    with assms have pos: "0 < x" by simp
    let ?u = "two_to (exp2 x - 23)"
    have u: "0 < ?u" by simp
    have "2 ^ 23 * ?u \<le> x"
      using exp2_bounds(1) [OF pos] two_to_add_nat [of "exp2 x - 23" 23] by simp
    moreover have "\<bar>of_int (round_even (x / ?u)) * ?u - x\<bar> \<le> ?u / 2"
    proof -
      have "of_int (round_even (x / ?u)) * ?u - x = (of_int (round_even (x / ?u)) - x / ?u) * ?u"
        using less_imp_neq [OF u] by (auto simp: left_diff_distrib)
      then have "\<bar>of_int (round_even (x / ?u)) * ?u - x\<bar> = \<bar>of_int (round_even (x / ?u)) - x / ?u\<bar> * ?u"
        by (simp add: abs_mult)
      also have "\<dots> \<le> 1 / 2 * ?u" using u round_even_error by (intro mult_right_mono) simp_all
      finally show ?thesis by simp
    qed
    then have "of_int (round_even (x / ?u)) * ?u \<le> x + ?u / 2" "x - ?u / 2 \<le> of_int (round_even (x / ?u)) * ?u"
      unfolding abs_le_iff by linarith+
    ultimately show ?thesis
      unfolding fl_pos(1) [OF pos] right_diff_distrib distrib_left by (intro conjI; simp; linarith)
  qed simp
  then show "x * (1 - 1 / 2 ^ 24) \<le> fl x" "fl x \<le> x * (1 + 1 / 2 ^ 24)" by simp_all
qed

lemma fl_of_small:
  "fl 1000 = 1000" "fl 7 = 7" "fl 16 = 16" "fl 8 = 8" "fl 3 = 3" "fl 2 = 2" "fl 10 = 10" "fl 20 = 20"
  by (simp_all add: fl_def exp2_def ilog2.simps two_to_def Let_def round_even_def)

text \<open>The cast of an unsigned integer.\<close>

definition f32_of :: "u32 \<Rightarrow> rat" where
  "f32_of w = fl (of_nat (unat w))"

lemma f32_of_nonneg [simp]: "0 \<le> f32_of w"
  unfolding f32_of_def by (rule fl_nonneg) (rule of_nat_0_le_iff)

lemma f32_of_le: "unat w \<le> n \<Longrightarrow> f32_of w \<le> fl (of_nat n)"
  unfolding f32_of_def by (rule fl_mono) (simp only: of_nat_le_iff)

end
