(* ===== verification/Relay_Delay.thy ===== *)
theory Relay_Delay
  imports Float32 Mesh_Constants Proto
begin

text \<open>
  The rebroadcast contention window of \<open>domain/router.rs\<close> (\<open>map_range\<close> to
  \<open>rebroadcast_delay_ms\<close>), in \<open>f32\<close> arithmetic: how long a node waits before relaying, so
  that routers and nodes with a weak signal go first.
\<close>

definition map_range :: "rat \<Rightarrow> rat \<Rightarrow> rat \<Rightarrow> rat \<Rightarrow> rat \<Rightarrow> rat" where
  "map_range x in_min in_max out_min out_max =
     (let mapped = fl (fl (fl (fl (x - in_min) * fl (out_max - out_min)) / fl (in_max - in_min)) + out_min)
      in min (max mapped (min out_min out_max)) (max out_min out_max))"

definition NUM_SYM_CAD :: rat where "NUM_SYM_CAD = 2"
definition SLOT_TIME_FIXED_MS :: rat where
  "SLOT_TIME_FIXED_MS = fl (fl (fl (2 / 10) + fl (4 / 10)) + 7)"

definition slot_time_ms :: "u8 \<Rightarrow> u32 \<Rightarrow> rat" where
  "slot_time_ms spreading_factor bandwidth_hz =
     (let symbol_time_ms = fl (f32_of (push_bit (unat spreading_factor mod 32) 1)
            / fl (f32_of bandwidth_hz / 1000));
          cad_symbols = (if fl (NUM_SYM_CAD + 1 / 2) < 225 / 100 then 225 / 100 else fl (NUM_SYM_CAD + 1 / 2))
      in fl (fl (cad_symbols * symbol_time_ms) + SLOT_TIME_FIXED_MS))"

text \<open>\<open>f32 as u8\<close> and \<open>as u64\<close> truncate; the values are not negative.\<close>

definition cw_size_from_snr :: "rat \<Rightarrow> u8" where
  "cw_size_from_snr snr = of_nat (nat \<lfloor>map_range snr (fl (of_int SNR_MIN_DBM)) (fl (of_int SNR_MAX_DBM))
     (fl (of_nat CW_MIN)) (fl (of_nat CW_MAX))\<rfloor>)"

definition random_below :: "u32 \<Rightarrow> u32 \<Rightarrow> u32" where
  "random_below raw_random bound = (if bound = 0 then 0 else raw_random mod bound)"

definition rebroadcast_delay_ms :: "i8 \<Rightarrow> device_role \<Rightarrow> u8 \<Rightarrow> u32 \<Rightarrow> u32 \<Rightarrow> nat" where
  "rebroadcast_delay_ms snr role spreading_factor bandwidth_hz raw_random =
     (let slot_ms = slot_time_ms spreading_factor bandwidth_hz;
          cw_size = cw_size_from_snr (of_int (sint snr));
          delay = (if role = Router
            then fl (f32_of (random_below raw_random (2 * ucast cw_size)) * slot_ms)
            else fl (fl (fl (2 * fl (of_nat CW_MAX)) * slot_ms)
                   + fl (f32_of (random_below raw_random (push_bit (unat cw_size mod 32) 1)) * slot_ms)))
      in nat \<lfloor>delay\<rfloor>)"

section \<open>Windows\<close>

lemma cw_size_range: "3 \<le> unat (cw_size_from_snr snr)" "unat (cw_size_from_snr snr) \<le> 8"
proof -
  have c: "fl (of_nat CW_MIN) = 3" "fl (of_nat CW_MAX) = 8" by (simp_all add: const_defs fl_of_small)
  define m where "m = map_range snr (fl (of_int SNR_MIN_DBM)) (fl (of_int SNR_MAX_DBM)) 3 8"
  define k where "k = nat \<lfloor>m\<rfloor>"
  have "3 \<le> m" "m \<le> 8" by (auto simp: m_def map_range_def Let_def)
  then have k: "3 \<le> k" "k \<le> 8" by (simp_all add: k_def nat_le_iff le_nat_iff le_floor_iff floor_le_iff)
  then have "unat (of_nat k :: u8) = k" by (simp add: unat_of_nat)
  then show "3 \<le> unat (cw_size_from_snr snr)" "unat (cw_size_from_snr snr) \<le> 8"
    using k unfolding cw_size_from_snr_def c m_def [symmetric] k_def [symmetric] by simp_all
qed

lemma slot_time_ge: "bandwidth_hz \<noteq> 0 \<Longrightarrow> 7 \<le> slot_time_ms sf bandwidth_hz"
proof -
  have "7 = fl 7" by (simp add: fl_of_small)
  also have "\<dots> \<le> SLOT_TIME_FIXED_MS"
    unfolding SLOT_TIME_FIXED_MS_def by (intro fl_mono) (simp add: fl_nonneg)
  finally have fixed: "7 \<le> SLOT_TIME_FIXED_MS" .
  have "fl 7 \<le> slot_time_ms sf bandwidth_hz"
    unfolding slot_time_ms_def Let_def using fixed
    by (intro fl_mono) (auto intro!: add_increasing fl_nonneg mult_nonneg_nonneg divide_nonneg_nonneg
        simp: NUM_SYM_CAD_def)
  then show ?thesis by (simp add: fl_of_small)
qed

lemma random_below_less: "bound \<noteq> 0 \<Longrightarrow> unat (random_below raw bound) < unat bound"
  by (simp add: random_below_def unat_mod unat_gt_0)

text \<open>Routers relay first.  Whatever the two nodes' signal and random draw, a router's delay is
  strictly shorter than that of a node in any other role under the same modem settings: its whole
  window closes before the other's opens.\<close>
lemma router_relays_first:
  assumes "role \<noteq> Router" and "bandwidth_hz \<noteq> 0"
  shows "rebroadcast_delay_ms snr Router sf bandwidth_hz raw
    < rebroadcast_delay_ms snr' role sf bandwidth_hz raw'"
proof -
  let ?s = "slot_time_ms sf bandwidth_hz"
  let ?cw = "cw_size_from_snr (of_int (sint snr))"
  let ?r = "random_below raw (2 * ucast ?cw)"
  let ?r' = "random_below raw' (push_bit (unat (cw_size_from_snr (of_int (sint snr'))) mod 32) 1)"
  have s: "7 \<le> ?s" by (rule slot_time_ge) (rule assms)
  have two: "unat (2 * ucast ?cw :: u32) = 2 * unat ?cw"
    using cw_size_range [of "of_int (sint snr)"] by (simp add: unat_word_ariths)
  then have "(2 * ucast ?cw :: u32) \<noteq> 0" using cw_size_range [of "of_int (sint snr)"] by (auto simp: unat_eq_zero)
  then have r: "unat ?r \<le> 15"
    using random_below_less [of "2 * ucast ?cw" raw] two cw_size_range(2) [of "of_int (sint snr)"] by simp
  have "f32_of ?r \<le> fl 15" using f32_of_le [OF r] by simp
  moreover have "fl 15 \<le> 15 * (1 + 1 / 2 ^ 24)" by (rule fl_error) simp
  ultimately have "f32_of ?r * ?s \<le> 15 * (1 + 1 / 2 ^ 24) * ?s"
    using s by (intro mult_right_mono) simp_all
  then have "fl (f32_of ?r * ?s) \<le> fl (15 * (1 + 1 / 2 ^ 24) * ?s)" by (rule fl_mono)
  also have "\<dots> \<le> 15 * (1 + 1 / 2 ^ 24) * ?s * (1 + 1 / 2 ^ 24)" using s by (intro fl_error) simp
  finally have lo: "fl (f32_of ?r * ?s) \<le> 15 * (1 + 1 / 2 ^ 24) * (1 + 1 / 2 ^ 24) * ?s" by simp
  let ?w = "fl (fl (2 * fl (of_nat CW_MAX)) * ?s)"
  have w: "?w = fl (16 * ?s)" by (simp add: const_defs fl_of_small)
  have "16 * ?s * (1 - 1 / 2 ^ 24) \<le> ?w" unfolding w using s by (intro fl_error) simp
  moreover have "?w * (1 - 1 / 2 ^ 24) \<le> fl ?w" using s by (intro fl_error fl_nonneg) (simp add: const_defs fl_of_small)
  moreover have "fl ?w \<le> fl (?w + fl (f32_of ?r' * ?s))"
    using s by (intro fl_mono) (simp add: fl_nonneg)
  ultimately have hi: "16 * ?s * (1 - 1 / 2 ^ 24) * (1 - 1 / 2 ^ 24)
      \<le> fl (?w + fl (f32_of ?r' * ?s))" by (simp add: field_simps)
  have "fl (f32_of ?r * ?s) + 1 \<le> fl (?w + fl (f32_of ?r' * ?s))"
    using lo hi s by (simp add: field_simps)
  moreover have "0 \<le> fl (f32_of ?r * ?s)" using s by (simp add: fl_nonneg)
  ultimately show ?thesis
    using assms(1) unfolding rebroadcast_delay_ms_def Let_def
    by (simp add: nat_less_eq_zless) linarith
qed

end
