(* ===== verification/Channels.thy ===== *)
theory Channels
  imports Mesh_Constants
begin

text \<open>
  \<open>domain/channels.rs\<close>: the up to eight channels of a node, their names and keys, and the one-byte
  channel hash that selects a key for a received packet.
\<close>

datatype channel_role = Disabled | Primary | Secondary

record channel_config =
  ch_index :: u8
  ch_name :: bytes
  ch_psk :: bytes
  ch_role :: channel_role

definition CHANNEL_NAME_CAP :: nat where [const_defs]: "CHANNEL_NAME_CAP = 12"
definition PSK_CAP :: nat where [const_defs]: "PSK_CAP = 32"

definition default_primary :: channel_config where
  "default_primary = \<lparr>ch_index = 0, ch_name = [], ch_psk = [0x01], ch_role = Primary\<rparr>"

definition effective_psk :: "channel_config \<Rightarrow> bytes" where
  "effective_psk c =
     (if length (ch_psk c) = 1 \<and> ch_psk c ! 0 = 0x01 then DEFAULT_PSK else ch_psk c)"

definition channel_hash :: "channel_config \<Rightarrow> bytes \<Rightarrow> u8" where
  "channel_hash c preset_name =
     (let effective_name = (if ch_name c = [] then preset_name else ch_name c);
          h = fold (\<lambda>b h. h XOR b) effective_name (0 :: u8)
      in fold (\<lambda>b h. h XOR b) (effective_psk c) h)"

definition is_encrypted :: "channel_config \<Rightarrow> bool" where
  "is_encrypted c \<longleftrightarrow> ch_psk c \<noteq> []"

section \<open>Channel set\<close>

type_synonym channel_set = "channel_config option list"

definition channel_set_new :: channel_set where
  "channel_set_new = (replicate MAX_CHANNELS None)[0 := Some default_primary]"

definition chan_get :: "u8 \<Rightarrow> channel_set \<Rightarrow> channel_config option" where
  "chan_get index cs = (if unat index < length cs then cs ! unat index else None)"

text \<open>\<open>get_mut\<close> followed by a write through the reference.\<close>

definition chan_modify :: "u8 \<Rightarrow> (channel_config \<Rightarrow> channel_config) \<Rightarrow> channel_set \<Rightarrow> channel_set" where
  "chan_modify index f cs =
     (if unat index < length cs then cs[unat index := map_option f (cs ! unat index)] else cs)"

definition chan_set :: "u8 \<Rightarrow> channel_config \<Rightarrow> channel_set \<Rightarrow> channel_set" where
  "chan_set index config cs = (if unat index < MAX_CHANNELS then cs[unat index := Some config] else cs)"

fun flatten :: "'a option list \<Rightarrow> 'a list" where
  "flatten [] = []"
| "flatten (None # xs) = flatten xs"
| "flatten (Some x # xs) = x # flatten xs"

definition find_by_hash :: "u8 \<Rightarrow> bytes \<Rightarrow> channel_set \<Rightarrow> channel_config option" where
  "find_by_hash h preset_name cs =
     find (\<lambda>c. ch_role c \<noteq> Disabled \<and> channel_hash c preset_name = h) (flatten cs)"

definition primary :: "channel_set \<Rightarrow> channel_config option" where
  "primary cs = find (\<lambda>c. ch_role c = Primary) (flatten cs)"

definition active_channels :: "channel_set \<Rightarrow> channel_config list" where
  "active_channels cs = filter (\<lambda>c. ch_role c \<noteq> Disabled) (flatten cs)"

section \<open>Lemmas\<close>

definition channels_ok :: "channel_set \<Rightarrow> bool" where
  "channels_ok cs \<longleftrightarrow> length cs = MAX_CHANNELS
     \<and> (\<forall>i c. i < length cs \<longrightarrow> cs ! i = Some c \<longrightarrow> unat (ch_index c) = i
          \<and> length (ch_name c) \<le> CHANNEL_NAME_CAP \<and> length (ch_psk c) \<le> PSK_CAP)"

lemma set_flatten: "c \<in> set (flatten cs) \<longleftrightarrow> Some c \<in> set cs"
  by (induction cs rule: flatten.induct) auto

lemma channels_ok_new [simp]: "channels_ok channel_set_new"
  by (auto simp: channels_ok_def channel_set_new_def default_primary_def const_defs nth_list_update)

lemma channels_ok_set:
  "\<lbrakk>channels_ok cs; ch_index c = i; length (ch_name c) \<le> CHANNEL_NAME_CAP; length (ch_psk c) \<le> PSK_CAP\<rbrakk>
   \<Longrightarrow> channels_ok (chan_set i c cs)"
  by (auto simp: channels_ok_def chan_set_def nth_list_update)

lemma chan_get_set:
  "channels_ok cs \<Longrightarrow> chan_get j (chan_set i c cs) =
     (if j = i \<and> unat i < MAX_CHANNELS then Some c else chan_get j cs)"
  by (auto simp: chan_get_def chan_set_def channels_ok_def nth_list_update word_unat_eq_iff)

lemma chan_get_index: "\<lbrakk>channels_ok cs; chan_get i cs = Some c\<rbrakk> \<Longrightarrow> ch_index c = i \<and> unat i < MAX_CHANNELS"
  by (auto simp: chan_get_def channels_ok_def word_unat_eq_iff split: if_splits)

text \<open>The hash is the XOR of all bytes of name and key, so a listener needs both to match.\<close>

lemma fold_xor: "fold (\<lambda>b h. h XOR b) xs (h :: u8) = h XOR fold (\<lambda>b h. h XOR b) xs 0"
proof (induction xs arbitrary: h)
  case (Cons b xs)
  show ?case using Cons [of "h XOR b"] Cons [of b] by (simp add: xor.assoc)
qed simp

lemma channel_hash_split:
  "channel_hash c preset =
     fold (\<lambda>b h. h XOR b) (if ch_name c = [] then preset else ch_name c) 0
     XOR fold (\<lambda>b h. h XOR b) (effective_psk c) 0"
  unfolding channel_hash_def Let_def by (rule fold_xor)

definition LONG_FAST :: bytes where
  "LONG_FAST = [0x4C, 0x6F, 0x6E, 0x67, 0x46, 0x61, 0x73, 0x74]"

lemma default_channel_hash: "channel_hash default_primary LONG_FAST = 8"
  by (simp add: channel_hash_def default_primary_def effective_psk_def LONG_FAST_def DEFAULT_PSK_def)

lemma find_flatten:
  "find p (flatten cs) = Some c \<Longrightarrow>
   p c \<and> (\<exists>i < length cs. cs ! i = Some c \<and> (\<forall>j < i. \<forall>d. cs ! j = Some d \<longrightarrow> \<not> p d))"
proof (induction cs rule: flatten.induct)
  case (2 xs)
  then obtain i where "p c" "i < length xs" "xs ! i = Some c" "\<forall>j < i. \<forall>d. xs ! j = Some d \<longrightarrow> \<not> p d"
    by auto
  then show ?case by (intro conjI exI [of _ "Suc i"]) (auto simp: less_Suc_eq_0_disj)
next
  case (3 x xs)
  show ?case
  proof (cases "p x")
    case True
    with 3 show ?thesis by auto
  next
    case False
    with 3 obtain i where "p c" "i < length xs" "xs ! i = Some c" "\<forall>j < i. \<forall>d. xs ! j = Some d \<longrightarrow> \<not> p d"
      by auto
    with False show ?thesis by (intro conjI exI [of _ "Suc i"]) (auto simp: less_Suc_eq_0_disj)
  qed
qed simp

text \<open>Key selection by channel hash.  The channel returned for a received hash is one of the set,
  enabled, with that very hash, and no enabled channel in an earlier slot has it; nothing is
  returned exactly when no enabled channel matches, so a disabled channel's key is never used.\<close>
lemma find_by_hash_spec:
  "(\<forall>c. find_by_hash h preset cs = Some c \<longrightarrow>
      ch_role c \<noteq> Disabled \<and> channel_hash c preset = h
      \<and> (\<exists>i < length cs. cs ! i = Some c
           \<and> (\<forall>j < i. \<forall>d. cs ! j = Some d \<longrightarrow> ch_role d = Disabled \<or> channel_hash d preset \<noteq> h)))
   \<and> (find_by_hash h preset cs = None \<longleftrightarrow>
      (\<forall>c. Some c \<in> set cs \<longrightarrow> ch_role c = Disabled \<or> channel_hash c preset \<noteq> h))"
  using find_flatten [of _ cs] unfolding find_by_hash_def
  by (auto simp: find_None_iff set_flatten) blast+

end
