(* ===== verification/Crypto_PSK.thy ===== *)
theory Crypto_PSK
  imports Mesh_Constants
begin

text \<open>
  \<open>domain/crypto_psk.rs\<close>: channel encryption with AES-CTR.  The block cipher in counter mode is
  the \<open>aes\<close> and \<open>ctr\<close> crates': a parameter \<open>ks\<close> that gives, for a key and an initial counter block,
  a keystream of the length asked for.
\<close>

type_synonym keystream = "bytes \<Rightarrow> bytes \<Rightarrow> nat \<Rightarrow> bytes"

datatype crypto_error = CryptoError

definition build_nonce :: "u32 \<Rightarrow> u32 \<Rightarrow> bytes" where
  "build_nonce packet_id sender =
     write_at 8 (le32 sender) (write_at 0 (le64 (ucast packet_id)) (replicate 16 0))"

text \<open>\<open>copy_psk\<close> returns the filled part of its buffer.\<close>

definition copy_psk :: "bytes \<Rightarrow> bytes" where
  "copy_psk psk = (let len = min (length psk) 32
                   in take len (write_at 0 (take len psk) (replicate 32 0)))"

definition apply_keystream :: "keystream \<Rightarrow> bytes \<Rightarrow> bytes \<Rightarrow> bytes \<Rightarrow> bytes" where
  "apply_keystream ks key nonce data = map2 (\<lambda>b k. b XOR k) data (ks key nonce (length data))"

definition crypt_packet :: "keystream \<Rightarrow> bytes \<Rightarrow> u32 \<Rightarrow> u32 \<Rightarrow> bytes \<Rightarrow> crypto_error + bytes" where
  "crypt_packet ks key packet_id sender data =
     (if data = [] then Inr data
      else let nonce = build_nonce packet_id sender
           in if length key = 16 then Inr (apply_keystream ks key nonce data)
              else if length key = 32 then Inr (apply_keystream ks key nonce data)
              else Inl CryptoError)"

section \<open>Lemmas\<close>

lemma build_nonce_layout:
  "build_nonce packet_id sender = le32 packet_id @ [0, 0, 0, 0] @ le32 sender @ [0, 0, 0, 0]"
proof -
  have "drop_bit 32 (ucast packet_id :: u64) = 0"
    by (rule bit_word_eqI) (auto simp: bit_simps dest: bit_imp_le_length)
  moreover have "(ucast (ucast packet_id :: u64) :: u32) = packet_id"
    by (rule bit_word_eqI) (auto simp: bit_simps)
  ultimately have "le64 (ucast packet_id) = le32 packet_id @ [0, 0, 0, 0]"
    by (simp add: le64_def) (simp add: le32_def)
  then show ?thesis by (simp add: build_nonce_def write_at_def le32_def numeral_eq_Suc)
qed

lemma le32_inj: "le32 a = le32 b \<longleftrightarrow> a = b"
  by (metis of_le32_le32)

lemma copy_psk_short: "length psk \<le> 32 \<Longrightarrow> copy_psk psk = psk"
  by (simp add: copy_psk_def Let_def write_at_def)

definition stream_ok :: "keystream \<Rightarrow> bool" where
  "stream_ok ks \<longleftrightarrow> (\<forall>key nonce n. length (ks key nonce n) = n)"

lemma crypt_length: "\<lbrakk>stream_ok ks; crypt_packet ks key pid s d = Inr e\<rbrakk> \<Longrightarrow> length e = length d"
  unfolding crypt_packet_def apply_keystream_def stream_ok_def Let_def
  by (auto split: if_splits simp del: length_0_conv)

lemma xor_keystream_twice:
  "length k = length d \<Longrightarrow> map2 (\<lambda>b k. b XOR k) (map2 (\<lambda>b k. b XOR k) d k) k = (d :: bytes)"
  by (induction d k rule: list_induct2') (simp_all add: xor.assoc)

lemma crypt_twice:
  assumes "stream_ok ks" "crypt_packet ks key pid s d = Inr e"
  shows "crypt_packet ks key pid s e = Inr d"
proof (cases "d = []")
  case False
  let ?k = "ks key (build_nonce pid s) (length d)"
  have len: "length e = length d" by (rule crypt_length [OF assms])
  have e: "e = map2 (\<lambda>b k. b XOR k) d ?k" and key: "length key = 16 \<or> length key = 32"
    using assms(2) False by (auto simp: crypt_packet_def apply_keystream_def Let_def split: if_splits)
  have "length ?k = length d" using assms(1) by (simp add: stream_ok_def)
  from xor_keystream_twice [OF this] have "map2 (\<lambda>b k. b XOR k) e ?k = d" by (simp only: e)
  moreover have "e \<noteq> []" using len False by auto
  ultimately show ?thesis using key len by (auto simp: crypt_packet_def apply_keystream_def Let_def)
qed (use assms in \<open>simp add: crypt_packet_def\<close>)

text \<open>Channel encryption is its own inverse.  With a 16- or 32-byte key, decrypting what was
  encrypted under the same packet id and sender gives the plaintext back, of the same length;
  any other key length is an error unless there is nothing to encrypt.\<close>
lemma psk_roundtrip:
  assumes "stream_ok ks"
  shows "(length key = 16 \<or> length key = 32 \<longrightarrow>
      (\<exists>e. crypt_packet ks key pid s d = Inr e \<and> length e = length d \<and> crypt_packet ks key pid s e = Inr d))
    \<and> (length key \<noteq> 16 \<and> length key \<noteq> 32 \<and> d \<noteq> [] \<longrightarrow> crypt_packet ks key pid s d = Inl CryptoError)"
proof -
  have "length key = 16 \<or> length key = 32 \<Longrightarrow> \<exists>e. crypt_packet ks key pid s d = Inr e"
    by (auto simp: crypt_packet_def Let_def)
  moreover have "length key \<noteq> 16 \<Longrightarrow> length key \<noteq> 32 \<Longrightarrow> d \<noteq> [] \<Longrightarrow>
      crypt_packet ks key pid s d = Inl CryptoError"
    by (simp add: crypt_packet_def Let_def)
  ultimately show ?thesis
    using crypt_twice [OF assms] crypt_length [OF assms] by blast
qed

definition toy_stream :: keystream where
  "toy_stream key nonce n = map (\<lambda>i. of_nat i + hd key + nonce ! 0) [0..<n]"

text \<open>The counter block of a packet determines its id and its sender, so two packets share a
  keystream under one key only if they share both; bytes 4 to 7 and 12 to 15 are zero.\<close>
lemma psk_nonce_unique:
  "build_nonce pid s = build_nonce pid' s' \<longleftrightarrow> pid = pid' \<and> s = s'"
  by (auto simp: build_nonce_layout le32_inj)

end
