(* ===== verification/Crypto_PKC.thy ===== *)
theory Crypto_PKC
  imports Mesh_Constants Proto
begin

text \<open>
  \<open>domain/crypto_pkc.rs\<close>: direct messages under a key derived from an X25519 exchange, sealed with
  AES-256-CCM.  The primitives of the \<open>x25519-dalek\<close>, \<open>sha2\<close> and \<open>ccm\<close> crates are the record of
  functions \<open>pkc_prims\<close>; a seal yields ciphertext and tag, an open yields the plaintext or fails.
\<close>

record pkc_prims =
  prim_public :: "bytes \<Rightarrow> bytes"
  prim_dh :: "bytes \<Rightarrow> bytes \<Rightarrow> bytes"
  prim_sha256 :: "bytes \<Rightarrow> bytes"
  prim_seal :: "bytes \<Rightarrow> bytes \<Rightarrow> bytes \<Rightarrow> (bytes \<times> bytes) option"
  prim_open :: "bytes \<Rightarrow> bytes \<Rightarrow> bytes \<Rightarrow> bytes \<Rightarrow> bytes option"

datatype pkc_error = BadTag | BadBuffer

definition PKC_TAG_LEN :: nat where [const_defs]: "PKC_TAG_LEN = 8"
definition PKC_EXTRA_NONCE_LEN :: nat where [const_defs]: "PKC_EXTRA_NONCE_LEN = 4"
definition PKC_OVERHEAD :: nat where [const_defs]: "PKC_OVERHEAD = PKC_TAG_LEN + PKC_EXTRA_NONCE_LEN"

definition portnum_allows_pkc :: "i32 \<Rightarrow> bool" where
  "portnum_allows_pkc portnum \<longleftrightarrow>
     portnum \<notin> {TRACEROUTE_APP, NODEINFO_APP, ROUTING_APP, POSITION_APP}"

definition build_pkc_nonce :: "u32 \<Rightarrow> u32 \<Rightarrow> u32 \<Rightarrow> bytes" where
  "build_pkc_nonce packet_id sender extra_nonce =
     write_at 8 (le32 sender) (write_at 4 (le32 extra_nonce) (write_at 0 (le32 packet_id) (replicate 13 0)))"

definition derive_shared_key :: "pkc_prims \<Rightarrow> bytes \<Rightarrow> bytes \<Rightarrow> bytes" where
  "derive_shared_key P my_secret peer_public =
     (let raw = prim_dh P my_secret peer_public in prim_sha256 P raw)"

text \<open>Both return the number of bytes written and the output buffer.\<close>

definition encrypt_pkc ::
  "pkc_prims \<Rightarrow> bytes \<Rightarrow> u32 \<Rightarrow> u32 \<Rightarrow> u32 \<Rightarrow> bytes \<Rightarrow> bytes \<Rightarrow> pkc_error + nat \<times> bytes" where
  "encrypt_pkc P shared_key packet_id sender extra_nonce plaintext out_buf =
     (let needed = length plaintext + PKC_OVERHEAD in
      if length out_buf < needed then Inl BadBuffer
      else let nonce = build_pkc_nonce packet_id sender extra_nonce;
               ct_end = length plaintext + PKC_TAG_LEN
           in case prim_seal P shared_key nonce plaintext of
                None \<Rightarrow> Inl BadBuffer
              | Some (ct, tag) \<Rightarrow>
                  (let out_buf = write_at 0 ct out_buf;
                       out_buf = write_at (length plaintext) tag out_buf;
                       out_buf = write_at ct_end (le32 extra_nonce) out_buf
                   in Inr (needed, out_buf)))"

definition decrypt_pkc ::
  "pkc_prims \<Rightarrow> bytes \<Rightarrow> u32 \<Rightarrow> u32 \<Rightarrow> bytes \<Rightarrow> bytes \<Rightarrow> pkc_error + nat \<times> bytes" where
  "decrypt_pkc P shared_key packet_id sender wire out_buf =
     (if length wire < PKC_OVERHEAD then Inl BadBuffer
      else let body_len = length wire - PKC_OVERHEAD in
        if length out_buf < body_len then Inl BadBuffer
        else let n = length wire;
                 extra_nonce = of_le32 (wire ! (n - 4)) (wire ! (n - 3)) (wire ! (n - 2)) (wire ! (n - 1));
                 ct = take body_len wire;
                 tag = slice body_len (body_len + PKC_TAG_LEN) wire;
                 nonce = build_pkc_nonce packet_id sender extra_nonce
             in case prim_open P shared_key nonce ct tag of
                  None \<Rightarrow> Inl BadTag
                | Some pt \<Rightarrow> Inr (body_len, write_at 0 pt out_buf))"

definition keypair_from_seed :: "pkc_prims \<Rightarrow> bytes \<Rightarrow> bytes \<times> bytes" where
  "keypair_from_seed P seed = (let secret = seed; public = prim_public P secret in (secret, public))"

section \<open>Properties\<close>

text \<open>What the code relies on of the crates: a message within CCM's length limit for a 13-byte nonce is
  sealed into as many bytes and an eight-byte tag, opening inverts sealing and only accepts what
  was sealed, and the exchange is symmetric.\<close>

definition CCM_MAX_LEN :: nat where [const_defs]: "CCM_MAX_LEN = 65535"

definition prims_ok :: "pkc_prims \<Rightarrow> bool" where
  "prims_ok P \<longleftrightarrow>
     (\<forall>k n p. length p \<le> CCM_MAX_LEN \<longrightarrow> (\<exists>c t. prim_seal P k n p = Some (c, t)))
   \<and> (\<forall>k n p c t. prim_seal P k n p = Some (c, t) \<longrightarrow> length c = length p \<and> length t = PKC_TAG_LEN)
   \<and> (\<forall>k n c t p. prim_open P k n c t = Some p \<longleftrightarrow> prim_seal P k n p = Some (c, t))
   \<and> (\<forall>a b. prim_dh P a (prim_public P b) = prim_dh P b (prim_public P a))"

lemma build_pkc_nonce_layout:
  "build_pkc_nonce pid s x = le32 pid @ le32 x @ le32 s @ [0]"
  by (simp add: build_pkc_nonce_def write_at_def le32_def numeral_eq_Suc)

lemma encrypt_pkc_wire:
  assumes "prims_ok P" "length p + PKC_OVERHEAD \<le> length out" "length p \<le> CCM_MAX_LEN"
  obtains ct tag where "prim_seal P k (build_pkc_nonce pid s x) p = Some (ct, tag)"
    "length ct = length p" "length tag = 8"
    "encrypt_pkc P k pid s x p out =
       Inr (length p + PKC_OVERHEAD, ct @ tag @ le32 x @ drop (length p + PKC_OVERHEAD) out)"
proof -
  from assms(1,3) obtain ct tag where c: "prim_seal P k (build_pkc_nonce pid s x) p = Some (ct, tag)"
    unfolding prims_ok_def by blast
  moreover from this assms(1) have "length ct = length p" "length tag = 8"
    unfolding prims_ok_def PKC_TAG_LEN_def by blast+
  moreover have "write_at (length p + 8) (le32 x) (write_at (length p) tag (write_at 0 ct out))
      = ct @ tag @ le32 x @ drop (length p + 12) out"
    using calculation assms(2) by (simp add: write_at_def const_defs add.commute)
  ultimately show thesis
    using assms(2) by (intro that) (auto simp: encrypt_pkc_def Let_def const_defs)
qed

lemma decrypt_wire:
  assumes "length tag = 8"
  shows "decrypt_pkc P k pid s (ct @ tag @ le32 x) out =
    (if length out < length ct then Inl BadBuffer
     else case prim_open P k (build_pkc_nonce pid s x) ct tag of
            None \<Rightarrow> Inl BadTag | Some pt \<Rightarrow> Inr (length ct, write_at 0 pt out))"
  using assms of_le32_le32 [of x]
  by (simp add: decrypt_pkc_def Let_def const_defs nth_append slice_def)

lemma encrypt_pkc_SomeD:
  assumes "prims_ok P" "encrypt_pkc P k pid s x p out = Inr (n, out2)"
  shows "n = length p + PKC_OVERHEAD" "length out2 = length out" "n \<le> length out"
proof -
  from assms(2) obtain ct tag where "prim_seal P k (build_pkc_nonce pid s x) p = Some (ct, tag)"
    and n: "n = length p + PKC_OVERHEAD" "n \<le> length out"
    and out2: "out2 = write_at (length p + PKC_TAG_LEN) (le32 x) (write_at (length p) tag (write_at 0 ct out))"
    by (auto simp: encrypt_pkc_def Let_def split: if_splits option.splits)
  then have "length ct = length p" "length tag = 8"
    using assms(1) unfolding prims_ok_def PKC_TAG_LEN_def by blast+
  with n show "n = length p + PKC_OVERHEAD" "length out2 = length out" "n \<le> length out"
    by (simp_all add: out2 const_defs)
qed

lemma shared_key_sym:
  "prims_ok P \<Longrightarrow> derive_shared_key P b (prim_public P a) = derive_shared_key P a (prim_public P b)"
  by (simp add: derive_shared_key_def prims_ok_def)

lemma encrypt_then_decrypt:
  assumes "prims_ok P" and "length p + PKC_OVERHEAD \<le> length out" and "length p \<le> CCM_MAX_LEN"
  obtains buf where "encrypt_pkc P k pid s x p out = Inr (length p + PKC_OVERHEAD, buf)"
    "length (take (length p + PKC_OVERHEAD) buf) = length p + PKC_OVERHEAD"
    "\<And>out'. length p \<le> length out' \<Longrightarrow>
       decrypt_pkc P k pid s (take (length p + PKC_OVERHEAD) buf) out' = Inr (length p, write_at 0 p out')"
proof -
  obtain ct tag where c: "prim_seal P k (build_pkc_nonce pid s x) p = Some (ct, tag)"
    "length ct = length p" "length tag = 8"
    "encrypt_pkc P k pid s x p out =
       Inr (length p + PKC_OVERHEAD, ct @ tag @ le32 x @ drop (length p + PKC_OVERHEAD) out)"
    using encrypt_pkc_wire [OF assms] by blast
  have wire: "take (length p + PKC_OVERHEAD) (ct @ tag @ le32 x @ drop (length p + PKC_OVERHEAD) out)
      = ct @ tag @ le32 x"
    using c(2,3) by (simp add: const_defs)
  have "prim_open P k (build_pkc_nonce pid s x) ct tag = Some p"
    using assms(1) c(1) by (simp add: prims_ok_def)
  with c(2,3) have "length p \<le> length out' \<Longrightarrow>
      decrypt_pkc P k pid s (ct @ tag @ le32 x) out' = Inr (length p, write_at 0 p out')" for out'
    by (simp add: decrypt_wire)
  then show thesis
    using c(2,3) by (intro that [OF c(4)]) (simp_all only: wire, simp_all add: const_defs)
qed

text \<open>A direct message is recovered by its addressee.  Each side derives the key from its own
  secret and the other's public key; whatever fits the buffer is sealed into exactly 12 more
  bytes, and opening those bytes under the same packet id and sender gives the plaintext back.\<close>
lemma pkc_roundtrip:
  assumes "prims_ok P" and "length p + PKC_OVERHEAD \<le> length out" and "length p \<le> length out'"
    and "length p \<le> CCM_MAX_LEN"
  shows "\<exists>buf. encrypt_pkc P (derive_shared_key P a (prim_public P b)) pid s x p out
        = Inr (length p + PKC_OVERHEAD, buf)
      \<and> (\<exists>plain. decrypt_pkc P (derive_shared_key P b (prim_public P a)) pid s
            (take (length p + PKC_OVERHEAD) buf) out' = Inr (length p, plain) \<and> take (length p) plain = p)"
proof -
  obtain buf where "encrypt_pkc P (derive_shared_key P a (prim_public P b)) pid s x p out
      = Inr (length p + PKC_OVERHEAD, buf)"
    "decrypt_pkc P (derive_shared_key P a (prim_public P b)) pid s (take (length p + PKC_OVERHEAD) buf) out'
      = Inr (length p, write_at 0 p out')"
    using encrypt_then_decrypt [OF assms(1,2,4)] assms(3) by metis
  then show ?thesis by (simp add: shared_key_sym [OF assms(1)])
qed

text \<open>A toy instance: the "ciphertext" is the plaintext, the tag its length and the key's sum.\<close>

definition toy_prims :: pkc_prims where
  "toy_prims = \<lparr>prim_public = id, prim_dh = (\<lambda>a b. [sum_list a * sum_list b]), prim_sha256 = id,
     prim_seal = (\<lambda>k n p. Some (p, [sum_list k, sum_list n, of_nat (length p), 0, 0, 0, 0, 0])),
     prim_open = (\<lambda>k n c t. if t = [sum_list k, sum_list n, of_nat (length c), 0, 0, 0, 0, 0]
                             then Some c else None)\<rparr>"

lemma toy_prims_ok: "prims_ok toy_prims"
  by (auto simp: prims_ok_def toy_prims_def PKC_TAG_LEN_def mult.commute)

lemma list_of_4: "length xs = 4 \<Longrightarrow> xs = [xs ! 0, xs ! 1, xs ! 2, xs ! 3]"
  by (auto simp: eval_nat_numeral length_Suc_conv)

lemma split_wire:
  "12 \<le> length w \<Longrightarrow> w = take (length w - 12) w @ slice (length w - 12) (length w - 12 + 8) w
     @ drop (length w - 4) w"
  using append_take_drop_id [of "length w - 12" w] append_take_drop_id [of 8 "drop (length w - 12) w"]
  by (simp add: slice_def)

lemma encrypt_pkc_wire_of_seal:
  assumes "prim_seal P k (build_pkc_nonce pid s x) p = Some (ct, tag)"
    and "length ct = length p" "length tag = 8" "w = ct @ tag @ le32 x"
  shows "encrypt_pkc P k pid s x p (replicate (length w) 0) = Inr (length w, w)"
  using assms by (simp add: encrypt_pkc_def Let_def const_defs write_at_def)

text \<open>Nothing but an authentic message is accepted.  A wire payload shorter than the overhead is
  rejected, and an accepted one is, byte for byte, what the sealing side would have produced for
  that plaintext, key, packet id, sender and extra nonce.\<close>
lemma pkc_authentic:
  assumes "prims_ok P" and "decrypt_pkc P k pid s wire out = Inr (n, plain)"
  shows "PKC_OVERHEAD \<le> length wire \<and> n + PKC_OVERHEAD = length wire
    \<and> (\<exists>x out2. encrypt_pkc P k pid s x (take n plain) (replicate (length wire) 0) = Inr (length wire, out2)
          \<and> out2 = wire)"
proof -
  let ?b = "length wire - 12"
  let ?ct = "take ?b wire" and ?tag = "slice ?b (?b + 8) wire"
  let ?x = "of_le32 (wire ! (length wire - 4)) (wire ! (length wire - 3)) (wire ! (length wire - 2))
    (wire ! (length wire - 1))"
  have len: "12 \<le> length wire" and n: "n = ?b" and op: "\<exists>pt. prim_open P k (build_pkc_nonce pid s ?x) ?ct ?tag = Some pt
      \<and> plain = write_at 0 pt out \<and> ?b \<le> length out"
    using assms(2) by (auto simp: decrypt_pkc_def Let_def const_defs split: if_splits option.splits)
  then obtain pt where pt: "prim_open P k (build_pkc_nonce pid s ?x) ?ct ?tag = Some pt"
    "plain = write_at 0 pt out" by blast
  then have seal: "prim_seal P k (build_pkc_nonce pid s ?x) pt = Some (?ct, ?tag)"
    using assms(1) unfolding prims_ok_def by blast
  then have "length ?ct = length pt" using assms(1) unfolding prims_ok_def by blast
  then have lpt: "length pt = ?b" by simp
  have "drop (length wire - 4) wire = le32 ?x"
    using list_of_4 [of "drop (length wire - 4) wire"] len by (simp add: Suc_diff_le [symmetric])
  then have wire: "?ct @ ?tag @ le32 ?x = wire"
    using split_wire [OF len] by simp
  have "encrypt_pkc P k pid s ?x pt (replicate (length wire) 0) = Inr (length wire, wire)"
  proof (rule encrypt_pkc_wire_of_seal [OF seal])
  qed (use len lpt wire in \<open>simp_all add: const_defs\<close>)
  moreover have "take n plain = pt"
    using op lpt pt(2) n by (simp add: write_at_def)
  ultimately show ?thesis
    using len n by (auto simp: const_defs)
qed

end
