(* ===== verification/Device.thy ===== *)
theory Device
  imports Radio_Config Channels Proto Crypto_PSK Crypto_PKC
begin

text \<open>
  \<open>domain/device.rs\<close>: the identity and configuration of the node, its packet-id counter and the
  radio parameters derived from it; and \<open>env\<close>, the functions of code outside the repository that
  the firmware calls (ciphers, protobuf encoders and decoders, conversions of generated
  enumerations), an argument of every definition that needs one.
\<close>

record env =
  env_keystream :: keystream
  env_pkc :: pkc_prims
  env_region :: "int \<Rightarrow> region option"
  env_preset :: "int \<Rightarrow> modem_preset option"
  env_preset_num :: "modem_preset \<Rightarrow> u8"
  env_data_enc :: "data_msg \<Rightarrow> bytes"
  env_data_dec :: "bytes \<Rightarrow> data_msg option"

section \<open>Hexadecimal names (\<open>handlers/util.rs\<close>)\<close>

definition hex_digit :: "u8 \<Rightarrow> u8" where
  "hex_digit n = ascii ''0123456789abcdef'' ! unat n"

definition hex_byte :: "u8 \<Rightarrow> bytes" where
  "hex_byte b = [hex_digit (drop_bit 4 b), hex_digit (b AND 0xF)]"

definition build_node_id_string :: "u32 \<Rightarrow> bytes" where
  "build_node_id_string node_num =
     ascii ''!'' @ concat (map (\<lambda>i. hex_byte (ucast (drop_bit (i * 8) node_num))) [3, 2, 1, 0])"

section \<open>Device state\<close>

record device_state =
  my_node_num :: u32
  mac :: bytes
  short_name :: bytes
  long_name :: bytes
  hw_model :: u32
  role :: device_role
  modem_preset :: modem_preset
  region :: u8
  use_preset :: bool
  custom_sf :: u8
  custom_bw_hz :: u32
  custom_cr :: u8
  channel_num :: u32
  hop_limit_cfg :: u8
  tx_enabled :: bool
  config_ok_to_mqtt :: bool
  channels :: channel_set
  packet_id_counter :: u32

definition SHORT_NAME_CAP :: nat where [const_defs]: "SHORT_NAME_CAP = 5"
definition LONG_NAME_CAP :: nat where [const_defs]: "LONG_NAME_CAP = 40"

definition device_new :: "bytes \<Rightarrow> device_state" where
  "device_new m =
     (let num = of_le32 (m ! 5) (m ! 4) (m ! 3) (m ! 2);
          short = concat (map hex_byte (slice 4 6 m));
          long = vec_extend LONG_NAME_CAP (vec_extend LONG_NAME_CAP [] (ascii ''Meshtastic '')) short
      in \<lparr>my_node_num = num, mac = m, short_name = short, long_name = long, hw_model = 43,
          role = Client, modem_preset = LongFast, region = 2, use_preset = True, custom_sf = 11,
          custom_bw_hz = 250000, custom_cr = 5, channel_num = 0, hop_limit_cfg = DEFAULT_HOP_LIMIT,
          tx_enabled = True, config_ok_to_mqtt = False, channels = channel_set_new,
          packet_id_counter = num\<rparr>)"

definition next_packet_id :: "device_state \<Rightarrow> device_state \<times> u32" where
  "next_packet_id dev =
     (let dev = dev\<lparr>packet_id_counter := packet_id_counter dev + 1\<rparr> in (dev, packet_id_counter dev))"

definition lora_params :: "env \<Rightarrow> device_state \<Rightarrow> modem_config \<times> u32" where
  "lora_params E dev =
     (let r = region_from_proto (env_region E) (region dev);
          modem_cfg = (if use_preset dev then preset_config (modem_preset dev)
            else \<lparr>mc_spreading_factor = custom_sf dev, mc_bandwidth_hz = custom_bw_hz dev,
                  mc_coding_rate = custom_cr dev\<rparr>);
          channel_idx = (if channel_num dev \<noteq> 0 then channel_num dev - 1
            else default_channel_index r (modem_preset dev));
          freq = frequency_hz r (mc_bandwidth_hz modem_cfg) channel_idx
      in (modem_cfg, freq))"

section \<open>Well-formedness\<close>

definition device_ok :: "device_state \<Rightarrow> bool" where
  "device_ok dev \<longleftrightarrow> channels_ok (channels dev) \<and> utf8_valid (short_name dev) \<and> utf8_valid (long_name dev)
     \<and> length (short_name dev) \<le> SHORT_NAME_CAP \<and> length (long_name dev) \<le> LONG_NAME_CAP
     \<and> hop_limit_cfg dev \<le> MAX_HOP_LIMIT
     \<and> (\<forall>c. Some c \<in> set (channels dev) \<longrightarrow> utf8_valid (ch_name c))"

lemma hex_digit_ascii: "n \<le> 15 \<Longrightarrow> hex_digit n < 0x80"
proof -
  assume "n \<le> 15"
  then have "unat n < length (ascii ''0123456789abcdef'')" by (simp add: word_le_nat_alt ascii_def)
  moreover have "\<forall>c \<in> set (ascii ''0123456789abcdef''). c < 0x80" by (simp add: ascii_def)
  ultimately show ?thesis unfolding hex_digit_def using nth_mem by blast
qed

lemma hex_byte_ascii: "length (hex_byte b) = 2 \<and> (\<forall>c \<in> set (hex_byte b). c < 0x80)"
proof -
  have "drop_bit 4 b \<le> 15"
    using unat_u8_less [of b] by (simp add: word_le_nat_alt drop_bit_eq_div unat_div)
  moreover have "b AND 15 \<le> 15" by (rule word_and_le1)
  ultimately show ?thesis by (simp add: hex_byte_def hex_digit_ascii)
qed

lemma channel_set_new_default: "Some c \<in> set channel_set_new \<Longrightarrow> c = default_primary"
  using set_update_subset_insert [of "replicate MAX_CHANNELS None" 0 "Some default_primary"]
  by (auto simp: channel_set_new_def)

lemma channel_set_new_name: "Some c \<in> set channel_set_new \<Longrightarrow> utf8_valid (ch_name c)"
  by (drule channel_set_new_default) (simp add: default_primary_def)

lemma device_new_ok: "length m = 6 \<Longrightarrow> device_ok (device_new m)"
proof -
  assume "length m = 6"
  then have s: "slice 4 6 m = [m ! 4, m ! 5]"
    by (auto intro!: nth_equalityI simp: less_Suc_eq numeral_eq_Suc)
  let ?h = "hex_byte (m ! 4) @ hex_byte (m ! 5)"
  have h: "\<forall>b \<in> set ?h. b < 0x80" "length ?h = 4"
    using hex_byte_ascii [of "m ! 4"] hex_byte_ascii [of "m ! 5"] by auto
  have p: "\<forall>b \<in> set (ascii ''Meshtastic ''). b < 0x80" "length (ascii ''Meshtastic '') = 11"
    by (simp_all add: ascii_def)
  have valid: "utf8_valid ?h" "utf8_valid (ascii ''Meshtastic '' @ ?h)"
    using h p by (auto intro!: utf8_valid_ascii)
  have names: "short_name (device_new m) = ?h" "long_name (device_new m) = ascii ''Meshtastic '' @ ?h"
    using p(2) h(2) s by (simp_all add: device_new_def Let_def vec_extend_def const_defs)
  have rest: "channels (device_new m) = channel_set_new" "hop_limit_cfg (device_new m) = 3"
    by (simp_all add: device_new_def Let_def const_defs)
  show ?thesis
    unfolding device_ok_def names rest using valid h(2) p(2)
    by (auto simp: const_defs intro: channel_set_new_name)
qed

end
