(* ===== verification/Seen_Ring.thy ===== *)
theory Seen_Ring
  imports Mesh_Prelude
begin

text \<open>
  A fixed array used as a ring: a write position and a fill count.  \<open>ring_view\<close> is what it
  stores, oldest first; a push appends and, once the ring is full, forgets the oldest.  Both
  duplicate-detection rings of the router refine this bounded queue.
\<close>

definition ring_ok :: "nat \<Rightarrow> 'a list \<Rightarrow> nat \<Rightarrow> nat \<Rightarrow> bool" where
  "ring_ok N slots head cnt \<longleftrightarrow> 0 < N \<and> length slots = N \<and> head < N \<and> cnt \<le> N \<and> (cnt < N \<longrightarrow> head = cnt)"

definition ring_view :: "nat \<Rightarrow> 'a list \<Rightarrow> nat \<Rightarrow> nat \<Rightarrow> 'a list" where
  "ring_view N slots head cnt = (if cnt < N then take cnt slots else drop head slots @ take head slots)"

text \<open>The bounded queue it implements.\<close>

definition fifo_push :: "nat \<Rightarrow> 'a list \<Rightarrow> 'a \<Rightarrow> 'a list" where
  "fifo_push N q x = (if length q < N then q @ [x] else tl q @ [x])"

lemma fifo_push_last_n: "length q \<le> N \<Longrightarrow> 0 < N \<Longrightarrow> fifo_push N q x = drop (Suc (length q) - N) (q @ [x])"
  by (cases q) (auto simp: fifo_push_def)

lemma length_fifo_push: "length q \<le> N \<Longrightarrow> 0 < N \<Longrightarrow> length (fifo_push N q x) \<le> N"
  by (auto simp: fifo_push_def)

lemma ring_ok_push:
  "ring_ok N slots head cnt \<Longrightarrow>
   ring_ok N (slots[head := x]) (Suc head mod N) (if cnt < N then Suc cnt else cnt)"
  by (cases "Suc head = N") (auto simp: ring_ok_def)

lemma ring_view_push:
  assumes "ring_ok N slots head cnt"
  shows "ring_view N (slots[head := x]) (Suc head mod N) (if cnt < N then Suc cnt else cnt)
    = fifo_push N (ring_view N slots head cnt) x"
proof (cases "cnt < N")
  case True
  with assms have "head = cnt" "length slots = N" by (auto simp: ring_ok_def)
  with True show ?thesis
    by (cases "Suc cnt = N") (auto simp: ring_view_def fifo_push_def take_Suc_conv_app_nth upd_conv_take_nth_drop)
next
  case False
  with assms have len: "length slots = N" "head < N" "cnt = N" by (auto simp: ring_ok_def)
  then have "drop head slots = slots ! head # drop (Suc head) slots" by (simp add: Cons_nth_drop_Suc)
  with len False show ?thesis
    by (cases "Suc head = N")
      (auto simp: ring_view_def fifo_push_def take_Suc_conv_app_nth drop_update_cancel
        upd_conv_take_nth_drop)
qed

lemma length_ring_view: "ring_ok N slots head cnt \<Longrightarrow> length (ring_view N slots head cnt) = cnt"
  by (auto simp: ring_ok_def ring_view_def)

lemma set_ring_view: "ring_ok N slots head cnt \<Longrightarrow> set (ring_view N slots head cnt) = set (take cnt slots)"
proof -
  assume ok: "ring_ok N slots head cnt"
  have "set (drop head slots @ take head slots) = set slots"
    by (metis Un_commute append_take_drop_id set_append)
  with ok show ?thesis by (auto simp: ring_ok_def ring_view_def)
qed

lemma map_ring_view: "map f (ring_view N slots head cnt) = ring_view N (map f slots) head cnt"
  by (simp add: ring_view_def take_map drop_map)

end
