(* ===== verification/Mesh_Router.thy ===== *)
theory Mesh_Router
  imports Node_DB Seen_Ring
begin

text \<open>
  \<open>domain/router.rs\<close>: duplicate detection and relay decisions (flooding layer), next-hop routes
  learned from ACKs (next-hop layer), and the retransmission of packets that await an ACK
  (reliable layer).  The clock of a call is its argument \<open>now\<close>.
\<close>

record pending_packet =
  pp_frame :: radio_frame
  pp_packet_id :: u32
  pp_dest :: u32
  pp_sender :: u32
  pp_deadline :: instant
  pp_retries_left :: u8
  pp_is_our_packet :: bool
  pp_ble_notify :: "u32 option"

record packet_record =
  pr_sender :: u32
  pr_packet_id :: u32
  pr_best_hop_limit :: u8
  pr_relayed_by :: "u8 list"
  pr_relayer_count :: u8
  pr_valid :: bool

definition packet_record_default :: packet_record where
  "packet_record_default = \<lparr>pr_sender = 0, pr_packet_id = 0, pr_best_hop_limit = 0,
     pr_relayed_by = replicate MAX_RELAYERS_TRACKED 0, pr_relayer_count = 0, pr_valid = False\<rparr>"

datatype filter_result = New | DuplicateDrop | DuplicateUpgrade u8 | DuplicateCancelRelay

record mesh_router =
  history :: "packet_record list"
  history_head :: nat
  history_count :: nat
  router_node_num :: u32
  opaque_seen :: "(u32 \<times> u32) list"
  opaque_seen_head :: nat
  opaque_seen_count :: nat

definition router_new :: "u32 \<Rightarrow> mesh_router" where
  "router_new our_node_num = \<lparr>history = replicate DUPLICATE_RING_SIZE packet_record_default,
     history_head = 0, history_count = 0, router_node_num = our_node_num,
     opaque_seen = replicate OPAQUE_SEEN_RING_SIZE (0, 0),
     opaque_seen_head = 0, opaque_seen_count = 0\<rparr>"

section \<open>Packet history\<close>

definition find_record :: "u32 \<Rightarrow> u32 \<Rightarrow> mesh_router \<Rightarrow> nat option" where
  "find_record sender packet_id r =
     (let check_count = min (history_count r) DUPLICATE_RING_SIZE
      in position (\<lambda>p. pr_valid p \<and> pr_sender p = sender \<and> pr_packet_id p = packet_id)
           (take check_count (history r)))"

definition record_packet :: "u32 \<Rightarrow> u32 \<Rightarrow> u8 \<Rightarrow> mesh_router \<Rightarrow> mesh_router \<times> nat" where
  "record_packet sender packet_id limit r =
     (let idx = history_head r;
          rec = \<lparr>pr_sender = sender, pr_packet_id = packet_id, pr_best_hop_limit = limit,
                 pr_relayed_by = replicate MAX_RELAYERS_TRACKED 0, pr_relayer_count = 0,
                 pr_valid = True\<rparr>
      in (r\<lparr>history := (history r)[idx := rec],
            history_head := Suc (history_head r) mod DUPLICATE_RING_SIZE,
            history_count := (if history_count r < DUPLICATE_RING_SIZE
                              then Suc (history_count r) else history_count r)\<rparr>, idx))"

definition add_relayer :: "u8 \<Rightarrow> packet_record \<Rightarrow> packet_record" where
  "add_relayer relay_node p =
     (if relay_node = 0 \<or> relay_node = NO_NEXT_HOP then p
      else let cnt = unat (pr_relayer_count p)
           in if \<exists>i < min cnt MAX_RELAYERS_TRACKED. pr_relayed_by p ! i = relay_node then p
              else if cnt < MAX_RELAYERS_TRACKED
                   then p\<lparr>pr_relayed_by := (pr_relayed_by p)[cnt := relay_node],
                          pr_relayer_count := pr_relayer_count p + 1\<rparr>
                   else p)"

section \<open>Flooding layer\<close>

definition should_relay_opaque :: "u32 \<Rightarrow> u32 \<Rightarrow> u8 \<Rightarrow> u8 \<Rightarrow> mesh_router \<Rightarrow> mesh_router \<times> bool" where
  "should_relay_opaque sender packet_id start limit r =
     (let is_originator_retransmit = (0 < start \<and> start = limit);
          check_count = min (opaque_seen_count r) OPAQUE_SEEN_RING_SIZE;
          already_seen = (sender, packet_id) \<in> set (take check_count (opaque_seen r))
      in if already_seen \<and> \<not> is_originator_retransmit then (r, False)
         else if \<not> already_seen then
           (r\<lparr>opaque_seen := (opaque_seen r)[opaque_seen_head r := (sender, packet_id)],
              opaque_seen_head := Suc (opaque_seen_head r) mod OPAQUE_SEEN_RING_SIZE,
              opaque_seen_count := (if opaque_seen_count r < OPAQUE_SEEN_RING_SIZE
                                    then Suc (opaque_seen_count r) else opaque_seen_count r)\<rparr>, True)
         else (r, True))"

definition last_byte :: "u32 \<Rightarrow> u8" where
  "last_byte n = ucast (n AND 0xFF)"

definition role_allows_cancel :: "device_role \<Rightarrow> bool" where
  "role_allows_cancel role \<longleftrightarrow> role \<noteq> Router \<and> role \<noteq> RouterLate"

definition should_filter_received ::
  "u32 \<Rightarrow> u32 \<Rightarrow> u8 \<Rightarrow> u8 \<Rightarrow> u8 option \<Rightarrow> device_role \<Rightarrow> mesh_router \<Rightarrow> mesh_router \<times> filter_result" where
  "should_filter_received sender packet_id limit relay_node pending_limit role r =
     (case find_record sender packet_id r of
        Some idx \<Rightarrow>
          (let r1 = r\<lparr>history := (history r)[idx := add_relayer relay_node (history r ! idx)]\<rparr>;
               upgrade = (case pending_limit of Some pl \<Rightarrow> pl < limit | None \<Rightarrow> False)
           in if upgrade
              then (r1\<lparr>history := (history r1)[idx := (history r1 ! idx)\<lparr>pr_best_hop_limit := limit\<rparr>]\<rparr>,
                    DuplicateUpgrade (limit - 1))
              else if role_allows_cancel role \<and> relay_node \<noteq> 0
                      \<and> relay_node \<noteq> last_byte (router_node_num r)
              then (r1, DuplicateCancelRelay)
              else (r1, DuplicateDrop))
      | None \<Rightarrow>
          (let (r1, idx) = record_packet sender packet_id limit r
           in (r1\<lparr>history := (history r1)[idx := add_relayer relay_node (history r1 ! idx)]\<rparr>, New)))"

definition should_rebroadcast :: "u8 \<Rightarrow> u32 \<Rightarrow> mesh_router \<Rightarrow> u8 option" where
  "should_rebroadcast limit sender r =
     (if sender = router_node_num r then None else if limit = 0 then None else Some (limit - 1))"

section \<open>Next-hop layer\<close>

definition get_next_hop :: "node_db \<Rightarrow> u32 \<Rightarrow> u8 \<Rightarrow> u8" where
  "get_next_hop db dest relay_node =
     (case get dest db of
        Some entry \<Rightarrow>
          (let nh = n_next_hop entry
           in if nh \<noteq> NO_NEXT_HOP \<and> nh \<noteq> relay_node then nh else NO_NEXT_HOP)
      | None \<Rightarrow> NO_NEXT_HOP)"

definition learn_route :: "node_db \<Rightarrow> u32 \<Rightarrow> u8 \<Rightarrow> node_db \<times> bool" where
  "learn_route db from_num relay_node =
     (let next_hop = (if relay_node \<noteq> 0 then relay_node else last_byte from_num)
      in if next_hop = NO_NEXT_HOP then (db, False)
         else case get_or_create from_num db of
           (db1, Some idx) \<Rightarrow>
             (if n_next_hop (db_nodes db1 ! idx) \<noteq> next_hop
              then (modify_at idx (\<lambda>n. n\<lparr>n_next_hop := next_hop\<rparr>) db1, True) else (db1, False))
         | (db1, None) \<Rightarrow> (db1, False))"

definition should_relay_directed :: "u32 \<Rightarrow> u8 \<Rightarrow> mesh_router \<Rightarrow> bool" where
  "should_relay_directed dest next_hop r \<longleftrightarrow>
     (if dest = router_node_num r then True
      else next_hop \<noteq> NO_NEXT_HOP \<and> next_hop = last_byte (router_node_num r))"

section \<open>Reliable layer\<close>

record retransmission_result =
  rr_to_send :: "radio_frame list"
  rr_gave_up :: "(u32 \<times> u32) list"

definition extend_pending_deadlines :: "nat \<Rightarrow> pending_packet list \<Rightarrow> pending_packet list" where
  "extend_pending_deadlines extension = map (\<lambda>p. p\<lparr>pp_deadline := pp_deadline p + extension\<rparr>)"

definition PENDING_CAP :: nat where [const_defs]: "PENDING_CAP = 8"

definition clear_next_hop :: "radio_frame \<Rightarrow> radio_frame" where
  "clear_next_hop frame =
     (case header frame of
        Some hdr \<Rightarrow> (let hdr = hdr\<lparr>h_next_hop := NO_NEXT_HOP\<rparr>
                     in frame\<lparr>fr_data := write_at 0 (encode hdr) (fr_data frame)\<rparr>)
      | None \<Rightarrow> frame)"

text \<open>The loop body for one expired entry with retries left: the entry rearmed, the table with the
  route to the destination cleared on the last retry.\<close>

definition rearm :: "instant \<Rightarrow> pending_packet \<Rightarrow> pending_packet" where
  "rearm now p =
     (let retries_left = pp_retries_left p - 1;
          frame = (if retries_left = 0 then clear_next_hop (pp_frame p) else pp_frame p)
      in p\<lparr>pp_frame := frame, pp_deadline := now + WANT_ACK_TIMEOUT_MS,
           pp_retries_left := retries_left\<rparr>)"

definition fall_back_to_flood :: "pending_packet \<Rightarrow> node_db \<Rightarrow> node_db" where
  "fall_back_to_flood p db =
     (if pp_retries_left p - 1 = 0
      then with_node (pp_dest p) (\<lambda>n. n\<lparr>n_next_hop := NO_NEXT_HOP\<rparr>) db else db)"

function tick_loop :: "instant \<Rightarrow> nat \<Rightarrow> pending_packet list \<Rightarrow> node_db \<Rightarrow> retransmission_result
    \<Rightarrow> pending_packet list \<times> node_db \<times> retransmission_result" where
  "tick_loop now i pending db res =
     (if length pending \<le> i then (pending, db, res)
      else if now < pp_deadline (pending ! i) then tick_loop now (Suc i) pending db res
      else if 0 < pp_retries_left (pending ! i) then
        (let p = rearm now (pending ! i)
         in tick_loop now (Suc i) (pending[i := p]) (fall_back_to_flood (pending ! i) db)
              (res\<lparr>rr_to_send := try_send PENDING_CAP (rr_to_send res) (pp_frame p)\<rparr>))
      else
        (let entry = pending ! i;
             res = (case pp_ble_notify entry of
                      Some notify_dest \<Rightarrow> res\<lparr>rr_gave_up := try_send PENDING_CAP (rr_gave_up res)
                        (notify_dest, pp_packet_id entry)\<rparr>
                    | None \<Rightarrow> res)
         in tick_loop now i (swap_remove i pending) db res))"
  by pat_completeness auto
termination
  by (relation "measure (\<lambda>(now, i, pending, db, res). length pending - i)") auto

declare tick_loop.simps [simp del]

definition tick_retransmissions ::
  "instant \<Rightarrow> pending_packet list \<Rightarrow> node_db \<Rightarrow> pending_packet list \<times> node_db \<times> retransmission_result" where
  "tick_retransmissions now pending db =
     tick_loop now 0 pending db \<lparr>rr_to_send = [], rr_gave_up = []\<rparr>"

section \<open>The duplicate rings are bounded queues\<close>

definition rkey :: "packet_record \<Rightarrow> u32 \<times> u32" where
  "rkey p = (pr_sender p, pr_packet_id p)"

definition seen :: "mesh_router \<Rightarrow> (u32 \<times> u32) list" where
  "seen r = map rkey (ring_view DUPLICATE_RING_SIZE (history r) (history_head r) (history_count r))"

definition seen_opaque :: "mesh_router \<Rightarrow> (u32 \<times> u32) list" where
  "seen_opaque r =
     ring_view OPAQUE_SEEN_RING_SIZE (opaque_seen r) (opaque_seen_head r) (opaque_seen_count r)"

definition router_ok :: "mesh_router \<Rightarrow> bool" where
  "router_ok r \<longleftrightarrow> ring_ok DUPLICATE_RING_SIZE (history r) (history_head r) (history_count r)
     \<and> ring_ok OPAQUE_SEEN_RING_SIZE (opaque_seen r) (opaque_seen_head r) (opaque_seen_count r)
     \<and> (\<forall>p \<in> set (take (history_count r) (history r)). pr_valid p)"

lemma router_new_ok [simp]: "router_ok (router_new n)"
  by (simp add: router_ok_def router_new_def ring_ok_def)

lemma seen_new [simp]: "seen (router_new n) = []" "seen_opaque (router_new n) = []"
  by (simp_all add: seen_def seen_opaque_def router_new_def ring_view_def)

lemma rkey_add_relayer [simp]: "rkey (add_relayer b p) = rkey p" "pr_valid (add_relayer b p) = pr_valid p"
  by (simp_all add: add_relayer_def rkey_def Let_def)

lemma rkey_best [simp]: "rkey (p\<lparr>pr_best_hop_limit := l\<rparr>) = rkey p"
  by (simp add: rkey_def)

lemma find_record_iff:
  assumes "router_ok r"
  shows "find_record s i r = None \<longleftrightarrow> (s, i) \<notin> set (seen r)"
  using assms set_ring_view [of DUPLICATE_RING_SIZE "history r" "history_head r" "history_count r"]
  by (auto simp: find_record_def Let_def router_ok_def seen_def rkey_def ring_ok_def image_iff)

lemma find_record_SomeD:
  assumes "router_ok r" "find_record s i r = Some idx"
  shows "idx < history_count r" "idx < length (history r)" "rkey (history r ! idx) = (s, i)"
  using position_SomeD [OF assms(2) [unfolded find_record_def Let_def]] assms(1)
  by (auto simp: router_ok_def ring_ok_def rkey_def)

lemma set_take_update:
  "x \<in> set (take n (xs[i := y])) \<Longrightarrow> x \<in> set (take n xs) \<or> x = y"
  by (metis set_update_memI take_update_swap insertE set_update_subset_insert subsetD)

text \<open>Rewriting a recorded packet in place changes neither the keys nor the shape of the ring.\<close>

lemma history_update:
  assumes "router_ok r" "i < length (history r)" "rkey y = rkey (history r ! i)" "pr_valid y"
  shows "router_ok (r\<lparr>history := (history r)[i := y]\<rparr>)"
    and "seen (r\<lparr>history := (history r)[i := y]\<rparr>) = seen r"
proof -
  show "router_ok (r\<lparr>history := (history r)[i := y]\<rparr>)"
    using assms by (auto simp: router_ok_def ring_ok_def dest: set_take_update)
  have "map rkey ((history r)[i := y]) = map rkey (history r)"
    using assms by (simp add: map_update list_update_same_conv)
  then show "seen (r\<lparr>history := (history r)[i := y]\<rparr>) = seen r"
    by (simp add: seen_def map_ring_view)
qed

lemma record_packet_spec:
  assumes "router_ok r" "record_packet s i l r = (r', idx)"
  shows "router_ok r'" "seen r' = fifo_push DUPLICATE_RING_SIZE (seen r) (s, i)"
    "idx < length (history r')" "pr_valid (history r' ! idx)" "rkey (history r' ! idx) = (s, i)"
    "seen_opaque r' = seen_opaque r" "router_node_num r' = router_node_num r"
proof -
  let ?x = "\<lparr>pr_sender = s, pr_packet_id = i, pr_best_hop_limit = l,
    pr_relayed_by = replicate MAX_RELAYERS_TRACKED 0, pr_relayer_count = 0, pr_valid = True\<rparr>"
  have ring: "ring_ok DUPLICATE_RING_SIZE (history r) (history_head r) (history_count r)"
    using assms(1) by (simp add: router_ok_def)
  have r': "r' = r\<lparr>history := (history r)[history_head r := ?x],
      history_head := Suc (history_head r) mod DUPLICATE_RING_SIZE,
      history_count := (if history_count r < DUPLICATE_RING_SIZE
        then Suc (history_count r) else history_count r)\<rparr>" and idx: "idx = history_head r"
    using assms(2) by (auto simp: record_packet_def Let_def)
  have "\<forall>p \<in> set (take (history_count r') (history r')). pr_valid p"
    using assms(1) ring set_take_update [of _ _ "history r" "history_head r" ?x]
    by (fastforce simp: r' router_ok_def ring_ok_def take_Suc_conv_app_nth)
  then show "router_ok r'"
    using assms(1) ring_ok_push [OF ring] by (simp add: r' router_ok_def)
  show "seen r' = fifo_push DUPLICATE_RING_SIZE (seen r) (s, i)"
    using ring_view_push [OF ring, of ?x]
    by (simp add: r' seen_def) (simp add: fifo_push_def rkey_def map_tl)
  show "idx < length (history r')" "pr_valid (history r' ! idx)" "rkey (history r' ! idx) = (s, i)"
    using ring by (simp_all add: r' idx ring_ok_def rkey_def)
qed (use assms(2) in \<open>auto simp: record_packet_def Let_def seen_opaque_def\<close>)

lemma filter_state:
  assumes "router_ok r"
  shows "router_ok (fst (should_filter_received s i l rn pl role r))"
    and "seen (fst (should_filter_received s i l rn pl role r)) =
      (if (s, i) \<in> set (seen r) then seen r else fifo_push DUPLICATE_RING_SIZE (seen r) (s, i))"
    and "snd (should_filter_received s i l rn pl role r) = New \<longleftrightarrow> (s, i) \<notin> set (seen r)"
    and "seen_opaque (fst (should_filter_received s i l rn pl role r)) = seen_opaque r"
    and "router_node_num (fst (should_filter_received s i l rn pl role r)) = router_node_num r"
proof -
  let ?out = "should_filter_received s i l rn pl role r"
  have "router_ok (fst ?out) \<and> seen (fst ?out) =
      (if (s, i) \<in> set (seen r) then seen r else fifo_push DUPLICATE_RING_SIZE (seen r) (s, i))
    \<and> (snd ?out = New \<longleftrightarrow> (s, i) \<notin> set (seen r)) \<and> seen_opaque (fst ?out) = seen_opaque r
    \<and> router_node_num (fst ?out) = router_node_num r"
  proof (cases "find_record s i r")
    case None
    obtain r1 idx where rec: "record_packet s i l r = (r1, idx)" by fastforce
    note spec = record_packet_spec [OF assms rec]
    have "(s, i) \<notin> set (seen r)" using None find_record_iff [OF assms] by blast
    then show ?thesis
      using None rec spec history_update [OF spec(1,3), of "add_relayer rn (history r1 ! idx)"]
      by (simp add: should_filter_received_def seen_opaque_def)
  next
    case (Some idx)
    note d = find_record_SomeD [OF assms Some]
    have inn: "(s, i) \<in> set (seen r)" using Some find_record_iff [OF assms] by (metis option.distinct(1))
    have valid: "pr_valid (history r ! idx)"
      using assms d(1,2) by (force simp: router_ok_def in_set_conv_nth)
    let ?y = "add_relayer rn (history r ! idx)"
    note u1 = history_update [OF assms d(2), of ?y] history_update [OF assms d(2), of "?y\<lparr>pr_best_hop_limit := l\<rparr>"]
    show ?thesis
      using Some u1 valid inn d(2)
      by (auto simp: should_filter_received_def Let_def seen_opaque_def split: option.split)
  qed
  then show "router_ok (fst ?out)" "seen (fst ?out) =
      (if (s, i) \<in> set (seen r) then seen r else fifo_push DUPLICATE_RING_SIZE (seen r) (s, i))"
    "snd ?out = New \<longleftrightarrow> (s, i) \<notin> set (seen r)" "seen_opaque (fst ?out) = seen_opaque r"
    "router_node_num (fst ?out) = router_node_num r"
    by blast+
qed

lemma filter_decision:
  assumes "router_ok r"
  shows "snd (should_filter_received s i l rn pl role r) =
    (if (s, i) \<notin> set (seen r) then New
     else if \<exists>p. pl = Some p \<and> p < l then DuplicateUpgrade (l - 1)
     else if role_allows_cancel role \<and> rn \<noteq> 0 \<and> rn \<noteq> last_byte (router_node_num r)
     then DuplicateCancelRelay else DuplicateDrop)"
  using find_record_iff [OF assms, of s i]
  by (auto simp: should_filter_received_def Let_def split: option.split prod.split)

lemma opaque_state:
  assumes "router_ok r"
  shows "router_ok (fst (should_relay_opaque s i st l r))"
    and "seen (fst (should_relay_opaque s i st l r)) = seen r"
    and "seen_opaque (fst (should_relay_opaque s i st l r)) =
      (if (s, i) \<in> set (seen_opaque r) then seen_opaque r
       else fifo_push OPAQUE_SEEN_RING_SIZE (seen_opaque r) (s, i))"
    and "snd (should_relay_opaque s i st l r) \<longleftrightarrow> (s, i) \<notin> set (seen_opaque r) \<or> (0 < st \<and> st = l)"
    and "router_node_num (fst (should_relay_opaque s i st l r)) = router_node_num r"
    and "history (fst (should_relay_opaque s i st l r)) = history r"
proof -
  have ring: "ring_ok OPAQUE_SEEN_RING_SIZE (opaque_seen r) (opaque_seen_head r) (opaque_seen_count r)"
    using assms by (simp add: router_ok_def)
  have mem: "(s, i) \<in> set (take (min (opaque_seen_count r) OPAQUE_SEEN_RING_SIZE) (opaque_seen r))
      \<longleftrightarrow> (s, i) \<in> set (seen_opaque r)"
    using set_ring_view [OF ring] ring by (simp add: seen_opaque_def ring_ok_def min_def)
  note push = ring_ok_push [OF ring, of "(s, i)"] ring_view_push [OF ring, of "(s, i)"]
  show "router_ok (fst (should_relay_opaque s i st l r))"
    using assms push(1) by (simp add: should_relay_opaque_def Let_def router_ok_def)
  show "seen_opaque (fst (should_relay_opaque s i st l r)) =
      (if (s, i) \<in> set (seen_opaque r) then seen_opaque r
       else fifo_push OPAQUE_SEEN_RING_SIZE (seen_opaque r) (s, i))"
    using push(2) by (cases "(s, i) \<in> set (seen_opaque r)")
      (simp_all add: should_relay_opaque_def Let_def mem,
       auto simp: seen_opaque_def)
  show "snd (should_relay_opaque s i st l r) \<longleftrightarrow> (s, i) \<notin> set (seen_opaque r) \<or> (0 < st \<and> st = l)"
    by (auto simp: should_relay_opaque_def Let_def mem)
qed (simp_all add: should_relay_opaque_def Let_def seen_def)

section \<open>Properties of the flooding layer\<close>

text \<open>C15: the history array with its head and count implements a queue of the last
  \<open>DUPLICATE_RING_SIZE\<close> distinct packets: a packet is reported new exactly when it is not among
  them, a new packet is appended (pushing out the oldest of a full queue), a duplicate leaves the
  queue as it is, and the opaque ring is never touched.\<close>
theorem dedup_refines_queue:
  assumes "router_ok r"
  shows "router_ok (fst (should_filter_received s i l rn pl role r))
    \<and> (snd (should_filter_received s i l rn pl role r) = New \<longleftrightarrow> (s, i) \<notin> set (seen r))
    \<and> seen (fst (should_filter_received s i l rn pl role r)) =
        (if (s, i) \<in> set (seen r) then seen r else fifo_push DUPLICATE_RING_SIZE (seen r) (s, i))
    \<and> seen_opaque (fst (should_filter_received s i l rn pl role r)) = seen_opaque r"
  by (simp add: filter_state [OF assms])

lemma dedup_refines_queue_witness:
  "snd (should_filter_received 7 9 3 0 None Client (router_new 1)) = New
   \<and> seen (fst (should_filter_received 7 9 3 0 None Client (router_new 1))) = [(7, 9)]"
  using dedup_refines_queue [OF router_new_ok, of 7 9 3 0 None Client 1]
  by (simp add: fifo_push_def)

type_synonym heard_packet = "u32 \<times> u32 \<times> u8 \<times> u8 \<times> u8 option \<times> device_role"

definition hear :: "heard_packet \<Rightarrow> mesh_router \<Rightarrow> mesh_router" where
  "hear p r = (case p of (s, i, l, rn, pl, role) \<Rightarrow> fst (should_filter_received s i l rn pl role r))"

definition recent :: "nat \<Rightarrow> 'a \<Rightarrow> 'a list \<Rightarrow> bool" where
  "recent k x q \<longleftrightarrow> (\<exists>a b. q = a @ x # b \<and> length b \<le> k)"

lemma recent_push:
  assumes "recent k x q" "length q \<le> N" "Suc k < N"
  shows "recent (Suc k) x (fifo_push N q y)"
proof -
  from assms(1) obtain a b where q: "q = a @ x # b" and b: "length b \<le> k" by (auto simp: recent_def)
  have "fifo_push N q y = a @ x # b @ [y] \<or> (a \<noteq> [] \<and> fifo_push N q y = tl a @ x # b @ [y])"
    using assms(2,3) b unfolding q by (cases a) (auto simp: fifo_push_def)
  then obtain c where "fifo_push N q y = c @ x # b @ [y]" by blast
  then show ?thesis
    using b unfolding recent_def by (intro exI [of _ c] exI [of _ "b @ [y]"]) simp
qed

lemma length_seen: "router_ok r \<Longrightarrow> length (seen r) \<le> DUPLICATE_RING_SIZE"
  by (auto simp: seen_def length_ring_view router_ok_def) (simp add: ring_ok_def)

lemma hear_recent:
  assumes "router_ok r" "recent k x (seen r)" "k + length ps < DUPLICATE_RING_SIZE"
  shows "router_ok (fold hear ps r) \<and> recent (k + length ps) x (seen (fold hear ps r))"
  using assms
proof (induction ps arbitrary: r k)
  case (Cons p ps)
  obtain s i l rn pl role where p: "p = (s, i, l, rn, pl, role)" by (cases p) auto
  have "router_ok (hear p r)" using filter_state(1) [OF Cons.prems(1)] by (simp add: hear_def p)
  moreover have "recent (Suc k) x (seen (hear p r))"
    using filter_state(2) [OF Cons.prems(1)] recent_push [OF Cons.prems(2) length_seen] Cons.prems
    by (auto simp: hear_def p recent_def intro: le_SucI)
  ultimately show ?case using Cons.IH [of "hear p r" "Suc k"] Cons.prems(3) by simp
qed simp

text \<open>A packet heard for the first time is recognised as a duplicate for at least the next
  \<open>DUPLICATE_RING_SIZE - 1\<close> receptions, whatever they are: no flood of other packets shorter
  than the ring makes the node process or relay it twice.\<close>
lemma duplicate_window:
  assumes "router_ok r" and "snd (should_filter_received s i l rn pl role r) = New"
    and "length ps < DUPLICATE_RING_SIZE"
  shows "snd (should_filter_received s i l' rn' pl' role'
           (fold hear ps (fst (should_filter_received s i l rn pl role r)))) \<noteq> New"
proof -
  let ?r1 = "fst (should_filter_received s i l rn pl role r)"
  note st = filter_state [OF assms(1), of s i l rn pl role]
  have "recent 0 (s, i) (seen ?r1)"
    using st(2,3) assms(2) by (auto simp: recent_def fifo_push_def)
  from hear_recent [OF st(1) this, of ps] assms(3)
  have "router_ok (fold hear ps ?r1)" "(s, i) \<in> set (seen (fold hear ps ?r1))"
    by (auto simp: recent_def)
  then show ?thesis using filter_state(3) by blast
qed

text \<open>The relay decision on a duplicate.  An upgrade is taken only for a copy with more hops left
  than our pending relay, and never underflows or lowers that relay; routers never cancel; a
  cancellation needs a relay byte of another node; a new packet is always \<open>New\<close>.\<close>
lemma duplicate_decision:
  assumes "router_ok r" and "snd (should_filter_received s i l rn pl role r) = d"
  shows "(d = DuplicateCancelRelay \<longrightarrow> role \<noteq> Router \<and> role \<noteq> RouterLate \<and> rn \<noteq> 0
            \<and> rn \<noteq> last_byte (router_node_num r) \<and> (s, i) \<in> set (seen r))
    \<and> (\<forall>h. d = DuplicateUpgrade h \<longrightarrow> (\<exists>p. pl = Some p \<and> p \<le> h \<and> unat h + 1 = unat l))
    \<and> (d = DuplicateDrop \<longrightarrow> (s, i) \<in> set (seen r))"
proof -
  have "p < l \<Longrightarrow> p \<le> l - 1 \<and> unat (l - 1) + 1 = unat l" for p :: u8
    by (cases "l = 0") (auto simp: word_le_nat_alt word_less_nat_alt unat_minus_one)
  then show ?thesis
    using assms(2) unfolding filter_decision [OF assms(1)] role_allows_cancel_def
    by (auto split: if_splits)
qed

text \<open>Unauthenticated traffic is isolated.  The opaque seen-set only decides its own relays: the
  first copy and an originator's retransmission go out, other repeats do not; it never touches
  the authenticated history, so it cannot cancel, upgrade or suppress a verified packet.\<close>
lemma opaque_isolated:
  assumes "router_ok r"
  shows "router_ok (fst (should_relay_opaque s i st l r))
    \<and> history (fst (should_relay_opaque s i st l r)) = history r
    \<and> seen (fst (should_relay_opaque s i st l r)) = seen r
    \<and> (snd (should_relay_opaque s i st l r) \<longleftrightarrow> (s, i) \<notin> set (seen_opaque r) \<or> (0 < st \<and> st = l))
    \<and> seen_opaque (fst (should_relay_opaque s i st l r)) =
        (if (s, i) \<in> set (seen_opaque r) then seen_opaque r
         else fifo_push OPAQUE_SEEN_RING_SIZE (seen_opaque r) (s, i))"
  by (simp add: opaque_state [OF assms])

section \<open>Properties of the next-hop layer\<close>

lemma learn_route_cases:
  assumes ok: "db_ok db" and "learn_route db src rn = (db', news)"
    and "(if rn \<noteq> 0 then rn else last_byte src) \<noteq> 0"
  defines "hop \<equiv> (if rn \<noteq> 0 then rn else last_byte src)"
  shows "(get src db' = None \<or> (\<exists>n. get src db' = Some n \<and> n_next_hop n = hop))
    \<and> (\<forall>k. k \<noteq> src \<longrightarrow> get k db' = get k db)
    \<and> (news \<longrightarrow> get src db' \<noteq> None \<and> (\<forall>n. get src db = Some n \<longrightarrow> n_next_hop n \<noteq> hop))"
proof (cases "get_or_create src db")
  case (Pair db1 r)
  note goc = get_get_or_create [of _ src db, unfolded Pair, simplified]
  have lr: "learn_route db src rn = (case r of
      Some idx \<Rightarrow> (if n_next_hop (db_nodes db1 ! idx) \<noteq> hop
         then (modify_at idx (\<lambda>n. n\<lparr>n_next_hop := hop\<rparr>) db1, True) else (db1, False))
    | None \<Rightarrow> (db1, False))"
    using assms(3) Pair unfolding learn_route_def Let_def hop_def [symmetric] NO_NEXT_HOP_def by simp
  show ?thesis
  proof (cases r)
    case None
    have "get src db1 = None"
      using ndb.ensure_present [OF ok, of src] Pair None by (simp add: ensure_node_def)
    then show ?thesis using goc lr None assms(2) by (auto split: option.splits)
  next
    case (Some idx)
    note m = goc_modify [OF Pair [unfolded Some], of "\<lambda>n. n\<lparr>n_next_hop := hop\<rparr>", simplified]
    have e: "get src db1 = Some (db_nodes db1 ! idx)"
      using get_or_create_SomeD [OF Pair [unfolded Some]] by (simp add: get_def find_position)
    have old: "get src db = Some n \<Longrightarrow> n = db_nodes db1 ! idx" for n
      using goc [of src] e by (auto split: option.splits)
    have other: "k \<noteq> src \<Longrightarrow> get k db1 = get k db" for k
      using goc [of k] by (simp split: option.splits)
    show ?thesis
    proof (cases "n_next_hop (db_nodes db1 ! idx) = hop")
      case True
      then show ?thesis using lr Some assms(2) e other by simp
    next
      case False
      then show ?thesis using lr Some assms(2) m(1) e other old by auto
    qed
  qed
qed

text \<open>A route learned from an ACK is the one used afterwards.  Unless the table is full or the
  number reserved, the next packet to that node is directed at the relay the ACK came through (or
  at the node itself when it was heard directly); routes to other nodes are unchanged; a packet is
  never sent back to the relay it came from; and the result says whether the route is news.\<close>
lemma learned_route_used:
  assumes "db_ok db" and "learn_route db src rn = (db', news)"
  defines "hop \<equiv> (if rn \<noteq> 0 then rn else last_byte src)"
  shows "(get src db' \<noteq> None \<longrightarrow> hop \<noteq> 0 \<longrightarrow> get_next_hop db' src via = (if via = hop then 0 else hop))
    \<and> (\<forall>k. k \<noteq> src \<longrightarrow> get k db' = get k db)
    \<and> (get_next_hop db' k via = via \<longrightarrow> via = 0)
    \<and> (news \<longrightarrow> (\<exists>n. get src db' = Some n \<and> n_next_hop n = hop)
          \<and> (\<forall>n. get src db = Some n \<longrightarrow> n_next_hop n \<noteq> hop))"
proof -
  have no_return: "get_next_hop db' k via = via \<Longrightarrow> via = 0"
    by (auto simp: get_next_hop_def Let_def NO_NEXT_HOP_def split: option.splits if_splits)
  show ?thesis
  proof (cases "hop = 0")
    case True
    then have "db' = db" "\<not> news"
      using assms(2) by (auto simp: learn_route_def hop_def NO_NEXT_HOP_def Let_def split: if_splits)
    with True no_return show ?thesis by simp
  next
    case False
    from learn_route_cases [OF assms(1,2) False [unfolded hop_def]] no_return show ?thesis
      unfolding hop_def [symmetric] using False
      by (auto simp: get_next_hop_def NO_NEXT_HOP_def)
  qed
qed

section \<open>Properties of the reliable layer\<close>

definition due :: "instant \<Rightarrow> pending_packet \<Rightarrow> bool" where
  "due now p \<longleftrightarrow> \<not> now < pp_deadline p"

definition resend :: "instant \<Rightarrow> pending_packet \<Rightarrow> bool" where
  "resend now p \<longleftrightarrow> due now p \<and> 0 < pp_retries_left p"

definition give_up :: "instant \<Rightarrow> pending_packet \<Rightarrow> bool" where
  "give_up now p \<longleftrightarrow> due now p \<and> pp_retries_left p = 0"

definition reports :: "pending_packet \<Rightarrow> (u32 \<times> u32) multiset" where
  "reports p = (case pp_ble_notify p of Some d \<Rightarrow> {#(d, pp_packet_id p)#} | None \<Rightarrow> {#})"

definition floods :: "instant \<Rightarrow> pending_packet \<Rightarrow> bool" where
  "floods now p \<longleftrightarrow> resend now p \<and> pp_retries_left p = 1"

lemma minus_one_zero [simp]: "(w :: u8) - 1 = 0 \<longleftrightarrow> w = 1"
  by (simp add: diff_eq_eq)

lemma get_flood: "get k (fall_back_to_flood p db) =
   (if pp_retries_left p = 1 \<and> k = pp_dest p
    then map_option (\<lambda>n. n\<lparr>n_next_hop := NO_NEXT_HOP\<rparr>) (get k db) else get k db)"
  by (simp add: fall_back_to_flood_def with_node_props)

lemma tick_loop_spec:
  assumes "tick_loop now i pending db res = (pending', db', res')"
    and "i \<le> length pending" and "length (rr_to_send res) + (length pending - i) \<le> PENDING_CAP"
    and "length (rr_gave_up res) + (length pending - i) \<le> PENDING_CAP"
  shows "mset pending' = mset (take i pending) + filter_mset (\<lambda>p. \<not> due now p) (mset (drop i pending))
      + image_mset (rearm now) (filter_mset (resend now) (mset (drop i pending)))
    \<and> mset (rr_to_send res') = mset (rr_to_send res)
      + image_mset (\<lambda>p. pp_frame (rearm now p)) (filter_mset (resend now) (mset (drop i pending)))
    \<and> mset (rr_gave_up res') = mset (rr_gave_up res)
      + sum_mset (image_mset reports (filter_mset (give_up now) (mset (drop i pending))))
    \<and> (\<forall>k. get k db' = (if \<exists>p \<in># mset (drop i pending). floods now p \<and> pp_dest p = k
        then map_option (\<lambda>n. n\<lparr>n_next_hop := NO_NEXT_HOP\<rparr>) (get k db) else get k db))"
  using assms
proof (induction now i pending db res rule: tick_loop.induct)
  case (1 now i pending db res)
  show ?case
  proof (cases "length pending \<le> i")
    case True
    with "1.prems" show ?thesis by (subst (asm) tick_loop.simps) simp
  next
    case False
    then have i: "i < length pending" by simp
    let ?p = "pending ! i"
    have split: "mset (drop i pending) = add_mset ?p (mset (drop (Suc i) pending))"
      using Cons_nth_drop_Suc [OF i] by (metis mset.simps(2))
    have take: "mset (take (Suc i) pending) = add_mset ?p (mset (take i pending))"
      by (simp add: take_Suc_conv_app_nth i)
    consider "now < pp_deadline ?p" | "\<not> now < pp_deadline ?p" "0 < pp_retries_left ?p"
      | "\<not> now < pp_deadline ?p" "pp_retries_left ?p = 0"
      by (metis word_gt_0)
    then show ?thesis
    proof cases
      case 1
      have run: "tick_loop now (Suc i) pending db res = (pending', db', res')"
        using "1.prems"(1) i 1 by (subst (asm) tick_loop.simps) simp
      have "\<not> due now ?p" using 1 by (simp add: due_def)
      then show ?thesis
        using "1.IH"(1) [OF False 1 run] "1.prems"(3,4) i
        by (simp add: split take resend_def give_up_def floods_def)
    next
      case 2
      let ?res = "res\<lparr>rr_to_send := rr_to_send res @ [pp_frame (rearm now ?p)]\<rparr>"
      have room: "try_send PENDING_CAP (rr_to_send res) (pp_frame (rearm now ?p))
          = rr_to_send res @ [pp_frame (rearm now ?p)]"
        using "1.prems"(3) i by (simp add: try_send_def)
      have run: "tick_loop now (Suc i) (pending[i := rearm now ?p]) (fall_back_to_flood ?p db) ?res
          = (pending', db', res')"
        using "1.prems"(1) i 2 room by (subst (asm) tick_loop.simps) (simp add: Let_def)
      have re: "resend now ?p" "\<not> give_up now ?p" "due now ?p"
        using 2 by (auto simp: resend_def give_up_def due_def)
      have upd: "mset (take (Suc i) (pending[i := rearm now ?p])) = add_mset (rearm now ?p) (mset (take i pending))"
        using i by (simp add: take_Suc_conv_app_nth)
      show ?thesis
        using "1.IH"(2) [OF False 2(1,2) refl] run "1.prems"(3,4) i re
        by (auto simp: split upd room floods_def get_flood drop_update_cancel
            option.map_comp comp_def)
    next
      case 3
      let ?res = "case pp_ble_notify ?p of Some d \<Rightarrow> res\<lparr>rr_gave_up := try_send PENDING_CAP
          (rr_gave_up res) (d, pp_packet_id ?p)\<rparr> | None \<Rightarrow> res"
      have room: "mset (rr_gave_up ?res) = mset (rr_gave_up res) + reports ?p"
        "length (rr_gave_up ?res) \<le> Suc (length (rr_gave_up res))" "rr_to_send ?res = rr_to_send res"
        using "1.prems"(4) i by (auto simp: try_send_def reports_def split: option.split)
      have run: "tick_loop now i (swap_remove i pending) db ?res = (pending', db', res')"
        using "1.prems"(1) i 3 by (subst (asm) tick_loop.simps) (simp add: Let_def)
      have gone: "\<not> resend now ?p" "give_up now ?p" "due now ?p" "\<not> floods now ?p"
        using 3 by (auto simp: resend_def give_up_def due_def floods_def)
      have "\<not> 0 < pp_retries_left ?p" using 3 by simp
      note IH = "1.IH"(3) [OF False 3(1) this refl refl run]
      have pre: "i \<le> length (swap_remove i pending)"
        "length (rr_to_send ?res) + (length (swap_remove i pending) - i) \<le> PENDING_CAP"
        "length (rr_gave_up ?res) + (length (swap_remove i pending) - i) \<le> PENDING_CAP"
        using "1.prems"(3,4) i room(2,3) by simp_all
      have set: "set_mset (mset (drop i pending)) = insert ?p (set_mset (mset (drop i (swap_remove i pending))))"
        by (simp only: mset_drop_swap_remove [OF i, symmetric] set_mset_add_mset_insert)
      show ?thesis
        using IH [OF pre] gone unfolding set
        by (simp add: room take_swap_remove [OF i] mset_drop_swap_remove [OF i, symmetric])
    qed
  qed
qed

text \<open>One retransmission pass treats every pending packet exactly once, in whatever order the
  in-place removals visit them.  An entry not yet due stays as it is; a due entry with retries
  left is sent once and rearmed; a due entry without is removed, and reported to the phone exactly
  when it has someone to notify.  Nothing is lost to the eight-slot buffers.\<close>
lemma retransmission_pass:
  assumes "tick_retransmissions now pending db = (pending', db', res)"
    and "length pending \<le> PENDING_CAP"
  shows "mset pending' = filter_mset (\<lambda>p. \<not> due now p) (mset pending)
      + image_mset (rearm now) (filter_mset (resend now) (mset pending))
    \<and> mset (rr_to_send res) = image_mset (\<lambda>p. pp_frame (rearm now p)) (filter_mset (resend now) (mset pending))
    \<and> mset (rr_gave_up res) = sum_mset (image_mset reports (filter_mset (give_up now) (mset pending)))"
  using tick_loop_spec [OF assms(1) [unfolded tick_retransmissions_def]] assms(2) by simp

definition sample_pending :: "u8 \<Rightarrow> u32 option \<Rightarrow> pending_packet" where
  "sample_pending n notify = \<lparr>pp_frame = frame_new, pp_packet_id = 3, pp_dest = 0x0105, pp_sender = 1,
     pp_deadline = 10, pp_retries_left = n, pp_is_our_packet = True, pp_ble_notify = notify\<rparr>"

text \<open>Falling back to flooding.  A pass clears the learned route of exactly the destinations with
  a packet on its last retry, and no other route.\<close>
lemma last_retry_floods:
  assumes "tick_retransmissions now pending db = (pending', db', res)"
    and "length pending \<le> PENDING_CAP"
  shows "get_next_hop db' k via =
    (if \<exists>p \<in> set pending. floods now p \<and> pp_dest p = k then NO_NEXT_HOP else get_next_hop db k via)"
  using tick_loop_spec [OF assms(1) [unfolded tick_retransmissions_def]] assms(2)
  by (auto simp: get_next_hop_def NO_NEXT_HOP_def split: option.split)

text \<open>The number of transmissions still owed to the pending packets.\<close>

definition owed :: "pending_packet list \<Rightarrow> nat" where
  "owed pending = (\<Sum>p \<in># mset pending. unat (pp_retries_left p))"

fun ticks :: "instant list \<Rightarrow> pending_packet list \<Rightarrow> node_db \<Rightarrow> pending_packet list \<times> radio_frame list" where
  "ticks [] pending db = (pending, [])"
| "ticks (now # nows) pending db =
     (case tick_retransmissions now pending db of
        (pending1, db1, res) \<Rightarrow>
          (case ticks nows pending1 db1 of (pending2, sent) \<Rightarrow> (pending2, rr_to_send res @ sent)))"

lemma unat_rearm: "resend now p \<Longrightarrow> Suc (unat (pp_retries_left (rearm now p))) = unat (pp_retries_left p)"
  using unat_minus_one [of "pp_retries_left p"]
  by (auto simp: resend_def rearm_def Let_def word_gt_0 unat_gt_0)

lemma tick_facts:
  assumes "tick_retransmissions now pending db = (pending', db', res)" "length pending \<le> PENDING_CAP"
  shows "owed pending' + length (rr_to_send res) = owed pending" "length pending' \<le> length pending"
    and "set pending' \<subseteq> {p \<in> set pending. \<not> due now p} \<union> rearm now ` {p \<in> set pending. resend now p}"
proof -
  note spec = tick_loop_spec [OF assms(1) [unfolded tick_retransmissions_def]]
  let ?M = "mset pending"
  have m: "mset pending' = filter_mset (\<lambda>p. \<not> due now p) ?M
      + image_mset (rearm now) (filter_mset (resend now) ?M)"
    and snd: "mset (rr_to_send res) = image_mset (\<lambda>p. pp_frame (rearm now p)) (filter_mset (resend now) ?M)"
    using spec assms(2) by simp_all
  have parts: "(\<Sum>p \<in># filter_mset (\<lambda>p. \<not> due now p) M. unat (pp_retries_left p))
      + (\<Sum>p \<in># filter_mset (resend now) M. unat (pp_retries_left (rearm now p)))
      + size (filter_mset (resend now) M) = (\<Sum>p \<in># M. unat (pp_retries_left p))
    \<and> size (filter_mset (\<lambda>p. \<not> due now p) M) + size (filter_mset (resend now) M) \<le> size M" for M
    by (induction M) (auto simp: unat_rearm [symmetric] resend_def word_gt_0)
  have "length (rr_to_send res) = size (filter_mset (resend now) ?M)"
    using arg_cong [OF snd, of size] by simp
  then show "owed pending' + length (rr_to_send res) = owed pending"
    using parts [of ?M] unfolding owed_def m by (simp add: image_mset.compositionality comp_def)
  show "length pending' \<le> length pending"
    using parts [of ?M] arg_cong [OF m, of size] by simp
  show "set pending' \<subseteq> {p \<in> set pending. \<not> due now p} \<union> rearm now ` {p \<in> set pending. resend now p}"
    using arg_cong [OF m, of set_mset] by auto
qed

text \<open>C16: retransmission is bounded.  Over any sequence of passes at any times, the frames sent and
  the retries still owed by the packets in the table add up to the retries owed at the start; so a packet
  that is alone in the table and was queued with \<open>NUM_RELIABLE_RETX\<close> retries is never sent more often than
  that.\<close>
theorem retransmissions_bounded:
  assumes "length pending \<le> PENDING_CAP"
  shows "length (snd (ticks nows pending db)) + owed (fst (ticks nows pending db)) = owed pending"
  using assms
proof (induction nows arbitrary: pending db)
  case (Cons now nows)
  obtain p1 db1 res where t: "tick_retransmissions now pending db = (p1, db1, res)" by (metis prod_cases3)
  note f = tick_facts [OF t Cons.prems]
  obtain p2 sent where r: "ticks nows p1 db1 = (p2, sent)" by fastforce
  show ?case using f Cons.IH [of p1 db1] Cons.prems t r by simp
qed simp

lemma retransmissions_bounded_witness:
  "length (snd (ticks [20, 30, 9000, 20000] [sample_pending 3 None] (node_db_new 1))) \<le> 3"
  using retransmissions_bounded [of "[sample_pending 3 None]" "[20, 30, 9000, 20000]" "node_db_new 1"]
  by (simp add: PENDING_CAP_def owed_def sample_pending_def)

fun spaced :: "instant list \<Rightarrow> bool" where
  "spaced (a # b # ts) \<longleftrightarrow> a + WANT_ACK_TIMEOUT_MS \<le> b \<and> spaced (b # ts)"
| "spaced _ \<longleftrightarrow> True"

text \<open>What is reported to the phone in a sequence of passes.\<close>

fun given_up :: "instant list \<Rightarrow> pending_packet list \<Rightarrow> node_db \<Rightarrow> (u32 \<times> u32) list" where
  "given_up [] pending db = []"
| "given_up (now # nows) pending db =
     (case tick_retransmissions now pending db of
        (pending1, db1, res) \<Rightarrow> rr_gave_up res @ given_up nows pending1 db1)"

text \<open>What a pending packet still has to send: its frame for every retry, the last time as a flood.\<close>

definition frames_owed :: "pending_packet \<Rightarrow> radio_frame multiset" where
  "frames_owed p = (case unat (pp_retries_left p) of
     0 \<Rightarrow> {#} | Suc n \<Rightarrow> add_mset (clear_next_hop (pp_frame p)) (replicate_mset n (pp_frame p)))"

lemma frames_owed_rearm:
  assumes "resend now p"
  shows "add_mset (pp_frame (rearm now p)) (frames_owed (rearm now p)) = frames_owed p"
proof -
  obtain n where n: "unat (pp_retries_left p) = Suc n" "unat (pp_retries_left (rearm now p)) = n"
    using unat_rearm [OF assms] by simp
  have "pp_frame (rearm now p) = (if n = 0 then clear_next_hop (pp_frame p) else pp_frame p)"
    using n(2) by (auto simp: rearm_def Let_def unat_eq_zero)
  then show ?thesis by (cases n) (simp_all add: frames_owed_def n)
qed

lemma frames_owed_none: "pp_retries_left p = 0 \<Longrightarrow> frames_owed p = {#}"
  by (simp add: frames_owed_def)

lemma reports_rearm [simp]: "reports (rearm now p) = reports p"
  by (simp add: reports_def rearm_def Let_def split: option.split)

text \<open>In a pass that finds every packet due, each one sends a frame or is reported.\<close>

lemma due_pass:
  assumes "tick_retransmissions now pending db = (pending', db', res)" and "length pending \<le> PENDING_CAP"
    and "\<forall>p \<in> set pending. due now p"
  shows "mset (rr_to_send res) + (\<Sum>p \<in># mset pending'. frames_owed p) = (\<Sum>p \<in># mset pending. frames_owed p)"
    "mset (rr_gave_up res) + (\<Sum>p \<in># mset pending'. reports p) = (\<Sum>p \<in># mset pending. reports p)"
proof -
  note pass = retransmission_pass [OF assms(1,2)]
  have none: "filter_mset (\<lambda>p. \<not> due now p) (mset pending) = {#}" using assms(3) by (simp add: filter_mset_eq_conv)
  have frames: "image_mset (\<lambda>p. pp_frame (rearm now p)) (filter_mset (resend now) M)
      + (\<Sum>p \<in># filter_mset (resend now) M. frames_owed (rearm now p)) = (\<Sum>p \<in># M. frames_owed p)"
    and told: "(\<Sum>p \<in># filter_mset (give_up now) M. reports p) + (\<Sum>p \<in># filter_mset (resend now) M. reports p)
      = (\<Sum>p \<in># M. reports p)" if "\<forall>p \<in># M. due now p" for M
    using that
    by (induction M) (auto simp: frames_owed_rearm [symmetric] frames_owed_none resend_def give_up_def word_gt_0)
  show "mset (rr_to_send res) + (\<Sum>p \<in># mset pending'. frames_owed p) = (\<Sum>p \<in># mset pending. frames_owed p)"
    using pass frames [of "mset pending"] assms(3) by (simp add: none image_mset.compositionality comp_def)
  show "mset (rr_gave_up res) + (\<Sum>p \<in># mset pending'. reports p) = (\<Sum>p \<in># mset pending. reports p)"
    using pass told [of "mset pending"] assms(3) by (simp add: none image_mset.compositionality comp_def)
qed

text \<open>C19: every pending packet is retried as often as it may, then reported.  Take passes that come at least an ACK
  timeout apart, the first of them when every packet is due, one more of them than the largest retry count.
  They leave nothing pending; the frames they send are, each packet counted by itself, its frame once for
  every retry it had left, the last of them with the next hop cleared; and each packet that has someone
  to notify is reported as given up exactly once, any other never.\<close>
theorem pending_drains:
  assumes "length pending \<le> PENDING_CAP" and "spaced nows" and "nows \<noteq> []"
    and "\<forall>p \<in> set pending. pp_deadline p \<le> hd nows \<and> unat (pp_retries_left p) < length nows"
  shows "fst (ticks nows pending db) = []
    \<and> mset (snd (ticks nows pending db)) = (\<Sum>p \<in># mset pending. frames_owed p)
    \<and> mset (given_up nows pending db) = (\<Sum>p \<in># mset pending. reports p)"
  using assms
proof (induction nows arbitrary: pending db)
  case (Cons now nows)
  obtain p1 db1 res where t: "tick_retransmissions now pending db = (p1, db1, res)" by (metis prod_cases3)
  note f = tick_facts [OF t Cons.prems(1)]
  have all_due: "\<forall>p \<in> set pending. due now p" using Cons.prems(4) by (auto simp: due_def)
  note pass = due_pass [OF t Cons.prems(1) all_due]
  have sub: "set p1 \<subseteq> rearm now ` {p \<in> set pending. resend now p}" using f(3) all_due by blast
  obtain p2 sent where r: "ticks nows p1 db1 = (p2, sent)" by fastforce
  show ?case
  proof (cases nows)
    case Nil
    then have "\<forall>p \<in> set pending. \<not> resend now p"
      using Cons.prems(4) by (auto simp: resend_def word_gt_0 unat_eq_zero)
    then have "{p \<in> set pending. resend now p} = {}" by blast
    with sub have "set p1 \<subseteq> {}" by (simp only: image_empty)
    then have "p1 = []" by simp
    then show ?thesis using t Nil pass by simp
  next
    case (Cons b ts)
    have "\<forall>p \<in> set p1. pp_deadline p \<le> b \<and> unat (pp_retries_left p) < length nows"
    proof
      fix q assume "q \<in> set p1"
      then obtain p where p: "p \<in> set pending" "resend now p" "q = rearm now p" using sub by auto
      then have "pp_deadline q = now + WANT_ACK_TIMEOUT_MS" by (simp add: rearm_def Let_def)
      moreover have "Suc (unat (pp_retries_left q)) < Suc (length nows)"
        using Cons.prems(4) p unat_rearm [OF p(2)] by simp
      ultimately show "pp_deadline q \<le> b \<and> unat (pp_retries_left q) < length nows"
        using Cons.prems(2) Cons by simp
    qed
    then have "p2 = [] \<and> mset sent = (\<Sum>p \<in># mset p1. frames_owed p) \<and> mset (given_up nows p1 db1) = (\<Sum>p \<in># mset p1. reports p)"
      using Cons.IH [of p1 db1] Cons.prems(1,2) f(2) r Cons by simp
    then show ?thesis using pass t r by simp
  qed
qed simp

lemma pending_drains_witness:
  "fst (ticks [20, 6000, 12000] [sample_pending 2 None, sample_pending 0 (Some 1)] (node_db_new 1)) = []
    \<and> mset (snd (ticks [20, 6000, 12000] [sample_pending 2 None, sample_pending 0 (Some 1)] (node_db_new 1)))
        = {#clear_next_hop frame_new, frame_new#}
    \<and> given_up [20, 6000, 12000] [sample_pending 2 None, sample_pending 0 (Some 1)] (node_db_new 1) = [(1, 3)]"
proof -
  let ?q = "[sample_pending 2 None, sample_pending 0 (Some 1)]"
  have two: "unat (2 :: u8) = Suc (Suc 0)" by simp
  have sums: "(\<Sum>p \<in># mset ?q. frames_owed p) = {#clear_next_hop frame_new, frame_new#}"
    "(\<Sum>p \<in># mset ?q. reports p) = {#(1, 3)#}"
    by (simp_all add: frames_owed_def reports_def sample_pending_def two)
  have "length ?q \<le> PENDING_CAP" "spaced [20, 6000, 12000]" "[20 :: instant, 6000, 12000] \<noteq> []"
    "\<forall>p \<in> set ?q. pp_deadline p \<le> hd [20, 6000, 12000] \<and> unat (pp_retries_left p) < length [20 :: instant, 6000, 12000]"
    by (auto simp: PENDING_CAP_def sample_pending_def WANT_ACK_TIMEOUT_MS_def)
  from pending_drains [OF this, of "node_db_new 1"] show ?thesis by (simp only: sums mset_single_iff)
qed

end
