(* ===== verification/Tx.thy ===== *)
theory Tx
  imports Device Mesh_Router
begin

text \<open>
  \<open>domain/tx.rs\<close>: \<open>TxBuilder::build\<close>, the single place where an application payload becomes a
  radio frame: wrapped in \<open>Data\<close>, encrypted with the peer's key or a channel key, and framed with
  the over-the-air header.
\<close>

record tx_builder =
  tb_dest :: u32
  tb_portnum :: i32
  tb_inner_payload :: bytes
  tb_channel_idx :: "u8 option"
  tb_want_ack :: bool
  tb_want_response :: bool
  tb_request_id :: u32
  tb_reply_id :: u32
  tb_emoji :: u32
  tb_hop_limit :: "u8 option"

definition UNKNOWN_APP :: i32 where "UNKNOWN_APP = 0"

definition tx_default :: tx_builder where
  "tx_default = \<lparr>tb_dest = BROADCAST_ADDR, tb_portnum = UNKNOWN_APP, tb_inner_payload = [],
     tb_channel_idx = None, tb_want_ack = False, tb_want_response = False, tb_request_id = 0,
     tb_reply_id = 0, tb_emoji = 0, tb_hop_limit = None\<rparr>"

definition bool_u32 :: "bool \<Rightarrow> u32" where
  "bool_u32 b = (if b then 1 else 0)"

definition tx_data :: "device_state \<Rightarrow> tx_builder \<Rightarrow> data_msg" where
  "tx_data dev b =
     (let bitfield = push_bit BITFIELD_OK_TO_MQTT_SHIFT (bool_u32 (config_ok_to_mqtt dev))
            OR push_bit BITFIELD_WANT_RESPONSE_SHIFT (bool_u32 (tb_want_response b))
      in data_default\<lparr>d_portnum := tb_portnum b, d_payload := tb_inner_payload b,
           d_want_response := tb_want_response b, d_request_id := tb_request_id b,
           d_reply_id := tb_reply_id b, d_emoji := tb_emoji b, d_bitfield := Some bitfield\<rparr>)"

definition tx_channel :: "device_state \<Rightarrow> tx_builder \<Rightarrow> channel_config option" where
  "tx_channel dev b =
     (case Option.bind (tb_channel_idx b) (\<lambda>idx. chan_get idx (channels dev)) of
        Some c \<Rightarrow> Some c | None \<Rightarrow> primary (channels dev))"

text \<open>The encryption step: \<open>None\<close> is the early return that sends nothing.\<close>

definition tx_encrypt :: "env \<Rightarrow> device_state \<Rightarrow> node_db \<Rightarrow> u32 \<Rightarrow> (bytes \<times> u32) option \<Rightarrow> tx_builder
    \<Rightarrow> bytes \<Rightarrow> bytes option" where
  "tx_encrypt E dev db packet_id pkc_keys b enc_buf =
     (case pkc_keys of
        Some (priv_bytes, extra_nonce) \<Rightarrow>
          (case Option.bind (get (tb_dest b) db) n_pub_key of
             None \<Rightarrow> None
           | Some dest_pub_key \<Rightarrow>
               (let my_secret = fst (keypair_from_seed (env_pkc E) priv_bytes);
                    shared_key = derive_shared_key (env_pkc E) my_secret dest_pub_key;
                    pkc_buf = replicate (length enc_buf + PKC_OVERHEAD) 0
                in case encrypt_pkc (env_pkc E) shared_key packet_id (my_node_num dev) extra_nonce
                          enc_buf pkc_buf of
                     Inr (written, out) \<Rightarrow> Some (take written out)
                   | Inl _ \<Rightarrow> None))
      | None \<Rightarrow>
          (case tx_channel dev b of
             Some ch \<Rightarrow>
               if is_encrypted ch then
                 (case crypt_packet (env_keystream E) (copy_psk (effective_psk ch)) packet_id
                         (my_node_num dev) enc_buf of
                    Inr out \<Rightarrow> Some out | Inl _ \<Rightarrow> None)
               else Some enc_buf
           | None \<Rightarrow> Some enc_buf))"

definition tx_header :: "device_state \<Rightarrow> node_db \<Rightarrow> u32 \<Rightarrow> bool \<Rightarrow> tx_builder \<Rightarrow> packet_header" where
  "tx_header dev db packet_id pkc b =
     (let preset_name = display_name (modem_preset dev);
          hash = (if pkc then 0
                  else case tx_channel dev b of Some c \<Rightarrow> channel_hash c preset_name | None \<Rightarrow> 0);
          is_broadcast = (tb_dest b = BROADCAST_ADDR);
          next_hop = (if is_broadcast then NO_NEXT_HOP else get_next_hop db (tb_dest b) 0);
          relay_node = last_byte (my_node_num dev);
          limit = min (case tb_hop_limit b of Some l \<Rightarrow> l | None \<Rightarrow> hop_limit_cfg dev) MAX_HOP_LIMIT
      in \<lparr>h_destination = tb_dest b, h_sender = my_node_num dev, h_packet_id = packet_id,
          h_flags = make_flags (tb_want_ack b \<and> \<not> is_broadcast) False limit limit,
          h_channel_index = hash, h_next_hop = next_hop, h_relay_node = relay_node\<rparr>)"

definition tx_build :: "env \<Rightarrow> device_state \<Rightarrow> node_db \<Rightarrow> u32 \<Rightarrow> (bytes \<times> u32) option \<Rightarrow> tx_builder
    \<Rightarrow> radio_frame option" where
  "tx_build E dev db packet_id pkc_keys b =
     (case tx_encrypt E dev db packet_id pkc_keys b (env_data_enc E (tx_data dev b)) of
        None \<Rightarrow> None
      | Some enc_buf \<Rightarrow> from_parts (tx_header dev db packet_id (pkc_keys \<noteq> None) b) enc_buf)"

section \<open>Re-decoding a stored frame (\<open>handlers/util.rs\<close>)\<close>

record decoded_psk_frame =
  dp_portnum :: i32
  dp_payload :: bytes
  dp_channel_index :: u8
  dp_reply_id :: u32
  dp_emoji :: u32

definition decode_psk_frame :: "env \<Rightarrow> radio_frame \<Rightarrow> device_state \<Rightarrow> decoded_psk_frame option" where
  "decode_psk_frame E frame dev =
     (case header frame of
        None \<Rightarrow> None
      | Some hdr \<Rightarrow>
          (let preset_name = display_name (modem_preset dev);
               channel = find_by_hash (h_channel_index hdr) preset_name (channels dev);
               channel_index = (case channel of Some c \<Rightarrow> ch_index c | None \<Rightarrow> 0);
               pl = vec_extend 256 [] (payload frame);
               decrypted = (case channel of
                   Some ch \<Rightarrow> if is_encrypted ch \<and> pl \<noteq> [] then
                       (case crypt_packet (env_keystream E) (copy_psk (effective_psk ch))
                               (h_packet_id hdr) (h_sender hdr) pl of
                          Inr out \<Rightarrow> Some out | Inl _ \<Rightarrow> None)
                     else Some pl
                 | None \<Rightarrow> Some pl)
           in case Option.bind decrypted (env_data_dec E) of
                None \<Rightarrow> None
              | Some d \<Rightarrow> Some \<lparr>dp_portnum = d_portnum d, dp_payload = d_payload d,
                  dp_channel_index = channel_index, dp_reply_id = d_reply_id d, dp_emoji = d_emoji d\<rparr>))"

section \<open>Lemmas\<close>

lemma tx_build_SomeD:
  assumes "tx_build E dev db pid keys b = Some f"
  obtains enc where "tx_encrypt E dev db pid keys b (env_data_enc E (tx_data dev b)) = Some enc"
    "from_parts (tx_header dev db pid (keys \<noteq> None) b) enc = Some f"
    "header f = Some (tx_header dev db pid (keys \<noteq> None) b)" "payload f = enc" "frame_ok f"
  using assms from_parts_SomeD by (auto simp: tx_build_def split: option.splits)

lemma tx_header_simps [simp]:
  "h_destination (tx_header dev db pid pkc b) = tb_dest b" "h_sender (tx_header dev db pid pkc b) = my_node_num dev"
  "h_packet_id (tx_header dev db pid pkc b) = pid"
  "h_relay_node (tx_header dev db pid pkc b) = last_byte (my_node_num dev)"
  by (simp_all add: tx_header_def Let_def)

lemma tx_data_simps [simp]:
  "d_portnum (tx_data dev b) = tb_portnum b" "d_payload (tx_data dev b) = tb_inner_payload b"
  "d_reply_id (tx_data dev b) = tb_reply_id b" "d_emoji (tx_data dev b) = tb_emoji b"
  "d_request_id (tx_data dev b) = tb_request_id b"
  by (simp_all add: tx_data_def data_default_def Let_def)

text \<open>Protobuf decoding inverts encoding, for the message at hand.\<close>

definition data_roundtrips :: "env \<Rightarrow> data_msg \<Rightarrow> bool" where
  "data_roundtrips E d \<longleftrightarrow> env_data_dec E (env_data_enc E d) = Some d"

text \<open>A concrete environment for examples.\<close>

definition toy_env :: env where
  "toy_env = \<lparr>env_keystream = toy_stream, env_pkc = toy_prims, env_region = (\<lambda>_. Some Eu433),
     env_preset = (\<lambda>_. Some LongFast), env_preset_num = (\<lambda>_. 0),
     env_data_enc = (\<lambda>d. ucast (d_portnum d) # d_payload d),
     env_data_dec = (\<lambda>bs. case bs of [] \<Rightarrow> None
        | p # pl \<Rightarrow> Some (data_default\<lparr>d_portnum := ucast p, d_payload := pl, d_bitfield := Some 0\<rparr>))\<rparr>"

definition toy_device :: device_state where
  "toy_device = device_new [1, 2, 0, 0, 0, 9]"

definition toy_text :: tx_builder where
  "toy_text = tx_default\<lparr>tb_portnum := TEXT_MESSAGE_APP, tb_inner_payload := [0x68, 0x69], tb_dest := 0x0105\<rparr>"

section \<open>Properties\<close>

text \<open>Every frame a node originates carries a sound header: its own number as sender and relay,
  a hop limit equal to the hop start and at most seven, an acknowledgement request only on a
  directed packet, no next hop on a broadcast, and the learned route on a directed one.\<close>
lemma originated_header:
  assumes "tx_build E dev db pid keys b = Some f"
  shows "\<exists>h. header f = Some h \<and> h_sender h = my_node_num dev \<and> h_relay_node h = last_byte (my_node_num dev)
    \<and> h_packet_id h = pid \<and> h_destination h = tb_dest b
    \<and> hop_limit h = hop_start h \<and> hop_limit h \<le> MAX_HOP_LIMIT \<and> \<not> via_mqtt h
    \<and> (want_ack h \<longleftrightarrow> tb_want_ack b \<and> tb_dest b \<noteq> BROADCAST_ADDR)
    \<and> h_next_hop h = (if tb_dest b = BROADCAST_ADDR then NO_NEXT_HOP else get_next_hop db (tb_dest b) 0)
    \<and> (keys \<noteq> None \<longrightarrow> h_channel_index h = 0)"
proof -
  let ?h = "tx_header dev db pid (keys \<noteq> None) b"
  obtain limit where fl: "h_flags ?h = make_flags (tb_want_ack b \<and> tb_dest b \<noteq> BROADCAST_ADDR) False limit limit"
    by (simp add: tx_header_def Let_def)
  note fields = make_flags_fields [OF fl]
  from assms obtain enc where "header f = Some ?h" by (rule tx_build_SomeD)
  then show ?thesis
    using fields hop_limit_le_7 [of ?h]
    by (auto simp: MAX_HOP_LIMIT_def) (auto simp: tx_header_def Let_def)
qed

lemma toy_device_simps:
  "my_node_num toy_device = 9" "modem_preset toy_device = LongFast" "channels toy_device = channel_set_new"
  "config_ok_to_mqtt toy_device = False"
  by (simp_all add: toy_device_def device_new_def Let_def of_le32_def)

lemma toy_roundtrips: "data_roundtrips toy_env (tx_data toy_device toy_text)"
  by (simp add: data_roundtrips_def toy_env_def tx_data_def toy_text_def tx_default_def data_default_def
      toy_device_simps bool_u32_def portnum_defs)

lemma toy_channel:
  "tx_channel toy_device toy_text = Some default_primary"
  "find_by_hash (channel_hash default_primary p) p (channels toy_device) = Some default_primary"
  by (simp_all add: tx_channel_def toy_text_def tx_default_def toy_device_simps primary_def find_by_hash_def
      channel_set_new_def const_defs default_primary_def numeral_eq_Suc)

lemma toy_stream_ok: "stream_ok (env_keystream toy_env)"
  by (simp add: stream_ok_def toy_env_def toy_stream_def)

lemma toy_build: "tx_build toy_env toy_device (node_db_new 9) 77 None toy_text \<noteq> None"
proof -
  obtain e where e: "crypt_packet toy_stream (copy_psk (effective_psk default_primary)) 77 9 [1, 0x68, 0x69] = Inr e"
    by (simp add: crypt_packet_def effective_psk_def default_primary_def copy_psk_short)
  then have "length e = 3" using crypt_length [of toy_stream] toy_stream_ok by (simp add: toy_env_def)
  moreover have "env_data_enc toy_env (tx_data toy_device toy_text) = [1, 0x68, 0x69]"
    by (simp add: toy_env_def toy_text_def tx_default_def portnum_defs tx_data_def data_default_def Let_def)
  moreover have "is_encrypted default_primary" by (simp add: is_encrypted_def default_primary_def)
  moreover have "from_parts h e \<noteq> None" for h
    using \<open>length e = 3\<close> by (simp add: from_parts_None const_defs del: not_None_eq)
  ultimately show ?thesis
    using e by (simp add: tx_build_def tx_encrypt_def toy_channel toy_device_simps del: not_None_eq)
      (simp add: toy_env_def del: not_None_eq)
qed

text \<open>C32: a channel message is readable by every node that has the channel.  When the receiver's
  channel search by the header's hash yields a channel with the sender's key, its decoder returns
  the port number, payload, reply id and emoji that were sent.\<close>
theorem channel_message_received:
  assumes "tx_build E dev db pid None b = Some f" and "tx_channel dev b = Some ch"
    and "stream_ok (env_keystream E)" and "data_roundtrips E (tx_data dev b)"
    and "find_by_hash (channel_hash ch (display_name (modem_preset dev)))
           (display_name (modem_preset dev2)) (channels dev2) = Some ch2"
    and "effective_psk ch2 = effective_psk ch" and "is_encrypted ch2 = is_encrypted ch"
  shows "decode_psk_frame E f dev2 = Some \<lparr>dp_portnum = tb_portnum b, dp_payload = tb_inner_payload b,
      dp_channel_index = ch_index ch2, dp_reply_id = tb_reply_id b, dp_emoji = tb_emoji b\<rparr>"
proof -
  let ?d = "env_data_enc E (tx_data dev b)"
  let ?h = "tx_header dev db pid False b"
  from assms(1) obtain enc where enc: "tx_encrypt E dev db pid None b ?d = Some enc"
    and f: "header f = Some ?h" "payload f = enc" and len: "from_parts ?h enc = Some f"
    by (rule tx_build_SomeD) simp
  have hash: "h_channel_index ?h = channel_hash ch (display_name (modem_preset dev))"
    using assms(2) by (simp add: tx_header_def Let_def)
  have "length enc \<le> 256"
    using len by (auto simp: from_parts_def Let_def const_defs split: if_splits)
  then have pl: "vec_extend 256 [] enc = enc" by (simp add: vec_extend_def)
  have dec: "env_data_dec E ?d = Some (tx_data dev b)" using assms(4) by (simp add: data_roundtrips_def)
  show ?thesis
  proof (cases "is_encrypted ch")
    case True
    then have c: "crypt_packet (env_keystream E) (copy_psk (effective_psk ch)) pid (my_node_num dev) ?d = Inr enc"
      using enc assms(2) by (simp add: tx_encrypt_def split: sum.splits)
    have "enc = [] \<Longrightarrow> ?d = []" using crypt_length [OF assms(3) c] by simp
    with crypt_twice [OF assms(3) c] True show ?thesis
      using f pl hash dec assms(5-7) by (cases "enc = []") (simp_all add: decode_psk_frame_def Let_def)
  next
    case False
    then have "enc = ?d" using enc assms(2) by (simp add: tx_encrypt_def)
    with False show ?thesis
      using f pl hash dec assms(5-7) by (simp add: decode_psk_frame_def Let_def)
  qed
qed

lemma channel_message_received_witness:
  "\<exists>f d. tx_build toy_env toy_device (node_db_new 9) 77 None toy_text = Some f
     \<and> decode_psk_frame toy_env f toy_device = Some d \<and> dp_payload d = [0x68, 0x69]"
proof -
  obtain f where f: "tx_build toy_env toy_device (node_db_new 9) 77 None toy_text = Some f"
    using toy_build by blast
  from channel_message_received [OF f toy_channel(1) toy_stream_ok toy_roundtrips toy_channel(2) refl refl] f
  show ?thesis by (simp add: toy_text_def)
qed

text \<open>A frame built with key material carries the encoded message sealed to the stored public key.\<close>

lemma tx_seal:
  assumes "tx_build E dev db pid (Some (priv, x)) b = Some f" and "prims_ok (env_pkc E)"
  obtains pub where "Option.bind (get (tb_dest b) db) n_pub_key = Some pub"
    "header f = Some (tx_header dev db pid True b)"
    "length (payload f) = length (env_data_enc E (tx_data dev b)) + PKC_OVERHEAD"
    "HEADER_SIZE + length (payload f) \<le> MAX_LORA_PAYLOAD_LEN"
    "\<And>secret out. \<lbrakk>pub = prim_public (env_pkc E) secret; length (env_data_enc E (tx_data dev b)) \<le> length out\<rbrakk> \<Longrightarrow>
       decrypt_pkc (env_pkc E) (derive_shared_key (env_pkc E) secret (prim_public (env_pkc E) priv)) pid
         (my_node_num dev) (payload f) out
       = Inr (length (env_data_enc E (tx_data dev b)), write_at 0 (env_data_enc E (tx_data dev b)) out)"
proof -
  let ?P = "env_pkc E"
  let ?d = "env_data_enc E (tx_data dev b)"
  from assms(1) obtain enc where
    enc: "tx_encrypt E dev db pid (Some (priv, x)) b ?d = Some enc"
    and f: "header f = Some (tx_header dev db pid True b)" "payload f = enc"
    and len: "from_parts (tx_header dev db pid True b) enc = Some f"
    by (rule tx_build_SomeD) simp
  from enc obtain pub where pub: "Option.bind (get (tb_dest b) db) n_pub_key = Some pub"
    by (auto simp: tx_encrypt_def split: option.splits)
  let ?k = "derive_shared_key ?P priv pub"
  let ?buf = "replicate (length ?d + PKC_OVERHEAD) 0"
  from enc pub obtain n out where e: "encrypt_pkc ?P ?k pid (my_node_num dev) x ?d ?buf = Inr (n, out)"
    and out: "enc = take n out"
    by (auto simp: tx_encrypt_def keypair_from_seed_def Let_def split: option.splits sum.splits prod.splits)
  have n: "n = length ?d + PKC_OVERHEAD" and small: "length ?d \<le> CCM_MAX_LEN"
    using e len out encrypt_pkc_SomeD [OF assms(2) e]
    by (auto simp: from_parts_def Let_def const_defs split: if_splits)
  obtain buf where buf: "encrypt_pkc ?P ?k pid (my_node_num dev) x ?d ?buf = Inr (length ?d + PKC_OVERHEAD, buf)"
    "length (take (length ?d + PKC_OVERHEAD) buf) = length ?d + PKC_OVERHEAD"
    "\<And>out'. length ?d \<le> length out' \<Longrightarrow> decrypt_pkc ?P ?k pid (my_node_num dev)
       (take (length ?d + PKC_OVERHEAD) buf) out' = Inr (length ?d, write_at 0 ?d out')"
    using encrypt_then_decrypt [OF assms(2) _ small] by (metis length_replicate order_refl)
  with e n out have enc': "enc = take (length ?d + PKC_OVERHEAD) buf" by simp
  have fits: "HEADER_SIZE + length enc \<le> MAX_LORA_PAYLOAD_LEN"
    using len by (auto simp: from_parts_def Let_def split: if_splits)
  show thesis
    using fits buf(2,3) by (intro that [OF pub f(1)]) (auto simp: f(2) enc' shared_key_sym [OF assms(2)])
qed

text \<open>A direct message is never downgraded.  Once key material is given, either nothing is sent
  (the peer's key is not known, or the frame would be too long) or the payload is the message
  sealed to the peer's stored public key, on channel byte zero; the peer opens it with its own
  secret and the sender's public key and gets the encoded message.\<close>
lemma direct_message_sealed:
  assumes "tx_build E dev db pid (Some (priv, x)) b = Some f" and "prims_ok (env_pkc E)"
  shows "\<exists>pub. Option.bind (get (tb_dest b) db) n_pub_key = Some pub
    \<and> length (payload f) = length (env_data_enc E (tx_data dev b)) + PKC_OVERHEAD
    \<and> (\<exists>h. header f = Some h \<and> h_channel_index h = 0)
    \<and> (\<forall>secret out. pub = prim_public (env_pkc E) secret \<longrightarrow> length (payload f) \<le> length out \<longrightarrow>
         (\<exists>plain. decrypt_pkc (env_pkc E)
              (derive_shared_key (env_pkc E) secret (prim_public (env_pkc E) priv)) pid (my_node_num dev)
              (payload f) out = Inr (length (env_data_enc E (tx_data dev b)), plain)
            \<and> take (length (env_data_enc E (tx_data dev b))) plain = env_data_enc E (tx_data dev b)))"
proof -
  from tx_seal [OF assms] obtain pub where pub: "Option.bind (get (tb_dest b) db) n_pub_key = Some pub"
    "header f = Some (tx_header dev db pid True b)"
    "length (payload f) = length (env_data_enc E (tx_data dev b)) + PKC_OVERHEAD"
    "\<And>secret out. \<lbrakk>pub = prim_public (env_pkc E) secret; length (env_data_enc E (tx_data dev b)) \<le> length out\<rbrakk> \<Longrightarrow>
       decrypt_pkc (env_pkc E) (derive_shared_key (env_pkc E) secret (prim_public (env_pkc E) priv)) pid
         (my_node_num dev) (payload f) out
       = Inr (length (env_data_enc E (tx_data dev b)), write_at 0 (env_data_enc E (tx_data dev b)) out)"
    by metis
  have "length (env_data_enc E (tx_data dev b)) \<le> length (payload f)" using pub(3) by simp
  with pub show ?thesis by (auto simp: tx_header_def Let_def dest: order_trans)
qed

definition toy_peers :: node_db where
  "toy_peers = update_pub_key 0x0105 [5] (node_db_new 9)"

lemma toy_peer_key: "Option.bind (get 0x0105 toy_peers) n_pub_key = Some [5]"
  by (simp add: toy_peers_def update_pub_key_def get_or_create_def node_db_new_def get_def modify_at_def
      mark_dirty_def node_stub_def vec_push_def const_defs)

lemma toy_seal:
  "\<exists>f. tx_build toy_env toy_device toy_peers 77 (Some ([3], 8)) toy_text = Some f"
proof -
  let ?d = "[1, 0x68, 0x69]"
  let ?k = "derive_shared_key toy_prims [3] [5]"
  have d: "env_data_enc toy_env (tx_data toy_device toy_text) = ?d"
    by (simp add: toy_env_def toy_text_def tx_default_def portnum_defs tx_data_def data_default_def Let_def)
  obtain buf where "encrypt_pkc toy_prims ?k 77 9 8 ?d (replicate 15 0) = Inr (15, buf)"
    "length (take 15 buf) = 15"
    by (rule encrypt_then_decrypt [OF toy_prims_ok, of ?d "replicate 15 0" ?k 77 9 8]) (simp_all add: const_defs)
  moreover have "from_parts h (take 15 buf) \<noteq> None" if "length (take 15 buf) = 15" for h
    using that by (simp add: from_parts_None const_defs del: not_None_eq)
  moreover have "tb_dest toy_text = 0x0105" by (simp add: toy_text_def)
  ultimately show ?thesis
    by (simp add: tx_build_def tx_encrypt_def d toy_peer_key toy_device_simps keypair_from_seed_def)
      (simp add: toy_env_def const_defs numeral_eq_Suc)
qed

end
