(* ===== verification/Layout.thy ===== *)
theory Layout
  imports Codec
begin

text \<open>
  Byte layouts written field by field, as the firmware's encoders do: a blank buffer, then one
  \<open>copy_from_slice\<close> or byte store per field at ascending offsets.  When no field reaches into the
  next, each is read back as it was written and the buffer keeps its size.
\<close>

type_synonym field = "nat \<times> bytes"

definition writes :: "field list \<Rightarrow> bytes \<Rightarrow> bytes" where
  "writes fs buf = fold (\<lambda>(off, bs) b. write_at off bs b) fs buf"

fun layout_ok :: "nat \<Rightarrow> nat \<Rightarrow> field list \<Rightarrow> bool" where
  "layout_ok lo hi [] = (lo \<le> hi)"
| "layout_ok lo hi ((off, bs) # fs) = (lo \<le> off \<and> layout_ok (off + length bs) hi fs)"

lemma writes_Nil: "writes [] buf = buf"
  by (simp add: writes_def)

lemma writes_Cons: "writes ((off, bs) # fs) buf = writes fs (write_at off bs buf)"
  by (simp add: writes_def)

lemma layout_ok_le: "layout_ok lo hi fs \<Longrightarrow> lo \<le> hi"
  by (induction fs arbitrary: lo) fastforce+

lemma layout_ok_mono: "\<lbrakk>layout_ok lo hi fs; lo' \<le> lo; hi \<le> hi'\<rbrakk> \<Longrightarrow> layout_ok lo' hi' fs"
  by (induction fs arbitrary: lo lo') auto

lemma layout_ok_append: "\<lbrakk>layout_ok lo mid fs; layout_ok mid hi gs\<rbrakk> \<Longrightarrow> layout_ok lo hi (fs @ gs)"
  by (induction fs arbitrary: lo) (auto intro: layout_ok_mono)

lemma layout_ok_concat:
  "\<lbrakk>\<And>i. i < n \<Longrightarrow> layout_ok (base + i * sz) (base + Suc i * sz) (f i)\<rbrakk>
   \<Longrightarrow> layout_ok base (base + n * sz) (concat (map f [0..<n]))"
proof (induction n)
  case (Suc n)
  have "layout_ok base (base + n * sz) (concat (map f [0..<n]))"
    by (rule Suc.IH) (use Suc.prems in auto)
  then have "layout_ok base (base + Suc n * sz) (concat (map f [0..<n]) @ f n)"
    using layout_ok_append Suc.prems [of n] by blast
  then show ?case by simp
qed simp

lemma length_writes [simp]: "layout_ok lo (length buf) fs \<Longrightarrow> length (writes fs buf) = length buf"
proof (induction fs arbitrary: lo buf)
  case (Cons f fs)
  obtain off bs where f: "f = (off, bs)" by fastforce
  with Cons.prems have "layout_ok (off + length bs) (length buf) fs" by simp
  moreover from this have "off + length bs \<le> length buf" by (rule layout_ok_le)
  ultimately show ?case using Cons.IH [of _ "write_at off bs buf"] f by (simp add: writes_Cons)
qed (simp add: writes_Nil)

lemma writes_below:
  "\<lbrakk>layout_ok lo (length buf) fs; i < lo\<rbrakk> \<Longrightarrow> writes fs buf ! i = buf ! i"
proof (induction fs arbitrary: lo buf)
  case (Cons f fs)
  obtain off bs where f: "f = (off, bs)" by fastforce
  with Cons.prems have *: "layout_ok (off + length bs) (length buf) fs" "i < off" by auto
  from layout_ok_le [OF *(1)] have "off + length bs \<le> length buf" .
  with * Cons.IH [of "off + length bs" "write_at off bs buf"] f show ?case
    by (simp add: nth_write_at writes_Cons)
qed (simp add: writes_Nil)

lemma writes_field_nth:
  assumes "layout_ok lo (length buf) fs" "(off, bs) \<in> set fs" "i < length bs"
  shows "writes fs buf ! (off + i) = bs ! i"
  using assms
proof (induction fs arbitrary: lo buf)
  case (Cons f fs)
  obtain o' b' where f: "f = (o', b')" by fastforce
  with Cons.prems have ok: "layout_ok (o' + length b') (length buf) fs" by simp
  from layout_ok_le [OF ok] have le: "o' + length b' \<le> length buf" .
  show ?case
  proof (cases "(off, bs) \<in> set fs")
    case True
    with Cons.IH [of _ "write_at o' b' buf"] ok le Cons.prems(3) f show ?thesis
      by (simp add: writes_Cons)
  next
    case False
    with Cons.prems f have "off = o'" "bs = b'" by auto
    with writes_below [of "o' + length b'" "write_at o' b' buf" fs "o' + i"] ok le Cons.prems(3) f
    show ?thesis by (simp add: nth_write_at writes_Cons)
  qed
qed simp

lemma field_in_range:
  "\<lbrakk>layout_ok lo hi fs; (off, bs) \<in> set fs\<rbrakk> \<Longrightarrow> off + length bs \<le> hi"
  by (induction fs arbitrary: lo) (auto dest: layout_ok_le)

lemma writes_field:
  assumes "layout_ok lo (length buf) fs" "(off, bs) \<in> set fs" "hi = off + length bs"
  shows "slice off hi (writes fs buf) = bs"
  using field_in_range [OF assms(1,2)] length_writes [OF assms(1)] assms(3)
    writes_field_nth [OF assms(1,2)]
  by (auto intro!: nth_equalityI)

lemma writes_byte:
  assumes "layout_ok lo (length buf) fs" "(off, [x]) \<in> set fs"
  shows "writes fs buf ! off = x"
  using writes_field_nth [OF assms, of 0] by simp

lemma writes_le16:
  assumes "layout_ok lo (length buf) fs" "(off, le16 w) \<in> set fs" "b = off + 1"
  shows "of_le16 (writes fs buf ! off) (writes fs buf ! b) = w"
  using writes_field_nth [OF assms(1,2), of 0] writes_field_nth [OF assms(1,2), of 1] assms(3) by simp

lemma writes_le32:
  assumes "layout_ok lo (length buf) fs" "(off, le32 w) \<in> set fs" "b = off + 1" "c = off + 2" "d = off + 3"
  shows "of_le32 (writes fs buf ! off) (writes fs buf ! b) (writes fs buf ! c) (writes fs buf ! d) = w"
  using writes_field_nth [OF assms(1,2), of 0] writes_field_nth [OF assms(1,2), of 1]
    writes_field_nth [OF assms(1,2), of 2] writes_field_nth [OF assms(1,2), of 3] assms(3-5) by simp

text \<open>A fixed-size array holding a shorter content: \<open>arr[..n].copy_from_slice(bs)\<close> over zeros.\<close>

definition padded :: "nat \<Rightarrow> bytes \<Rightarrow> bytes" where
  "padded n bs = write_at 0 bs (replicate n 0)"

lemma length_padded [simp]: "length bs \<le> n \<Longrightarrow> length (padded n bs) = n"
  by (simp add: padded_def)

lemma take_padded [simp]: "\<lbrakk>k = length bs; length bs \<le> n\<rbrakk> \<Longrightarrow> take k (padded n bs) = bs"
  by (simp add: padded_def write_at_def)

end
