(* ===== verification/Persistence.thy ===== *)
theory Persistence
  imports Layout Tx
begin

text \<open>
  \<open>domain/persistence.rs\<close>: the byte layouts of everything kept in flash besides the node table,
  the bond header, the X25519 key pair, the device configuration and the header and slots of the
  message ring; and the two conversions between the configuration record and the live device
  state.  Encoders are lists of field writes over a blank buffer, in the order of the code.
\<close>

section \<open>BLE bond\<close>

definition BOND_SIZE :: nat where [const_defs]: "BOND_SIZE = 48"
definition BOND_MAGIC :: u32 where [const_defs]: "BOND_MAGIC = 0x424F4E44"
definition BOND_VERSION :: u8 where [const_defs]: "BOND_VERSION = 2"

definition bond_magic_valid :: "bytes \<Rightarrow> bool" where
  "bond_magic_valid b \<longleftrightarrow> of_le32 (b ! 0) (b ! 1) (b ! 2) (b ! 3) = BOND_MAGIC \<and> b ! 4 = BOND_VERSION"

definition init_bond_header :: "bytes \<Rightarrow> bytes" where
  "init_bond_header b = writes [(0, le32 BOND_MAGIC), (4, [BOND_VERSION])] b"

section \<open>X25519 key pair\<close>

definition PKC_BLOB_SIZE :: nat where [const_defs]: "PKC_BLOB_SIZE = 72"
definition PKC_MAGIC :: u32 where [const_defs]: "PKC_MAGIC = 0x504B4331"
definition PKC_VERSION :: u8 where [const_defs]: "PKC_VERSION = 1"

definition encode_pkc_keypair :: "bytes \<Rightarrow> bytes \<Rightarrow> bytes" where
  "encode_pkc_keypair priv_key pub_key =
     writes [(0, le32 PKC_MAGIC), (4, [PKC_VERSION]), (8, priv_key), (40, pub_key)]
       (replicate PKC_BLOB_SIZE 0)"

definition decode_pkc_keypair :: "bytes \<Rightarrow> (bytes \<times> bytes) option" where
  "decode_pkc_keypair buf =
     (if of_le32 (buf ! 0) (buf ! 1) (buf ! 2) (buf ! 3) \<noteq> PKC_MAGIC \<or> buf ! 4 \<noteq> PKC_VERSION then None
      else (let priv_key = slice 8 40 buf; pub_key = slice 40 72 buf
            in if \<forall>b \<in> set priv_key. b = 0 then None else Some (priv_key, pub_key)))"

section \<open>Device configuration\<close>

definition CONFIG_SIZE :: nat where [const_defs]: "CONFIG_SIZE = 512"
definition CONFIG_MAGIC :: u32 where [const_defs]: "CONFIG_MAGIC = 0x4D434647"
definition CONFIG_VERSION :: u8 where [const_defs]: "CONFIG_VERSION = 2"

record saved_channel =
  sc_index :: u8
  sc_role :: u8
  sc_psk_len :: u8
  sc_psk :: bytes
  sc_name_len :: u8
  sc_name :: bytes

definition saved_channel_default :: saved_channel where
  "saved_channel_default = \<lparr>sc_index = 0, sc_role = 0, sc_psk_len = 0, sc_psk = replicate 32 0,
     sc_name_len = 0, sc_name = replicate 12 0\<rparr>"

record saved_config =
  sv_long_name_len :: u8
  sv_long_name :: bytes
  sv_short_name_len :: u8
  sv_short_name :: bytes
  sv_region :: u8
  sv_modem_preset :: u8
  sv_role :: u8
  sv_num_channels :: u8
  sv_channels :: "saved_channel list"
  sv_use_preset :: u8
  sv_spread_factor :: u8
  sv_bandwidth_code :: u16
  sv_coding_rate :: u8
  sv_channel_num :: u16
  sv_hop_limit :: u8
  sv_tx_enabled :: u8
  sv_config_ok_to_mqtt :: u8

text \<open>The numbers of the generated channel roles, as the layout comment gives them.\<close>

fun channel_role_num :: "channel_role \<Rightarrow> u8" where
  "channel_role_num Disabled = 0" | "channel_role_num Primary = 1" | "channel_role_num Secondary = 2"

definition bool_u8 :: "bool \<Rightarrow> u8" where
  "bool_u8 b = (if b then 1 else 0)"

definition save_channel :: "channel_config \<Rightarrow> saved_channel" where
  "save_channel ch = \<lparr>sc_index = ch_index ch, sc_role = channel_role_num (ch_role ch),
     sc_psk_len = of_nat (length (ch_psk ch)), sc_psk = padded 32 (ch_psk ch),
     sc_name_len = of_nat (length (ch_name ch)), sc_name = padded 12 (ch_name ch)\<rparr>"

definition saved_config_from_device :: "env \<Rightarrow> device_state \<Rightarrow> saved_config" where
  "saved_config_from_device E dev =
     (let active = take 8 (active_channels (channels dev))
      in \<lparr>sv_long_name_len = of_nat (length (long_name dev)), sv_long_name = padded 40 (long_name dev),
          sv_short_name_len = of_nat (length (short_name dev)), sv_short_name = padded 5 (short_name dev),
          sv_region = region dev, sv_modem_preset = env_preset_num E (modem_preset dev),
          sv_role = ucast (role_num (role dev)), sv_num_channels = of_nat (length active),
          sv_channels = map save_channel active @ replicate (8 - length active) saved_channel_default,
          sv_use_preset = bool_u8 (use_preset dev), sv_spread_factor = custom_sf dev,
          sv_bandwidth_code = bw_hz_to_code (custom_bw_hz dev), sv_coding_rate = custom_cr dev,
          sv_channel_num = ucast (channel_num dev), sv_hop_limit = hop_limit_cfg dev,
          sv_tx_enabled = bool_u8 (tx_enabled dev),
          sv_config_ok_to_mqtt = bool_u8 (config_ok_to_mqtt dev)\<rparr>)"

definition channel_fields :: "saved_config \<Rightarrow> nat \<Rightarrow> field list" where
  "channel_fields cfg i =
     (let off = 56 + i * 48; ch = sv_channels cfg ! i
      in [(off, [sc_index ch]), (off + 1, [sc_role ch]), (off + 2, [sc_psk_len ch]),
          (off + 3, take (unat (sc_psk_len ch)) (sc_psk ch)),
          (off + 35, [sc_name_len ch]), (off + 36, take (unat (sc_name_len ch)) (sc_name ch))])"

definition config_head :: "saved_config \<Rightarrow> field list" where
  "config_head cfg =
     [(0, le32 CONFIG_MAGIC), (4, [CONFIG_VERSION]),
      (5, [sv_long_name_len cfg]), (6, take (unat (sv_long_name_len cfg)) (sv_long_name cfg)),
      (46, [sv_short_name_len cfg]), (47, take (unat (sv_short_name_len cfg)) (sv_short_name cfg)),
      (52, [sv_region cfg]), (53, [sv_modem_preset cfg]), (54, [sv_role cfg]), (55, [sv_num_channels cfg])]"

definition config_tail :: "saved_config \<Rightarrow> field list" where
  "config_tail cfg =
     [(440, [sv_use_preset cfg]), (441, [sv_spread_factor cfg]), (442, le16 (sv_bandwidth_code cfg)),
      (444, [sv_coding_rate cfg]), (445, le16 (sv_channel_num cfg)), (447, [sv_hop_limit cfg]),
      (448, [sv_tx_enabled cfg]), (449, [sv_config_ok_to_mqtt cfg])]"

definition encode_config :: "saved_config \<Rightarrow> bytes" where
  "encode_config cfg =
     writes (config_head cfg @ concat (map (channel_fields cfg) [0..<unat (sv_num_channels cfg)])
       @ config_tail cfg) (replicate CONFIG_SIZE 0xFF)"

definition decode_channel :: "bytes \<Rightarrow> nat \<Rightarrow> saved_channel" where
  "decode_channel buf off =
     (let psk_len = min (buf ! (off + 2)) 32; name_len = min (buf ! (off + 35)) 12
      in \<lparr>sc_index = buf ! off, sc_role = buf ! (off + 1), sc_psk_len = psk_len,
          sc_psk = padded 32 (slice (off + 3) (off + 3 + unat psk_len) buf),
          sc_name_len = name_len, sc_name = padded 12 (slice (off + 36) (off + 36 + unat name_len) buf)\<rparr>)"

definition decode_config :: "bytes \<Rightarrow> saved_config option" where
  "decode_config buf =
     (if of_le32 (buf ! 0) (buf ! 1) (buf ! 2) (buf ! 3) \<noteq> CONFIG_MAGIC \<or> buf ! 4 \<noteq> CONFIG_VERSION then None
      else
        (let long_name_len = min (buf ! 5) 40;
             short_name_len = min (buf ! 46) 5;
             num_channels = min (buf ! 55) 8;
             raw_ch = of_le16 (buf ! 445) (buf ! 446)
         in Some \<lparr>sv_long_name_len = long_name_len,
              sv_long_name = padded 40 (slice 6 (6 + unat long_name_len) buf),
              sv_short_name_len = short_name_len,
              sv_short_name = padded 5 (slice 47 (47 + unat short_name_len) buf),
              sv_region = buf ! 52, sv_modem_preset = buf ! 53, sv_role = buf ! 54,
              sv_num_channels = num_channels,
              sv_channels = map (\<lambda>i. if i < unat num_channels then decode_channel buf (56 + i * 48)
                                     else saved_channel_default) [0..<8],
              sv_use_preset = buf ! 440, sv_spread_factor = buf ! 441,
              sv_bandwidth_code = of_le16 (buf ! 442) (buf ! 443), sv_coding_rate = buf ! 444,
              sv_channel_num = (if raw_ch = 0xFFFF then 0 else raw_ch),
              sv_hop_limit = (if buf ! 447 = 0xFF then DEFAULT_HOP_LIMIT else buf ! 447),
              sv_tx_enabled = (if buf ! 448 = 0xFF then 1 else buf ! 448),
              sv_config_ok_to_mqtt = (if buf ! 449 = 1 then 1 else 0)\<rparr>))"

definition apply_channel :: "saved_channel \<Rightarrow> channel_set \<Rightarrow> channel_set" where
  "apply_channel sc cs =
     (case (if sc_role sc = 1 then Some Primary else if sc_role sc = 2 then Some Secondary else None) of
        None \<Rightarrow> cs
      | Some r \<Rightarrow>
          (let psk = vec_extend PSK_CAP [] (take (unat (sc_psk_len sc)) (sc_psk sc));
               name = (case from_utf8 (take (unat (sc_name_len sc)) (sc_name sc)) of
                         Some s \<Rightarrow> vec_extend CHANNEL_NAME_CAP [] s | None \<Rightarrow> [])
           in chan_set (sc_index sc)
                \<lparr>ch_index = sc_index sc, ch_name = name, ch_psk = psk, ch_role = r\<rparr> cs))"

definition apply_name :: "nat \<Rightarrow> u8 \<Rightarrow> bytes \<Rightarrow> bytes \<Rightarrow> bytes" where
  "apply_name cap len arr old =
     (if 0 < len then
        (case from_utf8 (take (unat len) arr) of Some s \<Rightarrow> vec_extend cap [] s | None \<Rightarrow> old)
      else old)"

definition apply_saved_config :: "env \<Rightarrow> saved_config \<Rightarrow> device_state \<Rightarrow> device_state" where
  "apply_saved_config E saved dev =
     dev\<lparr>long_name := apply_name LONG_NAME_CAP (sv_long_name_len saved) (sv_long_name saved) (long_name dev),
         short_name := apply_name SHORT_NAME_CAP (sv_short_name_len saved) (sv_short_name saved) (short_name dev),
         region := sv_region saved, modem_preset := preset_from_proto (env_preset E) (sv_modem_preset saved),
         use_preset := sv_use_preset saved \<noteq> 0, custom_sf := sv_spread_factor saved,
         custom_bw_hz := bw_code_to_hz (sv_bandwidth_code saved), custom_cr := sv_coding_rate saved,
         channel_num := ucast (sv_channel_num saved), hop_limit_cfg := sv_hop_limit saved,
         tx_enabled := sv_tx_enabled saved \<noteq> 0, config_ok_to_mqtt := sv_config_ok_to_mqtt saved \<noteq> 0,
         role := (case role_try_from (ucast (sv_role saved)) of Some r \<Rightarrow> r | None \<Rightarrow> Client),
         channels := fold apply_channel (take (unat (sv_num_channels saved)) (sv_channels saved)) (channels dev)\<rparr>"

section \<open>Message ring\<close>

definition RING_HEADER_SIZE :: nat where [const_defs]: "RING_HEADER_SIZE = 64"
definition RING_MAGIC :: u32 where [const_defs]: "RING_MAGIC = 0x4D455348"
definition RING_SLOT_PREFIX_SIZE :: nat where [const_defs]: "RING_SLOT_PREFIX_SIZE = 2"

record ring_header =
  rh_head :: nat
  rh_tail :: nat
  rh_count :: nat

definition encode_ring_header :: "ring_header \<Rightarrow> bytes" where
  "encode_ring_header h =
     writes [(0, le32 RING_MAGIC), (4, le32 (of_nat (rh_head h))), (8, le32 (of_nat (rh_tail h))),
             (12, le32 (of_nat (rh_count h)))] (replicate RING_HEADER_SIZE 0xFF)"

definition decode_ring_header :: "nat \<Rightarrow> bytes \<Rightarrow> ring_header option" where
  "decode_ring_header capacity buf =
     (if of_le32 (buf ! 0) (buf ! 1) (buf ! 2) (buf ! 3) \<noteq> RING_MAGIC then None
      else (let head = unat (of_le32 (buf ! 4) (buf ! 5) (buf ! 6) (buf ! 7));
                tail = unat (of_le32 (buf ! 8) (buf ! 9) (buf ! 10) (buf ! 11));
                count = unat (of_le32 (buf ! 12) (buf ! 13) (buf ! 14) (buf ! 15))
            in if capacity \<le> head \<or> capacity \<le> tail \<or> capacity < count then None
               else Some \<lparr>rh_head = head, rh_tail = tail, rh_count = count\<rparr>))"

definition encode_ring_slot_prefix :: "bool \<Rightarrow> nat \<Rightarrow> bytes \<Rightarrow> bytes" where
  "encode_ring_slot_prefix valid len buf = buf[0 := (if valid then 1 else 0), 1 := of_nat len]"

definition decode_ring_slot_prefix :: "bytes \<Rightarrow> bool \<times> nat" where
  "decode_ring_slot_prefix buf = (buf ! 0 = 1, unat (buf ! 1))"

section \<open>The layouts are codecs\<close>

text \<open>Reading the magic and version bytes back from the start of a blob.\<close>

lemma writes_magic:
  assumes "layout_ok 0 (length buf) fs" "(0, le32 m) \<in> set fs" "(4, [v]) \<in> set fs"
  shows "of_le32 (writes fs buf ! 0) (writes fs buf ! 1) (writes fs buf ! 2) (writes fs buf ! 3) = m"
    and "writes fs buf ! 4 = v"
  using writes_byte [OF assms(1,3)] by (auto intro!: writes_le32 [OF assms(1,2)])

lemma bond_header_valid:
  "length b = BOND_SIZE \<Longrightarrow> bond_magic_valid (init_bond_header b) \<and> drop 5 (init_bond_header b) = drop 5 b"
  using writes_magic [of b "[(0, le32 BOND_MAGIC), (4, [BOND_VERSION])]" BOND_MAGIC BOND_VERSION]
  by (auto simp: bond_magic_valid_def init_bond_header_def const_defs write_at_def writes_Cons writes_Nil)

definition keypair_ok :: "bytes \<times> bytes \<Rightarrow> bool" where
  "keypair_ok = (\<lambda>(p, q). length p = 32 \<and> length q = 32 \<and> (\<exists>b \<in> set p. b \<noteq> 0))"

lemma keypair_layout:
  "keypair_ok (p, q) \<Longrightarrow> layout_ok 0 (length (replicate PKC_BLOB_SIZE (0 :: u8)))
     [(0, le32 PKC_MAGIC), (4, [PKC_VERSION]), (8, p), (40, q)]"
  by (simp add: keypair_ok_def const_defs)

interpretation pkc_blob: blob_codec "\<lambda>(p, q). encode_pkc_keypair p q" decode_pkc_keypair PKC_BLOB_SIZE keypair_ok
proof
  fix x assume "keypair_ok x"
  then obtain p q where x: "x = (p, q)" and ok: "keypair_ok (p, q)" by (cases x) auto
  note lay = keypair_layout [OF ok]
  show "length ((\<lambda>(p, q). encode_pkc_keypair p q) x) = PKC_BLOB_SIZE"
    using length_writes [OF lay] by (simp add: x encode_pkc_keypair_def)
  have "slice 8 40 (encode_pkc_keypair p q) = p" "slice 40 72 (encode_pkc_keypair p q) = q"
    unfolding encode_pkc_keypair_def using ok by (auto intro!: writes_field [OF lay] simp: keypair_ok_def)
  moreover have "of_le32 (encode_pkc_keypair p q ! 0) (encode_pkc_keypair p q ! 1)
      (encode_pkc_keypair p q ! 2) (encode_pkc_keypair p q ! 3) = PKC_MAGIC"
    "encode_pkc_keypair p q ! 4 = PKC_VERSION"
    unfolding encode_pkc_keypair_def by (rule writes_magic [OF lay]; simp)+
  ultimately show "decode_pkc_keypair ((\<lambda>(p, q). encode_pkc_keypair p q) x) = Some x"
    using ok by (auto simp: x decode_pkc_keypair_def keypair_ok_def)
qed

definition ring_header_ok :: "nat \<Rightarrow> ring_header \<Rightarrow> bool" where
  "ring_header_ok cap h \<longleftrightarrow> cap < 4294967296 \<and> rh_head h < cap \<and> rh_tail h < cap \<and> rh_count h \<le> cap"

interpretation ring_hdr: blob_codec encode_ring_header "decode_ring_header cap" RING_HEADER_SIZE "ring_header_ok cap"
  for cap
proof
  fix h assume ok: "ring_header_ok cap h"
  let ?fs = "[(0, le32 RING_MAGIC), (4, le32 (of_nat (rh_head h))), (8, le32 (of_nat (rh_tail h))),
             (12, le32 (of_nat (rh_count h)))]"
  have lay: "layout_ok 0 (length (replicate RING_HEADER_SIZE (0xFF :: u8))) ?fs"
    by (simp add: const_defs)
  show "length (encode_ring_header h) = RING_HEADER_SIZE"
    using length_writes [OF lay] by (simp add: encode_ring_header_def)
  have n: "unat (of_nat n :: u32) = n" if "n \<le> cap" for n
    using ok that by (simp add: unsigned_of_nat take_bit_nat_eq_self ring_header_ok_def)
  have "of_le32 (encode_ring_header h ! 0) (encode_ring_header h ! 1) (encode_ring_header h ! 2)
      (encode_ring_header h ! 3) = RING_MAGIC"
    "of_le32 (encode_ring_header h ! 4) (encode_ring_header h ! 5) (encode_ring_header h ! 6)
      (encode_ring_header h ! 7) = of_nat (rh_head h)"
    "of_le32 (encode_ring_header h ! 8) (encode_ring_header h ! 9) (encode_ring_header h ! 10)
      (encode_ring_header h ! 11) = of_nat (rh_tail h)"
    "of_le32 (encode_ring_header h ! 12) (encode_ring_header h ! 13) (encode_ring_header h ! 14)
      (encode_ring_header h ! 15) = of_nat (rh_count h)"
    unfolding encode_ring_header_def by (rule writes_le32 [OF lay]; simp)+
  then show "decode_ring_header cap (encode_ring_header h) = Some h"
    using ok by (simp add: decode_ring_header_def n ring_header_ok_def)
qed

lemma decode_ring_header_ok:
  "cap < 4294967296 \<Longrightarrow> decode_ring_header cap buf = Some h \<Longrightarrow> ring_header_ok cap h"
  by (auto simp: decode_ring_header_def ring_header_ok_def Let_def split: if_splits)

section \<open>The configuration blob is a codec\<close>

text \<open>A length byte with its zero-padded array.\<close>

definition array_ok :: "nat \<Rightarrow> u8 \<Rightarrow> bytes \<Rightarrow> bool" where
  "array_ok cap len arr \<longleftrightarrow> unat len \<le> cap \<and> cap < 256 \<and> arr = padded cap (take (unat len) arr)
     \<and> length arr = cap"

lemma array_ok_padded [simp]: "\<lbrakk>length bs \<le> cap; cap < 256\<rbrakk> \<Longrightarrow> array_ok cap (of_nat (length bs)) (padded cap bs)"
  by (simp add: array_ok_def unsigned_of_nat take_bit_nat_eq_self)

definition saved_channel_ok :: "saved_channel \<Rightarrow> bool" where
  "saved_channel_ok sc \<longleftrightarrow> array_ok 32 (sc_psk_len sc) (sc_psk sc) \<and> array_ok 12 (sc_name_len sc) (sc_name sc)"

definition saved_ok :: "saved_config \<Rightarrow> bool" where
  "saved_ok cfg \<longleftrightarrow> array_ok 40 (sv_long_name_len cfg) (sv_long_name cfg)
     \<and> array_ok 5 (sv_short_name_len cfg) (sv_short_name cfg)
     \<and> unat (sv_num_channels cfg) \<le> 8 \<and> length (sv_channels cfg) = 8
     \<and> (\<forall>i < 8. if i < unat (sv_num_channels cfg) then saved_channel_ok (sv_channels cfg ! i)
               else sv_channels cfg ! i = saved_channel_default)
     \<and> sv_channel_num cfg \<noteq> 0xFFFF \<and> sv_hop_limit cfg \<noteq> 0xFF \<and> sv_tx_enabled cfg \<noteq> 0xFF
     \<and> (sv_config_ok_to_mqtt cfg = 0 \<or> sv_config_ok_to_mqtt cfg = 1)"

lemma array_okD:
  assumes "array_ok cap len arr"
  shows "length (take (unat len) arr) = unat len" "unat len \<le> cap"
    "padded cap (take (unat len) arr) = arr"
  using assms by (simp_all add: array_ok_def)

lemma saved_ok_channel: "\<lbrakk>saved_ok cfg; i < unat (sv_num_channels cfg)\<rbrakk> \<Longrightarrow> saved_channel_ok (sv_channels cfg ! i)"
  by (auto simp: saved_ok_def)

definition config_fields :: "saved_config \<Rightarrow> field list" where
  "config_fields cfg = config_head cfg @ concat (map (channel_fields cfg) [0..<unat (sv_num_channels cfg)])
     @ config_tail cfg"

lemma config_layout:
  assumes "saved_ok cfg"
  shows "layout_ok 0 (length (replicate CONFIG_SIZE (0xFF :: u8))) (config_fields cfg)"
proof -
  have h: "layout_ok 0 56 (config_head cfg)"
    using assms by (auto simp: config_head_def saved_ok_def array_ok_def min_def)
  have c: "layout_ok 56 (56 + unat (sv_num_channels cfg) * 48)
      (concat (map (channel_fields cfg) [0..<unat (sv_num_channels cfg)]))"
  proof (rule layout_ok_concat)
    fix i assume "i < unat (sv_num_channels cfg)"
    from saved_ok_channel [OF assms this]
    show "layout_ok (56 + i * 48) (56 + Suc i * 48) (channel_fields cfg i)"
      by (auto simp: channel_fields_def Let_def saved_channel_ok_def array_ok_def min_def)
  qed
  have t: "layout_ok (56 + unat (sv_num_channels cfg) * 48) 512 (config_tail cfg)"
    using assms by (auto simp: config_tail_def saved_ok_def)
  show ?thesis
    unfolding config_fields_def by (simp add: const_defs layout_ok_append [OF h layout_ok_append [OF c t]])
qed

lemma config_field_sets:
  "set (config_head cfg) \<subseteq> set (config_fields cfg)" "set (config_tail cfg) \<subseteq> set (config_fields cfg)"
  "i < unat (sv_num_channels cfg) \<Longrightarrow> set (channel_fields cfg i) \<subseteq> set (config_fields cfg)"
  by (auto simp: config_fields_def)

lemma min_eq: "unat (a :: u8) \<le> n \<Longrightarrow> n < 256 \<Longrightarrow> min a (of_nat n) = a"
  by (simp add: min_def word_le_nat_alt unsigned_of_nat take_bit_nat_eq_self)

lemma decode_channel_encoded:
  assumes "saved_ok cfg" "i < unat (sv_num_channels cfg)"
  shows "decode_channel (encode_config cfg) (56 + i * 48) = sv_channels cfg ! i"
proof -
  let ?off = "56 + i * 48" and ?ch = "sv_channels cfg ! i" and ?b = "encode_config cfg"
  note lay = config_layout [OF assms(1)]
  have ok: "saved_channel_ok ?ch" using saved_ok_channel [OF assms] .
  have mem: "f \<in> set (channel_fields cfg i) \<Longrightarrow> f \<in> set (config_fields cfg)" for f
    using config_field_sets(3) [OF assms(2)] by blast
  have byte: "?b ! o' = x" if "(o', [x]) \<in> set (channel_fields cfg i)" for o' x
    unfolding encode_config_def config_fields_def [symmetric] by (rule writes_byte [OF lay mem [OF that]])
  have bytes: "?b ! ?off = sc_index ?ch" "?b ! (?off + 1) = sc_role ?ch" "?b ! (?off + 2) = sc_psk_len ?ch"
    "?b ! (?off + 35) = sc_name_len ?ch"
    by (rule byte; simp add: channel_fields_def Let_def)+
  have arr: "slice (?off + 3) (?off + 3 + unat (sc_psk_len ?ch)) ?b = take (unat (sc_psk_len ?ch)) (sc_psk ?ch)"
    "slice (?off + 36) (?off + 36 + unat (sc_name_len ?ch)) ?b = take (unat (sc_name_len ?ch)) (sc_name ?ch)"
    unfolding encode_config_def config_fields_def [symmetric]
    using ok array_okD(1) by (auto intro!: writes_field [OF lay mem] simp: channel_fields_def Let_def saved_channel_ok_def)
  have mins: "min (sc_psk_len ?ch) 32 = sc_psk_len ?ch" "min (sc_name_len ?ch) 12 = sc_name_len ?ch"
    using ok min_eq [of _ 32] min_eq [of _ 12] by (auto simp: saved_channel_ok_def array_ok_def)
  show ?thesis
    unfolding decode_channel_def Let_def bytes mins arr using ok
    by (simp add: saved_channel_ok_def array_okD)
qed

lemma decode_encode_config:
  assumes "saved_ok cfg"
  shows "decode_config (encode_config cfg) = Some cfg"
proof -
  let ?b = "encode_config cfg"
  note lay = config_layout [OF assms]
  have mem: "f \<in> set (config_head cfg) \<union> set (config_tail cfg) \<Longrightarrow> f \<in> set (config_fields cfg)" for f
    using config_field_sets(1,2) by blast
  have byte: "?b ! o' = x" if "(o', [x]) \<in> set (config_head cfg) \<union> set (config_tail cfg)" for o' x
    unfolding encode_config_def config_fields_def [symmetric] by (rule writes_byte [OF lay mem [OF that]])
  note parts = config_head_def config_tail_def
  have magic: "of_le32 (?b ! 0) (?b ! 1) (?b ! 2) (?b ! 3) = CONFIG_MAGIC" "?b ! 4 = CONFIG_VERSION"
    unfolding encode_config_def config_fields_def [symmetric]
    by (rule writes_magic [OF lay mem mem]; simp add: parts)+
  have halves: "of_le16 (?b ! 442) (?b ! 443) = sv_bandwidth_code cfg" "of_le16 (?b ! 445) (?b ! 446) = sv_channel_num cfg"
    unfolding encode_config_def config_fields_def [symmetric]
    by (rule writes_le16 [OF lay mem]; simp add: parts)+
  have head: "?b ! 5 = sv_long_name_len cfg" "?b ! 46 = sv_short_name_len cfg" "?b ! 52 = sv_region cfg"
    "?b ! 53 = sv_modem_preset cfg" "?b ! 54 = sv_role cfg" "?b ! 55 = sv_num_channels cfg"
    "?b ! 440 = sv_use_preset cfg" "?b ! 441 = sv_spread_factor cfg" "?b ! 444 = sv_coding_rate cfg"
    "?b ! 447 = sv_hop_limit cfg" "?b ! 448 = sv_tx_enabled cfg" "?b ! 449 = sv_config_ok_to_mqtt cfg"
    by (rule byte; simp add: parts)+
  have names: "slice 6 (6 + unat (sv_long_name_len cfg)) ?b = take (unat (sv_long_name_len cfg)) (sv_long_name cfg)"
    "slice 47 (47 + unat (sv_short_name_len cfg)) ?b = take (unat (sv_short_name_len cfg)) (sv_short_name cfg)"
    unfolding encode_config_def config_fields_def [symmetric]
    using assms array_okD(1) by (auto intro!: writes_field [OF lay mem] simp: parts saved_ok_def)
  have chans: "map (\<lambda>i. if i < unat (sv_num_channels cfg) then decode_channel ?b (56 + i * 48)
      else saved_channel_default) [0..<8] = sv_channels cfg"
    using assms by (intro nth_equalityI) (auto simp: decode_channel_encoded saved_ok_def)
  have mins: "min (sv_long_name_len cfg) 40 = sv_long_name_len cfg" "min (sv_short_name_len cfg) 5 = sv_short_name_len cfg"
    "min (sv_num_channels cfg) 8 = sv_num_channels cfg"
    using assms min_eq [of _ 40] min_eq [of _ 5] min_eq [of _ 8] by (auto simp: saved_ok_def array_ok_def)
  show ?thesis
    unfolding decode_config_def Let_def magic halves head names mins chans
    using assms by (auto simp: saved_ok_def array_okD)
qed

interpretation config_blob: blob_codec encode_config decode_config CONFIG_SIZE saved_ok
proof
  fix cfg assume ok: "saved_ok cfg"
  show "length (encode_config cfg) = CONFIG_SIZE"
    using length_writes [OF config_layout [OF ok]]
    by (simp add: encode_config_def config_fields_def [symmetric])
  show "decode_config (encode_config cfg) = Some cfg" by (rule decode_encode_config [OF ok])
qed

section \<open>Restoring the live state\<close>

text \<open>What a saved channel table leaves in a slot: the enabled channel, or whatever was there before.\<close>

definition restored_slot :: "channel_config option \<Rightarrow> channel_config option \<Rightarrow> channel_config option" where
  "restored_slot saved old =
     (case saved of Some c \<Rightarrow> if ch_role c = Disabled then old else Some c | None \<Rightarrow> old)"

lemma length_flatten_le: "length (flatten cs) \<le> length cs"
  by (induction cs rule: flatten.induct) auto

lemma fold_active:
  assumes "\<forall>i < length xs. \<forall>c. xs ! i = Some c \<longrightarrow> unat (ch_index c) = k + i" "k + length xs = length cs"
  shows "fold (\<lambda>c s. s[unat (ch_index c) := Some c]) (active_channels xs) cs
    = take k cs @ map2 restored_slot xs (drop k cs)"
  using assms
proof (induction xs arbitrary: k cs)
  case Nil
  then show ?case by (simp add: active_channels_def)
next
  case (Cons x xs)
  let ?cs = "cs[k := restored_slot x (cs ! k)]"
  have k: "k < length cs" using Cons.prems(2) by simp
  have "\<forall>i < length xs. \<forall>c. xs ! i = Some c \<longrightarrow> unat (ch_index c) = Suc k + i"
    using Cons.prems(1) by (metis Suc_less_eq add_Suc_shift length_Cons nth_Cons_Suc)
  then have "fold (\<lambda>c s. s[unat (ch_index c) := Some c]) (active_channels xs) ?cs
      = take (Suc k) ?cs @ map2 restored_slot xs (drop (Suc k) ?cs)"
    using Cons.IH [of "Suc k" ?cs] Cons.prems(2) by simp
  also have "\<dots> = take k cs @ map2 restored_slot (x # xs) (drop k cs)"
    using k by (simp add: take_Suc_conv_app_nth Cons_nth_drop_Suc [symmetric])
  finally show ?case
    using Cons.prems(1) [rule_format, of 0] k
    by (cases x) (auto simp: active_channels_def restored_slot_def)
qed

lemma apply_save_channel:
  assumes "length (ch_psk c) \<le> PSK_CAP" "length (ch_name c) \<le> CHANNEL_NAME_CAP" "utf8_valid (ch_name c)"
    and "ch_role c \<noteq> Disabled" "unat (ch_index c) < MAX_CHANNELS"
  shows "apply_channel (save_channel c) cs = cs[unat (ch_index c) := Some c]"
proof -
  have n: "unat (of_nat (length (ch_psk c)) :: u8) = length (ch_psk c)"
    "unat (of_nat (length (ch_name c)) :: u8) = length (ch_name c)"
    using assms by (simp_all add: unsigned_of_nat take_bit_nat_eq_self const_defs)
  obtain idx nm psk r where c: "c = \<lparr>ch_index = idx, ch_name = nm, ch_psk = psk, ch_role = r\<rparr>"
    by (cases c) auto
  show ?thesis
    using assms n unfolding c
    by (cases r) (simp_all add: apply_channel_def save_channel_def vec_extend_def from_utf8_def
        chan_set_def const_defs)
qed

lemma restore_channels:
  assumes "channels_ok chs" "\<forall>c. Some c \<in> set chs \<longrightarrow> utf8_valid (ch_name c)" "length cs = MAX_CHANNELS"
  shows "fold apply_channel (map save_channel (active_channels chs)) cs = map2 restored_slot chs cs"
proof -
  have "fold apply_channel (map save_channel (active_channels chs)) cs
      = fold (\<lambda>c s. s[unat (ch_index c) := Some c]) (active_channels chs) cs"
    unfolding fold_map
  proof (rule fold_cong [OF refl refl])
    fix c assume "c \<in> set (active_channels chs)"
    then have c: "Some c \<in> set chs" "ch_role c \<noteq> Disabled" by (auto simp: active_channels_def set_flatten)
    then obtain i where "i < length chs" "chs ! i = Some c" by (auto simp: in_set_conv_nth)
    with assms(1) have "unat (ch_index c) < MAX_CHANNELS" "length (ch_psk c) \<le> PSK_CAP"
      "length (ch_name c) \<le> CHANNEL_NAME_CAP" unfolding channels_ok_def by auto
    then show "(apply_channel \<circ> save_channel) c = (\<lambda>s. s[unat (ch_index c) := Some c])"
      using assms(2) c by (auto simp: apply_save_channel)
  qed
  also have "\<dots> = map2 restored_slot chs cs"
    using fold_active [of chs 0 cs] assms by (simp add: channels_ok_def)
  finally show ?thesis .
qed

lemma length_active_channels: "channels_ok chs \<Longrightarrow> length (active_channels chs) \<le> 8"
  using length_flatten_le [of chs]
  by (auto simp: channels_ok_def active_channels_def const_defs intro: order_trans [OF length_filter_le])

lemma save_channel_ok:
  "\<lbrakk>length (ch_psk c) \<le> PSK_CAP; length (ch_name c) \<le> CHANNEL_NAME_CAP\<rbrakk> \<Longrightarrow> saved_channel_ok (save_channel c)"
  by (simp add: saved_channel_ok_def save_channel_def const_defs)

lemma saved_from_device_ok:
  assumes "device_ok dev" "ucast (channel_num dev) \<noteq> (0xFFFF :: u16)"
  shows "saved_ok (saved_config_from_device E dev)"
    and "take (unat (sv_num_channels (saved_config_from_device E dev)))
           (sv_channels (saved_config_from_device E dev)) = map save_channel (active_channels (channels dev))"
proof -
  let ?act = "active_channels (channels dev)"
  have ok: "channels_ok (channels dev)" using assms(1) by (simp add: device_ok_def)
  have l: "length ?act \<le> 8" using length_active_channels [OF ok] .
  then have n: "unat (of_nat (length ?act) :: u8) = length ?act"
    by (simp add: unsigned_of_nat take_bit_nat_eq_self)
  have each: "saved_channel_ok (save_channel c)" if "c \<in> set ?act" for c
  proof -
    from that have "Some c \<in> set (channels dev)" by (auto simp: active_channels_def set_flatten)
    with ok show ?thesis by (auto simp: channels_ok_def in_set_conv_nth intro!: save_channel_ok)
  qed
  have hop: "hop_limit_cfg dev \<noteq> 0xFF"
    using assms(1) by (auto simp: device_ok_def const_defs)
  show "take (unat (sv_num_channels (saved_config_from_device E dev)))
      (sv_channels (saved_config_from_device E dev)) = map save_channel ?act"
    using l by (simp add: saved_config_from_device_def Let_def n)
  show "saved_ok (saved_config_from_device E dev)"
    using assms l hop each
    by (auto simp: saved_config_from_device_def saved_ok_def Let_def n device_ok_def const_defs bool_u8_def
        nth_append)
qed

lemma apply_name_saved:
  "\<lbrakk>length s \<le> cap; cap < 256; utf8_valid s\<rbrakk> \<Longrightarrow>
   apply_name cap (of_nat (length s)) (padded cap s) old = (if s = [] then old else s)"
  by (auto simp: apply_name_def unsigned_of_nat take_bit_nat_eq_self from_utf8_def vec_extend_def
      word_less_nat_alt)

definition preset_roundtrips :: "env \<Rightarrow> modem_preset \<Rightarrow> bool" where
  "preset_roundtrips E p \<longleftrightarrow> env_preset E (uint (env_preset_num E p)) = Some p"

lemma config_restored:
  assumes "device_ok dev" and "preset_roundtrips E (modem_preset dev)"
    and "bw_code_to_hz (bw_hz_to_code (custom_bw_hz dev)) = custom_bw_hz dev"
    and "unat (channel_num dev) < 0xFFFF" and "length (channels fresh) = MAX_CHANNELS"
  shows "\<exists>cfg. decode_config (encode_config (saved_config_from_device E dev)) = Some cfg
    \<and> apply_saved_config E cfg fresh =
        dev\<lparr>my_node_num := my_node_num fresh, mac := mac fresh, hw_model := hw_model fresh,
            packet_id_counter := packet_id_counter fresh,
            long_name := (if long_name dev = [] then long_name fresh else long_name dev),
            short_name := (if short_name dev = [] then short_name fresh else short_name dev),
            channels := map2 restored_slot (channels dev) (channels fresh)\<rparr>"
proof -
  have "unat (ucast (channel_num dev) :: u16) = take_bit 16 (unat (channel_num dev))"
    by (simp only: unsigned_ucast_eq unsigned_take_bit_eq) simp
  also have "\<dots> = unat (channel_num dev)" using assms(4) by (simp add: take_bit_nat_eq_self)
  finally have cn: "ucast (ucast (channel_num dev) :: u16) = channel_num dev"
    by (intro word_unat_eq_iff [THEN iffD2]) (simp only: unat_widen)
  have nf: "ucast (channel_num dev) \<noteq> (0xFFFF :: u16)"
  proof
    assume "ucast (channel_num dev) = (0xFFFF :: u16)"
    with cn have "channel_num dev = ucast (0xFFFF :: u16)" by simp
    with assms(4) show False by simp
  qed
  note ok = saved_from_device_ok [OF assms(1) nf, of E]
  have role: "ucast (ucast (role_num (role dev)) :: u8) = role_num (role dev)"
    by (cases "role dev") simp_all
  have flags: "(bool_u8 b \<noteq> 0) = b" for b by (simp add: bool_u8_def)
  have "apply_saved_config E (saved_config_from_device E dev) fresh =
        dev\<lparr>my_node_num := my_node_num fresh, mac := mac fresh, hw_model := hw_model fresh,
            packet_id_counter := packet_id_counter fresh,
            long_name := (if long_name dev = [] then long_name fresh else long_name dev),
            short_name := (if short_name dev = [] then short_name fresh else short_name dev),
            channels := map2 restored_slot (channels dev) (channels fresh)\<rparr>"
    unfolding apply_saved_config_def ok(2)
    using assms(1-3,5) restore_channels [of "channels dev" "channels fresh"] role
    by (simp add: saved_config_from_device_def Let_def cn flags device_ok_def const_defs apply_name_saved
        preset_from_proto_def preset_roundtrips_def)
  with decode_encode_config [OF ok(1)] show ?thesis by blast
qed

text \<open>C31: the configuration survives a reboot, as far as the blob can express it.  For a well-formed device state with a
  channel number below 65535, a custom bandwidth that the wire code can express and a preset that the protobuf
  numbers round-trip, what is written to flash decodes, and applied to a freshly built device state with its eight
  slots it restores every setting: the names unless empty, the radio parameters, the role, the flags, and every
  enabled channel in its slot; a slot whose channel was disabled keeps what the fresh state has.  (A channel number
  from 65535 on is not restored, which is why it is excluded.)\<close>
theorem config_survives_reboot:
  assumes "device_ok dev" and "preset_roundtrips E (modem_preset dev)"
    and "bw_code_to_hz (bw_hz_to_code (custom_bw_hz dev)) = custom_bw_hz dev"
    and "unat (channel_num dev) < 0xFFFF" and "length (channels fresh) = MAX_CHANNELS"
  shows "\<exists>cfg. decode_config (encode_config (saved_config_from_device E dev)) = Some cfg
    \<and> apply_saved_config E cfg fresh =
        dev\<lparr>my_node_num := my_node_num fresh, mac := mac fresh, hw_model := hw_model fresh,
            packet_id_counter := packet_id_counter fresh,
            long_name := (if long_name dev = [] then long_name fresh else long_name dev),
            short_name := (if short_name dev = [] then short_name fresh else short_name dev),
            channels := map2 restored_slot (channels dev) (channels fresh)\<rparr>"
  using assms by (rule config_restored)

lemma config_survives_reboot_witness:
  "\<exists>cfg dev2. decode_config (encode_config (saved_config_from_device toy_env toy_device)) = Some cfg
     \<and> apply_saved_config toy_env cfg (device_new [1, 2, 0, 0, 0, 7]) = dev2
     \<and> my_node_num dev2 = 7 \<and> short_name dev2 = short_name toy_device"
proof -
  have ok: "device_ok toy_device" by (simp add: toy_device_def device_new_ok)
  have p: "preset_roundtrips toy_env (modem_preset toy_device)"
    by (simp add: preset_roundtrips_def toy_env_def toy_device_simps)
  have bw: "bw_code_to_hz (bw_hz_to_code (custom_bw_hz toy_device)) = custom_bw_hz toy_device"
    and cn: "unat (channel_num toy_device) < 0xFFFF" and sn: "short_name toy_device \<noteq> []"
    by (simp_all add: toy_device_def device_new_def Let_def bw_code_to_hz_def bw_hz_to_code_def slice_def
        hex_byte_def)
  have l: "length (channels (device_new [1, 2, 0, 0, 0, 7])) = MAX_CHANNELS"
    and n: "my_node_num (device_new [1, 2, 0, 0, 0, 7]) = 7"
    by (simp_all add: device_new_def Let_def of_le32_def channel_set_new_def)
  from config_survives_reboot [OF ok p bw cn l] sn n show ?thesis by auto
qed

text \<open>A channel table without an enabled channel in slot 0 gets the default primary channel back.\<close>

lemma disabled_slot_resurrected:
  "map2 restored_slot (None # replicate 7 None) channel_set_new ! 0 = Some default_primary"
  by (simp add: restored_slot_def channel_set_new_def const_defs numeral_eq_Suc)

end
