(* ===== verification/Frame_Store.thy ===== *)
theory Frame_Store
  imports Seen_Ring
begin

text \<open>
  The contract of the \<open>ports::Storage\<close> trait, as its clients rely on it: a queue that holds up to
  \<open>cap\<close> frames, forgets the oldest when a further one is added, shows the oldest and removes it.
  \<open>view\<close> is its content, \<open>repr\<close> what of a frame is kept.
\<close>

locale frame_store =
  fixes add :: "'frame \<Rightarrow> 's \<Rightarrow> 's"
    and peek :: "'s \<Rightarrow> 'e + 'frame option"
    and pop :: "'s \<Rightarrow> 's \<times> ('e + unit)"
    and clear :: "'s \<Rightarrow> 's"
    and view :: "'s \<Rightarrow> 'b list"
    and inv :: "'s \<Rightarrow> bool"
    and wf :: "'frame \<Rightarrow> bool"
    and repr :: "'frame \<Rightarrow> 'b"
    and cap :: nat
    and broken :: 'e
    and nothing :: 'e
  assumes cap_pos: "0 < cap"
    and view_cap: "inv s \<Longrightarrow> length (view s) \<le> cap"
    and inv_add: "\<lbrakk>inv s; wf f\<rbrakk> \<Longrightarrow> inv (add f s)"
    and view_add: "\<lbrakk>inv s; wf f\<rbrakk> \<Longrightarrow> view (add f s) = fifo_push cap (view s) (repr f)"
    and inv_pop: "inv s \<Longrightarrow> inv (fst (pop s))"
    and view_pop: "inv s \<Longrightarrow> view (fst (pop s)) = tl (view s)"
    and pop_result: "inv s \<Longrightarrow> snd (pop s) = (if view s = [] then Inl nothing else Inr ())"
    and peek_empty: "\<lbrakk>inv s; view s = []\<rbrakk> \<Longrightarrow> peek s = Inr None"
    and peek_oldest: "\<lbrakk>inv s; view s = b # bs\<rbrakk> \<Longrightarrow> \<exists>f. peek s = Inr (Some f) \<and> repr f = b \<and> wf f"
    and inv_clear: "inv (clear s)"
    and view_clear: "view (clear s) = []"
begin

text \<open>Adding any number of frames keeps the last \<open>cap\<close> of everything.\<close>

lemma view_add_all:
  "\<lbrakk>inv s; \<forall>f \<in> set fs. wf f\<rbrakk> \<Longrightarrow> inv (fold add fs s)
     \<and> view (fold add fs s) = drop (length (view s) + length fs - cap) (view s @ map repr fs)"
proof (induction fs arbitrary: s)
  case Nil
  then show ?case using view_cap by simp
next
  case (Cons f fs)
  let ?s = "add f s"
  have step: "inv ?s" "view ?s = fifo_push cap (view s) (repr f)"
    using Cons.prems inv_add view_add by auto
  have len: "length (view s) \<le> cap" using Cons.prems view_cap by blast
  have "drop (length (view ?s) + length fs - cap) (view ?s @ map repr fs)
      = drop (length (view s) + length (f # fs) - cap) (view s @ map repr (f # fs))"
  proof (cases "length (view s) < cap")
    case False
    with len cap_pos obtain x xs where x: "view s = x # xs" by (cases "view s") auto
    with False len show ?thesis by (simp add: step fifo_push_def)
  qed (simp add: step fifo_push_def)
  then show ?case using Cons.IH [of ?s] Cons.prems step(1) by simp
qed

text \<open>A client that peeks, then pops, meets the frames in order and never an error.\<close>

lemma peek_cases:
  assumes "inv s"
  obtains "view s = []" "peek s = Inr None"
    | f where "peek s = Inr (Some f)" "wf f" "view s = repr f # view (fst (pop s))" "inv (fst (pop s))"
proof (cases "view s")
  case Nil
  then show thesis using that(1) peek_empty [OF assms] by blast
next
  case (Cons b bs)
  from peek_oldest [OF assms this] obtain f where "peek s = Inr (Some f)" "repr f = b" "wf f" by blast
  with Cons that(2) view_pop [OF assms] inv_pop [OF assms] show thesis by auto
qed

end

end
