(* ===== verification/Nvs_Storage.thy ===== *)
theory Nvs_Storage
  imports Persistence Node_Snapshot Seen_Ring Frame_Store
begin

text \<open>
  \<open>adapters/generic_nvs_storage.rs\<close> with the ports it implements: the store-and-forward ring of
  undelivered frames, cached in RAM and written through to flash, and the sectors of
  configuration, bond, node table and key pair.  The flash driver is not part of the repository:
  its operations are an argument \<open>F\<close>, and a driver call that fails returns \<open>None\<close> or \<open>False\<close>.
\<close>

record 'f flash_ops =
  fl_read :: "'f \<Rightarrow> u32 \<Rightarrow> nat \<Rightarrow> bytes option"
  fl_write :: "u32 \<Rightarrow> bytes \<Rightarrow> 'f \<Rightarrow> 'f \<times> bool"
  fl_erase :: "u32 \<Rightarrow> u32 \<Rightarrow> 'f \<Rightarrow> 'f \<times> bool"

datatype storage_error = Full | Empty | SerializationError | StorageError

definition SECTOR_SIZE :: u32 where [const_defs]: "SECTOR_SIZE = 0x1000"
definition CONFIG_SECTOR :: u32 where [const_defs]: "CONFIG_SECTOR = 0"
definition BOND_SECTOR :: u32 where [const_defs]: "BOND_SECTOR = 1"
definition STORAGE_SECTOR :: u32 where [const_defs]: "STORAGE_SECTOR = 2"
definition NODEDB_SECTOR :: u32 where [const_defs]: "NODEDB_SECTOR = 3"
definition PKC_SECTOR :: u32 where [const_defs]: "PKC_SECTOR = 4"
definition SLOT_FLASH_SIZE :: nat where [const_defs]: "SLOT_FLASH_SIZE = 260"

record cached_slot =
  cs_valid :: bool
  cs_len :: nat
  cs_data :: bytes

definition cached_slot_default :: cached_slot where
  "cached_slot_default = \<lparr>cs_valid = False, cs_len = 0, cs_data = replicate MAX_LORA_PAYLOAD_LEN 0\<rparr>"

record 'f nvs =
  nv_head :: nat
  nv_tail :: nat
  nv_count :: nat
  nv_slots :: "cached_slot list"
  nv_flash :: 'f
  nv_base :: u32
  nv_dirty :: bool

definition sector_offset :: "'f nvs \<Rightarrow> u32 \<Rightarrow> u32" where
  "sector_offset st sector = nv_base st + sector * SECTOR_SIZE"

definition slot_flash_offset :: "'f nvs \<Rightarrow> nat \<Rightarrow> u32" where
  "slot_flash_offset st index =
     sector_offset st STORAGE_SECTOR + of_nat (RING_HEADER_SIZE + index * SLOT_FLASH_SIZE)"

section \<open>The message ring and its flash image\<close>

definition persist_header :: "'f flash_ops \<Rightarrow> 'f nvs \<Rightarrow> 'f nvs" where
  "persist_header F st =
     (let header = encode_ring_header \<lparr>rh_head = nv_head st, rh_tail = nv_tail st, rh_count = nv_count st\<rparr>
      in st\<lparr>nv_flash := fst (fl_write F (sector_offset st STORAGE_SECTOR) header (nv_flash st)),
            nv_dirty := False\<rparr>)"

definition slot_image :: "cached_slot \<Rightarrow> bytes" where
  "slot_image slot =
     (let buf = encode_ring_slot_prefix (cs_valid slot) (cs_len slot) (replicate SLOT_FLASH_SIZE 0)
      in if cs_valid slot \<and> 0 < cs_len slot then write_at 2 (take (cs_len slot) (cs_data slot)) buf else buf)"

definition persist_slot :: "'f flash_ops \<Rightarrow> nat \<Rightarrow> 'f nvs \<Rightarrow> 'f nvs" where
  "persist_slot F index st =
     st\<lparr>nv_flash := fst (fl_write F (slot_flash_offset st index) (slot_image (nv_slots st ! index)) (nv_flash st))\<rparr>"

definition load_slot :: "bytes option \<Rightarrow> cached_slot \<Rightarrow> cached_slot" where
  "load_slot r slot =
     (case r of None \<Rightarrow> slot\<lparr>cs_valid := False\<rparr>
      | Some buf \<Rightarrow>
          (let (valid, len) = decode_ring_slot_prefix buf
           in if valid \<and> len \<le> MAX_LORA_PAYLOAD_LEN
              then slot\<lparr>cs_valid := True, cs_len := len, cs_data := write_at 0 (slice 2 (2 + len) buf) (cs_data slot)\<rparr>
              else slot\<lparr>cs_valid := False\<rparr>))"

definition load_slots :: "'f flash_ops \<Rightarrow> 'f nvs \<Rightarrow> 'f nvs" where
  "load_slots F st =
     fold (\<lambda>i st. st\<lparr>nv_slots := (nv_slots st)[i := load_slot
             (fl_read F (nv_flash st) (slot_flash_offset st i) SLOT_FLASH_SIZE) (nv_slots st ! i)]\<rparr>)
       [0..<MAX_BUFFERED_MESSAGES] st"

definition init_empty :: "'f flash_ops \<Rightarrow> 'f nvs \<Rightarrow> 'f nvs" where
  "init_empty F st =
     persist_header F (st\<lparr>nv_head := 0, nv_tail := 0, nv_count := 0,
       nv_slots := replicate MAX_BUFFERED_MESSAGES cached_slot_default, nv_dirty := True\<rparr>)"

definition load_or_init :: "'f flash_ops \<Rightarrow> 'f nvs \<Rightarrow> 'f nvs" where
  "load_or_init F st =
     (case fl_read F (nv_flash st) (sector_offset st STORAGE_SECTOR) RING_HEADER_SIZE of
        None \<Rightarrow> init_empty F st
      | Some hdr \<Rightarrow>
          (case decode_ring_header MAX_BUFFERED_MESSAGES hdr of
             None \<Rightarrow> init_empty F st
           | Some h \<Rightarrow> load_slots F
               (st\<lparr>nv_head := rh_head h, nv_tail := rh_tail h, nv_count := rh_count h\<rparr>)))"

definition nvs_new :: "'f flash_ops \<Rightarrow> 'f \<Rightarrow> u32 \<Rightarrow> 'f nvs" where
  "nvs_new F flash base_offset =
     load_or_init F \<lparr>nv_head = 0, nv_tail = 0, nv_count = 0,
       nv_slots = replicate MAX_BUFFERED_MESSAGES cached_slot_default, nv_flash = flash,
       nv_base = base_offset, nv_dirty = False\<rparr>"

section \<open>\<open>ports::Storage\<close>\<close>

definition nvs_add :: "'f flash_ops \<Rightarrow> radio_frame \<Rightarrow> 'f nvs \<Rightarrow> 'f nvs" where
  "nvs_add F frame st =
     (let st = (if MAX_BUFFERED_MESSAGES \<le> nv_count st
                then st\<lparr>nv_tail := (nv_tail st + 1) mod MAX_BUFFERED_MESSAGES, nv_count := nv_count st - 1\<rparr>
                else st);
          slot_idx = nv_head st;
          slot = nv_slots st ! slot_idx;
          slot = slot\<lparr>cs_valid := True, cs_len := fr_len frame,
                   cs_data := write_at 0 (take (fr_len frame) (fr_data frame)) (cs_data slot)\<rparr>;
          st = st\<lparr>nv_slots := (nv_slots st)[slot_idx := slot],
                 nv_head := (slot_idx + 1) mod MAX_BUFFERED_MESSAGES, nv_count := nv_count st + 1,
                 nv_dirty := True\<rparr>
      in persist_header F (persist_slot F slot_idx st))"

definition nvs_peek :: "'f nvs \<Rightarrow> storage_error + radio_frame option" where
  "nvs_peek st =
     (if nv_count st = 0 then Inr None
      else (let slot = nv_slots st ! nv_tail st
            in if \<not> cs_valid slot then Inl StorageError
               else Inr (Some (frame_new\<lparr>fr_data := write_at 0 (take (cs_len slot) (cs_data slot)) (fr_data frame_new),
                                         fr_len := cs_len slot\<rparr>))))"

definition nvs_pop :: "'f flash_ops \<Rightarrow> 'f nvs \<Rightarrow> 'f nvs \<times> (storage_error + unit)" where
  "nvs_pop F st =
     (if nv_count st = 0 then (st, Inl Empty)
      else (let old_tail = nv_tail st;
                st = st\<lparr>nv_slots := (nv_slots st)[old_tail := (nv_slots st ! old_tail)\<lparr>cs_valid := False\<rparr>],
                       nv_tail := (old_tail + 1) mod MAX_BUFFERED_MESSAGES, nv_count := nv_count st - 1,
                       nv_dirty := True\<rparr>
            in (persist_header F (persist_slot F old_tail st), Inr ())))"

definition nvs_is_empty :: "'f nvs \<Rightarrow> bool" where "nvs_is_empty st \<longleftrightarrow> nv_count st = 0"
definition nvs_is_full :: "'f nvs \<Rightarrow> bool" where "nvs_is_full st \<longleftrightarrow> MAX_BUFFERED_MESSAGES \<le> nv_count st"

definition nvs_clear :: "'f flash_ops \<Rightarrow> 'f nvs \<Rightarrow> 'f nvs" where
  "nvs_clear F st =
     persist_header F (st\<lparr>nv_head := 0, nv_tail := 0, nv_count := 0,
       nv_slots := replicate MAX_BUFFERED_MESSAGES cached_slot_default, nv_dirty := True\<rparr>)"

section \<open>\<open>ports::ConfigStorage\<close>\<close>

text \<open>Every sector is saved alike: erase it, then write the blob; the first failure ends it.\<close>

definition save_sector :: "'f flash_ops \<Rightarrow> u32 \<Rightarrow> bytes \<Rightarrow> 'f nvs \<Rightarrow> 'f nvs \<times> (storage_error + unit)" where
  "save_sector F sector blob st =
     (let base = sector_offset st sector;
          (fl, erased) = fl_erase F base (base + SECTOR_SIZE) (nv_flash st);
          st = st\<lparr>nv_flash := fl\<rparr>
      in if \<not> erased then (st, Inl StorageError)
         else (let (fl, written) = fl_write F base blob (nv_flash st);
                   st = st\<lparr>nv_flash := fl\<rparr>
               in if written then (st, Inr ()) else (st, Inl StorageError)))"

definition erase_sector :: "'f flash_ops \<Rightarrow> u32 \<Rightarrow> 'f nvs \<Rightarrow> 'f nvs" where
  "erase_sector F sector st =
     (let base = sector_offset st sector
      in st\<lparr>nv_flash := fst (fl_erase F base (base + SECTOR_SIZE) (nv_flash st))\<rparr>)"

definition load_sector :: "'f flash_ops \<Rightarrow> u32 \<Rightarrow> nat \<Rightarrow> 'f nvs \<Rightarrow> bytes option" where
  "load_sector F sector sz st = fl_read F (nv_flash st) (sector_offset st sector) sz"

definition load_config :: "'f flash_ops \<Rightarrow> 'f nvs \<Rightarrow> saved_config option" where
  "load_config F st = Option.bind (load_sector F CONFIG_SECTOR CONFIG_SIZE st) decode_config"

definition save_config :: "'f flash_ops \<Rightarrow> saved_config \<Rightarrow> 'f nvs \<Rightarrow> 'f nvs \<times> (storage_error + unit)" where
  "save_config F cfg st = save_sector F CONFIG_SECTOR (encode_config cfg) st"

definition save_state :: "env \<Rightarrow> 'f flash_ops \<Rightarrow> device_state \<Rightarrow> 'f nvs \<Rightarrow> 'f nvs \<times> (storage_error + unit)" where
  "save_state E F dev st = save_config F (saved_config_from_device E dev) st"

definition load_state :: "env \<Rightarrow> 'f flash_ops \<Rightarrow> 'f nvs \<Rightarrow> device_state \<Rightarrow> device_state" where
  "load_state E F st dev =
     (case load_config F st of None \<Rightarrow> dev | Some saved \<Rightarrow> apply_saved_config E saved dev)"

definition save_bond :: "'f flash_ops \<Rightarrow> bytes \<Rightarrow> 'f nvs \<Rightarrow> 'f nvs \<times> (storage_error + unit)" where
  "save_bond F bond st = save_sector F BOND_SECTOR bond st"

definition load_bond :: "'f flash_ops \<Rightarrow> 'f nvs \<Rightarrow> bytes option" where
  "load_bond F st =
     (case load_sector F BOND_SECTOR BOND_SIZE st of
        None \<Rightarrow> None | Some buf \<Rightarrow> if bond_magic_valid buf then Some buf else None)"

definition clear_bond :: "'f flash_ops \<Rightarrow> 'f nvs \<Rightarrow> 'f nvs" where
  "clear_bond F st = erase_sector F BOND_SECTOR st"

definition erase_config :: "'f flash_ops \<Rightarrow> 'f nvs \<Rightarrow> 'f nvs" where
  "erase_config F st = erase_sector F NODEDB_SECTOR (erase_sector F CONFIG_SECTOR st)"

definition save_node_db :: "sorter \<Rightarrow> 'f flash_ops \<Rightarrow> node_db \<Rightarrow> 'f nvs \<Rightarrow> 'f nvs \<times> (storage_error + unit)" where
  "save_node_db srt F db st = save_sector F NODEDB_SECTOR (to_snapshot srt db) st"

definition load_node_db :: "'f flash_ops \<Rightarrow> 'f nvs \<Rightarrow> node_db \<Rightarrow> node_db" where
  "load_node_db F st db =
     (case load_sector F NODEDB_SECTOR SNAPSHOT_BYTES st of
        None \<Rightarrow> db | Some buf \<Rightarrow> fst (restore_snapshot buf db))"

definition load_pkc_keypair :: "'f flash_ops \<Rightarrow> 'f nvs \<Rightarrow> (bytes \<times> bytes) option" where
  "load_pkc_keypair F st = Option.bind (load_sector F PKC_SECTOR PKC_BLOB_SIZE st) decode_pkc_keypair"

definition save_pkc_keypair :: "'f flash_ops \<Rightarrow> bytes \<Rightarrow> bytes \<Rightarrow> 'f nvs \<Rightarrow> 'f nvs \<times> (storage_error + unit)" where
  "save_pkc_keypair F priv_key pub_key st = save_sector F PKC_SECTOR (encode_pkc_keypair priv_key pub_key) st"

section \<open>The ring in RAM is a bounded queue\<close>

text \<open>The frames between tail and head, oldest first, as their bytes.\<close>

definition window :: "nat \<Rightarrow> 'a list \<Rightarrow> nat \<Rightarrow> nat \<Rightarrow> 'a list" where
  "window N xs tail cnt = map (\<lambda>i. xs ! ((tail + i) mod N)) [0..<cnt]"

definition slot_bytes :: "cached_slot \<Rightarrow> bytes" where
  "slot_bytes slot = take (cs_len slot) (cs_data slot)"

definition live :: "'f nvs \<Rightarrow> cached_slot list" where
  "live st = window MAX_BUFFERED_MESSAGES (nv_slots st) (nv_tail st) (nv_count st)"

definition frames :: "'f nvs \<Rightarrow> bytes list" where
  "frames st = map slot_bytes (live st)"

definition slot_ok :: "cached_slot \<Rightarrow> bool" where
  "slot_ok slot \<longleftrightarrow> length (cs_data slot) = MAX_LORA_PAYLOAD_LEN"

definition live_ok :: "cached_slot \<Rightarrow> bool" where
  "live_ok slot \<longleftrightarrow> cs_valid slot \<and> cs_len slot \<le> MAX_LORA_PAYLOAD_LEN"

definition nvs_ok :: "'f nvs \<Rightarrow> bool" where
  "nvs_ok st \<longleftrightarrow> nv_tail st < MAX_BUFFERED_MESSAGES \<and> nv_count st \<le> MAX_BUFFERED_MESSAGES
     \<and> nv_head st = (nv_tail st + nv_count st) mod MAX_BUFFERED_MESSAGES
     \<and> length (nv_slots st) = MAX_BUFFERED_MESSAGES \<and> (\<forall>s \<in> set (nv_slots st). slot_ok s)
     \<and> (\<forall>s \<in> set (live st). live_ok s)"

lemma length_window [simp]: "length (window N xs t n) = n"
  by (simp add: window_def)

lemma window_0 [simp]: "window N xs t 0 = []"
  by (simp add: window_def)

lemma window_Suc_front: "window N xs t (Suc n) = xs ! (t mod N) # window N xs (Suc t mod N) n"
  unfolding window_def by (auto simp: upt_conv_Cons map_Suc_upt [symmetric] mod_simps simp del: upt_Suc)

lemma window_Suc_back: "window N xs t (Suc n) = window N xs t n @ [xs ! ((t + n) mod N)]"
  by (simp add: window_def)

lemma mod_add_inj_le: "\<lbrakk>(t + j) mod N = (t + i) mod N; i \<le> j; j < N\<rbrakk> \<Longrightarrow> i = (j :: nat)"
  using mod_eq_dvd_iff_nat [of "t + i" "t + j" N] nat_dvd_not_less [of "j - i" N] by fastforce

lemma mod_add_inj: "\<lbrakk>(t + i) mod N = (t + j) mod N; i < N; j < N\<rbrakk> \<Longrightarrow> i = (j :: nat)"
  using mod_add_inj_le [of t i N j] mod_add_inj_le [of t j N i] by (cases "i \<le> j") auto

lemma mod_Suc_shift: "(Suc t mod N + n) mod N = (t + Suc n) mod (N :: nat)"
  by (simp add: mod_add_left_eq)

lemma mod_Suc_add_self: "Suc (t + N) mod N = Suc t mod (N :: nat)"
  using mod_add_self2 [of "Suc t" N] by simp

lemma window_update_other:
  "\<lbrakk>n \<le> N; \<forall>i < n. (t + i) mod N \<noteq> j\<rbrakk> \<Longrightarrow> window N (xs[j := y]) t n = window N xs t n"
  by (auto simp: window_def)

lemma window_push:
  assumes "n < N" "length xs = N"
  shows "window N (xs[(t + n) mod N := y]) t (Suc n) = window N xs t n @ [y]"
proof -
  have "\<forall>i < n. (t + i) mod N \<noteq> (t + n) mod N"
    using assms(1) mod_add_inj [of t _ N n] by fastforce
  with assms show ?thesis by (simp add: window_Suc_back window_update_other)
qed

lemma window_pop_update:
  assumes "n < N" "t < N"
  shows "window N (xs[t := y]) (Suc t mod N) n = window N xs (Suc t mod N) n"
proof (rule window_update_other)
  show "\<forall>i < n. (Suc t mod N + i) mod N \<noteq> t"
  proof (intro allI impI notI)
    fix i assume "i < n" "(Suc t mod N + i) mod N = t"
    then have "(t + Suc i) mod N = (t + 0) mod N" using assms(2) by (simp add: mod_simps)
    from mod_add_inj [OF this] \<open>i < n\<close> assms show False by simp
  qed
qed (use assms in simp)

text \<open>Writing through to flash touches nothing else.\<close>

lemma persist_simps [simp]:
  "nv_head (persist_header F st) = nv_head st" "nv_tail (persist_header F st) = nv_tail st"
  "nv_count (persist_header F st) = nv_count st" "nv_slots (persist_header F st) = nv_slots st"
  "nv_base (persist_header F st) = nv_base st"
  "nv_head (persist_slot F i st) = nv_head st" "nv_tail (persist_slot F i st) = nv_tail st"
  "nv_count (persist_slot F i st) = nv_count st" "nv_slots (persist_slot F i st) = nv_slots st"
  "nv_base (persist_slot F i st) = nv_base st"
  by (simp_all add: persist_header_def persist_slot_def Let_def)

lemma live_cong:
  "\<lbrakk>nv_slots a = nv_slots b; nv_tail a = nv_tail b; nv_count a = nv_count b\<rbrakk> \<Longrightarrow> live a = live b"
  by (simp add: live_def)

text \<open>What an addition and a removal do to the queue of cached slots.\<close>

definition written_slot :: "radio_frame \<Rightarrow> cached_slot \<Rightarrow> cached_slot" where
  "written_slot frame slot = slot\<lparr>cs_valid := True, cs_len := fr_len frame,
     cs_data := write_at 0 (take (fr_len frame) (fr_data frame)) (cs_data slot)\<rparr>"

lemma written_slot_ok:
  "\<lbrakk>slot_ok slot; frame_ok frame\<rbrakk> \<Longrightarrow> slot_ok (written_slot frame slot) \<and> live_ok (written_slot frame slot)
     \<and> slot_bytes (written_slot frame slot) = as_bytes frame"
  by (simp add: slot_ok_def live_ok_def written_slot_def frame_ok_def slot_bytes_def as_bytes_def)

lemma live_add:
  assumes "nvs_ok st"
  shows "live (nvs_add F frame st) =
    fifo_push MAX_BUFFERED_MESSAGES (live st) (written_slot frame (nv_slots st ! nv_head st))"
    and "nv_slots (nvs_add F frame st) = (nv_slots st)[nv_head st := written_slot frame (nv_slots st ! nv_head st)]"
    and "nv_head (nvs_add F frame st) = Suc (nv_head st) mod MAX_BUFFERED_MESSAGES"
    and "nv_tail (nvs_add F frame st) = (if MAX_BUFFERED_MESSAGES \<le> nv_count st
           then Suc (nv_tail st) mod MAX_BUFFERED_MESSAGES else nv_tail st)"
    and "nv_count (nvs_add F frame st) = (if MAX_BUFFERED_MESSAGES \<le> nv_count st
           then MAX_BUFFERED_MESSAGES else Suc (nv_count st))"
proof -
  let ?N = MAX_BUFFERED_MESSAGES and ?w = "written_slot frame (nv_slots st ! nv_head st)"
  have N: "0 < ?N" by (simp add: const_defs)
  from assms have ok: "nv_count st \<le> ?N" "nv_tail st < ?N" "length (nv_slots st) = ?N"
    "nv_head st = (nv_tail st + nv_count st) mod ?N" unfolding nvs_ok_def by auto
  show slots: "nv_slots (nvs_add F frame st) = (nv_slots st)[nv_head st := ?w]"
    and "nv_head (nvs_add F frame st) = Suc (nv_head st) mod ?N"
    and tail: "nv_tail (nvs_add F frame st) = (if ?N \<le> nv_count st then Suc (nv_tail st) mod ?N else nv_tail st)"
    and count: "nv_count (nvs_add F frame st) = (if ?N \<le> nv_count st then ?N else Suc (nv_count st))"
    using ok(1) N by (simp_all add: nvs_add_def Let_def written_slot_def)
  show "live (nvs_add F frame st) = fifo_push ?N (live st) ?w"
  proof (cases "?N \<le> nv_count st")
    case True
    then have full: "nv_count st = ?N" using ok(1) by simp
    then have h: "nv_head st = nv_tail st" using ok(2,4) by simp
    obtain n where n: "?N = Suc n" using N by (cases ?N) auto
    have "(Suc (nv_tail st) mod ?N + n) mod ?N = nv_tail st"
      using ok(2) unfolding mod_Suc_shift n [symmetric] by simp
    then have "window ?N ((nv_slots st)[nv_tail st := ?w]) (Suc (nv_tail st) mod ?N) (Suc n)
        = window ?N (nv_slots st) (Suc (nv_tail st) mod ?N) n @ [?w]"
      using window_push [of n ?N "nv_slots st" "Suc (nv_tail st) mod ?N" ?w] ok(3) n by simp
    moreover have "live st = nv_slots st ! (nv_tail st mod ?N) # window ?N (nv_slots st) (Suc (nv_tail st) mod ?N) n"
      unfolding live_def full by (subst (2) n) (rule window_Suc_front)
    ultimately show ?thesis
      using True unfolding live_def [of "nvs_add F frame st"] slots tail count h
      by (simp add: fifo_push_def n [symmetric])
  next
    case False
    then show ?thesis
      using window_push [of "nv_count st" ?N "nv_slots st" "nv_tail st" ?w] ok
      unfolding live_def [of "nvs_add F frame st"] slots tail count
      by (simp add: fifo_push_def live_def)
  qed
qed

lemma live_pop:
  assumes "nvs_ok st" "nv_count st \<noteq> 0"
  shows "live st = nv_slots st ! nv_tail st # live (fst (nvs_pop F st))"
proof -
  let ?N = MAX_BUFFERED_MESSAGES
  from assms obtain n where n: "nv_count st = Suc n" "n < ?N" "nv_tail st < ?N"
    by (cases "nv_count st") (auto simp: nvs_ok_def)
  then show ?thesis
    using window_pop_update [of n ?N "nv_tail st" "nv_slots st"]
    by (simp add: live_def nvs_pop_def Let_def window_Suc_front)
qed

lemma nvs_add_ok:
  assumes "nvs_ok st" "frame_ok frame"
  shows "nvs_ok (nvs_add F frame st)"
    and "frames (nvs_add F frame st) = fifo_push MAX_BUFFERED_MESSAGES (frames st) (as_bytes frame)"
proof -
  let ?N = MAX_BUFFERED_MESSAGES and ?w = "written_slot frame (nv_slots st ! nv_head st)"
  have ok: "nv_count st \<le> ?N" "nv_tail st < ?N" "length (nv_slots st) = ?N"
    "nv_head st = (nv_tail st + nv_count st) mod ?N" "\<forall>s \<in> set (live st). live_ok s"
    "\<forall>s \<in> set (nv_slots st). slot_ok s" using assms(1) unfolding nvs_ok_def by auto
  have h: "nv_head st < ?N" using ok(2,4) by simp
  then have "slot_ok (nv_slots st ! nv_head st)" using ok(3,6) nth_mem by metis
  note w = written_slot_ok [OF this assms(2)]
  note a = live_add [OF assms(1), of F frame]
  show "frames (nvs_add F frame st) = fifo_push ?N (frames st) (as_bytes frame)"
    using w by (simp add: frames_def a(1) fifo_push_def map_tl)
  have "\<forall>s \<in> set (live (nvs_add F frame st)). live_ok s"
    using ok(5) w list.set_sel(2) [of "live st"] unfolding a(1) fifo_push_def
    by (cases "live st") auto
  moreover have "\<forall>s \<in> set (nv_slots (nvs_add F frame st)). slot_ok s"
    using ok(6) w set_update_subset_insert [of "nv_slots st" "nv_head st" ?w] unfolding a(2) by blast
  moreover have "nv_head (nvs_add F frame st)
      = (nv_tail (nvs_add F frame st) + nv_count (nvs_add F frame st)) mod ?N"
    using ok(1,4) unfolding a(3-5) by (auto simp: mod_simps mod_Suc_add_self)
  ultimately show "nvs_ok (nvs_add F frame st)"
    using ok(2,3) unfolding nvs_ok_def by (simp add: a(2,4,5))
qed

lemma nvs_pop_ok:
  assumes "nvs_ok st"
  shows "nvs_ok (fst (nvs_pop F st))" and "frames (fst (nvs_pop F st)) = tl (frames st)"
    and "snd (nvs_pop F st) = (if frames st = [] then Inl Empty else Inr ())"
proof -
  let ?N = MAX_BUFFERED_MESSAGES
  have ok: "nv_count st \<le> ?N" "nv_tail st < ?N" "length (nv_slots st) = ?N"
    "nv_head st = (nv_tail st + nv_count st) mod ?N" "\<forall>s \<in> set (live st). live_ok s"
    "\<forall>s \<in> set (nv_slots st). slot_ok s" using assms(1) unfolding nvs_ok_def by auto
  have "nvs_ok (fst (nvs_pop F st)) \<and> frames (fst (nvs_pop F st)) = tl (frames st)
      \<and> snd (nvs_pop F st) = (if frames st = [] then Inl Empty else Inr ())"
  proof (cases "nv_count st = 0")
    case True
    then show ?thesis using assms by (simp add: nvs_pop_def frames_def live_def)
  next
    case False
    note l = live_pop [OF assms False, of F]
    let ?dead = "(nv_slots st ! nv_tail st)\<lparr>cs_valid := False\<rparr>"
    have slots: "nv_slots (fst (nvs_pop F st)) = (nv_slots st)[nv_tail st := ?dead]"
      "nv_tail (fst (nvs_pop F st)) = Suc (nv_tail st) mod ?N" "nv_head (fst (nvs_pop F st)) = nv_head st"
      "nv_count (fst (nvs_pop F st)) = nv_count st - 1" "snd (nvs_pop F st) = Inr ()"
      using False by (simp_all add: nvs_pop_def Let_def)
    have "slot_ok ?dead" using ok(2,3,6) by (simp add: slot_ok_def)
    then have "\<forall>s \<in> set (nv_slots (fst (nvs_pop F st))). slot_ok s"
      using ok(6) set_update_subset_insert [of "nv_slots st" "nv_tail st" ?dead] unfolding slots by blast
    moreover have "nv_head st = (Suc (nv_tail st) mod ?N + (nv_count st - 1)) mod ?N"
      using ok(4) False unfolding mod_Suc_shift by simp
    ultimately have "nvs_ok (fst (nvs_pop F st))"
      using ok unfolding nvs_ok_def by (simp add: slots l)
    then show ?thesis using l slots(5) by (simp add: frames_def)
  qed
  then show "nvs_ok (fst (nvs_pop F st))" "frames (fst (nvs_pop F st)) = tl (frames st)"
    "snd (nvs_pop F st) = (if frames st = [] then Inl Empty else Inr ())" by auto
qed

lemma nvs_peek_ok:
  assumes "nvs_ok st"
  shows "case frames st of [] \<Rightarrow> nvs_peek st = Inr None
    | b # bs \<Rightarrow> \<exists>f. nvs_peek st = Inr (Some f) \<and> as_bytes f = b \<and> frame_ok f"
proof (cases "nv_count st = 0")
  case True
  then show ?thesis by (simp add: frames_def live_def nvs_peek_def)
next
  case False
  note l = live_pop [OF assms False, of "undefined"]
  then have "live_ok (nv_slots st ! nv_tail st)" "slot_ok (nv_slots st ! nv_tail st)"
    using assms by (auto simp: nvs_ok_def)
  with l False show ?thesis
    by (simp add: frames_def nvs_peek_def Let_def as_bytes_def slot_bytes_def live_ok_def slot_ok_def
        frame_ok_def frame_new_def)
qed

lemma slot_ok_default [simp]: "slot_ok cached_slot_default"
  by (simp add: slot_ok_def cached_slot_default_def)

lemma nvs_clear_ok: "nvs_ok (nvs_clear F st) \<and> frames (nvs_clear F st) = []"
  by (simp add: nvs_ok_def nvs_clear_def frames_def live_def const_defs)

lemma init_empty_is_clear: "init_empty F st = nvs_clear F st"
  by (simp add: init_empty_def nvs_clear_def)

lemma nvs_is_empty_iff: "nvs_is_empty st \<longleftrightarrow> frames st = []"
  by (simp add: nvs_is_empty_def frames_def live_def window_def)

lemma nvs_is_full_iff: "nvs_is_full st \<longleftrightarrow> MAX_BUFFERED_MESSAGES \<le> length (frames st)"
  by (simp add: nvs_is_full_def frames_def live_def)

text \<open>The adapter implements the storage port, whatever the flash driver does.\<close>

interpretation nvs_port: frame_store "nvs_add F" nvs_peek "nvs_pop F" "nvs_clear F" frames nvs_ok
    frame_ok as_bytes MAX_BUFFERED_MESSAGES StorageError Empty for F
proof
  fix st :: "'a nvs" and frame :: radio_frame
  assume ok: "nvs_ok st"
  show "length (frames st) \<le> MAX_BUFFERED_MESSAGES" using ok by (simp add: frames_def live_def nvs_ok_def)
  show "frame_ok frame \<Longrightarrow> nvs_ok (nvs_add F frame st)" using ok by (rule nvs_add_ok)
  show "frame_ok frame \<Longrightarrow> frames (nvs_add F frame st) = fifo_push MAX_BUFFERED_MESSAGES (frames st) (as_bytes frame)"
    using ok by (rule nvs_add_ok)
  show "nvs_ok (fst (nvs_pop F st))" "frames (fst (nvs_pop F st)) = tl (frames st)"
    "snd (nvs_pop F st) = (if frames st = [] then Inl Empty else Inr ())"
    using nvs_pop_ok [OF ok] by auto
  show "frames st = [] \<Longrightarrow> nvs_peek st = Inr None"
    using nvs_peek_ok [OF ok] by simp
  show "frames st = b # bs \<Longrightarrow> \<exists>f. nvs_peek st = Inr (Some f) \<and> as_bytes f = b \<and> frame_ok f" for b bs
    using nvs_peek_ok [OF ok] by simp
next
  fix st :: "'a nvs"
  show "nvs_ok (nvs_clear F st)" "frames (nvs_clear F st) = []" using nvs_clear_ok by auto
qed (simp_all add: const_defs)

text \<open>Saving settings does not touch the ring in RAM.\<close>

lemma nvs_ok_flash [simp]: "nvs_ok (st\<lparr>nv_flash := fl\<rparr>) = nvs_ok st" "frames (st\<lparr>nv_flash := fl\<rparr>) = frames st"
  by (simp_all add: nvs_ok_def live_def frames_def)

lemma save_sector_ram [simp]:
  "nvs_ok (fst (save_sector F sector blob st)) = nvs_ok st" "frames (fst (save_sector F sector blob st)) = frames st"
  by (simp_all add: save_sector_def Let_def split_beta)

lemma save_ram [simp]:
  "nvs_ok (fst (save_state E F dev st)) = nvs_ok st" "frames (fst (save_state E F dev st)) = frames st"
  "nvs_ok (fst (save_node_db srt F db st)) = nvs_ok st" "frames (fst (save_node_db srt F db st)) = frames st"
  "nvs_ok (fst (save_bond F bond st)) = nvs_ok st" "frames (fst (save_bond F bond st)) = frames st"
  "nvs_ok (clear_bond F st) = nvs_ok st" "frames (clear_bond F st) = frames st"
  "nvs_ok (erase_config F st) = nvs_ok st" "frames (erase_config F st) = frames st"
  by (simp_all add: save_state_def save_config_def save_node_db_def save_bond_def clear_bond_def erase_config_def
      erase_sector_def Let_def)

end
