(* ===== verification/Nvs_Flash.thy ===== *)
theory Nvs_Flash
  imports Nvs_Storage
begin

text \<open>
  The storage adapter over a flash device.  \<open>flash_device\<close> is the part of the \<open>NorFlash\<close> contract
  the code relies on when it erases before it writes; \<open>rmw_ops\<close> is a driver whose write replaces
  bytes (the ESP32 board wraps a read-modify-write store), \<open>nor_ops\<close> one that, like the nRF52
  controller, can only clear bits until the sector is erased.  Every settings sector is safe on
  both; the message ring, which is rewritten in place without an erase, is durable on the first
  and never on the second.
\<close>

section \<open>Sectors that are erased before they are written\<close>

definition NVS_BYTES :: nat where [const_defs]: "NVS_BYTES = 20480"

definition room :: "u32 \<Rightarrow> bytes \<Rightarrow> bool" where
  "room base img \<longleftrightarrow> unat base + NVS_BYTES \<le> length img \<and> length img < 4294967296"

lemma unat_plus_small: "unat (a :: u32) + n < 4294967296 \<Longrightarrow> unat (a + of_nat n) = unat a + n"
  by (simp add: unat_word_ariths unsigned_of_nat take_bit_nat_eq_self)

lemma sector_offset_nat:
  assumes "room (nv_base st) img" "unat sector < 5"
  shows "unat (sector_offset st sector) = unat (nv_base st) + unat sector * 4096"
proof -
  have "sector_offset st sector = nv_base st + of_nat (unat sector * 4096)"
    by (simp add: sector_offset_def const_defs)
  then show ?thesis
    using assms unat_plus_small [of "nv_base st" "unat sector * 4096"] by (simp add: room_def const_defs)
qed

lemma sector_end_nat:
  assumes "room (nv_base st) img" "unat sector < 5"
  shows "unat (sector_offset st sector + SECTOR_SIZE) = unat (nv_base st) + unat sector * 4096 + 4096"
  using assms sector_offset_nat [OF assms] unat_plus_small [of "sector_offset st sector" 4096]
  by (simp add: room_def const_defs)

locale flash_device =
  fixes F :: "'f flash_ops" and content :: "'f \<Rightarrow> bytes"
  assumes read_content: "unat a + n \<le> length (content fl) \<Longrightarrow>
      fl_read F fl a n = Some (slice (unat a) (unat a + n) (content fl))"
    and erase_content: "\<lbrakk>unat a \<le> unat b; unat b \<le> length (content fl)\<rbrakk> \<Longrightarrow>
      snd (fl_erase F a b fl) \<and> content (fst (fl_erase F a b fl))
        = write_at (unat a) (replicate (unat b - unat a) 0xFF) (content fl)"
    and write_erased: "\<lbrakk>unat a + length bs \<le> length (content fl);
        slice (unat a) (unat a + length bs) (content fl) = replicate (length bs) 0xFF\<rbrakk> \<Longrightarrow>
      snd (fl_write F a bs fl) \<and> content (fst (fl_write F a bs fl)) = write_at (unat a) bs (content fl)"
begin

lemma save_sector_content:
  assumes "room (nv_base st) (content (nv_flash st))" "unat sector < 5" "length blob \<le> 4096"
  shows "snd (save_sector F sector blob st) = Inr ()"
    and "nv_base (fst (save_sector F sector blob st)) = nv_base st"
    and "content (nv_flash (fst (save_sector F sector blob st)))
      = write_at (unat (nv_base st) + unat sector * 4096) blob
          (write_at (unat (nv_base st) + unat sector * 4096) (replicate 4096 0xFF) (content (nv_flash st)))"
proof -
  let ?img = "content (nv_flash st)" and ?b = "sector_offset st sector"
  let ?o = "unat (nv_base st) + unat sector * 4096"
  let ?er = "fl_erase F ?b (?b + SECTOR_SIZE) (nv_flash st)"
  note o = sector_offset_nat [OF assms(1,2)] sector_end_nat [OF assms(1,2)]
  have fits: "?o + 4096 \<le> length ?img" using assms(1,2) by (simp add: room_def const_defs)
  have er: "snd ?er" "content (fst ?er) = write_at ?o (replicate 4096 0xFF) ?img"
    using erase_content [of ?b "?b + SECTOR_SIZE" "nv_flash st"] fits by (simp_all add: o)
  have "slice ?o (?o + length blob) (write_at ?o (replicate 4096 0xFF) ?img) = replicate (length blob) 0xFF"
    using fits assms(3) by (auto intro!: nth_equalityI simp: nth_write_at)
  then have wr: "snd (fl_write F ?b blob (fst ?er))"
    "content (fst (fl_write F ?b blob (fst ?er))) = write_at ?o blob (content (fst ?er))"
    using write_erased [of ?b blob "fst ?er"] fits assms(3) by (simp_all add: o er)
  obtain fl1 where fl1: "?er = (fl1, True)" using er(1) by (cases ?er) auto
  obtain fl2 where fl2: "fl_write F ?b blob fl1 = (fl2, True)"
    using wr(1) fl1 by (cases "fl_write F ?b blob fl1") auto
  show "snd (save_sector F sector blob st) = Inr ()"
    and "nv_base (fst (save_sector F sector blob st)) = nv_base st"
    and "content (nv_flash (fst (save_sector F sector blob st)))
      = write_at ?o blob (write_at ?o (replicate 4096 0xFF) ?img)"
    using wr(2) er(2) by (simp_all add: save_sector_def Let_def fl1 fl2)
qed

text \<open>A saved blob is read back, and the other sectors are as they were.\<close>

lemma save_then_load:
  assumes "room (nv_base st) (content (nv_flash st))" "unat sector < 5" "unat other < 5"
    and "length blob \<le> 4096" "n \<le> 4096"
  shows "load_sector F other n (fst (save_sector F sector blob st)) =
    (if other = sector then Some (take n (blob @ replicate (4096 - length blob) 0xFF))
     else load_sector F other n st)"
proof -
  let ?st = "fst (save_sector F sector blob st)"
  let ?img = "content (nv_flash st)" and ?o = "\<lambda>s :: u32. unat (nv_base st) + unat s * 4096"
  note c = save_sector_content [OF assms(1,2,4)]
  have fits: "?o s + 4096 \<le> length ?img" if "unat s < 5" for s
    using assms(1) that by (simp add: room_def const_defs)
  have o: "unat (sector_offset ?st other) = ?o other" "unat (sector_offset st other) = ?o other"
    using sector_offset_nat [OF assms(1,3)] by (simp_all add: sector_offset_def c(2))
  have rd: "load_sector F other n ?st = Some (slice (?o other) (?o other + n) (content (nv_flash ?st)))"
    "load_sector F other n st = Some (slice (?o other) (?o other + n) ?img)"
    unfolding load_sector_def
    using read_content [of "sector_offset ?st other" n "nv_flash ?st"]
      read_content [of "sector_offset st other" n "nv_flash st"] fits [OF assms(2)] fits [OF assms(3)] assms(4,5)
    by (simp_all add: o c(3))
  show ?thesis
  proof (cases "other = sector")
    case True
    have "slice (?o sector) (?o sector + n) (write_at (?o sector) blob (write_at (?o sector) (replicate 4096 0xFF) ?img))
        = take n (blob @ replicate (4096 - length blob) 0xFF)"
      using fits [OF assms(2)] assms(4,5)
      by (auto intro!: nth_equalityI simp: nth_write_at nth_append)
    with rd(1) True show ?thesis by (simp only: c(3) refl if_True)
  next
    case False
    then have "unat other < unat sector \<or> unat sector < unat other" by (auto simp: word_unat_eq_iff)
    then have "?o other + 4096 \<le> ?o sector \<or> ?o sector + 4096 \<le> ?o other" by auto
    then have "slice (?o other) (?o other + n) (content (nv_flash ?st)) = slice (?o other) (?o other + n) ?img"
      using fits [OF assms(2)] fits [OF assms(3)] assms(4,5)
      by (auto simp: c(3) slice_write_other)
    with False show ?thesis by (simp add: rd)
  qed
qed

lemma erase_then_load:
  assumes "room (nv_base st) (content (nv_flash st))" "unat sector < 5" "n \<le> 4096"
  shows "load_sector F sector n (erase_sector F sector st) = Some (replicate n 0xFF)"
proof -
  let ?o = "unat (nv_base st) + unat sector * 4096" and ?b = "sector_offset st sector"
  note o = sector_offset_nat [OF assms(1,2)] sector_end_nat [OF assms(1,2)]
  have fits: "?o + 4096 \<le> length (content (nv_flash st))" using assms(1,2) by (simp add: room_def const_defs)
  have er: "content (fst (fl_erase F ?b (?b + SECTOR_SIZE) (nv_flash st)))
      = write_at ?o (replicate 4096 0xFF) (content (nv_flash st))"
    using erase_content [of ?b "?b + SECTOR_SIZE" "nv_flash st"] fits by (simp add: o)
  have "sector_offset (erase_sector F sector st) sector = ?b" by (simp add: erase_sector_def sector_offset_def Let_def)
  then have "load_sector F sector n (erase_sector F sector st)
      = Some (slice ?o (?o + n) (write_at ?o (replicate 4096 0xFF) (content (nv_flash st))))"
    using read_content [of ?b n "fst (fl_erase F ?b (?b + SECTOR_SIZE) (nv_flash st))"] fits assms(3)
    by (simp add: load_sector_def erase_sector_def Let_def er o)
  also have "slice ?o (?o + n) (write_at ?o (replicate 4096 0xFF) (content (nv_flash st))) = replicate n 0xFF"
    using fits assms(3) by (auto intro!: nth_equalityI simp: nth_write_at)
  finally show ?thesis .
qed

lemma erase_frame:
  assumes "room (nv_base st) (content (nv_flash st))" "unat sector < 5"
  shows "room (nv_base (erase_sector F sector st)) (content (nv_flash (erase_sector F sector st)))"
    and "\<lbrakk>unat other < 5; other \<noteq> sector; n \<le> 4096\<rbrakk> \<Longrightarrow>
      load_sector F other n (erase_sector F sector st) = load_sector F other n st"
proof -
  let ?o = "\<lambda>s :: u32. unat (nv_base st) + unat s * 4096" and ?b = "sector_offset st sector"
  let ?img = "content (nv_flash st)" and ?st = "erase_sector F sector st"
  note o = sector_offset_nat [OF assms] sector_end_nat [OF assms]
  have fits: "?o s + 4096 \<le> length ?img" if "unat s < 5" for s
    using assms(1) that by (simp add: room_def const_defs)
  have er: "content (nv_flash ?st) = write_at (?o sector) (replicate 4096 0xFF) ?img" "nv_base ?st = nv_base st"
    using erase_content [of ?b "?b + SECTOR_SIZE" "nv_flash st"] fits [OF assms(2)] by (simp_all add: erase_sector_def Let_def o)
  then show "room (nv_base ?st) (content (nv_flash ?st))"
    using assms(1) fits [OF assms(2)] by (simp add: room_def length_write_at)
  assume other: "unat other < 5" "other \<noteq> sector" "n \<le> 4096"
  have oo: "unat (sector_offset ?st other) = ?o other" "unat (sector_offset st other) = ?o other"
    using sector_offset_nat [OF assms(1) other(1)] er(2) by (simp_all add: sector_offset_def)
  have "unat other < unat sector \<or> unat sector < unat other" using other(2) by (auto simp: word_unat_eq_iff)
  then have "?o other + 4096 \<le> ?o sector \<or> ?o sector + 4096 \<le> ?o other" by auto
  then have "slice (?o other) (?o other + n) (content (nv_flash ?st)) = slice (?o other) (?o other + n) ?img"
    using fits [OF assms(2)] fits [OF other(1)] other(3) by (auto simp: er(1) slice_write_other)
  then show "load_sector F other n ?st = load_sector F other n st"
    unfolding load_sector_def
    using read_content [of "sector_offset ?st other" n "nv_flash ?st"]
      read_content [of "sector_offset st other" n "nv_flash st"] fits [OF other(1)] fits [OF assms(2)] other(3)
    by (simp add: oo er(1))
qed

end

section \<open>Two drivers\<close>

definition in_range :: "bytes \<Rightarrow> u32 \<Rightarrow> nat \<Rightarrow> bool" where
  "in_range img a n \<longleftrightarrow> unat a + n \<le> length img"

definition img_read :: "bytes \<Rightarrow> u32 \<Rightarrow> nat \<Rightarrow> bytes option" where
  "img_read img a n = (if in_range img a n then Some (slice (unat a) (unat a + n) img) else None)"

definition img_erase :: "u32 \<Rightarrow> u32 \<Rightarrow> bytes \<Rightarrow> bytes \<times> bool" where
  "img_erase a b img =
     (if unat a \<le> unat b \<and> unat b \<le> length img
      then (write_at (unat a) (replicate (unat b - unat a) 0xFF) img, True) else (img, False))"

definition rmw_ops :: "bytes flash_ops" where
  "rmw_ops = \<lparr>fl_read = img_read,
     fl_write = (\<lambda>a bs img. if in_range img a (length bs) then (write_at (unat a) bs img, True) else (img, False)),
     fl_erase = img_erase\<rparr>"

definition nor_ops :: "bytes flash_ops" where
  "nor_ops = \<lparr>fl_read = img_read,
     fl_write = (\<lambda>a bs img. if in_range img a (length bs)
       then (write_at (unat a) (map2 (AND) bs (slice (unat a) (unat a + length bs) img)) img, True)
       else (img, False)),
     fl_erase = img_erase\<rparr>"

lemma and_erased: "map2 (AND) bs (replicate (length bs) (0xFF :: u8)) = bs"
proof (induction bs)
  case (Cons b bs)
  have "b AND 0xFF = take_bit LENGTH(8) b" by (simp add: take_bit_eq_mask mask_eq_exp_minus_1)
  also have "\<dots> = b" by (rule take_bit_length_eq)
  finally have "b AND 0xFF = b" .
  with Cons show ?case by simp
qed simp

interpretation rmw: flash_device rmw_ops id
  by unfold_locales (simp_all add: rmw_ops_def img_read_def img_erase_def in_range_def)

interpretation nor: flash_device nor_ops id
  by unfold_locales (simp_all add: nor_ops_def img_read_def img_erase_def in_range_def and_erased)

end
