(* ===== verification/Ring_Durability.thy ===== *)
theory Ring_Durability
  imports Nvs_Flash
begin

text \<open>
  Does the message ring outlive a power cycle?  The sequence of buffering, delivering and clearing
  operations and power cycles is compared with a bounded queue that ignores power cycles.
\<close>

datatype ring_op = Buffer radio_frame | Deliver | Wipe | PowerCycle

fun ring_step :: "'f flash_ops \<Rightarrow> ring_op \<Rightarrow> 'f nvs \<Rightarrow> 'f nvs" where
  "ring_step F (Buffer frame) st = nvs_add F frame st"
| "ring_step F Deliver st = fst (nvs_pop F st)"
| "ring_step F Wipe st = nvs_clear F st"
| "ring_step F PowerCycle st = nvs_new F (nv_flash st) (nv_base st)"

fun queue_step :: "ring_op \<Rightarrow> bytes list \<Rightarrow> bytes list" where
  "queue_step (Buffer frame) q = fifo_push MAX_BUFFERED_MESSAGES q (as_bytes frame)"
| "queue_step Deliver q = tl q"
| "queue_step Wipe q = []"
| "queue_step PowerCycle q = q"

definition op_ok :: "ring_op \<Rightarrow> bool" where
  "op_ok op \<longleftrightarrow> (\<forall>frame. op = Buffer frame \<longrightarrow> frame_ok frame)"

section \<open>Where the ring lies\<close>

definition ring_at :: "u32 \<Rightarrow> nat" where "ring_at base = unat base + 8192"
definition slot_at :: "u32 \<Rightarrow> nat \<Rightarrow> nat" where "slot_at base j = ring_at base + 64 + j * 260"

definition header_of :: "'f nvs \<Rightarrow> ring_header" where
  "header_of st = \<lparr>rh_head = nv_head st, rh_tail = nv_tail st, rh_count = nv_count st\<rparr>"

lemma ring_at_offset: "room (nv_base st) img \<Longrightarrow> unat (sector_offset st STORAGE_SECTOR) = ring_at (nv_base st)"
  using sector_offset_nat [of st img STORAGE_SECTOR] by (simp add: ring_at_def const_defs)

lemma slot_at_offset:
  assumes "room (nv_base st) img" "j < 10"
  shows "unat (slot_flash_offset st j) = slot_at (nv_base st) j"
  using assms unat_plus_small [of "sector_offset st STORAGE_SECTOR" "64 + j * 260"] ring_at_offset [OF assms(1)]
  by (simp add: slot_flash_offset_def slot_at_def ring_at_def room_def const_defs)

lemma ring_fits:
  assumes "room base img"
  shows "ring_at base + 64 \<le> length img" "j < 10 \<Longrightarrow> slot_at base j + 260 \<le> length img"
  using assms by (auto simp: room_def ring_at_def slot_at_def const_defs)

lemma length_slot_image [simp]: "cs_len s \<le> 255 \<Longrightarrow> length (slot_image s) = 260"
  by (simp add: slot_image_def encode_ring_slot_prefix_def const_defs Let_def)

lemma length_encode_header [simp]: "length (encode_ring_header h) = 64"
  using length_writes [of 0 "replicate RING_HEADER_SIZE (0xFF :: u8)"
      "[(0, le32 RING_MAGIC), (4, le32 (of_nat (rh_head h))), (8, le32 (of_nat (rh_tail h))),
        (12, le32 (of_nat (rh_count h)))]"]
  by (simp add: encode_ring_header_def const_defs)

section \<open>Loading\<close>

lemma fold_update_all:
  "n \<le> length xs \<Longrightarrow> fold (\<lambda>i xs. xs[i := g i (xs ! i)]) [0..<n] xs
     = map (\<lambda>i. g i (xs ! i)) [0..<n] @ drop n xs"
proof (induction n)
  case (Suc n)
  then have "drop n xs = xs ! n # drop (Suc n) xs" by (simp add: Cons_nth_drop_Suc)
  with Suc show ?case by (simp add: list_update_append nth_append)
qed simp

lemma load_slots_fold:
  "fold (\<lambda>i st. st\<lparr>nv_slots := (nv_slots st)[i := load_slot
             (fl_read F (nv_flash st) (slot_flash_offset st i) SLOT_FLASH_SIZE) (nv_slots st ! i)]\<rparr>) ns (st\<lparr>nv_slots := xs\<rparr>)
   = st\<lparr>nv_slots := fold (\<lambda>i xs. xs[i := load_slot
             (fl_read F (nv_flash st) (slot_flash_offset st i) SLOT_FLASH_SIZE) (xs ! i)]) ns xs\<rparr>"
  by (induction ns arbitrary: xs) (simp_all add: slot_flash_offset_def sector_offset_def)

lemma load_slots_eq:
  assumes "length (nv_slots st) = MAX_BUFFERED_MESSAGES"
  shows "load_slots F st = st\<lparr>nv_slots := map (\<lambda>i. load_slot
      (fl_read F (nv_flash st) (slot_flash_offset st i) SLOT_FLASH_SIZE) (nv_slots st ! i)) [0..<MAX_BUFFERED_MESSAGES]\<rparr>"
  using load_slots_fold [where F = F and ns = "[0..<MAX_BUFFERED_MESSAGES]" and st = st and xs = "nv_slots st"] assms
    fold_update_all [of MAX_BUFFERED_MESSAGES "nv_slots st" "\<lambda>i. load_slot
      (fl_read F (nv_flash st) (slot_flash_offset st i) SLOT_FLASH_SIZE)"]
  by (simp add: load_slots_def)

lemma load_slot_ok: "\<lbrakk>slot_ok s; length buf = 260\<rbrakk> \<Longrightarrow> slot_ok (load_slot (Some buf) s)"
  by (auto simp: load_slot_def slot_ok_def decode_ring_slot_prefix_def const_defs Let_def)

lemma slot_image_cong:
  "\<lbrakk>cs_valid a = cs_valid b; cs_len a = cs_len b; take (cs_len b) (cs_data a) = take (cs_len b) (cs_data b)\<rbrakk>
   \<Longrightarrow> slot_image a = slot_image b"
  by (simp add: slot_image_def Let_def)

text \<open>A live slot comes back with its flag, its length and its bytes.\<close>

lemma load_slot_image:
  assumes "live_ok s" "slot_ok s" "slot_ok old"
  shows "live_ok (load_slot (Some (slot_image s)) old)" "slot_bytes (load_slot (Some (slot_image s)) old) = slot_bytes s"
    "slot_image (load_slot (Some (slot_image s)) old) = slot_image s"
proof -
  let ?d = "take (cs_len s) (cs_data s)"
  let ?pre = "encode_ring_slot_prefix True (cs_len s) (replicate SLOT_FLASH_SIZE 0)"
  have len: "cs_len s \<le> 255" "length ?d = cs_len s" using assms by (auto simp: live_ok_def slot_ok_def const_defs)
  have n: "unat (of_nat (cs_len s) :: u8) = cs_len s"
    using len(1) by (simp add: unsigned_of_nat take_bit_nat_eq_self)
  have lpre: "length ?pre = 260" "?pre ! 0 = 1" "?pre ! 1 = of_nat (cs_len s)"
    by (simp_all add: encode_ring_slot_prefix_def const_defs)
  have im: "slot_image s = write_at 2 ?d ?pre"
    using assms(1) append_take_drop_id [of 2 ?pre]
    by (cases "cs_len s = 0") (simp_all add: slot_image_def live_ok_def Let_def write_at_def)
  have "slot_image s ! 0 = 1" "slot_image s ! 1 = of_nat (cs_len s)"
    "slice 2 (2 + cs_len s) (slot_image s) = ?d"
    unfolding im using lpre len by (simp_all add: nth_write_at)
  then have ld: "load_slot (Some (slot_image s)) old
      = old\<lparr>cs_valid := True, cs_len := cs_len s, cs_data := write_at 0 ?d (cs_data old)\<rparr>"
    using len(1) by (simp add: load_slot_def decode_ring_slot_prefix_def n const_defs)
  show "live_ok (load_slot (Some (slot_image s)) old)"
    using assms(1) by (simp add: ld live_ok_def)
  show "slot_bytes (load_slot (Some (slot_image s)) old) = slot_bytes s"
    using len(2) by (simp add: ld slot_bytes_def write_at_def)
  have "take (cs_len s) (cs_data (load_slot (Some (slot_image s)) old)) = ?d"
    using len(2) by (simp add: ld write_at_def)
  then show "slot_image (load_slot (Some (slot_image s)) old) = slot_image s"
    by (rule slot_image_cong [rotated 2]) (use assms(1) in \<open>simp_all add: ld live_ok_def\<close>)
qed

section \<open>The flash image of a ring\<close>

definition live_idx :: "'f nvs \<Rightarrow> nat set" where
  "live_idx st = (\<lambda>i. (nv_tail st + i) mod MAX_BUFFERED_MESSAGES) ` {..<nv_count st}"

definition slot_kept :: "bytes nvs \<Rightarrow> nat \<Rightarrow> bool" where
  "slot_kept st j \<longleftrightarrow> slice (slot_at (nv_base st) j) (slot_at (nv_base st) j + 260) (nv_flash st)
     = slot_image (nv_slots st ! j)"

definition header_kept :: "bytes nvs \<Rightarrow> bool" where
  "header_kept st \<longleftrightarrow> slice (ring_at (nv_base st)) (ring_at (nv_base st) + 64) (nv_flash st)
     = encode_ring_header (header_of st)"

definition image_ok :: "bytes nvs \<Rightarrow> bool" where
  "image_ok st \<longleftrightarrow> nvs_ok st \<and> room (nv_base st) (nv_flash st) \<and> header_kept st
     \<and> (\<forall>j \<in> live_idx st. slot_kept st j)"

lemma live_idx_less: "j \<in> live_idx st \<Longrightarrow> j < 10"
  by (auto simp: live_idx_def const_defs)

lemma live_set: "set (live st) = (\<lambda>j. nv_slots st ! j) ` live_idx st"
  by (auto simp: live_def window_def live_idx_def)

lemma rmw_persist_header:
  assumes "room (nv_base st) (nv_flash st)"
  shows "nv_flash (persist_header rmw_ops st)
    = write_at (ring_at (nv_base st)) (encode_ring_header (header_of st)) (nv_flash st)"
  using ring_at_offset [OF assms] ring_fits(1) [OF assms]
  by (simp add: persist_header_def Let_def rmw_ops_def in_range_def header_of_def)

lemma rmw_persist_slot:
  assumes "room (nv_base st) (nv_flash st)" "j < 10" "cs_len (nv_slots st ! j) \<le> 255"
  shows "nv_flash (persist_slot rmw_ops j st)
    = write_at (slot_at (nv_base st) j) (slot_image (nv_slots st ! j)) (nv_flash st)"
  using slot_at_offset [OF assms(1,2)] ring_fits(2) [OF assms(1,2)] assms(3)
  by (simp add: persist_slot_def rmw_ops_def in_range_def)

lemma header_of_persist [simp]: "header_of (persist_slot F j st) = header_of st"
  by (simp add: header_of_def)

text \<open>Writing one slot and then the header keeps the image of every other live slot.\<close>

lemma write_through:
  assumes "room (nv_base st) (nv_flash st)" "j < 10" "cs_len (nv_slots st ! j) \<le> 255"
    and "\<forall>k \<in> live_idx st. k \<noteq> j \<longrightarrow> slot_kept st k"
  shows "room (nv_base st) (nv_flash (persist_header rmw_ops (persist_slot rmw_ops j st)))"
    and "header_kept (persist_header rmw_ops (persist_slot rmw_ops j st))"
    and "\<forall>k \<in> live_idx st. slot_kept (persist_header rmw_ops (persist_slot rmw_ops j st)) k"
proof -
  let ?b = "nv_base st" and ?fl = "nv_flash st"
  let ?fl1 = "write_at (slot_at ?b j) (slot_image (nv_slots st ! j)) ?fl"
  let ?fl2 = "write_at (ring_at ?b) (encode_ring_header (header_of st)) ?fl1"
  note fits = ring_fits [OF assms(1)]
  have len1: "length ?fl1 = length ?fl" using fits(2) [OF assms(2)] assms(3) by simp
  then have len2: "length ?fl2 = length ?fl" using fits(1) by simp
  have "room (nv_base (persist_slot rmw_ops j st)) (nv_flash (persist_slot rmw_ops j st))"
    using assms(1) len1 by (simp add: rmw_persist_slot [OF assms(1-3)] room_def)
  from rmw_persist_header [OF this] have fl: "nv_flash (persist_header rmw_ops (persist_slot rmw_ops j st)) = ?fl2"
    by (simp add: rmw_persist_slot [OF assms(1-3)])
  show "room (nv_base st) (nv_flash (persist_header rmw_ops (persist_slot rmw_ops j st)))"
    using assms(1) len2 by (simp add: fl room_def)
  show "header_kept (persist_header rmw_ops (persist_slot rmw_ops j st))"
    using fits(1) len1 by (simp add: header_kept_def fl header_of_def)
  show "\<forall>k \<in> live_idx st. slot_kept (persist_header rmw_ops (persist_slot rmw_ops j st)) k"
  proof
    fix k assume k: "k \<in> live_idx st"
    note k10 = live_idx_less [OF k]
    have "slice (slot_at ?b k) (slot_at ?b k + 260) ?fl2 = slice (slot_at ?b k) (slot_at ?b k + 260) ?fl1"
      using fits(1) fits(2) [OF k10] len1 by (intro slice_write_other) (simp_all add: slot_at_def)
    also have "\<dots> = slot_image (nv_slots st ! k)"
    proof (cases "k = j")
      case True
      then show ?thesis using fits(2) [OF assms(2)] assms(3) by simp
    next
      case False
      then have "slot_at ?b k + 260 \<le> slot_at ?b j \<or> slot_at ?b j + 260 \<le> slot_at ?b k"
        by (auto simp: slot_at_def)
      then have "slice (slot_at ?b k) (slot_at ?b k + 260) ?fl1 = slice (slot_at ?b k) (slot_at ?b k + 260) ?fl"
        using fits(2) [OF assms(2)] fits(2) [OF k10] assms(3) by (intro slice_write_other) auto
      then show ?thesis using assms(4) k False by (simp add: slot_kept_def)
    qed
    finally show "slot_kept (persist_header rmw_ops (persist_slot rmw_ops j st)) k"
      by (simp add: slot_kept_def fl)
  qed
qed

text \<open>The RAM half of an addition and of a removal.\<close>

definition add_ram :: "radio_frame \<Rightarrow> 'f nvs \<Rightarrow> 'f nvs" where
  "add_ram frame st =
     (let st = (if MAX_BUFFERED_MESSAGES \<le> nv_count st
                then st\<lparr>nv_tail := (nv_tail st + 1) mod MAX_BUFFERED_MESSAGES, nv_count := nv_count st - 1\<rparr>
                else st)
      in st\<lparr>nv_slots := (nv_slots st)[nv_head st := written_slot frame (nv_slots st ! nv_head st)],
            nv_head := (nv_head st + 1) mod MAX_BUFFERED_MESSAGES, nv_count := nv_count st + 1,
            nv_dirty := True\<rparr>)"

definition pop_ram :: "'f nvs \<Rightarrow> 'f nvs" where
  "pop_ram st = st\<lparr>nv_slots := (nv_slots st)[nv_tail st := (nv_slots st ! nv_tail st)\<lparr>cs_valid := False\<rparr>],
     nv_tail := Suc (nv_tail st) mod MAX_BUFFERED_MESSAGES, nv_count := nv_count st - 1, nv_dirty := True\<rparr>"

lemma nvs_add_split: "nvs_add F frame st = persist_header F (persist_slot F (nv_head st) (add_ram frame st))"
  by (simp add: nvs_add_def add_ram_def Let_def written_slot_def)

lemma nvs_pop_split:
  "nv_count st \<noteq> 0 \<Longrightarrow> fst (nvs_pop F st) = persist_header F (persist_slot F (nv_tail st) (pop_ram st))"
  by (simp add: nvs_pop_def pop_ram_def Let_def)

lemma ram_simps [simp]:
  "nv_base (add_ram frame st) = nv_base st" "nv_flash (add_ram frame st) = nv_flash st"
  "nv_base (pop_ram st) = nv_base st" "nv_flash (pop_ram st) = nv_flash st"
  "nv_slots (add_ram frame st) = (nv_slots st)[nv_head st := written_slot frame (nv_slots st ! nv_head st)]"
  "nv_slots (pop_ram st) = (nv_slots st)[nv_tail st := (nv_slots st ! nv_tail st)\<lparr>cs_valid := False\<rparr>]"
  by (simp_all add: add_ram_def pop_ram_def Let_def)

lemma live_idx_persist [simp]:
  "live_idx (persist_header F st) = live_idx st" "live_idx (persist_slot F j st) = live_idx st"
  by (simp_all add: live_idx_def)

lemma live_idx_add:
  assumes "nvs_ok st"
  shows "live_idx (add_ram frame st) \<subseteq> insert (nv_head st) (live_idx st)"
proof
  fix k assume "k \<in> live_idx (add_ram frame st)"
  then obtain i where k: "k = (nv_tail (add_ram frame st) + i) mod MAX_BUFFERED_MESSAGES"
    "i < nv_count (add_ram frame st)" by (auto simp: live_idx_def)
  note h = assms [unfolded nvs_ok_def]
  show "k \<in> insert (nv_head st) (live_idx st)"
  proof (cases "MAX_BUFFERED_MESSAGES \<le> nv_count st")
    case True
    then have "k = (nv_tail st + Suc i) mod MAX_BUFFERED_MESSAGES" "i < nv_count st"
      using k h by (auto simp: add_ram_def Let_def mod_Suc_shift mod_simps)
    then show ?thesis
      using h by (cases "Suc i = nv_count st") (auto simp: live_idx_def intro!: image_eqI [of _ _ "Suc i"])
  next
    case False
    then have "k = (nv_tail st + i) mod MAX_BUFFERED_MESSAGES" "i \<le> nv_count st"
      using k by (auto simp: add_ram_def Let_def)
    then show ?thesis using h by (cases "i = nv_count st") (auto simp: live_idx_def)
  qed
qed

lemma live_idx_pop:
  assumes "nvs_ok st" "nv_count st \<noteq> 0"
  shows "live_idx (pop_ram st) \<subseteq> live_idx st" "nv_tail st \<in> live_idx st" "nv_tail st \<notin> live_idx (pop_ram st)"
proof -
  note h = assms(1) [unfolded nvs_ok_def]
  show "live_idx (pop_ram st) \<subseteq> live_idx st"
  proof
    fix k assume "k \<in> live_idx (pop_ram st)"
    then obtain i where "k = (nv_tail st + Suc i) mod MAX_BUFFERED_MESSAGES" "i < nv_count st - 1"
      by (auto simp: live_idx_def pop_ram_def mod_Suc_shift)
    then show "k \<in> live_idx st"
      unfolding live_idx_def by (intro image_eqI [of _ _ "Suc i"]) auto
  qed
  show "nv_tail st \<in> live_idx st"
    using h assms(2) by (auto simp: live_idx_def intro!: image_eqI [of _ _ 0])
  show "nv_tail st \<notin> live_idx (pop_ram st)"
  proof
    assume "nv_tail st \<in> live_idx (pop_ram st)"
    then obtain i where i: "(nv_tail st + 0) mod MAX_BUFFERED_MESSAGES = (nv_tail st + Suc i) mod MAX_BUFFERED_MESSAGES"
      "i < nv_count st - 1" using h by (auto simp: live_idx_def pop_ram_def mod_Suc_shift)
    have "Suc i < MAX_BUFFERED_MESSAGES" using i(2) h by linarith
    with mod_add_inj [OF i(1)] show False by simp
  qed
qed

lemma image_ok_add:
  assumes "image_ok st" "frame_ok frame"
  shows "image_ok (nvs_add rmw_ops frame st)"
proof -
  have ok: "nvs_ok st" "room (nv_base st) (nv_flash st)" "\<forall>j \<in> live_idx st. slot_kept st j"
    using assms(1) by (auto simp: image_ok_def)
  then have h: "nv_head st < 10" "length (nv_slots st) = 10" by (simp_all add: nvs_ok_def const_defs)
  have "\<forall>k \<in> live_idx (add_ram frame st). k \<noteq> nv_head st \<longrightarrow> slot_kept (add_ram frame st) k"
    using live_idx_add [OF ok(1), of frame] ok(3) by (auto simp: slot_kept_def)
  moreover have "cs_len (nv_slots (add_ram frame st) ! nv_head st) \<le> 255"
    using h assms(2) by (simp add: written_slot_def frame_ok_def const_defs)
  ultimately show ?thesis
    using write_through [of "add_ram frame st" "nv_head st"] ok(2) h nvs_add_ok(1) [OF ok(1) assms(2)]
    unfolding image_ok_def nvs_add_split by simp
qed

lemma image_ok_pop:
  assumes "image_ok st"
  shows "image_ok (fst (nvs_pop rmw_ops st))"
proof (cases "nv_count st = 0")
  case True
  then show ?thesis using assms by (simp add: nvs_pop_def)
next
  case False
  have ok: "nvs_ok st" "room (nv_base st) (nv_flash st)" "\<forall>j \<in> live_idx st. slot_kept st j"
    using assms(1) by (auto simp: image_ok_def)
  then have h: "nv_tail st < 10" "length (nv_slots st) = 10" by (simp_all add: nvs_ok_def const_defs)
  note idx = live_idx_pop [OF ok(1) False]
  have "nv_slots st ! nv_tail st \<in> set (live st)" using idx(2) by (simp add: live_set)
  then have "cs_len (nv_slots st ! nv_tail st) \<le> 255" using ok(1) by (auto simp: nvs_ok_def live_ok_def const_defs)
  moreover have "\<forall>k \<in> live_idx (pop_ram st). k \<noteq> nv_tail st \<longrightarrow> slot_kept (pop_ram st) k"
    using idx ok(3) by (auto simp: slot_kept_def)
  ultimately show ?thesis
    using write_through [of "pop_ram st" "nv_tail st"] ok(2) h nvs_pop_ok(1) [OF ok(1), of rmw_ops]
    unfolding image_ok_def nvs_pop_split [OF False] by simp
qed

lemma image_ok_clear:
  assumes "room (nv_base st) (nv_flash st)"
  shows "image_ok (nvs_clear rmw_ops st)"
proof -
  let ?st = "st\<lparr>nv_head := 0, nv_tail := 0, nv_count := 0,
    nv_slots := replicate MAX_BUFFERED_MESSAGES cached_slot_default, nv_dirty := True\<rparr>"
  have c: "nvs_clear rmw_ops st = persist_header rmw_ops ?st" by (simp add: nvs_clear_def)
  have fl: "nv_flash (nvs_clear rmw_ops st)
      = write_at (ring_at (nv_base st)) (encode_ring_header (header_of ?st)) (nv_flash st)"
    unfolding c using rmw_persist_header [of ?st] assms by simp
  have b: "nv_base (nvs_clear rmw_ops st) = nv_base st" "header_of (nvs_clear rmw_ops st) = header_of ?st"
    "live_idx (nvs_clear rmw_ops st) = {}"
    unfolding c by (simp_all add: header_of_def live_idx_def)
  show ?thesis
    using nvs_clear_ok [of rmw_ops st] ring_fits(1) [OF assms] assms
    by (simp add: image_ok_def header_kept_def fl b room_def)
qed

section \<open>A power cycle\<close>

definition blank_ring :: "'f \<Rightarrow> u32 \<Rightarrow> 'f nvs" where
  "blank_ring flash base = \<lparr>nv_head = 0, nv_tail = 0, nv_count = 0,
     nv_slots = replicate MAX_BUFFERED_MESSAGES cached_slot_default, nv_flash = flash,
     nv_base = base, nv_dirty = False\<rparr>"

lemma nvs_new_blank: "nvs_new F flash base = load_or_init F (blank_ring flash base)"
  by (simp add: nvs_new_def blank_ring_def)

lemma blank_ring_simps [simp]:
  "nv_base (blank_ring flash base) = base" "nv_flash (blank_ring flash base) = flash"
  "nv_slots (blank_ring flash base) = replicate MAX_BUFFERED_MESSAGES cached_slot_default"
  by (simp_all add: blank_ring_def)

lemma rmw_read_header:
  assumes "room base img"
  shows "fl_read rmw_ops img (sector_offset (blank_ring img base) STORAGE_SECTOR) RING_HEADER_SIZE
    = Some (slice (ring_at base) (ring_at base + 64) img)"
  using rmw.read_content [of "sector_offset (blank_ring img base) STORAGE_SECTOR" 64 img] ring_fits(1) [OF assms]
    ring_at_offset [of "blank_ring img base" img] assms by (simp add: const_defs)

lemma reload_slots:
  assumes "image_ok st"
  defines "st' \<equiv> nvs_new rmw_ops (nv_flash st) (nv_base st)"
  shows "nv_head st' = nv_head st" "nv_tail st' = nv_tail st" "nv_count st' = nv_count st"
    "nv_base st' = nv_base st" "nv_flash st' = nv_flash st"
    "nv_slots st' = map (\<lambda>i. load_slot (Some (slice (slot_at (nv_base st) i) (slot_at (nv_base st) i + 260) (nv_flash st)))
       cached_slot_default) [0..<10]"
proof -
  let ?b = "nv_base st" and ?img = "nv_flash st"
  let ?st1 = "(blank_ring ?img ?b)\<lparr>nv_head := nv_head st, nv_tail := nv_tail st, nv_count := nv_count st\<rparr>"
  from assms(1) have room: "room ?b ?img" and hdr: "header_kept st" and ok: "nvs_ok st"
    by (auto simp: image_ok_def)
  have "ring_header_ok MAX_BUFFERED_MESSAGES (header_of st)"
    using ok by (auto simp: ring_header_ok_def header_of_def nvs_ok_def const_defs)
  then have dec: "decode_ring_header MAX_BUFFERED_MESSAGES (slice (ring_at ?b) (ring_at ?b + 64) ?img) = Some (header_of st)"
    using hdr by (simp add: header_kept_def ring_hdr.dec_enc)
  have "st' = load_slots rmw_ops ?st1"
    by (simp add: st'_def nvs_new_blank load_or_init_def rmw_read_header [OF room] dec header_of_def)
  moreover have "fl_read rmw_ops ?img (slot_flash_offset ?st1 i) SLOT_FLASH_SIZE
      = Some (slice (slot_at ?b i) (slot_at ?b i + 260) ?img)" if "i < 10" for i
    using rmw.read_content [of "slot_flash_offset ?st1 i" 260 ?img] ring_fits(2) [OF room that]
      slot_at_offset [of ?st1 ?img i] room that by (simp add: const_defs)
  ultimately have "st' = ?st1\<lparr>nv_slots := map (\<lambda>i. load_slot (Some (slice (slot_at ?b i) (slot_at ?b i + 260) ?img))
      cached_slot_default) [0..<10]\<rparr>"
    using load_slots_eq [of ?st1 rmw_ops] by (simp add: const_defs cong: map_cong)
  then show "nv_head st' = nv_head st" "nv_tail st' = nv_tail st" "nv_count st' = nv_count st"
    "nv_base st' = nv_base st" "nv_flash st' = nv_flash st"
    "nv_slots st' = map (\<lambda>i. load_slot (Some (slice (slot_at ?b i) (slot_at ?b i + 260) ?img))
       cached_slot_default) [0..<10]"
    by simp_all
qed

lemma image_ok_power_cycle:
  assumes "image_ok st"
  defines "st' \<equiv> nvs_new rmw_ops (nv_flash st) (nv_base st)"
  shows "image_ok st'" "frames st' = frames st"
proof -
  note r = reload_slots [OF assms(1), folded st'_def]
  have ok: "nvs_ok st" "room (nv_base st) (nv_flash st)" "header_kept st" "\<forall>j \<in> live_idx st. slot_kept st j"
    using assms(1) by (auto simp: image_ok_def)
  have idx: "live_idx st' = live_idx st" using r by (simp add: live_idx_def)
  have each: "live_ok (nv_slots st' ! j) \<and> slot_bytes (nv_slots st' ! j) = slot_bytes (nv_slots st ! j)
      \<and> slot_image (nv_slots st' ! j) = slot_image (nv_slots st ! j)" if j: "j \<in> live_idx st" for j
  proof -
    have "nv_slots st ! j \<in> set (live st)" using j by (simp add: live_set)
    then have l: "live_ok (nv_slots st ! j)" using ok(1) by (simp add: nvs_ok_def)
    have "slot_ok (nv_slots st ! j)"
      using ok(1) live_idx_less [OF j] by (simp add: nvs_ok_def const_defs)
    note im = load_slot_image [OF l this slot_ok_default]
    have "nv_slots st' ! j = load_slot (Some (slot_image (nv_slots st ! j))) cached_slot_default"
      using live_idx_less [OF j] ok(4) j by (simp add: r slot_kept_def)
    with im show ?thesis by simp
  qed
  have lv: "live st' = map (\<lambda>i. nv_slots st' ! ((nv_tail st + i) mod MAX_BUFFERED_MESSAGES)) [0..<nv_count st]"
    by (simp add: live_def window_def r(2,3))
  show "frames st' = frames st"
    unfolding frames_def lv using each
    by (auto simp: live_def window_def live_idx_def)
  have "length (slice (slot_at (nv_base st) j) (slot_at (nv_base st) j + 260) (nv_flash st)) = 260" if "j < 10" for j
    using ring_fits(2) [OF ok(2) that] by simp
  then have "\<forall>s \<in> set (nv_slots st'). slot_ok s" by (auto simp: r intro!: load_slot_ok)
  moreover have "\<forall>s \<in> set (live st'). live_ok s" using each by (auto simp: live_set idx)
  ultimately have "nvs_ok st'" using ok(1) by (simp add: nvs_ok_def r const_defs)
  then show "image_ok st'"
    using ok each by (auto simp: image_ok_def idx r header_kept_def header_of_def slot_kept_def)
qed

text \<open>Blank flash: nothing that decodes as a ring header.\<close>

definition no_ring :: "bytes \<Rightarrow> u32 \<Rightarrow> bool" where
  "no_ring img base \<longleftrightarrow>
     decode_ring_header MAX_BUFFERED_MESSAGES (slice (ring_at base) (ring_at base + 64) img) = None"

lemma first_boot:
  assumes "room base img" "no_ring img base"
  shows "nvs_new rmw_ops img base = nvs_clear rmw_ops (blank_ring img base)"
  using assms rmw_read_header [OF assms(1)]
  by (simp add: nvs_new_blank load_or_init_def no_ring_def init_empty_is_clear)

lemma ring_run:
  assumes "image_ok st" "\<forall>op \<in> set ops. op_ok op"
  shows "image_ok (fold (ring_step rmw_ops) ops st)
    \<and> frames (fold (ring_step rmw_ops) ops st) = fold queue_step ops (frames st)"
  using assms
proof (induction ops arbitrary: st)
  case (Cons op ops)
  have ok: "nvs_ok st" "room (nv_base st) (nv_flash st)" using Cons.prems(1) by (auto simp: image_ok_def)
  have "image_ok (ring_step rmw_ops op st) \<and> frames (ring_step rmw_ops op st) = queue_step op (frames st)"
  proof (cases op)
    case (Buffer frame)
    then have "frame_ok frame" using Cons.prems(2) by (simp add: op_ok_def)
    with Buffer Cons.prems(1) ok show ?thesis by (simp add: image_ok_add nvs_port.view_add)
  next
    case Deliver
    with Cons.prems(1) ok show ?thesis by (simp add: image_ok_pop nvs_port.view_pop)
  next
    case Wipe
    with ok show ?thesis by (simp add: image_ok_clear nvs_port.view_clear)
  next
    case PowerCycle
    with Cons.prems(1) show ?thesis by (simp add: image_ok_power_cycle)
  qed
  with Cons show ?case by simp
qed simp

section \<open>Without an erase\<close>

text \<open>On NOR flash the first header ever written fixes the counters at zero: later writes can only
  clear bits.\<close>

definition zero_header :: ring_header where
  "zero_header = \<lparr>rh_head = 0, rh_tail = 0, rh_count = 0\<rparr>"

lemma encode_ring_header_bytes:
  "encode_ring_header h = le32 RING_MAGIC @ le32 (of_nat (rh_head h)) @ le32 (of_nat (rh_tail h))
     @ le32 (of_nat (rh_count h)) @ replicate 48 0xFF"
  by (simp add: encode_ring_header_def writes_Cons writes_Nil write_at_def le32_def const_defs)

lemma and_zero_header: "map2 (AND) (encode_ring_header h) (encode_ring_header zero_header) = encode_ring_header zero_header"
proof -
  have z: "map2 (AND) (le32 w) (le32 0) = le32 0" for w by (simp add: le32_def)
  have m: "map2 (AND) xs xs = (xs :: bytes)" for xs by (induction xs) simp_all
  show ?thesis by (simp add: encode_ring_header_bytes zero_header_def zip_append z m)
qed

definition header_stuck :: "bytes nvs \<Rightarrow> bool" where
  "header_stuck st \<longleftrightarrow> nvs_ok st \<and> room (nv_base st) (nv_flash st)
     \<and> slice (ring_at (nv_base st)) (ring_at (nv_base st) + 64) (nv_flash st) = encode_ring_header zero_header"

lemma nor_write_length [simp]: "length (fst (fl_write nor_ops a bs img)) = length img"
  by (simp add: nor_ops_def in_range_def)

lemma nor_header_stuck:
  assumes "room (nv_base st) (nv_flash st)"
    and "slice (ring_at (nv_base st)) (ring_at (nv_base st) + 64) (nv_flash st) \<in> {encode_ring_header zero_header, replicate 64 0xFF}"
    and "header_of st = zero_header \<or>
      slice (ring_at (nv_base st)) (ring_at (nv_base st) + 64) (nv_flash st) = encode_ring_header zero_header"
  shows "slice (ring_at (nv_base st)) (ring_at (nv_base st) + 64) (nv_flash (persist_header nor_ops st))
    = encode_ring_header zero_header"
    and "length (nv_flash (persist_header nor_ops st)) = length (nv_flash st)"
proof -
  let ?r = "slice (ring_at (nv_base st)) (ring_at (nv_base st) + 64) (nv_flash st)"
  have "nv_flash (persist_header nor_ops st)
      = write_at (ring_at (nv_base st)) (map2 (AND) (encode_ring_header (header_of st)) ?r) (nv_flash st)"
    using ring_at_offset [OF assms(1)] ring_fits(1) [OF assms(1)]
    by (simp add: persist_header_def Let_def nor_ops_def in_range_def header_of_def)
  moreover have "map2 (AND) (encode_ring_header (header_of st)) ?r = encode_ring_header zero_header"
    using assms(2,3) and_zero_header [of "header_of st"] and_erased [of "encode_ring_header zero_header"] by auto
  ultimately show "slice (ring_at (nv_base st)) (ring_at (nv_base st) + 64) (nv_flash (persist_header nor_ops st))
      = encode_ring_header zero_header" "length (nv_flash (persist_header nor_ops st)) = length (nv_flash st)"
    using ring_fits(1) [OF assms(1)] by simp_all
qed

lemma nor_slot_elsewhere:
  assumes "room (nv_base st) (nv_flash st)" "j < 10"
  shows "slice (ring_at (nv_base st)) (ring_at (nv_base st) + 64) (nv_flash (persist_slot nor_ops j st))
    = slice (ring_at (nv_base st)) (ring_at (nv_base st) + 64) (nv_flash st)"
    and "length (nv_flash (persist_slot nor_ops j st)) = length (nv_flash st)"
  using slot_at_offset [OF assms] ring_fits(1) [OF assms(1)]
  by (auto simp: persist_slot_def nor_ops_def in_range_def slot_at_def intro!: slice_write_other)

lemma nor_write_through:
  assumes "room (nv_base st) (nv_flash st)" "j < 10"
    and "slice (ring_at (nv_base st)) (ring_at (nv_base st) + 64) (nv_flash st) = encode_ring_header zero_header"
  shows "room (nv_base st) (nv_flash (persist_header nor_ops (persist_slot nor_ops j st)))"
    and "slice (ring_at (nv_base st)) (ring_at (nv_base st) + 64)
      (nv_flash (persist_header nor_ops (persist_slot nor_ops j st))) = encode_ring_header zero_header"
  using nor_header_stuck [of "persist_slot nor_ops j st"] nor_slot_elsewhere [OF assms(1,2)] assms
  by (auto simp: room_def)

lemma header_stuck_clear:
  assumes "room (nv_base st) (nv_flash st)"
    and "slice (ring_at (nv_base st)) (ring_at (nv_base st) + 64) (nv_flash st) \<in> {encode_ring_header zero_header, replicate 64 0xFF}"
  shows "header_stuck (nvs_clear nor_ops st)"
proof -
  let ?st = "st\<lparr>nv_head := 0, nv_tail := 0, nv_count := 0,
    nv_slots := replicate MAX_BUFFERED_MESSAGES cached_slot_default, nv_dirty := True\<rparr>"
  have c: "nvs_clear nor_ops st = persist_header nor_ops ?st" by (simp add: nvs_clear_def)
  have "header_of ?st = zero_header" by (simp add: header_of_def zero_header_def)
  with nor_header_stuck [of ?st] assms nvs_clear_ok [of nor_ops st]
  show ?thesis unfolding header_stuck_def by (simp add: c room_def)
qed

lemma nor_reboot:
  assumes "header_stuck st"
  shows "header_stuck (nvs_new nor_ops (nv_flash st) (nv_base st))" "frames (nvs_new nor_ops (nv_flash st) (nv_base st)) = []"
proof -
  let ?b = "nv_base st" and ?img = "nv_flash st"
  let ?st1 = "(blank_ring ?img ?b)\<lparr>nv_head := 0, nv_tail := 0, nv_count := 0\<rparr>"
  from assms have room: "room ?b ?img"
    and hdr: "slice (ring_at ?b) (ring_at ?b + 64) ?img = encode_ring_header zero_header"
    by (auto simp: header_stuck_def)
  have dec: "decode_ring_header MAX_BUFFERED_MESSAGES (encode_ring_header zero_header) = Some zero_header"
    by (rule ring_hdr.dec_enc) (simp add: ring_header_ok_def zero_header_def const_defs)
  have "fl_read nor_ops ?img (sector_offset (blank_ring ?img ?b) STORAGE_SECTOR) RING_HEADER_SIZE
      = Some (encode_ring_header zero_header)"
    using nor.read_content [of "sector_offset (blank_ring ?img ?b) STORAGE_SECTOR" 64 ?img] ring_fits(1) [OF room]
      ring_at_offset [of "blank_ring ?img ?b" ?img] room hdr by (simp add: const_defs)
  then have new: "nvs_new nor_ops ?img ?b = load_slots nor_ops ?st1"
    by (simp add: nvs_new_blank load_or_init_def dec) (simp add: zero_header_def)
  have r: "fl_read nor_ops ?img a n = None \<or> (\<exists>buf. fl_read nor_ops ?img a n = Some buf \<and> length buf = n)" for a n
    by (auto simp: nor_ops_def img_read_def in_range_def)
  have sl: "slot_ok (load_slot (fl_read nor_ops ?img a 260) cached_slot_default)" for a
    using r [of a 260] load_slot_ok [OF slot_ok_default]
    by (auto simp: load_slot_def slot_ok_def cached_slot_default_def)
  show "header_stuck (nvs_new nor_ops ?img ?b)" "frames (nvs_new nor_ops ?img ?b) = []"
    using room hdr sl
    by (auto simp: new load_slots_eq header_stuck_def nvs_ok_def live_def frames_def const_defs)
qed

lemma header_stuck_step:
  assumes "header_stuck st" "op_ok op"
  shows "header_stuck (ring_step nor_ops op st)"
proof -
  have ok: "nvs_ok st" "room (nv_base st) (nv_flash st)"
    "slice (ring_at (nv_base st)) (ring_at (nv_base st) + 64) (nv_flash st) = encode_ring_header zero_header"
    using assms(1) by (auto simp: header_stuck_def)
  have idx: "nv_head st < 10" "nv_tail st < 10" using ok(1) by (auto simp: nvs_ok_def const_defs)
  show ?thesis
  proof (cases op)
    case (Buffer frame)
    then have "nvs_ok (nvs_add nor_ops frame st)" using assms(2) ok(1) nvs_port.inv_add by (auto simp: op_ok_def)
    with nor_write_through [of "add_ram frame st" "nv_head st"] ok idx Buffer show ?thesis
      by (simp add: header_stuck_def nvs_add_split)
  next
    case Deliver
    show ?thesis
    proof (cases "nv_count st = 0")
      case True
      with Deliver assms show ?thesis by (simp add: nvs_pop_def)
    next
      case False
      have "nvs_ok (fst (nvs_pop nor_ops st))" using ok(1) nvs_port.inv_pop by blast
      with nor_write_through [of "pop_ram st" "nv_tail st"] ok idx Deliver show ?thesis
        by (simp add: header_stuck_def nvs_pop_split [OF False])
    qed
  next
    case Wipe
    with header_stuck_clear [of st] ok show ?thesis by simp
  next
    case PowerCycle
    with nor_reboot [OF assms(1)] show ?thesis by simp
  qed
qed

section \<open>Properties\<close>

text \<open>C24: store-and-forward survives power cycles on the ESP32's flash.  From a first boot on any
  flash without a ring, through any sequence of buffering, delivering, clearing and power cycles,
  the frames held are those of a queue of the last ten that never lost power.\<close>
theorem ring_survives_power_cycles:
  assumes "room base img" and "no_ring img base" and "\<forall>op \<in> set ops. op_ok op"
  shows "frames (fold (ring_step rmw_ops) ops (nvs_new rmw_ops img base)) = fold queue_step ops []"
proof -
  have "image_ok (nvs_new rmw_ops img base)" "frames (nvs_new rmw_ops img base) = []"
    using image_ok_clear [of "blank_ring img base"] assms(1) nvs_port.view_clear
    by (simp_all add: first_boot [OF assms(1,2)])
  with ring_run [OF _ assms(3)] show ?thesis by simp
qed

lemma room_example: "room 0 (replicate 20480 0xFF)"
  by (simp add: room_def const_defs)

lemma erased_no_ring: "room base (replicate n 0xFF) \<Longrightarrow> no_ring (replicate n 0xFF) base"
  using ring_fits(1) [of base "replicate n 0xFF"]
  by (simp add: no_ring_def decode_ring_header_def of_le32_def const_defs)

lemma erased_slice: "hi \<le> n \<Longrightarrow> slice lo hi (replicate n x) = replicate (hi - lo) x"
  by (auto intro!: nth_equalityI)

definition sample_frame :: radio_frame where
  "sample_frame = frame_new\<lparr>fr_len := 20\<rparr>"

lemma sample_ops_ok: "\<forall>op \<in> set [Buffer sample_frame, PowerCycle]. op_ok op"
  by (simp add: op_ok_def sample_frame_def frame_ok_def frame_new_def const_defs)

lemma ring_survives_power_cycles_witness:
  "frames (fold (ring_step rmw_ops) [Buffer sample_frame, PowerCycle] (nvs_new rmw_ops (replicate 20480 0xFF) 0))
    = [replicate 20 0]"
proof -
  have "as_bytes sample_frame = replicate 20 0"
    by (simp add: as_bytes_def sample_frame_def frame_new_def const_defs)
  then have "fold queue_step [Buffer sample_frame, PowerCycle] [] = [replicate 20 0]"
    by (simp add: fifo_push_def const_defs)
  with ring_survives_power_cycles [OF room_example erased_no_ring [OF room_example] sample_ops_ok]
  show ?thesis by (simp only:)
qed

text \<open>Store-and-forward never survives a power cycle on flash that is only programmed.  Starting
  from an erased region, whatever is buffered, the header on flash keeps the zero counters it got
  first, because rewriting without an erase only clears bits: after a power cycle no frame is left.\<close>
lemma ring_lost_without_erase:
  assumes "room base (replicate n 0xFF)" and "\<forall>op \<in> set ops. op_ok op"
  shows "frames (ring_step nor_ops PowerCycle
    (fold (ring_step nor_ops) ops (nvs_new nor_ops (replicate n 0xFF) base))) = []"
proof -
  let ?img = "replicate n (0xFF :: u8)"
  have er: "slice (ring_at base) (ring_at base + 64) ?img = replicate 64 0xFF"
    using ring_fits(1) [OF assms(1)] by (simp add: erased_slice)
  have "fl_read nor_ops ?img (sector_offset (blank_ring ?img base) STORAGE_SECTOR) RING_HEADER_SIZE
      = Some (slice (ring_at base) (ring_at base + 64) ?img)"
    using nor.read_content [of "sector_offset (blank_ring ?img base) STORAGE_SECTOR" 64 ?img] ring_fits(1) [OF assms(1)]
      ring_at_offset [of "blank_ring ?img base" ?img] assms(1) by (simp add: const_defs)
  then have "nvs_new nor_ops ?img base = nvs_clear nor_ops (blank_ring ?img base)"
    using erased_no_ring [OF assms(1)] by (simp add: nvs_new_blank load_or_init_def no_ring_def init_empty_is_clear)
  then have "header_stuck (nvs_new nor_ops ?img base)"
    using header_stuck_clear [of "blank_ring ?img base"] assms(1) er by simp
  then have "header_stuck (fold (ring_step nor_ops) ops (nvs_new nor_ops ?img base))"
    using assms(2) by (induction ops rule: rev_induct) (simp_all add: header_stuck_step)
  then show ?thesis by (simp add: nor_reboot)
qed

text \<open>C25: the storage adapter refines a queue of ten frames, whatever the flash driver does: adding
  a frame to a full store forgets the oldest, removal from an empty one is the error
  \<open>Empty\<close>, the counters never leave the ring, and any number of additions keeps the last ten.\<close>
theorem store_refines_queue:
  assumes "nvs_ok st" and "frame_ok frame" and "\<forall>f \<in> set fs. frame_ok f"
  shows "nvs_ok (nvs_add F frame st) \<and> nvs_ok (fst (nvs_pop F st))
    \<and> frames (nvs_add F frame st) = fifo_push MAX_BUFFERED_MESSAGES (frames st) (as_bytes frame)
    \<and> frames (fst (nvs_pop F st)) = tl (frames st)
    \<and> snd (nvs_pop F st) = (if frames st = [] then Inl Empty else Inr ())
    \<and> (frames st = [] \<longrightarrow> nvs_peek st = Inr None)
    \<and> (frames st \<noteq> [] \<longrightarrow> (\<exists>f. nvs_peek st = Inr (Some f) \<and> as_bytes f = hd (frames st)))
    \<and> frames (fold (nvs_add F) fs st)
       = drop (length (frames st) + length fs - MAX_BUFFERED_MESSAGES) (frames st @ map as_bytes fs)"
proof -
  have "frames st \<noteq> [] \<longrightarrow> (\<exists>f. nvs_peek st = Inr (Some f) \<and> as_bytes f = hd (frames st))"
    using nvs_port.peek_cases [OF assms(1)] by (metis list.sel(1))
  then show ?thesis
    using assms nvs_port.view_add_all [OF assms(1,3), where F = F]
    by (simp add: nvs_port.inv_add nvs_port.inv_pop nvs_port.view_add nvs_port.view_pop
        nvs_port.pop_result nvs_port.peek_empty)
qed

lemma store_refines_queue_witness:
  "frames (fold (nvs_add rmw_ops) (replicate 11 sample_frame) (nvs_clear rmw_ops (blank_ring [] 0)))
     = replicate 10 (as_bytes sample_frame)"
proof -
  have f: "frame_ok sample_frame" by (simp add: sample_frame_def frame_ok_def frame_new_def const_defs)
  have ok: "nvs_ok (nvs_clear rmw_ops (blank_ring [] 0))" "frames (nvs_clear rmw_ops (blank_ring [] 0)) = []"
    using nvs_port.inv_clear nvs_port.view_clear by auto
  from store_refines_queue [OF ok(1) f, of "replicate 11 sample_frame" rmw_ops] f ok(2)
  show ?thesis by (simp add: const_defs)
qed

text \<open>The settings sectors are safe on flash that must be erased first.  A blob saved to one of
  the five sectors reports success and is read back, and what any other sector yields, the ring's
  included, is unchanged.\<close>
lemma sectors_independent:
  assumes "room (nv_base st) (nv_flash st)" and "unat sector < 5" and "unat other < 5"
    and "length blob \<le> 4096" and "n \<le> 4096"
  shows "snd (save_sector nor_ops sector blob st) = Inr ()
    \<and> load_sector nor_ops sector (length blob) (fst (save_sector nor_ops sector blob st)) = Some blob
    \<and> (other \<noteq> sector \<longrightarrow>
         load_sector nor_ops other n (fst (save_sector nor_ops sector blob st)) = load_sector nor_ops other n st)"
  using nor.save_sector_content(1) [of st sector blob] nor.save_then_load [of st sector sector blob "length blob"]
    nor.save_then_load [of st sector other blob n] assms by simp

end
