(* ===== verification/Phone_Proto.thy ===== *)
theory Phone_Proto
  imports Device
begin

text \<open>
  The protobuf messages the handlers build or take apart: one record per message with the fields
  the code sets or reads, one datatype per \<open>oneof\<close>.  A message the code only sends with its default
  content, or only passes through, is a constructor without argument.  The generated encoders and
  decoders are a record of functions, an argument of the handlers.
\<close>

section \<open>Between nodes\<close>

datatype routing_error = NoError | MaxRetransmit | PkiFailed | PkiUnknownPubkey
  | PkiSendFailPublicKey | OtherError i32

datatype routing_msg = ErrorReason routing_error | OtherRouting bytes

datatype telemetry_variant = DeviceMetrics device_metrics | OtherMetrics bytes

record telemetry_msg =
  tm_time :: u32
  tm_variant :: "telemetry_variant option"

record neighbor =
  nb_node_id :: u32
  nb_snr :: f32
  nb_last_rx_time :: u32
  nb_broadcast_interval_secs :: u32

record neighbor_info =
  ni_node_id :: u32
  ni_last_sent_by_id :: u32
  ni_broadcast_interval_secs :: u32
  ni_neighbors :: "neighbor list"

record route_discovery =
  rd_route :: "u32 list"
  rd_snr_towards :: "i32 list"
  rd_rest :: bytes

definition route_default :: route_discovery where
  "route_default = \<lparr>rd_route = [], rd_snr_towards = [], rd_rest = []\<rparr>"

section \<open>To and from the phone\<close>

datatype packet_payload = Decoded data_msg | Encrypted bytes

record mesh_packet =
  mp_from :: u32
  mp_to :: u32
  mp_channel :: u32
  mp_id :: u32
  mp_rx_time :: "u32 option"
  mp_rx_snr :: f32
  mp_hop_limit :: u32
  mp_hop_start :: u32
  mp_want_ack :: bool
  mp_rx_rssi :: "i32 option"
  mp_background :: bool
  mp_public_key :: bytes
  mp_payload :: "packet_payload option"

definition mesh_packet_default :: mesh_packet where
  "mesh_packet_default = \<lparr>mp_from = 0, mp_to = 0, mp_channel = 0, mp_id = 0, mp_rx_time = None,
     mp_rx_snr = 0, mp_hop_limit = 0, mp_hop_start = 0, mp_want_ack = False, mp_rx_rssi = None,
     mp_background = False, mp_public_key = [], mp_payload = None\<rparr>"

record node_info =
  nf_num :: u32
  nf_user :: "user option"
  nf_position :: "position_msg option"
  nf_snr :: f32
  nf_last_heard :: u32
  nf_hops_away :: "u32 option"
  nf_is_favorite :: bool
  nf_is_ignored :: bool
  nf_is_muted :: bool

definition node_info_default :: node_info where
  "node_info_default = \<lparr>nf_num = 0, nf_user = None, nf_position = None, nf_snr = 0, nf_last_heard = 0,
     nf_hops_away = None, nf_is_favorite = False, nf_is_ignored = False, nf_is_muted = False\<rparr>"

record my_node_info =
  my_num :: u32
  my_nodedb_count :: u32
  my_min_app_version :: u32

record device_metadata =
  md_firmware_version :: bytes
  md_device_state_version :: u32
  md_has_bluetooth :: bool
  md_hw_model :: i32
  md_role :: i32

record channel_settings =
  cst_psk :: bytes
  cst_name :: bytes

record channel_msg =
  cm_index :: i32
  cm_settings :: "channel_settings option"
  cm_role :: i32

record lora_config =
  lc_use_preset :: bool
  lc_modem_preset :: i32
  lc_region :: i32
  lc_hop_limit :: u32
  lc_tx_enabled :: bool
  lc_config_ok_to_mqtt :: bool
  lc_spread_factor :: u32
  lc_bandwidth :: u32
  lc_coding_rate :: u32
  lc_channel_num :: u32
  lc_tx_power :: i32

record bluetooth_config =
  bt_enabled :: bool
  bt_random_pin :: bool

record security_config =
  se_public_key :: bytes
  se_private_key :: bytes

datatype config_variant = CfgDevice i32 | CfgPosition | CfgPower | CfgNetwork | CfgDisplay
  | CfgLora lora_config | CfgBluetooth bluetooth_config | CfgSecurity security_config
  | CfgSessionkey | CfgDeviceUi

datatype module_variant = ModMqtt | ModSerial | ModExternalNotification | ModStoreForward
  | ModRangeTest | ModTelemetry | ModCannedMessage | ModAudio | ModRemoteHardware
  | ModNeighborInfo | ModAmbientLighting | ModDetectionSensor | ModPaxcounter | ModStatusmessage
  | ModTrafficManagement | ModTak | ModMeshBeacon

record queue_status =
  qs_res :: i32
  qs_free :: u32
  qs_maxlen :: u32
  qs_mesh_packet_id :: u32

datatype from_radio_variant = FrPacket mesh_packet | FrMyInfo my_node_info | FrDeviceUiConfig
  | FrNodeInfo node_info | FrMetadata device_metadata | FrRegionPresets | FrChannel channel_msg
  | FrConfig config_variant | FrModuleConfig module_variant | FrConfigCompleteId u32
  | FrQueueStatus queue_status

datatype to_radio = TrPacket mesh_packet | TrWantConfigId u32 | TrHeartbeat u32 | TrDisconnect
  | TrOther

section \<open>Administration\<close>

record shared_contact =
  ct_node_num :: u32
  ct_user :: "user option"
  ct_should_ignore :: bool

datatype config_type = DeviceConfig | PositionConfig | PowerConfig | NetworkConfig | DisplayConfig
  | LoraConfig | BluetoothConfig | SecurityConfig | SessionkeyConfig | DeviceuiConfig

datatype module_config_type = MqttConfig | SerialConfig | ExtnotifConfig | StoreforwardConfig
  | RangetestConfig | TelemetryConfig | CannedmsgConfig | AudioConfig | RemotehardwareConfig
  | NeighborinfoConfig | AmbientlightingConfig | DetectionsensorConfig | PaxcounterConfig
  | StatusmessageConfig | TrafficmanagementConfig | TakConfig | MeshbeaconConfig

datatype admin_variant = GetOwnerRequest | GetOwnerResponse user
  | GetConfigRequest i32 | GetConfigResponse config_variant
  | GetChannelRequest u32 | GetChannelResponse channel_msg
  | GetModuleConfigRequest i32 | GetModuleConfigResponse module_variant
  | SetOwner user | SetConfig "config_variant option" | SetModuleConfig | SetChannel channel_msg
  | SetFavoriteNode u32 | RemoveFavoriteNode u32 | SetIgnoredNode u32 | RemoveIgnoredNode u32
  | ToggleMutedNode u32 | AddContact shared_contact
  | SetFixedPosition position_msg | RemoveFixedPosition
  | BeginEditSettings bool | CommitEditSettings bool
  | RebootSeconds i32 | FactoryResetConfig | NodedbReset | ShutdownSeconds i32
  | RemoveByNodenum u32 | OtherAdmin bytes

record admin_msg =
  am_session_passkey :: bytes
  am_variant :: "admin_variant option"

section \<open>The generated codecs\<close>

record proto_codec =
  pc_from_radio_enc :: "u32 \<Rightarrow> from_radio_variant \<Rightarrow> bytes"
  pc_to_radio_dec :: "bytes \<Rightarrow> to_radio option option"
  pc_user_enc :: "user \<Rightarrow> bytes"
  pc_user_dec :: "bytes \<Rightarrow> user option"
  pc_position_enc :: "position_msg \<Rightarrow> bytes"
  pc_position_dec :: "bytes \<Rightarrow> position_msg option"
  pc_telemetry_enc :: "telemetry_msg \<Rightarrow> bytes"
  pc_telemetry_dec :: "bytes \<Rightarrow> telemetry_msg option"
  pc_routing_enc :: "routing_msg \<Rightarrow> bytes"
  pc_routing_dec :: "bytes \<Rightarrow> routing_msg option"
  pc_neighbor_enc :: "neighbor_info \<Rightarrow> bytes"
  pc_neighbor_dec :: "bytes \<Rightarrow> neighbor_info option"
  pc_route_enc :: "route_discovery \<Rightarrow> bytes"
  pc_route_dec :: "bytes \<Rightarrow> route_discovery option"
  pc_admin_enc :: "admin_msg \<Rightarrow> bytes"
  pc_admin_dec :: "bytes \<Rightarrow> admin_msg option"
  pc_config_type :: "i32 \<Rightarrow> config_type option"
  pc_module_type :: "i32 \<Rightarrow> module_config_type option"
  pc_hw_model_known :: "i32 \<Rightarrow> bool"

end
