(* ===== verification/Mesh_Context.thy ===== *)
theory Mesh_Context
  imports Phone_Proto Relay_Delay Tx Nvs_Storage
begin

text \<open>
  \<open>domain/context.rs\<close> and \<open>inter_task/channels.rs\<close>: the state every handler works on, the airtime
  gates and the admin session key.  \<open>MeshCtx\<close> borrows the fields of \<open>MeshState\<close>; the model passes
  one record.  A queue to another task is the list of messages in it: a \<open>try_send\<close> drops when the
  queue is full, a blocking \<open>send\<close> waits for room and so always appends.  \<open>Instant::now()\<close> is the
  argument \<open>now\<close>, one value for the whole run of a handler.
\<close>

section \<open>Airtime gates\<close>

definition CHANNEL_UTIL_THRESHOLD :: f32 where [const_defs]: "CHANNEL_UTIL_THRESHOLD = 25"
definition POLITE_CHANNEL_UTIL_PCT :: f32 where [const_defs]: "POLITE_CHANNEL_UTIL_PCT = 25"
definition MAX_CHANNEL_UTIL_PCT :: f32 where [const_defs]: "MAX_CHANNEL_UTIL_PCT = 40"
definition POLITE_DUTY_CYCLE_FRACTION :: f32 where [const_defs]: "POLITE_DUTY_CYCLE_FRACTION = 1 / 2"

record channel_metrics =
  channel_util :: f32
  air_util_tx :: f32

definition is_tx_allowed_channel_util :: "channel_metrics \<Rightarrow> bool \<Rightarrow> bool" where
  "is_tx_allowed_channel_util m polite \<longleftrightarrow>
     channel_util m < (if polite then POLITE_CHANNEL_UTIL_PCT else MAX_CHANNEL_UTIL_PCT)"

definition is_tx_allowed_air_util :: "channel_metrics \<Rightarrow> region \<Rightarrow> bool \<Rightarrow> bool" where
  "is_tx_allowed_air_util m r polite \<longleftrightarrow>
     (let ceiling = duty_cycle_pct r;
          effective = (if polite then fl (ceiling * POLITE_DUTY_CYCLE_FRACTION) else ceiling)
      in air_util_tx m < effective)"

definition tx_allowed_polite :: "channel_metrics \<Rightarrow> region \<Rightarrow> bool" where
  "tx_allowed_polite m r \<longleftrightarrow> is_tx_allowed_channel_util m True \<and> is_tx_allowed_air_util m r True"

definition tx_allowed_impolite :: "channel_metrics \<Rightarrow> region \<Rightarrow> bool" where
  "tx_allowed_impolite m r \<longleftrightarrow> is_tx_allowed_channel_util m False \<and> is_tx_allowed_air_util m r False"

section \<open>The admin session key\<close>

record session_passkey =
  sp_key :: bytes
  sp_issued_at :: instant

definition EXPIRY :: nat where [const_defs]: "EXPIRY = 300000"
definition REFRESH :: nat where [const_defs]: "REFRESH = 150000"

definition is_expired :: "instant \<Rightarrow> session_passkey \<Rightarrow> bool" where
  "is_expired now k \<longleftrightarrow> EXPIRY \<le> now - sp_issued_at k"

definition needs_refresh :: "instant \<Rightarrow> session_passkey \<Rightarrow> bool" where
  "needs_refresh now k \<longleftrightarrow> REFRESH \<le> now - sp_issued_at k"

section \<open>Queues\<close>

record radio_metadata =
  rm_rssi :: "16 word"
  rm_snr :: i8

datatype led_pattern = SingleBlink | DoubleBlink | Heartbeat

record from_radio_message =
  fm_data :: bytes
  fm_id :: u32

datatype mesh_event = LoraRx radio_frame radio_metadata | BleRx bytes | BleConnected
  | BleDisconnected | BondSave bytes | BondClear | BatteryUpdate u8 u16
  | ChannelUtilUpdate f32 f32 | Tick

definition LED_QUEUE_SIZE :: nat where [const_defs]: "LED_QUEUE_SIZE = 5"

section \<open>The state of a handler\<close>

record pending_rebroadcast =
  rb_frame :: radio_frame
  rb_deadline :: instant

definition REBROADCAST_CAP :: nat where [const_defs]: "REBROADCAST_CAP = 8"
definition POSITION_CAP :: nat where [const_defs]: "POSITION_CAP = 64"

record 'f ctx =
  cx_device :: device_state
  cx_node_db :: node_db
  cx_storage :: "'f nvs"
  cx_router :: mesh_router
  cx_pending_packets :: "pending_packet list"
  cx_pending_rebroadcast :: "pending_rebroadcast list"
  cx_my_position_bytes :: bytes
  cx_session_passkey :: "session_passkey option"
  cx_from_radio_id :: u32
  cx_ble_connected :: bool
  cx_last_nodeinfo_tx :: "instant option"
  cx_last_position_tx :: instant
  cx_last_lora_telemetry :: "instant option"
  cx_last_neighborinfo_tx :: "instant option"
  cx_metrics :: channel_metrics
  cx_reboot_after_secs :: "u32 option"
  cx_shutdown_after_secs :: "u32 option"
  cx_node_id_str :: bytes
  cx_boot_time :: instant
  cx_pkc_pub :: bytes
  cx_pkc_priv :: bytes
  cx_to_ble :: "from_radio_message list"
  cx_to_lora :: "radio_frame list"
  cx_led :: "led_pattern list"
  cx_disconn :: "unit list"
  cx_drawn :: nat
  cx_tx_enabled :: bool

text \<open>What the handlers call outside the repository: the environment of the lower layers, the flash
  driver, the sort of the node table, the hardware random numbers (the \<open>n\<close>-th draw since boot) and
  the protobuf codecs.\<close>

record 'f host =
  h_env :: env
  h_flash :: "'f flash_ops"
  h_sort :: sorter
  h_region_num :: "region \<Rightarrow> u8"
  h_random :: "nat \<Rightarrow> u32"
  h_codec :: proto_codec

definition random_u32 :: "'f host \<Rightarrow> 'f ctx \<Rightarrow> 'f ctx \<times> u32" where
  "random_u32 H c = (c\<lparr>cx_drawn := Suc (cx_drawn c)\<rparr>, h_random H (cx_drawn c))"

definition ctx_region :: "'f host \<Rightarrow> 'f ctx \<Rightarrow> region" where
  "ctx_region H c = region_from_proto (env_region (h_env H)) (region (cx_device c))"

section \<open>Lemmas\<close>

text \<open>The polite gate is the tighter one, and a fresh key outlives half of its lifetime.\<close>

lemma polite_le_impolite:
  assumes "tx_allowed_polite m r" and "0 \<le> duty_cycle_pct r" and "\<And>x. 0 \<le> x \<Longrightarrow> fl (x / 2) \<le> x"
  shows "tx_allowed_impolite m r"
  using assms(1) assms(3) [OF assms(2)]
  by (auto simp: tx_allowed_polite_def tx_allowed_impolite_def is_tx_allowed_channel_util_def
      is_tx_allowed_air_util_def const_defs Let_def)

lemma refreshed_not_expired: "\<not> needs_refresh now k \<Longrightarrow> t < now + 150000 \<Longrightarrow> \<not> is_expired t k"
  by (simp add: needs_refresh_def is_expired_def const_defs)

end
