(* ===== verification/Handler_Util.thy ===== *)
theory Handler_Util
  imports Mesh_Context
begin

text \<open>
  \<open>handlers/util.rs\<close> and \<open>handlers/outgoing\<close>: what the handlers share - numbering and queueing of
  messages to the phone, frames the node originates, delivery reports, the session key, and the
  replay of the stored positions and telemetry.
\<close>

named_theorems ctx_frame \<open>what an operation leaves unchanged\<close>

section \<open>Messages to the phone\<close>

definition next_from_radio_id :: "u32 \<Rightarrow> u32 \<times> u32" where
  "next_from_radio_id n = (max (n + 1) 1, n)"

definition encode_from_radio :: "'f host \<Rightarrow> u32 \<Rightarrow> from_radio_variant \<Rightarrow> bytes" where
  "encode_from_radio H fid v = vec_extend 512 [] (pc_from_radio_enc (h_codec H) fid v)"

text \<open>Taking the next id and queueing the message made from it, the pattern of every sender.\<close>

definition push_with :: "(u32 \<Rightarrow> bytes) \<Rightarrow> 'f ctx \<Rightarrow> 'f ctx" where
  "push_with mk c =
     (let (n, fid) = next_from_radio_id (cx_from_radio_id c)
      in c\<lparr>cx_from_radio_id := n,
           cx_to_ble := try_send BLE_TX_QUEUE_SIZE (cx_to_ble c) \<lparr>fm_data = mk fid, fm_id = fid\<rparr>\<rparr>)"

definition push_from_radio :: "'f host \<Rightarrow> from_radio_variant \<Rightarrow> 'f ctx \<Rightarrow> 'f ctx" where
  "push_from_radio H v c = push_with (\<lambda>fid. encode_from_radio H fid v) c"

record packet_forward_args =
  fa_header :: packet_header
  fa_channel_index :: u8
  fa_portnum :: i32
  fa_payload :: bytes
  fa_reply_id :: u32
  fa_emoji :: u32
  fa_meta :: radio_metadata

definition f32_of_i8 :: "i8 \<Rightarrow> f32" where
  "f32_of_i8 n = of_int (sint n)"

definition forwarded_packet :: "packet_forward_args \<Rightarrow> mesh_packet" where
  "forwarded_packet a =
     mesh_packet_default\<lparr>mp_from := h_sender (fa_header a), mp_to := h_destination (fa_header a),
       mp_channel := ucast (fa_channel_index a), mp_id := h_packet_id (fa_header a),
       mp_rx_snr := f32_of_i8 (rm_snr (fa_meta a)),
       mp_hop_limit := ucast (hop_limit (fa_header a)), mp_hop_start := ucast (hop_start (fa_header a)),
       mp_want_ack := want_ack (fa_header a), mp_rx_rssi := Some (scast (rm_rssi (fa_meta a))),
       mp_payload := Some (Decoded (data_default\<lparr>d_portnum := fa_portnum a, d_payload := fa_payload a,
         d_reply_id := fa_reply_id a, d_emoji := fa_emoji a\<rparr>))\<rparr>"

definition make_from_radio_packet :: "'f host \<Rightarrow> u32 \<Rightarrow> packet_forward_args \<Rightarrow> bytes" where
  "make_from_radio_packet H fid a = encode_from_radio H fid (FrPacket (forwarded_packet a))"

definition forward_to_ble :: "'f host \<Rightarrow> packet_forward_args \<Rightarrow> 'f ctx \<Rightarrow> 'f ctx" where
  "forward_to_ble H a c = push_with (\<lambda>fid. make_from_radio_packet H fid a) c"

definition node_user :: "node_entry \<Rightarrow> user" where
  "node_user e =
     (let fid = build_node_id_string (n_num e);
          u = (case n_user e of
                 Some u \<Rightarrow> u\<lparr>u_id := fid\<rparr>
               | None \<Rightarrow>
                   (let short = hex_byte (ucast (drop_bit 8 (n_num e AND 0xFFFF))) @ hex_byte (ucast (n_num e AND 0xFFFF))
                    in user_default\<lparr>u_id := fid, u_long_name := ascii ''Meshtastic '' @ short, u_short_name := short\<rparr>))
      in case n_pub_key e of Some key \<Rightarrow> u\<lparr>u_public_key := key\<rparr> | None \<Rightarrow> u)"

definition entry_snr :: "node_entry \<Rightarrow> f32" where
  "entry_snr e = (case n_snr e of Some s \<Rightarrow> f32_of_i8 s | None \<Rightarrow> 0)"

definition node_info_of :: "node_entry \<Rightarrow> node_info" where
  "node_info_of e =
     node_info_default\<lparr>nf_num := n_num e, nf_user := Some (node_user e), nf_position := n_position e,
       nf_snr := entry_snr e, nf_last_heard := n_last_heard e, nf_hops_away := map_option ucast (n_hops_away e),
       nf_is_favorite := n_is_favorite e, nf_is_ignored := n_is_ignored e, nf_is_muted := n_is_muted e\<rparr>"

definition make_node_info_from_radio :: "'f host \<Rightarrow> u32 \<Rightarrow> node_entry \<Rightarrow> bytes" where
  "make_node_info_from_radio H fid e = encode_from_radio H fid (FrNodeInfo (node_info_of e))"

definition notify_ble_node_update :: "'f host \<Rightarrow> u32 \<Rightarrow> 'f ctx \<Rightarrow> 'f ctx" where
  "notify_ble_node_update H sender c =
     (case get sender (cx_node_db c) of
        Some e \<Rightarrow> push_with (\<lambda>fid. make_node_info_from_radio H fid e) c
      | None \<Rightarrow> c\<lparr>cx_from_radio_id := fst (next_from_radio_id (cx_from_radio_id c))\<rparr>)"

section \<open>Frames the node originates\<close>

definition ctx_packet_id :: "'f ctx \<Rightarrow> 'f ctx \<times> u32" where
  "ctx_packet_id c = (let (dev, pid) = next_packet_id (cx_device c) in (c\<lparr>cx_device := dev\<rparr>, pid))"

definition queue_lora :: "radio_frame \<Rightarrow> 'f ctx \<Rightarrow> 'f ctx" where
  "queue_lora f c = c\<lparr>cx_to_lora := cx_to_lora c @ [f]\<rparr>"

definition originate :: "'f host \<Rightarrow> tx_builder \<Rightarrow> 'f ctx \<Rightarrow> 'f ctx \<times> bool" where
  "originate H b c =
     (let (c, pid) = ctx_packet_id c
      in case tx_build (h_env H) (cx_device c) (cx_node_db c) pid None b of
           Some f \<Rightarrow> (queue_lora f c, True) | None \<Rightarrow> (c, False))"

definition send_routing_error :: "'f host \<Rightarrow> u32 \<Rightarrow> u32 \<Rightarrow> routing_error \<Rightarrow> 'f ctx \<Rightarrow> 'f ctx" where
  "send_routing_error H dest request_id err c =
     fst (originate H (tx_default\<lparr>tb_dest := dest, tb_portnum := ROUTING_APP,
       tb_inner_payload := pc_routing_enc (h_codec H) (ErrorReason err), tb_channel_idx := Some 0,
       tb_request_id := request_id\<rparr>) c)"

definition send_routing_ack :: "'f host \<Rightarrow> u32 \<Rightarrow> u32 \<Rightarrow> u8 \<Rightarrow> 'f ctx \<Rightarrow> 'f ctx" where
  "send_routing_ack H dest request_id channel_idx c =
     fst (originate H (tx_default\<lparr>tb_dest := dest, tb_portnum := ROUTING_APP, tb_inner_payload := [],
       tb_channel_idx := Some channel_idx, tb_request_id := request_id\<rparr>) c)"

definition lora_send :: "'f host \<Rightarrow> i32 \<Rightarrow> bytes \<Rightarrow> u32 \<Rightarrow> bool \<Rightarrow> 'f ctx \<Rightarrow> 'f ctx \<times> bool" where
  "lora_send H portnum pl dest want_response c =
     (if \<not> tx_allowed_impolite (cx_metrics c) (ctx_region H c) then (c, False)
      else originate H (tx_default\<lparr>tb_dest := dest, tb_portnum := portnum, tb_inner_payload := pl,
        tb_channel_idx := None, tb_want_response := want_response\<rparr>) c)"

text \<open>\<open>outgoing/node_info.rs\<close>: the payload that introduces this node.\<close>

definition nodeinfo_payload :: "'f host \<Rightarrow> 'f ctx \<Rightarrow> bytes" where
  "nodeinfo_payload H c =
     (let dev = cx_device c;
          public_key = (if \<exists>b \<in> set (cx_pkc_pub c). b \<noteq> 0 then cx_pkc_pub c else [])
      in pc_user_enc (h_codec H) (user_default\<lparr>u_id := cx_node_id_str c, u_long_name := long_name dev,
           u_short_name := short_name dev, u_macaddr := mac dev, u_hw_model := hw_model dev,
           u_role := role_num (role dev), u_public_key := public_key\<rparr>))"

definition send_nodeinfo :: "'f host \<Rightarrow> u32 \<Rightarrow> bool \<Rightarrow> 'f ctx \<Rightarrow> 'f ctx" where
  "send_nodeinfo H dest want_response c =
     fst (lora_send H NODEINFO_APP (nodeinfo_payload H c) dest want_response c)"

section \<open>Delivery reports and the session key\<close>

definition send_ble_routing_result :: "'f host \<Rightarrow> u32 \<Rightarrow> u32 \<Rightarrow> routing_error \<Rightarrow> 'f ctx \<Rightarrow> 'f ctx" where
  "send_ble_routing_result H dest request_id err c =
     (let (c, packet_id) = ctx_packet_id c
      in push_from_radio H (FrPacket (mesh_packet_default\<lparr>mp_from := my_node_num (cx_device c), mp_to := dest,
           mp_id := packet_id, mp_payload := Some (Decoded (data_default\<lparr>d_portnum := ROUTING_APP,
             d_payload := pc_routing_enc (h_codec H) (ErrorReason err), d_request_id := request_id\<rparr>))\<rparr>)) c)"

definition send_ble_routing_ack :: "'f host \<Rightarrow> u32 \<Rightarrow> u32 \<Rightarrow> 'f ctx \<Rightarrow> 'f ctx" where
  "send_ble_routing_ack H dest request_id c = send_ble_routing_result H dest request_id NoError c"

definition ensure_session_passkey :: "'f host \<Rightarrow> instant \<Rightarrow> 'f ctx \<Rightarrow> 'f ctx" where
  "ensure_session_passkey H now c =
     (let needs_new = (case cx_session_passkey c of Some k \<Rightarrow> needs_refresh now k | None \<Rightarrow> True)
      in if \<not> needs_new then c
         else (let (c, r1) = random_u32 H c; (c, r2) = random_u32 H c
               in c\<lparr>cx_session_passkey := Some \<lparr>sp_key = le32 r1 @ le32 r2, sp_issued_at = now\<rparr>\<rparr>))"

section \<open>Replay of positions and telemetry\<close>

definition make_replay_packet_id :: "u32 \<Rightarrow> u32 \<Rightarrow> u32 \<Rightarrow> u32" where
  "make_replay_packet_id num timestamp kind =
     (let h = num * 2654435761 + timestamp; h = h * 2654435761 + kind in if h = 0 then 1 else h)"

definition MIN_PLAUSIBLE_EPOCH :: u32 where [const_defs]: "MIN_PLAUSIBLE_EPOCH = 1577836800"

definition replay_hop_fields :: "node_entry \<Rightarrow> u8 \<Rightarrow> u32 \<times> u32" where
  "replay_hop_fields e configured =
     (case n_hops_away e of
        None \<Rightarrow> (0, 0)
      | Some hops \<Rightarrow> (ucast configured, ucast (sat_sub configured hops)))"

definition replay_packet :: "node_entry \<Rightarrow> i32 \<Rightarrow> bytes \<Rightarrow> u8 \<Rightarrow> mesh_packet" where
  "replay_packet e portnum pl configured =
     (let rx_time = n_last_heard e; (start, limit) = replay_hop_fields e configured
      in mesh_packet_default\<lparr>mp_from := n_num e, mp_to := BROADCAST_ADDR, mp_channel := 0,
           mp_id := make_replay_packet_id (n_num e) rx_time portnum,
           mp_rx_time := (if MIN_PLAUSIBLE_EPOCH \<le> rx_time then Some rx_time else None),
           mp_rx_snr := entry_snr e, mp_hop_limit := limit, mp_hop_start := start, mp_background := True,
           mp_payload := Some (Decoded (data_default\<lparr>d_portnum := portnum, d_payload := pl\<rparr>))\<rparr>)"

definition make_replay_telemetry_packet :: "'f host \<Rightarrow> u32 \<Rightarrow> node_entry \<Rightarrow> device_metrics \<Rightarrow> u8 \<Rightarrow> bytes" where
  "make_replay_telemetry_packet H fid e m configured =
     (let pl = pc_telemetry_enc (h_codec H) \<lparr>tm_time = n_last_heard e, tm_variant = Some (DeviceMetrics m)\<rparr>
      in encode_from_radio H fid (FrPacket (replay_packet e TELEMETRY_APP pl configured)))"

definition make_replay_position_packet :: "'f host \<Rightarrow> u32 \<Rightarrow> node_entry \<Rightarrow> position_msg \<Rightarrow> u8 \<Rightarrow> bytes" where
  "make_replay_position_packet H fid e p configured =
     encode_from_radio H fid (FrPacket (replay_packet e POSITION_APP (pc_position_enc (h_codec H) p) configured))"

definition replay_satellite_db :: "'f host \<Rightarrow> 'f ctx \<Rightarrow> 'f ctx" where
  "replay_satellite_db H c =
     (let limit = hop_limit_cfg (cx_device c);
          others = filter (\<lambda>e. n_num e \<noteq> my_node_num (cx_device c)) (db_nodes (cx_node_db c));
          positions = concat (map (\<lambda>e. case n_position e of Some p \<Rightarrow> [(e, p)] | None \<Rightarrow> []) others);
          telemetry = concat (map (\<lambda>e. case n_device_metrics e of Some m \<Rightarrow> [(e, m)] | None \<Rightarrow> []) others);
          c = fold (\<lambda>(e, p). push_with (\<lambda>fid. make_replay_position_packet H fid e p limit)) positions c
      in fold (\<lambda>(e, m). push_with (\<lambda>fid. make_replay_telemetry_packet H fid e m limit)) telemetry c)"

text \<open>The name a board advertises over BLE.\<close>

definition build_ble_device_name :: "bytes \<Rightarrow> bytes" where
  "build_ble_device_name m =
     (let push = (\<lambda>s ch. case vec_push 24 s ch of Some s \<Rightarrow> s | None \<Rightarrow> s)
      in fold (\<lambda>byte s. foldl push s (hex_byte byte)) (slice 4 6 m) (vec_extend 24 [] (ascii ''Meshtastic_'')))"

section \<open>Well-formed states\<close>

definition message_ok :: "from_radio_message \<Rightarrow> bool" where
  "message_ok m \<longleftrightarrow> length (fm_data m) \<le> 512 \<and> fm_id m \<noteq> 0"

definition passkey_ok :: "session_passkey option \<Rightarrow> bool" where
  "passkey_ok k \<longleftrightarrow> (\<forall>s. k = Some s \<longrightarrow> length (sp_key s) = 8)"

definition ctx_ok :: "'f ctx \<Rightarrow> bool" where
  "ctx_ok c \<longleftrightarrow> device_ok (cx_device c) \<and> db_ok (cx_node_db c) \<and> router_ok (cx_router c) \<and> nvs_ok (cx_storage c)
     \<and> length (cx_pending_packets c) \<le> PENDING_CAP \<and> (\<forall>p \<in> set (cx_pending_packets c). frame_ok (pp_frame p))
     \<and> length (cx_pending_rebroadcast c) \<le> REBROADCAST_CAP
     \<and> (\<forall>p \<in> set (cx_pending_rebroadcast c). frame_ok (rb_frame p))
     \<and> length (cx_my_position_bytes c) \<le> POSITION_CAP \<and> passkey_ok (cx_session_passkey c)
     \<and> cx_from_radio_id c \<noteq> 0 \<and> (\<forall>m \<in> set (cx_to_ble c). message_ok m)
     \<and> (\<forall>f \<in> set (cx_to_lora c). frame_ok f)
     \<and> length (cx_led c) \<le> LED_QUEUE_SIZE \<and> length (cx_disconn c) \<le> 1"

text \<open>What no handler of a port, of the phone or of the administrator touches: the relay machinery,
  the metrics and the identity of the node.\<close>

definition core :: "'f ctx \<Rightarrow> mesh_router \<times> pending_rebroadcast list \<times> channel_metrics \<times> instant \<times> bool
    \<times> u32 \<times> bytes \<times> bytes \<times> bytes \<times> bytes \<times> unit list" where
  "core c = (cx_router c, cx_pending_rebroadcast c, cx_metrics c, cx_boot_time c, cx_ble_connected c,
     my_node_num (cx_device c), mac (cx_device c), cx_node_id_str c, cx_pkc_pub c, cx_pkc_priv c, cx_disconn c)"

lemma core_fields:
  assumes "core c' = core c"
  shows "cx_router c' = cx_router c" "cx_pending_rebroadcast c' = cx_pending_rebroadcast c"
    "my_node_num (cx_device c') = my_node_num (cx_device c)" "cx_ble_connected c' = cx_ble_connected c"
    "cx_metrics c' = cx_metrics c" "cx_pkc_priv c' = cx_pkc_priv c" "cx_boot_time c' = cx_boot_time c"
  using assms by (simp_all add: core_def)

section \<open>Lemmas\<close>

lemma next_from_radio_id_nonzero: "0 < fst (next_from_radio_id n)"
  by (simp add: next_from_radio_id_def max_def word_less_nat_alt word_le_nat_alt)

lemma length_encode_from_radio [simp]: "length (encode_from_radio H fid v) \<le> 512"
  by (simp add: encode_from_radio_def vec_extend_def)

lemma try_send_set: "x \<in> set (try_send cap q m) \<Longrightarrow> x \<in> set q \<or> x = m"
  by (auto simp: try_send_def split: if_splits)

lemma push_with_ok:
  assumes "ctx_ok c" and "\<And>fid. length (mk fid) \<le> 512"
  shows "ctx_ok (push_with mk c)"
  using assms next_from_radio_id_nonzero [of "cx_from_radio_id c"]
  by (auto simp: push_with_def next_from_radio_id_def ctx_ok_def message_ok_def dest: try_send_set)

lemma push_with_core [simp]: "core (push_with mk c) = core c"
  by (simp add: push_with_def core_def split_beta)

lemma push_from_radio_ok [simp]: "ctx_ok c \<Longrightarrow> ctx_ok (push_from_radio H v c)"
  by (simp add: push_from_radio_def push_with_ok)

lemma forward_to_ble_ok [simp]: "ctx_ok c \<Longrightarrow> ctx_ok (forward_to_ble H a c)"
  by (simp add: forward_to_ble_def make_from_radio_packet_def push_with_ok)

lemma skip_id_ok: "ctx_ok c \<Longrightarrow> ctx_ok (c\<lparr>cx_from_radio_id := fst (next_from_radio_id n)\<rparr>)"
  using next_from_radio_id_nonzero [of n] by (simp add: ctx_ok_def)

lemma notify_ble_node_update_ok [simp]: "ctx_ok c \<Longrightarrow> ctx_ok (notify_ble_node_update H n c)"
  by (auto simp: notify_ble_node_update_def make_node_info_from_radio_def skip_id_ok push_with_ok split: option.split)

lemma push_core [simp]:
  "core (push_from_radio H v c) = core c" "core (forward_to_ble H a c) = core c"
  "core (notify_ble_node_update H n c) = core c"
  by (simp_all add: push_from_radio_def forward_to_ble_def notify_ble_node_update_def core_def split: option.split)
    (simp_all add: push_with_def split_beta)

lemma next_packet_id_ok: "device_ok (fst (next_packet_id dev)) = device_ok dev"
  by (simp add: next_packet_id_def Let_def device_ok_def)

lemma ctx_packet_id_ok: "ctx_packet_id c = (c', pid) \<Longrightarrow> ctx_ok c' = ctx_ok c \<and> core c' = core c"
  using next_packet_id_ok [of "cx_device c"]
  by (auto simp: ctx_packet_id_def ctx_ok_def core_def next_packet_id_def Let_def)

lemma originate_ok: "ctx_ok c \<Longrightarrow> ctx_ok (fst (originate H b c))"
  and originate_core [simp]: "core (fst (originate H b c)) = core c"
proof -
  obtain c' pid where p: "ctx_packet_id c = (c', pid)" by fastforce
  note ok = ctx_packet_id_ok [OF p]
  show "ctx_ok c \<Longrightarrow> ctx_ok (fst (originate H b c))"
    using ok by (auto simp: originate_def p queue_lora_def ctx_ok_def split: option.split elim: tx_build_SomeD)
  show "core (fst (originate H b c)) = core c"
    using ok by (simp add: originate_def p queue_lora_def core_def split: option.split)
qed

lemma lora_send_ok: "ctx_ok c \<Longrightarrow> ctx_ok (fst (lora_send H p pl d w c))"
  and lora_send_core [simp]: "core (fst (lora_send H p pl d w c)) = core c"
  by (simp_all add: lora_send_def originate_ok)

lemma send_ok [simp]:
  assumes "ctx_ok c"
  shows "ctx_ok (send_routing_error H d r e c)" "ctx_ok (send_routing_ack H d r i c)" "ctx_ok (send_nodeinfo H d w c)"
  using assms by (simp_all add: send_routing_error_def send_routing_ack_def send_nodeinfo_def originate_ok lora_send_ok)

lemma send_core [simp]:
  "core (send_routing_error H d r e c) = core c" "core (send_routing_ack H d r i c) = core c"
  "core (send_nodeinfo H d w c) = core c"
  by (simp_all add: send_routing_error_def send_routing_ack_def send_nodeinfo_def)

lemma send_ble_routing_result_ok [simp]: "ctx_ok c \<Longrightarrow> ctx_ok (send_ble_routing_result H d r e c)"
  and send_ble_routing_result_core [simp]: "core (send_ble_routing_result H d r e c) = core c"
proof -
  obtain c' pid where p: "ctx_packet_id c = (c', pid)" by fastforce
  show "ctx_ok c \<Longrightarrow> ctx_ok (send_ble_routing_result H d r e c)"
    "core (send_ble_routing_result H d r e c) = core c"
    using ctx_packet_id_ok [OF p] by (simp_all add: send_ble_routing_result_def p)
qed

lemma send_ble_routing_ack_ok [simp]: "ctx_ok c \<Longrightarrow> ctx_ok (send_ble_routing_ack H d r c)"
  and send_ble_routing_ack_core [simp]: "core (send_ble_routing_ack H d r c) = core c"
  by (simp_all add: send_ble_routing_ack_def)

lemma ensure_session_passkey_ok [simp]: "ctx_ok c \<Longrightarrow> ctx_ok (ensure_session_passkey H now c)"
  and ensure_session_passkey_core [simp]: "core (ensure_session_passkey H now c) = core c"
  by (simp_all add: ensure_session_passkey_def random_u32_def Let_def ctx_ok_def passkey_ok_def core_def)

lemma fold_keeps: "P c \<Longrightarrow> (\<And>x c. P c \<Longrightarrow> P (f x c)) \<Longrightarrow> P (fold f xs c)"
  by (induction xs arbitrary: c) simp_all

lemma fold_push_ok:
  "\<lbrakk>ctx_ok c; \<And>x fid. length (mk x fid) \<le> 512\<rbrakk> \<Longrightarrow> ctx_ok (fold (\<lambda>x. push_with (mk x)) xs c)"
  by (rule fold_keeps [where P = ctx_ok]) (simp_all add: push_with_ok)

lemma fold_push_core: "core (fold (\<lambda>x. push_with (mk x)) xs c) = core c"
  by (induction xs arbitrary: c) simp_all

lemma replay_fold:
  "fold (\<lambda>(e, p). push_with (mk e p)) xs c = fold (\<lambda>x. push_with (mk (fst x) (snd x))) xs c"
  by (simp add: case_prod_unfold)

lemma replay_satellite_db_ok [simp]: "ctx_ok c \<Longrightarrow> ctx_ok (replay_satellite_db H c)"
  and replay_satellite_db_core [simp]: "core (replay_satellite_db H c) = core c"
  by (simp_all add: replay_satellite_db_def Let_def replay_fold fold_push_core fold_push_ok
      make_replay_position_packet_def make_replay_telemetry_packet_def)

end
