(* ===== verification/Admin.thy ===== *)
theory Admin
  imports Handler_Util
begin

text \<open>
  \<open>handlers/admin\<close>: the remote-administration messages.  Those that arrive over LoRa need the
  session key handed out by an earlier response; those from the paired phone do not.
\<close>

section \<open>Responses\<close>

definition send_admin_response :: "'f host \<Rightarrow> instant \<Rightarrow> u32 \<Rightarrow> u32 \<Rightarrow> admin_variant \<Rightarrow> bool \<Rightarrow> 'f ctx \<Rightarrow> 'f ctx" where
  "send_admin_response H now requester req_pkt_id variant via_lora c =
     (let c = ensure_session_passkey H now c;
          key = (case cx_session_passkey c of Some k \<Rightarrow> sp_key k | None \<Rightarrow> []);
          response = pc_admin_enc (h_codec H) \<lparr>am_session_passkey = key, am_variant = Some variant\<rparr>
      in if via_lora then
           fst (originate H (tx_default\<lparr>tb_dest := requester, tb_portnum := ADMIN_APP,
             tb_inner_payload := response, tb_request_id := req_pkt_id\<rparr>) c)
         else
           (let (c, packet_id) = ctx_packet_id c;
                (n, fid) = next_from_radio_id (cx_from_radio_id c);
                pkt = mesh_packet_default\<lparr>mp_from := my_node_num (cx_device c), mp_to := requester,
                  mp_id := packet_id, mp_payload := Some (Decoded (data_default\<lparr>d_portnum := ADMIN_APP,
                    d_payload := response, d_request_id := req_pkt_id\<rparr>))\<rparr>
            in c\<lparr>cx_from_radio_id := n,
                 cx_to_ble := cx_to_ble c @ [\<lparr>fm_data = encode_from_radio H fid (FrPacket pkt), fm_id = fid\<rparr>]\<rparr>))"

section \<open>Reading the configuration\<close>

definition build_lora_config :: "env \<Rightarrow> device_state \<Rightarrow> lora_config" where
  "build_lora_config E dev =
     \<lparr>lc_use_preset = use_preset dev, lc_modem_preset = ucast (env_preset_num E (modem_preset dev)),
      lc_region = ucast (region dev), lc_hop_limit = ucast (hop_limit_cfg dev),
      lc_tx_enabled = tx_enabled dev, lc_config_ok_to_mqtt = config_ok_to_mqtt dev,
      lc_spread_factor = ucast (custom_sf dev), lc_bandwidth = ucast (bw_hz_to_code (custom_bw_hz dev)),
      lc_coding_rate = ucast (custom_cr dev), lc_channel_num = channel_num dev,
      lc_tx_power = LORA_TX_POWER_DBM\<rparr>"

definition get_config :: "'f host \<Rightarrow> instant \<Rightarrow> u32 \<Rightarrow> u32 \<Rightarrow> config_type \<Rightarrow> bool \<Rightarrow> 'f ctx \<Rightarrow> 'f ctx" where
  "get_config H now requester req_pkt_id ty via_lora c =
     (let variant = (case ty of
          DeviceConfig \<Rightarrow> CfgDevice (role_num (role (cx_device c)))
        | LoraConfig \<Rightarrow> CfgLora (build_lora_config (h_env H) (cx_device c))
        | BluetoothConfig \<Rightarrow> CfgBluetooth \<lparr>bt_enabled = True, bt_random_pin = True\<rparr>
        | PositionConfig \<Rightarrow> CfgPosition | PowerConfig \<Rightarrow> CfgPower | NetworkConfig \<Rightarrow> CfgNetwork
        | DisplayConfig \<Rightarrow> CfgDisplay
        | SecurityConfig \<Rightarrow> CfgSecurity \<lparr>se_public_key = [], se_private_key = []\<rparr>
        | SessionkeyConfig \<Rightarrow> CfgSessionkey | DeviceuiConfig \<Rightarrow> CfgDeviceUi)
      in send_admin_response H now requester req_pkt_id (GetConfigResponse variant) via_lora c)"

fun module_variant_of :: "module_config_type \<Rightarrow> module_variant option" where
  "module_variant_of MqttConfig = Some ModMqtt"
| "module_variant_of SerialConfig = Some ModSerial"
| "module_variant_of ExtnotifConfig = Some ModExternalNotification"
| "module_variant_of StoreforwardConfig = Some ModStoreForward"
| "module_variant_of RangetestConfig = Some ModRangeTest"
| "module_variant_of TelemetryConfig = Some ModTelemetry"
| "module_variant_of CannedmsgConfig = Some ModCannedMessage"
| "module_variant_of AudioConfig = Some ModAudio"
| "module_variant_of RemotehardwareConfig = Some ModRemoteHardware"
| "module_variant_of NeighborinfoConfig = Some ModNeighborInfo"
| "module_variant_of AmbientlightingConfig = Some ModAmbientLighting"
| "module_variant_of DetectionsensorConfig = Some ModDetectionSensor"
| "module_variant_of PaxcounterConfig = Some ModPaxcounter"
| "module_variant_of StatusmessageConfig = Some ModStatusmessage"
| "module_variant_of TrafficmanagementConfig = None"
| "module_variant_of TakConfig = None"
| "module_variant_of MeshbeaconConfig = None"

definition get_module_config :: "'f host \<Rightarrow> instant \<Rightarrow> u32 \<Rightarrow> u32 \<Rightarrow> i32 \<Rightarrow> bool \<Rightarrow> 'f ctx \<Rightarrow> 'f ctx" where
  "get_module_config H now requester req_pkt_id ty via_lora c =
     (case Option.bind (pc_module_type (h_codec H) ty) module_variant_of of
        None \<Rightarrow> c
      | Some m \<Rightarrow> send_admin_response H now requester req_pkt_id (GetModuleConfigResponse m) via_lora c)"

definition channel_message :: "channel_set \<Rightarrow> u8 \<Rightarrow> channel_msg" where
  "channel_message cs idx =
     (case chan_get idx cs of
        Some ch \<Rightarrow> \<lparr>cm_index = ucast idx, cm_settings = Some \<lparr>cst_psk = ch_psk ch, cst_name = ch_name ch\<rparr>,
                    cm_role = ucast (channel_role_num (ch_role ch))\<rparr>
      | None \<Rightarrow> \<lparr>cm_index = ucast idx, cm_settings = None, cm_role = 0\<rparr>)"

definition get_channel :: "'f host \<Rightarrow> instant \<Rightarrow> u32 \<Rightarrow> u32 \<Rightarrow> u32 \<Rightarrow> bool \<Rightarrow> 'f ctx \<Rightarrow> 'f ctx" where
  "get_channel H now requester req_pkt_id idx_plus_1 via_lora c =
     (let idx = ucast (if idx_plus_1 = 0 then 0 else idx_plus_1 - 1)
      in send_admin_response H now requester req_pkt_id
           (GetChannelResponse (channel_message (channels (cx_device c)) idx)) via_lora c)"

definition get_owner :: "'f host \<Rightarrow> instant \<Rightarrow> u32 \<Rightarrow> u32 \<Rightarrow> bool \<Rightarrow> 'f ctx \<Rightarrow> 'f ctx" where
  "get_owner H now requester req_pkt_id via_lora c =
     send_admin_response H now requester req_pkt_id
       (GetOwnerResponse (user_default\<lparr>u_id := cx_node_id_str c, u_long_name := long_name (cx_device c),
          u_short_name := short_name (cx_device c), u_hw_model := hw_model (cx_device c)\<rparr>)) via_lora c"

section \<open>Changing the configuration\<close>

text \<open>\<open>ctx.storage.save_state(ctx.device)\<close>; a failure is only logged.\<close>

definition persist_device :: "'f host \<Rightarrow> 'f ctx \<Rightarrow> 'f ctx" where
  "persist_device H c =
     c\<lparr>cx_storage := fst (save_state (h_env H) (h_flash H) (cx_device c) (cx_storage c))\<rparr>"

definition CUSTOM_SF_DEFAULT :: u8 where [const_defs]: "CUSTOM_SF_DEFAULT = 11"
definition CUSTOM_CR_DEFAULT :: u8 where [const_defs]: "CUSTOM_CR_DEFAULT = 5"
definition CUSTOM_BW_DEFAULT_HZ :: u32 where [const_defs]: "CUSTOM_BW_DEFAULT_HZ = 250000"

definition clamp_custom_sf :: "u32 \<Rightarrow> u8" where
  "clamp_custom_sf n = (if 5 \<le> n \<and> n \<le> 12 then ucast n else CUSTOM_SF_DEFAULT)"

definition clamp_custom_cr :: "u32 \<Rightarrow> u8" where
  "clamp_custom_cr n = (if 4 \<le> n \<and> n \<le> 8 then ucast n else CUSTOM_CR_DEFAULT)"

definition clamp_custom_bw_hz :: "u32 \<Rightarrow> u32" where
  "clamp_custom_bw_hz n =
     (let hz = bw_code_to_hz (ucast n) in if hz = 0 then CUSTOM_BW_DEFAULT_HZ else hz)"

definition apply_lora_config :: "'f host \<Rightarrow> lora_config \<Rightarrow> device_state \<Rightarrow> device_state" where
  "apply_lora_config H l dev =
     dev\<lparr>modem_preset := preset_from_proto (env_preset (h_env H)) (ucast (lc_modem_preset l)),
         region := h_region_num H (region_from_proto (env_region (h_env H)) (ucast (lc_region l))),
         use_preset := lc_use_preset l,
         custom_sf := clamp_custom_sf (lc_spread_factor l),
         custom_bw_hz := clamp_custom_bw_hz (lc_bandwidth l),
         custom_cr := clamp_custom_cr (lc_coding_rate l), channel_num := lc_channel_num l,
         hop_limit_cfg := min (ucast (lc_hop_limit l)) MAX_HOP_LIMIT,
         tx_enabled := lc_tx_enabled l, config_ok_to_mqtt := lc_config_ok_to_mqtt l\<rparr>"

definition set_config :: "'f host \<Rightarrow> config_variant option \<Rightarrow> 'f ctx \<Rightarrow> 'f ctx" where
  "set_config H cfg c =
     (case cfg of
        None \<Rightarrow> c
      | Some variant \<Rightarrow> persist_device H
          (case variant of
             CfgDevice r \<Rightarrow>
               (case role_try_from r of
                  Some rl \<Rightarrow> c\<lparr>cx_device := (cx_device c)\<lparr>role := rl\<rparr>\<rparr> | None \<Rightarrow> c)
           | CfgLora l \<Rightarrow> c\<lparr>cx_device := apply_lora_config H l (cx_device c), cx_tx_enabled := lc_tx_enabled l\<rparr>
           | _ \<Rightarrow> c))"

definition is_valid_psk_len :: "nat \<Rightarrow> bool" where
  "is_valid_psk_len n \<longleftrightarrow> n = 0 \<or> n = 1 \<or> n = 16 \<or> n = 32"

definition channel_role_try_from :: "i32 \<Rightarrow> channel_role option" where
  "channel_role_try_from n =
     (if n = 0 then Some Disabled else if n = 1 then Some Primary else if n = 2 then Some Secondary else None)"

definition set_channel :: "'f host \<Rightarrow> channel_msg \<Rightarrow> 'f ctx \<Rightarrow> 'f ctx" where
  "set_channel H ch c =
     (case cm_settings ch of
        None \<Rightarrow> c
      | Some s \<Rightarrow>
          if \<not> is_valid_psk_len (length (cst_psk s)) then c
          else
            (let idx = ucast (cm_index ch);
                 new_ch = \<lparr>ch_index = idx, ch_name = vec_extend CHANNEL_NAME_CAP [] (cst_name s),
                   ch_psk = cst_psk s,
                   ch_role = (case channel_role_try_from (cm_role ch) of Some r \<Rightarrow> r | None \<Rightarrow> Secondary)\<rparr>
             in persist_device H
                  (c\<lparr>cx_device := (cx_device c)\<lparr>channels := chan_set idx new_ch (channels (cx_device c))\<rparr>\<rparr>)))"

definition set_owner :: "'f host \<Rightarrow> user \<Rightarrow> 'f ctx \<Rightarrow> 'f ctx" where
  "set_owner H u c =
     (let dev = cx_device c;
          dev = (if u_long_name u \<noteq> [] then dev\<lparr>long_name := vec_extend LONG_NAME_CAP [] (u_long_name u)\<rparr> else dev);
          dev = (if u_short_name u \<noteq> [] then dev\<lparr>short_name := vec_extend SHORT_NAME_CAP [] (u_short_name u)\<rparr> else dev);
          dev = (if u_hw_model u \<noteq> 0 \<and> pc_hw_model_known (h_codec H) (u_hw_model u)
                 then dev\<lparr>hw_model := u_hw_model u\<rparr> else dev)
      in persist_device H (c\<lparr>cx_device := dev\<rparr>))"

section \<open>The node list\<close>

definition with_db :: "(node_db \<Rightarrow> node_db) \<Rightarrow> 'f ctx \<Rightarrow> 'f ctx" where
  "with_db f c = c\<lparr>cx_node_db := f (cx_node_db c)\<rparr>"

definition shared_pub_key :: "user \<Rightarrow> bytes option" where
  "shared_pub_key u =
     (if length (u_public_key u) = 32 \<and> (\<exists>b \<in> set (u_public_key u). b \<noteq> 0) then Some (u_public_key u) else None)"

definition add_contact :: "shared_contact \<Rightarrow> node_db \<Rightarrow> node_db" where
  "add_contact ct db =
     (case ct_user ct of
        None \<Rightarrow> db
      | Some u \<Rightarrow>
          (case get_or_create (ct_node_num ct) db of
             (db, None) \<Rightarrow> db
           | (db, Some idx) \<Rightarrow>
               (let db = modify_at idx (\<lambda>n. n\<lparr>n_user := Some u\<rparr>) db;
                    db = (case shared_pub_key u of Some key \<Rightarrow> update_pub_key (ct_node_num ct) key db | None \<Rightarrow> db);
                    db = mark_dirty db
                in if ct_should_ignore ct then set_favorite (ct_node_num ct) False (set_ignored (ct_node_num ct) True db)
                   else set_favorite (ct_node_num ct) True db)))"

definition handle_set_fixed_position :: "'f host \<Rightarrow> position_msg \<Rightarrow> 'f ctx \<Rightarrow> 'f ctx" where
  "handle_set_fixed_position H p c =
     c\<lparr>cx_my_position_bytes := vec_extend POSITION_CAP [] (pc_position_enc (h_codec H) p)\<rparr>"

named_theorems admin_defs "the one-line administration handlers"

definition handle_set_favorite :: "u32 \<Rightarrow> 'f ctx \<Rightarrow> 'f ctx" where [admin_defs]:
  "handle_set_favorite n = with_db (set_favorite n True)"

definition handle_remove_favorite :: "u32 \<Rightarrow> 'f ctx \<Rightarrow> 'f ctx" where [admin_defs]:
  "handle_remove_favorite n = with_db (set_favorite n False)"

definition handle_set_ignored :: "u32 \<Rightarrow> 'f ctx \<Rightarrow> 'f ctx" where [admin_defs]:
  "handle_set_ignored n = with_db (set_ignored n True)"

definition handle_remove_ignored :: "u32 \<Rightarrow> 'f ctx \<Rightarrow> 'f ctx" where [admin_defs]:
  "handle_remove_ignored n = with_db (set_ignored n False)"

definition handle_toggle_muted :: "u32 \<Rightarrow> 'f ctx \<Rightarrow> 'f ctx" where [admin_defs]:
  "handle_toggle_muted n = with_db (toggle_muted n)"

definition handle_remove_node :: "u32 \<Rightarrow> 'f ctx \<Rightarrow> 'f ctx" where [admin_defs]:
  "handle_remove_node n = with_db (\<lambda>db. fst (remove_node n db))"

definition handle_remove_fixed_position :: "'f ctx \<Rightarrow> 'f ctx" where [admin_defs]:
  "handle_remove_fixed_position c = c\<lparr>cx_my_position_bytes := []\<rparr>"

section \<open>Edit sessions, reboot and resets\<close>

definition handle_begin_edit :: "'f host \<Rightarrow> instant \<Rightarrow> u32 \<Rightarrow> u32 \<Rightarrow> bool \<Rightarrow> 'f ctx \<Rightarrow> 'f ctx" where [admin_defs]:
  "handle_begin_edit H now requester req_pkt_id via_lora =
     send_admin_response H now requester req_pkt_id (BeginEditSettings True) via_lora"

definition handle_commit_edit :: "'f host \<Rightarrow> instant \<Rightarrow> u32 \<Rightarrow> u32 \<Rightarrow> bool \<Rightarrow> 'f ctx \<Rightarrow> 'f ctx" where [admin_defs]:
  "handle_commit_edit H now requester req_pkt_id via_lora =
     send_admin_response H now requester req_pkt_id (CommitEditSettings True) via_lora"

definition handle_reboot :: "u32 \<Rightarrow> 'f ctx \<Rightarrow> 'f ctx" where [admin_defs]:
  "handle_reboot secs c = c\<lparr>cx_reboot_after_secs := Some secs\<rparr>"

definition handle_shutdown :: "u32 \<Rightarrow> 'f ctx \<Rightarrow> 'f ctx" where [admin_defs]:
  "handle_shutdown secs c = c\<lparr>cx_shutdown_after_secs := Some secs\<rparr>"

definition handle_factory_reset :: "'f host \<Rightarrow> 'f ctx \<Rightarrow> 'f ctx" where
  "handle_factory_reset H c =
     c\<lparr>cx_storage := clear_bond (h_flash H) (erase_config (h_flash H) (cx_storage c)),
       cx_reboot_after_secs := Some 2\<rparr>"

definition handle_nodedb_reset :: "'f ctx \<Rightarrow> 'f ctx" where
  "handle_nodedb_reset c = c\<lparr>cx_node_db := node_db_new (my_node_num (cx_device c))\<rparr>"

section \<open>Dispatch\<close>

definition passkey_accepted :: "instant \<Rightarrow> session_passkey option \<Rightarrow> bytes \<Rightarrow> bool" where
  "passkey_accepted now session key \<longleftrightarrow>
     (key \<noteq> [] \<and> (case session of None \<Rightarrow> False | Some k \<Rightarrow> \<not> is_expired now k \<and> key = sp_key k))"

definition admin_perform :: "'f host \<Rightarrow> instant \<Rightarrow> u32 \<Rightarrow> u32 \<Rightarrow> bool \<Rightarrow> admin_variant \<Rightarrow> 'f ctx \<Rightarrow> 'f ctx" where
  "admin_perform H now requester req_pkt_id via_lora v c =
     (case v of
        GetOwnerRequest \<Rightarrow> get_owner H now requester req_pkt_id via_lora c
      | GetConfigRequest n \<Rightarrow>
          (case pc_config_type (h_codec H) n of
             Some ty \<Rightarrow> get_config H now requester req_pkt_id ty via_lora c | None \<Rightarrow> c)
      | GetChannelRequest i \<Rightarrow> get_channel H now requester req_pkt_id i via_lora c
      | GetModuleConfigRequest n \<Rightarrow> get_module_config H now requester req_pkt_id n via_lora c
      | SetOwner u \<Rightarrow> set_owner H u c
      | SetConfig cfg \<Rightarrow> set_config H cfg c
      | SetModuleConfig \<Rightarrow> c
      | SetChannel ch \<Rightarrow> set_channel H ch c
      | SetFavoriteNode n \<Rightarrow> handle_set_favorite n c
      | RemoveFavoriteNode n \<Rightarrow> handle_remove_favorite n c
      | SetIgnoredNode n \<Rightarrow> handle_set_ignored n c
      | RemoveIgnoredNode n \<Rightarrow> handle_remove_ignored n c
      | ToggleMutedNode n \<Rightarrow> handle_toggle_muted n c
      | AddContact ct \<Rightarrow> with_db (add_contact ct) c
      | SetFixedPosition p \<Rightarrow> handle_set_fixed_position H p c
      | RemoveFixedPosition \<Rightarrow> handle_remove_fixed_position c
      | BeginEditSettings _ \<Rightarrow> handle_begin_edit H now requester req_pkt_id via_lora c
      | CommitEditSettings _ \<Rightarrow> handle_commit_edit H now requester req_pkt_id via_lora c
      | RebootSeconds secs \<Rightarrow> handle_reboot secs c
      | FactoryResetConfig \<Rightarrow> handle_factory_reset H c
      | NodedbReset \<Rightarrow> handle_nodedb_reset c
      | ShutdownSeconds secs \<Rightarrow> handle_shutdown secs c
      | RemoveByNodenum n \<Rightarrow> handle_remove_node n c
      | _ \<Rightarrow> c)"

definition admin_dispatch :: "'f host \<Rightarrow> instant \<Rightarrow> u32 \<Rightarrow> u32 \<Rightarrow> bytes \<Rightarrow> bool \<Rightarrow> 'f ctx \<Rightarrow> 'f ctx" where
  "admin_dispatch H now requester req_pkt_id admin_bytes via_lora c =
     (case pc_admin_dec (h_codec H) admin_bytes of
        None \<Rightarrow> c
      | Some msg \<Rightarrow>
          if via_lora \<and> \<not> passkey_accepted now (cx_session_passkey c) (am_session_passkey msg) then c
          else (case am_variant msg of
                  Some v \<Rightarrow> admin_perform H now requester req_pkt_id via_lora v c | None \<Rightarrow> c))"

section \<open>Lemmas\<close>

text \<open>Protobuf strings are valid UTF-8: what the decoder guarantees of the texts an administrator sends.\<close>

definition admin_strings :: "admin_variant \<Rightarrow> bool" where
  "admin_strings v =
     (case v of
        SetOwner u \<Rightarrow> utf8_valid (u_long_name u) \<and> utf8_valid (u_short_name u)
      | SetChannel ch \<Rightarrow> (case cm_settings ch of Some s \<Rightarrow> utf8_valid (cst_name s) | None \<Rightarrow> True)
      | _ \<Rightarrow> True)"

definition decodes_strings :: "'f host \<Rightarrow> bool" where
  "decodes_strings H \<longleftrightarrow>
     (\<forall>bs msg v. pc_admin_dec (h_codec H) bs = Some msg \<longrightarrow> am_variant msg = Some v \<longrightarrow> admin_strings v)"

lemma utf8_vec_extend: "utf8_valid s \<Longrightarrow> utf8_valid (vec_extend cap [] s)"
  by (simp add: vec_extend_def)

lemma core_updates [simp]:
  "core (c\<lparr>cx_storage := x1\<rparr>) = core c" "core (c\<lparr>cx_node_db := x2\<rparr>) = core c"
  "core (c\<lparr>cx_my_position_bytes := x3\<rparr>) = core c" "core (c\<lparr>cx_reboot_after_secs := x4\<rparr>) = core c"
  "core (c\<lparr>cx_shutdown_after_secs := x5\<rparr>) = core c" "core (c\<lparr>cx_last_nodeinfo_tx := x6\<rparr>) = core c"
  "core (c\<lparr>cx_last_position_tx := x7\<rparr>) = core c" "core (c\<lparr>cx_last_lora_telemetry := x8\<rparr>) = core c"
  "core (c\<lparr>cx_last_neighborinfo_tx := x9\<rparr>) = core c" "core (c\<lparr>cx_led := x10\<rparr>) = core c"
  "core (c\<lparr>cx_pending_packets := x11\<rparr>) = core c" "core (c\<lparr>cx_to_lora := x12\<rparr>) = core c"
  by (simp_all add: core_def)

lemma send_admin_response_ok [simp]: "ctx_ok c \<Longrightarrow> ctx_ok (send_admin_response H now r q v l c)"
  and send_admin_response_core [simp]: "core (send_admin_response H now r q v l c) = core c"
proof -
  let ?c = "ensure_session_passkey H now c"
  obtain c' pid where p: "ctx_packet_id ?c = (c', pid)" by fastforce
  note ids = ctx_packet_id_ok [OF p] next_from_radio_id_nonzero [of "cx_from_radio_id c'"]
  have shape: "ctx_ok c' \<Longrightarrow> length bs \<le> 512 \<Longrightarrow>
      ctx_ok (c'\<lparr>cx_from_radio_id := fst (next_from_radio_id (cx_from_radio_id c')),
        cx_to_ble := cx_to_ble c' @ [\<lparr>fm_data = bs, fm_id = snd (next_from_radio_id (cx_from_radio_id c'))\<rparr>]\<rparr>)" for bs
    using ids(2) by (auto simp: ctx_ok_def message_ok_def next_from_radio_id_def)
  show "ctx_ok c \<Longrightarrow> ctx_ok (send_admin_response H now r q v l c)"
    using ids(1) by (simp add: send_admin_response_def Let_def originate_ok p split_beta shape)
  have "core (c'\<lparr>cx_from_radio_id := n, cx_to_ble := q'\<rparr>) = core c'" for n q' by (simp add: core_def)
  then show "core (send_admin_response H now r q v l c) = core c"
    using ids(1) by (simp add: send_admin_response_def Let_def p split_beta)
qed

lemma persist_device_ok: "ctx_ok (persist_device H c) = ctx_ok c"
  and persist_device_core [simp]: "core (persist_device H c) = core c"
  by (simp_all add: persist_device_def ctx_ok_def core_def)

lemma apply_lora_config_ok: "device_ok dev \<Longrightarrow> device_ok (apply_lora_config H l dev)"
  by (simp add: apply_lora_config_def device_ok_def)

lemma ctx_ok_device: "ctx_ok c \<Longrightarrow> device_ok dev \<Longrightarrow> ctx_ok (c\<lparr>cx_device := dev\<rparr>)"
  by (simp add: ctx_ok_def)

lemma ctx_ok_fields:
  "ctx_ok (c\<lparr>cx_tx_enabled := b\<rparr>) = ctx_ok c" "ctx_ok (c\<lparr>cx_reboot_after_secs := r\<rparr>) = ctx_ok c"
  "ctx_ok (c\<lparr>cx_shutdown_after_secs := r\<rparr>) = ctx_ok c" "ctx_ok (c\<lparr>cx_last_nodeinfo_tx := t\<rparr>) = ctx_ok c"
  "ctx_ok (c\<lparr>cx_drawn := n\<rparr>) = ctx_ok c" "ctx_ok (c\<lparr>cx_last_neighborinfo_tx := t\<rparr>) = ctx_ok c"
  "ctx_ok (c\<lparr>cx_last_lora_telemetry := t\<rparr>) = ctx_ok c" "ctx_ok (c\<lparr>cx_last_position_tx := u\<rparr>) = ctx_ok c"
  "ctx_ok (c\<lparr>cx_metrics := m\<rparr>) = ctx_ok c" "ctx_ok (c\<lparr>cx_ble_connected := b\<rparr>) = ctx_ok c"
  by (simp_all add: ctx_ok_def)

lemma set_config_ok: "ctx_ok c \<Longrightarrow> ctx_ok (set_config H cfg c)"
proof -
  assume ok: "ctx_ok c"
  then have "device_ok (cx_device c)" by (simp add: ctx_ok_def)
  then have "device_ok ((cx_device c)\<lparr>role := r\<rparr>)" for r by (simp add: device_ok_def)
  moreover have "device_ok (apply_lora_config H l (cx_device c))" for l
    using \<open>device_ok (cx_device c)\<close> by (rule apply_lora_config_ok)
  ultimately show ?thesis
    using ok by (auto simp: set_config_def persist_device_ok ctx_ok_device ctx_ok_fields
        split: option.split config_variant.split)
qed

lemma set_config_core [simp]: "core (set_config H cfg c) = core c"
proof -
  have "core (c\<lparr>cx_device := (cx_device c)\<lparr>role := r\<rparr>\<rparr>) = core c"
    "core (c\<lparr>cx_device := apply_lora_config H l (cx_device c), cx_tx_enabled := b\<rparr>) = core c" for r l b
    by (simp_all add: core_def apply_lora_config_def)
  then show ?thesis by (simp add: set_config_def split: option.split config_variant.split)
qed

lemma chan_set_ok:
  assumes "channels_ok cs" "ch_index ch = idx" "length (ch_name ch) \<le> CHANNEL_NAME_CAP" "length (ch_psk ch) \<le> PSK_CAP"
  shows "channels_ok (chan_set idx ch cs)"
  using assms by (auto simp: channels_ok_def chan_set_def nth_list_update)

lemma chan_set_mem: "Some c \<in> set (chan_set idx ch cs) \<Longrightarrow> Some c \<in> set cs \<or> c = ch"
  using set_update_subset_insert [of cs "unat idx" "Some ch"] by (auto simp: chan_set_def split: if_splits)

lemma set_channel_ok:
  assumes "ctx_ok c" and "admin_strings (SetChannel ch)"
  shows "ctx_ok (set_channel H ch c)"
proof (cases "cm_settings ch")
  case (Some s)
  let ?new = "\<lparr>ch_index = ucast (cm_index ch), ch_name = vec_extend CHANNEL_NAME_CAP [] (cst_name s), ch_psk = cst_psk s,
     ch_role = (case channel_role_try_from (cm_role ch) of Some r \<Rightarrow> r | None \<Rightarrow> Secondary)\<rparr>"
  have dev: "device_ok (cx_device c)" using assms(1) by (simp add: ctx_ok_def)
  have "is_valid_psk_len (length (cst_psk s)) \<Longrightarrow>
      channels_ok (chan_set (ucast (cm_index ch)) ?new (channels (cx_device c)))"
    using dev by (intro chan_set_ok) (auto simp: device_ok_def is_valid_psk_len_def const_defs length_vec_extend)
  moreover have "utf8_valid (ch_name ?new)"
    using assms(2) Some by (simp add: admin_strings_def utf8_vec_extend)
  ultimately have "is_valid_psk_len (length (cst_psk s)) \<Longrightarrow>
      device_ok ((cx_device c)\<lparr>channels := chan_set (ucast (cm_index ch)) ?new (channels (cx_device c))\<rparr>)"
    using dev by (auto simp: device_ok_def dest!: chan_set_mem)
  then show ?thesis
    using assms(1) Some by (simp add: set_channel_def Let_def persist_device_ok ctx_ok_device)
qed (use assms(1) in \<open>simp add: set_channel_def\<close>)

lemma set_channel_core [simp]: "core (set_channel H ch c) = core c"
proof -
  have "core (c\<lparr>cx_device := (cx_device c)\<lparr>channels := cs\<rparr>\<rparr>) = core c" for cs by (simp add: core_def)
  then show ?thesis by (simp add: set_channel_def Let_def split: option.split)
qed

lemma device_owner_ok:
  "device_ok dev \<Longrightarrow> utf8_valid n \<Longrightarrow> device_ok (dev\<lparr>long_name := vec_extend LONG_NAME_CAP [] n\<rparr>)"
  "device_ok dev \<Longrightarrow> utf8_valid n \<Longrightarrow> device_ok (dev\<lparr>short_name := vec_extend SHORT_NAME_CAP [] n\<rparr>)"
  "device_ok (dev\<lparr>hw_model := h\<rparr>) = device_ok dev"
  by (simp_all add: device_ok_def utf8_vec_extend length_vec_extend)

lemma set_owner_ok:
  assumes "ctx_ok c" and "admin_strings (SetOwner u)"
  shows "ctx_ok (set_owner H u c)"
proof -
  have "device_ok (cx_device c)" using assms(1) by (simp add: ctx_ok_def)
  moreover have "utf8_valid (u_long_name u)" "utf8_valid (u_short_name u)"
    using assms(2) by (simp_all add: admin_strings_def)
  ultimately show ?thesis
    using assms(1) by (simp add: set_owner_def Let_def persist_device_ok ctx_ok_device device_owner_ok)
qed

lemma set_owner_core [simp]: "core (set_owner H u c) = core c"
  by (simp add: set_owner_def Let_def) (simp add: core_def)

lemma with_db_ok: "ctx_ok c \<Longrightarrow> (db_ok (cx_node_db c) \<Longrightarrow> db_ok (f (cx_node_db c))) \<Longrightarrow> ctx_ok (with_db f c)"
  and with_db_core [simp]: "core (with_db f c) = core c"
  by (simp_all add: with_db_def ctx_ok_def core_def)

lemma add_contact_ok:
  assumes "db_ok db"
  shows "db_ok (add_contact ct db)"
proof -
  obtain db1 idx where g: "get_or_create (ct_node_num ct) db = (db1, idx)" by fastforce
  have "db_ok (modify_at i (\<lambda>n. n\<lparr>n_user := Some u\<rparr>) db1)" if "idx = Some i" for i u
    using update_ok(1) [OF assms, of "ct_node_num ct" u] that by (simp add: update_user_def g)
  moreover have "db_ok db1" using get_or_create_ok [OF assms, of "ct_node_num ct"] by (simp add: g)
  ultimately show ?thesis
    using assms by (auto simp: add_contact_def g Let_def update_ok set_flag_ok split: option.split)
qed

lemma get_ok [simp]:
  assumes "ctx_ok c"
  shows "ctx_ok (get_config H now r q ty l c)" "ctx_ok (get_module_config H now r q m l c)"
    "ctx_ok (get_channel H now r q i l c)" "ctx_ok (get_owner H now r q l c)"
  using assms by (simp_all add: get_config_def get_module_config_def get_channel_def get_owner_def Let_def split: option.split)

lemma get_core [simp]:
  "core (get_config H now r q ty l c) = core c" "core (get_module_config H now r q m l c) = core c"
  "core (get_channel H now r q i l c) = core c" "core (get_owner H now r q l c) = core c"
  by (simp_all add: get_config_def get_module_config_def get_channel_def get_owner_def Let_def split: option.split)

lemma ctx_ok_position: "ctx_ok c \<Longrightarrow> length bs \<le> POSITION_CAP \<Longrightarrow> ctx_ok (c\<lparr>cx_my_position_bytes := bs\<rparr>)"
  by (simp add: ctx_ok_def)

lemma resets_ok [simp]:
  assumes "ctx_ok c"
  shows "ctx_ok (handle_factory_reset H c)" "ctx_ok (handle_nodedb_reset c)" "ctx_ok (handle_set_fixed_position H p c)"
  using assms
  by (simp_all add: handle_factory_reset_def handle_nodedb_reset_def handle_set_fixed_position_def ctx_ok_def vec_extend_def)

lemma admin_perform_ok: "ctx_ok c \<Longrightarrow> admin_strings v \<Longrightarrow> ctx_ok (admin_perform H now r q l v c)"
  by (cases v) (auto simp: admin_perform_def admin_defs set_owner_ok set_config_ok set_channel_ok with_db_ok set_flag_ok remove_node_ok
      add_contact_ok ctx_ok_fields ctx_ok_position split: option.split)

lemma admin_dispatch_ok: "ctx_ok c \<Longrightarrow> decodes_strings H \<Longrightarrow> ctx_ok (admin_dispatch H now r q bs l c)"
  by (auto simp: admin_dispatch_def decodes_strings_def admin_perform_ok split: option.split)

lemma admin_perform_core [simp]: "core (admin_perform H now r q l v c) = core c"
  by (cases v) (simp_all add: admin_perform_def admin_defs handle_factory_reset_def handle_nodedb_reset_def
      handle_set_fixed_position_def split: option.split)

lemma admin_dispatch_core [simp]: "core (admin_dispatch H now r q bs l c) = core c"
  by (simp add: admin_dispatch_def split: option.split)

end
