(* ===== verification/From_Radio.thy ===== *)
theory From_Radio
  imports Admin
begin

text \<open>
  \<open>handlers/from_radio\<close>: a frame heard on the radio is authenticated first, then filtered for
  duplicates, recorded in the node table, handed to the handler of its port number, forwarded to the
  phone, acknowledged and scheduled for relaying.  Handlers that only log (text message, waypoint,
  remote hardware) leave the state as it is.
\<close>

section \<open>Authentication\<close>

record inbound_packet =
  ip_sender :: u32
  ip_packet_id :: u32
  ip_relay_node :: u8
  ip_payload :: bytes
  ip_addressed_to_us :: bool
  ip_want_response :: bool
  ip_request_id :: u32
  ip_reply_id :: u32
  ip_emoji :: u32
  ip_channel_idx :: u8
  ip_snr :: i8

record decoded_payload =
  dc_portnum :: i32
  dc_want_response :: bool
  dc_request_id :: u32
  dc_reply_id :: u32
  dc_emoji :: u32
  dc_payload :: bytes
  dc_channel_index :: u8

datatype decrypt_outcome = Authentic decoded_payload | UnknownPubkey | Drop

definition final_undecoded_outcome :: "bool \<Rightarrow> packet_header \<Rightarrow> bytes option \<Rightarrow> decrypt_outcome" where
  "final_undecoded_outcome is_unicast_to_us hdr sender_pub_key =
     (if h_channel_index hdr = 0 \<and> is_unicast_to_us \<and> sender_pub_key = None then UnknownPubkey else Drop)"

text \<open>The pairwise-key attempt: the plaintext, or \<^term>\<open>None\<close> when it was not made or failed.\<close>

definition try_pkc :: "env \<Rightarrow> packet_header \<Rightarrow> bytes \<Rightarrow> bytes \<Rightarrow> bytes option \<Rightarrow> bytes option" where
  "try_pkc E hdr raw priv sender_pub_key =
     (case sender_pub_key of
        None \<Rightarrow> None
      | Some peer \<Rightarrow>
          (let my_secret = fst (keypair_from_seed (env_pkc E) priv);
               shared_key = derive_shared_key (env_pkc E) my_secret peer;
               plaintext_len = length raw - PKC_OVERHEAD
           in if 256 < plaintext_len then None
              else case decrypt_pkc (env_pkc E) shared_key (h_packet_id hdr) (h_sender hdr) raw
                          (replicate plaintext_len 0) of
                     Inr (n, out) \<Rightarrow> Some (vec_extend 256 [] (take n out))
                   | Inl _ \<Rightarrow> None))"

text \<open>The channel-key attempt, or the payload as it is.\<close>

definition try_psk :: "env \<Rightarrow> packet_header \<Rightarrow> bytes \<Rightarrow> channel_config option \<Rightarrow> bytes option" where
  "try_psk E hdr raw channel =
     (let pl = vec_extend 256 [] raw
      in case channel of
           Some ch \<Rightarrow>
             if is_encrypted ch \<and> pl \<noteq> [] then
               (case crypt_packet (env_keystream E) (copy_psk (effective_psk ch)) (h_packet_id hdr) (h_sender hdr) pl of
                  Inr out \<Rightarrow> Some out | Inl _ \<Rightarrow> None)
             else Some pl
         | None \<Rightarrow> Some pl)"

definition try_decrypt_and_decode :: "env \<Rightarrow> radio_frame \<Rightarrow> packet_header \<Rightarrow> device_state \<Rightarrow> node_db \<Rightarrow> bytes
    \<Rightarrow> decrypt_outcome" where
  "try_decrypt_and_decode E frame hdr dev db priv =
     (let channel = find_by_hash (h_channel_index hdr) (display_name (modem_preset dev)) (channels dev);
          channel_index = (case channel of Some c \<Rightarrow> ch_index c | None \<Rightarrow> 0);
          raw = payload frame;
          is_unicast_to_us = (h_destination hdr = my_node_num dev);
          is_pkc_candidate = (h_channel_index hdr = 0 \<and> is_unicast_to_us \<and> PKC_OVERHEAD < length raw
            \<and> (\<exists>b \<in> set priv. b \<noteq> 0));
          sender_pub_key = (if is_pkc_candidate then Option.bind (get (h_sender hdr) db) n_pub_key else None);
          pkc = try_pkc E hdr raw priv sender_pub_key;
          plain = (case pkc of Some p \<Rightarrow> Some p | None \<Rightarrow> try_psk E hdr raw channel)
      in case Option.bind plain (env_data_dec E) of
           None \<Rightarrow> final_undecoded_outcome is_unicast_to_us hdr sender_pub_key
         | Some d \<Rightarrow>
             if d_portnum d = TEXT_MESSAGE_APP \<and> is_unicast_to_us \<and> pkc = None then Drop
             else Authentic \<lparr>dc_portnum = d_portnum d, dc_want_response = d_want_response d,
               dc_request_id = d_request_id d, dc_reply_id = d_reply_id d, dc_emoji = d_emoji d,
               dc_payload = d_payload d, dc_channel_index = channel_index\<rparr>)"

section \<open>Relaying\<close>

definition should_rebroadcast_for_role :: "device_role \<Rightarrow> bool" where
  "should_rebroadcast_for_role r \<longleftrightarrow> r \<noteq> ClientMute \<and> r \<noteq> ClientHidden"

definition enqueue_rebroadcast :: "pending_rebroadcast \<Rightarrow> pending_rebroadcast list \<Rightarrow> pending_rebroadcast list" where
  "enqueue_rebroadcast entry q =
     (case vec_push REBROADCAST_CAP q entry of
        Some q \<Rightarrow> q
      | None \<Rightarrow>
          (let q = (case min_idx rb_deadline q of Some idx \<Rightarrow> swap_remove idx q | None \<Rightarrow> q)
           in case vec_push REBROADCAST_CAP q entry of Some q \<Rightarrow> q | None \<Rightarrow> q))"

definition schedule_rebroadcast :: "'f host \<Rightarrow> instant \<Rightarrow> radio_frame \<Rightarrow> radio_metadata \<Rightarrow> u8 \<Rightarrow> 'f ctx \<Rightarrow> 'f ctx" where
  "schedule_rebroadcast H now frame meta new_hop c =
     (let relay_node = last_byte (my_node_num (cx_device c));
          rebroadcast_frame = with_rewritten_header new_hop relay_node frame;
          (modem_cfg, _) = lora_params (h_env H) (cx_device c);
          (c, raw_random) = random_u32 H c;
          delay = rebroadcast_delay_ms (rm_snr meta) (role (cx_device c)) (mc_spreading_factor modem_cfg)
            (mc_bandwidth_hz modem_cfg) raw_random
      in c\<lparr>cx_pending_rebroadcast := enqueue_rebroadcast
             \<lparr>rb_frame = rebroadcast_frame, rb_deadline = now + delay\<rparr> (cx_pending_rebroadcast c)\<rparr>)"

definition maybe_relay_opaque :: "'f host \<Rightarrow> instant \<Rightarrow> radio_frame \<Rightarrow> packet_header \<Rightarrow> radio_metadata \<Rightarrow> 'f ctx \<Rightarrow> 'f ctx" where
  "maybe_relay_opaque H now frame hdr meta c =
     (if \<not> should_rebroadcast_for_role (role (cx_device c)) then c
      else if hop_limit hdr = 0 then c
      else case should_relay_opaque (h_sender hdr) (h_packet_id hdr) (hop_start hdr) (hop_limit hdr) (cx_router c) of
             (r, relay) \<Rightarrow>
               if \<not> relay then c\<lparr>cx_router := r\<rparr>
               else schedule_rebroadcast H now frame meta (hop_limit hdr - 1) (c\<lparr>cx_router := r\<rparr>))"

section \<open>Introductions\<close>

definition nodeinfo_throttled :: "instant \<Rightarrow> 'f ctx \<Rightarrow> bool" where
  "nodeinfo_throttled now c \<longleftrightarrow>
     (case cx_last_nodeinfo_tx c of Some t \<Rightarrow> now - t < NODEINFO_MIN_INTERVAL_MS | None \<Rightarrow> False)"

definition sat_add_u8 :: "u8 \<Rightarrow> u8 \<Rightarrow> u8" where
  "sat_add_u8 a b = (if unat a + unat b < 256 then a + b else 255)"

definition maybe_request_nodeinfo :: "'f host \<Rightarrow> instant \<Rightarrow> u32 \<Rightarrow> u8 \<Rightarrow> u8 \<Rightarrow> 'f ctx \<Rightarrow> 'f ctx" where
  "maybe_request_nodeinfo H now sender start limit c =
     (if role (cx_device c) = Router \<or> role (cx_device c) = RouterLate then c
      else if MAX_NODES \<le> length (db_nodes (cx_node_db c)) then c
      else if nodeinfo_throttled now c then c
      else if \<not> tx_allowed_polite (cx_metrics c) (ctx_region H c) then c
      else if sat_add_u8 (hop_limit_cfg (cx_device c)) 2 < sat_sub start limit then c
      else (send_nodeinfo H sender True c)\<lparr>cx_last_nodeinfo_tx := Some now\<rparr>)"

section \<open>Port handlers\<close>

definition neighbor_info_handle :: "'f host \<Rightarrow> inbound_packet \<Rightarrow> 'f ctx \<Rightarrow> 'f ctx" where
  "neighbor_info_handle H pkt c =
     (case pc_neighbor_dec (h_codec H) (ip_payload pkt) of
        None \<Rightarrow> c
      | Some ni \<Rightarrow> with_db (fold (\<lambda>nb. touch (nb_node_id nb) 0 None 0) (ni_neighbors ni)) c)"

definition node_info_handle :: "'f host \<Rightarrow> instant \<Rightarrow> inbound_packet \<Rightarrow> 'f ctx \<Rightarrow> 'f ctx" where
  "node_info_handle H now pkt c =
     (case pc_user_dec (h_codec H) (ip_payload pkt) of
        None \<Rightarrow> c
      | Some u \<Rightarrow>
          (let c = (case shared_pub_key u of
                      Some key \<Rightarrow> with_db (update_pub_key (ip_sender pkt) key) c | None \<Rightarrow> c);
               c = with_db (update_user (ip_sender pkt) u) c;
               c = notify_ble_node_update H (ip_sender pkt) c
           in if ip_want_response pkt \<and> \<not> nodeinfo_throttled now c
              then (send_nodeinfo H (ip_sender pkt) False c)\<lparr>cx_last_nodeinfo_tx := Some now\<rparr> else c))"

definition position_handle :: "'f host \<Rightarrow> inbound_packet \<Rightarrow> 'f ctx \<Rightarrow> 'f ctx" where
  "position_handle H pkt c =
     (case pc_position_dec (h_codec H) (ip_payload pkt) of
        None \<Rightarrow> c
      | Some p \<Rightarrow> notify_ble_node_update H (ip_sender pkt) (with_db (update_position (ip_sender pkt) p) c))"

definition clear_pending :: "'f host \<Rightarrow> u32 \<Rightarrow> 'f ctx \<Rightarrow> 'f ctx" where
  "clear_pending H request_id c =
     (case position (\<lambda>a. pp_packet_id a = request_id) (cx_pending_packets c) of
        None \<Rightarrow> c
      | Some i \<Rightarrow>
          (let entry = cx_pending_packets c ! i;
               c = c\<lparr>cx_pending_packets := swap_remove i (cx_pending_packets c)\<rparr>
           in case pp_ble_notify entry of
                Some dest \<Rightarrow> send_ble_routing_result H dest (pp_packet_id entry) NoError c
              | None \<Rightarrow> c))"

definition routing_handle :: "'f host \<Rightarrow> inbound_packet \<Rightarrow> 'f ctx \<Rightarrow> 'f ctx" where
  "routing_handle H pkt c =
     (case pc_routing_dec (h_codec H) (ip_payload pkt) of
        None \<Rightarrow> c
      | Some _ \<Rightarrow>
          if ip_request_id pkt \<noteq> 0 then
            with_db (\<lambda>db. fst (learn_route db (ip_sender pkt) (ip_relay_node pkt)))
              (clear_pending H (ip_request_id pkt) c)
          else c)"

definition telemetry_handle :: "'f host \<Rightarrow> inbound_packet \<Rightarrow> 'f ctx \<Rightarrow> 'f ctx" where
  "telemetry_handle H pkt c =
     (case pc_telemetry_dec (h_codec H) (ip_payload pkt) of
        Some t \<Rightarrow> (case tm_variant t of
            Some (DeviceMetrics m) \<Rightarrow> with_db (update_device_metrics (ip_sender pkt) m) c
          | _ \<Rightarrow> c)
      | None \<Rightarrow> c)"

definition traceroute_handle :: "'f host \<Rightarrow> inbound_packet \<Rightarrow> 'f ctx \<Rightarrow> 'f ctx" where
  "traceroute_handle H pkt c =
     (if ip_addressed_to_us pkt \<and> ip_want_response pkt then
        (let rd = (case pc_route_dec (h_codec H) (ip_payload pkt) of Some rd \<Rightarrow> rd | None \<Rightarrow> route_default);
             rd = rd\<lparr>rd_route := rd_route rd @ [my_node_num (cx_device c)],
                     rd_snr_towards := rd_snr_towards rd @ [scast (ip_snr pkt) * 4]\<rparr>
         in fst (originate H (tx_default\<lparr>tb_dest := ip_sender pkt, tb_portnum := TRACEROUTE_APP,
              tb_inner_payload := pc_route_enc (h_codec H) rd, tb_channel_idx := Some (ip_channel_idx pkt),
              tb_request_id := ip_packet_id pkt\<rparr>) c))
      else c)"

definition handle_port :: "'f host \<Rightarrow> instant \<Rightarrow> i32 \<Rightarrow> inbound_packet \<Rightarrow> 'f ctx \<Rightarrow> 'f ctx" where
  "handle_port H now portnum pkt c =
     (if portnum = POSITION_APP then position_handle H pkt c
      else if portnum = NODEINFO_APP then node_info_handle H now pkt c
      else if portnum = ROUTING_APP then routing_handle H pkt c
      else if portnum = ADMIN_APP then
        (if ip_addressed_to_us pkt
         then admin_dispatch H now (ip_sender pkt) (ip_packet_id pkt) (ip_payload pkt) True c else c)
      else if portnum = TELEMETRY_APP then telemetry_handle H pkt c
      else if portnum = TRACEROUTE_APP then traceroute_handle H pkt c
      else if portnum = NEIGHBORINFO_APP then neighbor_info_handle H pkt c
      else c)"

section \<open>Dispatch\<close>

definition same_packet :: "packet_header \<Rightarrow> pending_rebroadcast \<Rightarrow> bool" where
  "same_packet hdr p \<longleftrightarrow>
     (case header (rb_frame p) of
        Some ph \<Rightarrow> h_sender ph = h_sender hdr \<and> h_packet_id ph = h_packet_id hdr | None \<Rightarrow> False)"

definition pending_hop_limit :: "packet_header \<Rightarrow> pending_rebroadcast list \<Rightarrow> u8 option" where
  "pending_hop_limit hdr q =
     (case find (same_packet hdr) q of
        Some p \<Rightarrow> map_option hop_limit (header (rb_frame p)) | None \<Rightarrow> None)"

text \<open>Layer 1: what a duplicate does to the scheduled relays.\<close>

definition handle_duplicate :: "filter_result \<Rightarrow> radio_frame \<Rightarrow> packet_header \<Rightarrow> 'f ctx \<Rightarrow> 'f ctx" where
  "handle_duplicate r frame hdr c =
     (case r of
        DuplicateUpgrade new_hop \<Rightarrow>
          c\<lparr>cx_pending_rebroadcast := update_first (same_packet hdr)
              (\<lambda>p. p\<lparr>rb_frame := with_rewritten_header new_hop (last_byte (my_node_num (cx_device c))) frame\<rparr>)
              (cx_pending_rebroadcast c)\<rparr>
      | DuplicateCancelRelay \<Rightarrow>
          c\<lparr>cx_pending_rebroadcast := filter (\<lambda>p. \<not> same_packet hdr p) (cx_pending_rebroadcast c)\<rparr>
      | _ \<Rightarrow> c)"

text \<open>The node table learns of the sender.\<close>

definition record_sender :: "'f host \<Rightarrow> instant \<Rightarrow> packet_header \<Rightarrow> radio_metadata \<Rightarrow> 'f ctx \<Rightarrow> 'f ctx" where
  "record_sender H now hdr meta c =
     (let c = c\<lparr>cx_led := try_send LED_QUEUE_SIZE (cx_led c) SingleBlink\<rparr>;
          is_new_node = (get (h_sender hdr) (cx_node_db c) = None);
          start = hop_start hdr; limit = hop_limit hdr;
          hops = (if 0 < start \<and> limit \<le> start then Some (start - limit) else None);
          c = with_db (\<lambda>db. with_node (h_sender hdr) (\<lambda>n. n\<lparr>n_hops_away := hops\<rparr>)
                (touch (h_sender hdr) 0 (Some (rm_snr meta)) (of_nat now) db)) c
      in if is_new_node then notify_ble_node_update H (h_sender hdr) c else c)"

definition introduce :: "'f host \<Rightarrow> instant \<Rightarrow> packet_header \<Rightarrow> 'f ctx \<Rightarrow> 'f ctx" where
  "introduce H now hdr c =
     (case Option.bind (get (h_sender hdr) (cx_node_db c)) n_user of
        None \<Rightarrow> maybe_request_nodeinfo H now (h_sender hdr) (hop_start hdr) (hop_limit hdr) c
      | Some _ \<Rightarrow> c)"

definition buffer_text :: "'f host \<Rightarrow> radio_frame \<Rightarrow> i32 \<Rightarrow> 'f ctx \<Rightarrow> 'f ctx" where
  "buffer_text H frame portnum c =
     (if (portnum = TEXT_MESSAGE_APP \<or> portnum = TEXT_MESSAGE_COMPRESSED_APP) \<and> \<not> cx_ble_connected c
      then c\<lparr>cx_storage := nvs_add (h_flash H) frame (cx_storage c)\<rparr> else c)"

definition deliver :: "'f host \<Rightarrow> instant \<Rightarrow> packet_header \<Rightarrow> decoded_payload \<Rightarrow> radio_metadata \<Rightarrow> 'f ctx \<Rightarrow> 'f ctx" where
  "deliver H now hdr d meta c =
     (let to_us = is_for_us (my_node_num (cx_device c)) hdr;
          pkt = \<lparr>ip_sender = h_sender hdr, ip_packet_id = h_packet_id hdr, ip_relay_node = h_relay_node hdr,
            ip_payload = dc_payload d, ip_addressed_to_us = to_us, ip_want_response = dc_want_response d,
            ip_request_id = dc_request_id d, ip_reply_id = dc_reply_id d, ip_emoji = dc_emoji d,
            ip_channel_idx = dc_channel_index d, ip_snr = rm_snr meta\<rparr>;
          c = handle_port H now (dc_portnum d) pkt c;
          c = (if (dc_portnum d \<noteq> ADMIN_APP \<or> \<not> to_us) \<and> cx_ble_connected c
               then forward_to_ble H \<lparr>fa_header = hdr, fa_channel_index = dc_channel_index d,
                      fa_portnum = dc_portnum d, fa_payload = dc_payload d, fa_reply_id = dc_reply_id d,
                      fa_emoji = dc_emoji d, fa_meta = meta\<rparr> c else c)
      in if h_destination hdr = my_node_num (cx_device c) \<and> want_ack hdr
         then send_routing_ack H (h_sender hdr) (h_packet_id hdr) (dc_channel_index d) c else c)"

definition relay :: "'f host \<Rightarrow> instant \<Rightarrow> radio_frame \<Rightarrow> packet_header \<Rightarrow> radio_metadata \<Rightarrow> 'f ctx \<Rightarrow> 'f ctx" where
  "relay H now frame hdr meta c =
     (if should_rebroadcast_for_role (role (cx_device c)) then
        (case should_rebroadcast (hop_limit hdr) (h_sender hdr) (cx_router c) of
           None \<Rightarrow> c
         | Some new_hop \<Rightarrow>
             if h_destination hdr \<noteq> BROADCAST_ADDR
                \<and> \<not> should_relay_directed (h_destination hdr) (h_next_hop hdr) (cx_router c) then c
             else schedule_rebroadcast H now frame meta new_hop c)
      else c)"

definition from_radio_dispatch :: "'f host \<Rightarrow> instant \<Rightarrow> radio_frame \<Rightarrow> radio_metadata \<Rightarrow> 'f ctx \<Rightarrow> 'f ctx" where
  "from_radio_dispatch H now frame meta c =
     (case header frame of
        None \<Rightarrow> c
      | Some hdr \<Rightarrow>
          if h_sender hdr = my_node_num (cx_device c) then
            (case position (\<lambda>a. pp_packet_id a = h_packet_id hdr) (cx_pending_packets c) of
               Some i \<Rightarrow> c\<lparr>cx_pending_packets := swap_remove i (cx_pending_packets c)\<rparr>
             | None \<Rightarrow> c)
          else
            (case try_decrypt_and_decode (h_env H) frame hdr (cx_device c) (cx_node_db c) (cx_pkc_priv c) of
               UnknownPubkey \<Rightarrow>
                 send_nodeinfo H (h_sender hdr) False
                   (if want_ack hdr then send_routing_error H (h_sender hdr) (h_packet_id hdr) PkiUnknownPubkey c
                    else c)
             | Drop \<Rightarrow>
                 if h_destination hdr \<noteq> my_node_num (cx_device c)
                 then maybe_relay_opaque H now frame hdr meta c else c
             | Authentic d \<Rightarrow>
                 (case should_filter_received (h_sender hdr) (h_packet_id hdr) (hop_limit hdr) (h_relay_node hdr)
                         (pending_hop_limit hdr (cx_pending_rebroadcast c)) (role (cx_device c)) (cx_router c) of
                    (r, New) \<Rightarrow>
                      relay H now frame hdr meta (deliver H now hdr d meta (buffer_text H frame (dc_portnum d)
                        (introduce H now hdr (record_sender H now hdr meta (c\<lparr>cx_router := r\<rparr>)))))
                  | (r, result) \<Rightarrow> handle_duplicate result frame hdr (c\<lparr>cx_router := r\<rparr>))))"

section \<open>Lemmas\<close>

lemma ctx_ok_relay: "ctx_ok c \<Longrightarrow> router_ok r \<Longrightarrow> ctx_ok (c\<lparr>cx_router := r\<rparr>)"
  and ctx_ok_pending: "ctx_ok c \<Longrightarrow> length q \<le> REBROADCAST_CAP \<Longrightarrow> \<forall>p \<in> set q. frame_ok (rb_frame p)
    \<Longrightarrow> ctx_ok (c\<lparr>cx_pending_rebroadcast := q\<rparr>)"
  and ctx_ok_packets: "ctx_ok c \<Longrightarrow> length ps \<le> PENDING_CAP \<Longrightarrow> \<forall>p \<in> set ps. frame_ok (pp_frame p)
    \<Longrightarrow> ctx_ok (c\<lparr>cx_pending_packets := ps\<rparr>)"
  by (simp_all add: ctx_ok_def)

lemma enqueue_rebroadcast_set: "set (enqueue_rebroadcast e q) \<subseteq> insert e (set q)"
proof -
  have "i < length q \<Longrightarrow> set (swap_remove i q) \<subseteq> set q" for i by (rule set_swap_remove_subset)
  then show ?thesis
    using min_idx_SomeD [of rb_deadline q]
    by (auto simp: enqueue_rebroadcast_def vec_push_def Let_def split: option.split)
qed

lemma enqueue_rebroadcast_mem: "e \<in> set (enqueue_rebroadcast e q)" if "length q \<le> REBROADCAST_CAP"
  using that by (auto simp: enqueue_rebroadcast_def vec_push_def Let_def const_defs split: option.split)

lemma length_enqueue_rebroadcast:
  "length q \<le> REBROADCAST_CAP \<Longrightarrow> length (enqueue_rebroadcast e q) \<le> REBROADCAST_CAP"
  by (auto simp: enqueue_rebroadcast_def vec_push_def Let_def const_defs split: option.split)

text \<open>Scheduling touches the queue and the random source only.\<close>

lemma schedule_rebroadcast_shape:
  "\<exists>t. schedule_rebroadcast H now frame meta l c = c\<lparr>cx_drawn := Suc (cx_drawn c),
     cx_pending_rebroadcast := enqueue_rebroadcast
       \<lparr>rb_frame = with_rewritten_header l (last_byte (my_node_num (cx_device c))) frame, rb_deadline = t\<rparr>
       (cx_pending_rebroadcast c)\<rparr>"
  by (auto simp: schedule_rebroadcast_def random_u32_def Let_def split: prod.split)

lemma schedule_rebroadcast_ok:
  assumes "ctx_ok c" and "frame_ok frame"
  shows "ctx_ok (schedule_rebroadcast H now frame meta l c)"
proof -
  from schedule_rebroadcast_shape [of H now frame meta l c] obtain t where
    s: "schedule_rebroadcast H now frame meta l c = c\<lparr>cx_drawn := Suc (cx_drawn c),
     cx_pending_rebroadcast := enqueue_rebroadcast
       \<lparr>rb_frame = with_rewritten_header l (last_byte (my_node_num (cx_device c))) frame, rb_deadline = t\<rparr>
       (cx_pending_rebroadcast c)\<rparr>" ..
  have "length (cx_pending_rebroadcast c) \<le> REBROADCAST_CAP" "\<forall>p \<in> set (cx_pending_rebroadcast c). frame_ok (rb_frame p)"
    using assms(1) by (simp_all add: ctx_ok_def)
  then show ?thesis
    unfolding s using assms with_rewritten_header_ok(1) [OF assms(2)]
    by (intro ctx_ok_pending) (auto simp: ctx_ok_fields length_enqueue_rebroadcast dest!: subsetD [OF enqueue_rebroadcast_set])
qed

lemma maybe_relay_opaque_ok:
  assumes "ctx_ok c" and "frame_ok frame"
  shows "ctx_ok (maybe_relay_opaque H now frame hdr meta c)"
proof -
  obtain r b where r: "should_relay_opaque (h_sender hdr) (h_packet_id hdr) (hop_start hdr) (hop_limit hdr)
      (cx_router c) = (r, b)" by fastforce
  have "router_ok r"
    using opaque_state(1) [of "cx_router c" "h_sender hdr" "h_packet_id hdr" "hop_start hdr" "hop_limit hdr"] assms(1) r
    by (simp add: ctx_ok_def)
  then show ?thesis
    using assms by (simp add: maybe_relay_opaque_def r ctx_ok_relay schedule_rebroadcast_ok)
qed

lemma maybe_request_nodeinfo_ok [simp]: "ctx_ok c \<Longrightarrow> ctx_ok (maybe_request_nodeinfo H now n s l c)"
  and maybe_request_nodeinfo_core [simp]: "core (maybe_request_nodeinfo H now n s l c) = core c"
  by (simp_all add: maybe_request_nodeinfo_def ctx_ok_fields)

lemma fold_touch_ok: "db_ok db \<Longrightarrow> db_ok (fold (\<lambda>nb. touch (nb_node_id nb) 0 None 0) nbs db)"
  by (induction nbs arbitrary: db) simp_all

lemma clear_pending_ok: "ctx_ok c \<Longrightarrow> ctx_ok (clear_pending H rid c)"
  and clear_pending_core [simp]: "core (clear_pending H rid c) = core c"
proof -
  let ?q = "cx_pending_packets c"
  assume ok: "ctx_ok c"
  have "i < length ?q \<Longrightarrow> ctx_ok (c\<lparr>cx_pending_packets := swap_remove i ?q\<rparr>)" for i
    using ok set_swap_remove_subset [of i ?q] by (intro ctx_ok_packets) (auto simp: ctx_ok_def)
  then show "ctx_ok (clear_pending H rid c)"
    using ok by (auto simp: clear_pending_def Let_def split: option.split dest: position_SomeD)
qed (simp add: clear_pending_def Let_def split: option.split)

lemma learn_route_ok:
  assumes "db_ok db"
  shows "db_ok (fst (learn_route db n h))"
proof (cases "get_or_create n db")
  case (Pair db1 r)
  have "db_ok db1" using get_or_create_ok [OF assms, of n] Pair by simp
  moreover have "db_ok (modify_at i (\<lambda>e. e\<lparr>n_next_hop := hop\<rparr>) db1)" if "r = Some i" for i hop
    using goc_modify(2) [of n db db1 i "\<lambda>e. e\<lparr>n_next_hop := hop\<rparr>"] Pair that assms by simp
  ultimately show ?thesis
    using assms by (simp add: learn_route_def Pair Let_def split: option.split)
qed

lemma port_ok:
  assumes "ctx_ok c"
  shows "ctx_ok (neighbor_info_handle H pkt c)" "ctx_ok (node_info_handle H now pkt c)" "ctx_ok (position_handle H pkt c)"
    "ctx_ok (routing_handle H pkt c)" "ctx_ok (telemetry_handle H pkt c)" "ctx_ok (traceroute_handle H pkt c)"
proof -
  show "ctx_ok (neighbor_info_handle H pkt c)"
    using assms by (auto simp: neighbor_info_handle_def with_db_ok fold_touch_ok split: option.split)
  show "ctx_ok (node_info_handle H now pkt c)"
    using assms by (auto simp: node_info_handle_def Let_def with_db_ok ctx_ok_fields split: option.split)
  show "ctx_ok (position_handle H pkt c)" "ctx_ok (telemetry_handle H pkt c)"
    using assms by (auto simp: position_handle_def telemetry_handle_def with_db_ok split: option.split telemetry_variant.split)
  show "ctx_ok (routing_handle H pkt c)"
    using assms by (auto simp: routing_handle_def with_db_ok clear_pending_ok learn_route_ok split: option.split)
  show "ctx_ok (traceroute_handle H pkt c)"
    using assms by (simp add: traceroute_handle_def Let_def originate_ok)
qed

lemma port_core [simp]:
  "core (neighbor_info_handle H pkt c) = core c" "core (node_info_handle H now pkt c) = core c"
  "core (position_handle H pkt c) = core c" "core (routing_handle H pkt c) = core c"
  "core (telemetry_handle H pkt c) = core c" "core (traceroute_handle H pkt c) = core c"
  by (simp_all add: neighbor_info_handle_def node_info_handle_def position_handle_def routing_handle_def
      telemetry_handle_def traceroute_handle_def Let_def split: option.split telemetry_variant.split)

lemma handle_port_ok: "ctx_ok c \<Longrightarrow> decodes_strings H \<Longrightarrow> ctx_ok (handle_port H now p pkt c)"
  and handle_port_core [simp]: "core (handle_port H now p pkt c) = core c"
  by (simp_all add: handle_port_def port_ok admin_dispatch_ok)

lemma ctx_ok_led: "ctx_ok c \<Longrightarrow> ctx_ok (c\<lparr>cx_led := try_send LED_QUEUE_SIZE (cx_led c) x\<rparr>)"
  by (simp add: ctx_ok_def length_try_send)

lemma record_sender_ok: "ctx_ok c \<Longrightarrow> ctx_ok (record_sender H now hdr meta c)"
  and record_sender_core [simp]: "core (record_sender H now hdr meta c) = core c"
proof -
  assume "ctx_ok c"
  then have "ctx_ok (with_db (\<lambda>db. with_node (h_sender hdr) (\<lambda>n. n\<lparr>n_hops_away := hops\<rparr>)
      (touch (h_sender hdr) 0 (Some (rm_snr meta)) (of_nat now) db))
      (c\<lparr>cx_led := try_send LED_QUEUE_SIZE (cx_led c) SingleBlink\<rparr>))" for hops
    by (intro with_db_ok ctx_ok_led) (auto intro!: ndb.inv_update)
  then show "ctx_ok (record_sender H now hdr meta c)" by (simp add: record_sender_def Let_def)
qed (simp add: record_sender_def Let_def)

lemma introduce_ok: "ctx_ok c \<Longrightarrow> ctx_ok (introduce H now hdr c)"
  and introduce_core [simp]: "core (introduce H now hdr c) = core c"
  by (simp_all add: introduce_def split: option.split)

lemma buffer_text_ok: "ctx_ok c \<Longrightarrow> frame_ok frame \<Longrightarrow> ctx_ok (buffer_text H frame p c)"
  and buffer_text_core [simp]: "core (buffer_text H frame p c) = core c"
  by (simp_all add: buffer_text_def ctx_ok_def nvs_port.inv_add)

lemma deliver_ok: "ctx_ok c \<Longrightarrow> decodes_strings H \<Longrightarrow> ctx_ok (deliver H now hdr d meta c)"
  and deliver_core [simp]: "core (deliver H now hdr d meta c) = core c"
  by (simp_all add: deliver_def Let_def handle_port_ok)

lemma relay_ok: "ctx_ok c \<Longrightarrow> frame_ok frame \<Longrightarrow> ctx_ok (relay H now frame hdr meta c)"
  by (simp add: relay_def schedule_rebroadcast_ok split: option.split)

lemma handle_duplicate_ok:
  assumes "ctx_ok c" and "frame_ok frame"
  shows "ctx_ok (handle_duplicate r frame hdr c)"
proof -
  let ?q = "cx_pending_rebroadcast c"
  have q: "length ?q \<le> REBROADCAST_CAP" "\<forall>p \<in> set ?q. frame_ok (rb_frame p)"
    using assms(1) by (simp_all add: ctx_ok_def)
  have "ctx_ok (c\<lparr>cx_pending_rebroadcast := update_first (same_packet hdr)
      (\<lambda>p. p\<lparr>rb_frame := with_rewritten_header l n frame\<rparr>) ?q\<rparr>)" for l n
    using q assms with_rewritten_header_ok(1) [OF assms(2)]
    by (intro ctx_ok_pending) (auto dest!: subsetD [OF set_update_first])
  moreover have "ctx_ok (c\<lparr>cx_pending_rebroadcast := filter P ?q\<rparr>)" for P
    using q assms(1) by (intro ctx_ok_pending) (auto intro: order_trans [OF length_filter_le])
  ultimately show ?thesis using assms(1) by (simp add: handle_duplicate_def split: filter_result.split)
qed

lemma from_radio_dispatch_ok:
  assumes "ctx_ok c" and "frame_ok frame" and "decodes_strings H"
  shows "ctx_ok (from_radio_dispatch H now frame meta c)"
proof (cases "header frame")
  case (Some hdr)
  let ?r = "should_filter_received (h_sender hdr) (h_packet_id hdr) (hop_limit hdr) (h_relay_node hdr)
      (pending_hop_limit hdr (cx_pending_rebroadcast c)) (role (cx_device c)) (cx_router c)"
  have "router_ok (fst ?r)" using assms(1) by (intro filter_state(1)) (simp add: ctx_ok_def)
  then have r: "ctx_ok (c\<lparr>cx_router := fst ?r\<rparr>)" using assms(1) by (simp add: ctx_ok_relay)
  have "i < length (cx_pending_packets c) \<Longrightarrow>
      ctx_ok (c\<lparr>cx_pending_packets := swap_remove i (cx_pending_packets c)\<rparr>)" for i
    using assms(1) set_swap_remove_subset [of i "cx_pending_packets c"] by (intro ctx_ok_packets) (auto simp: ctx_ok_def)
  then show ?thesis
    using Some assms r
    by (auto simp: from_radio_dispatch_def maybe_relay_opaque_ok relay_ok deliver_ok buffer_text_ok introduce_ok
        record_sender_ok handle_duplicate_ok split: option.split decrypt_outcome.split prod.split filter_result.split
        dest: position_SomeD)
qed (use assms in \<open>simp add: from_radio_dispatch_def\<close>)

end
