(* ===== verification/Example_Node.thy ===== *)
theory Example_Node
  imports From_Radio
begin

text \<open>A concrete node and a small protobuf codec: the instance on which the properties' hypotheses
  are shown to hold.\<close>

definition example_codec :: proto_codec where
  "example_codec = \<lparr>pc_from_radio_enc = (\<lambda>fid _. [ucast fid]),
     pc_to_radio_dec = (\<lambda>bs. if bs = [] then None else Some (Some (TrWantConfigId (ucast (hd bs))))),
     pc_user_enc = u_short_name, pc_user_dec = (\<lambda>bs. Some (user_default\<lparr>u_short_name := bs\<rparr>)),
     pc_position_enc = pos_rest, pc_position_dec = (\<lambda>_. None),
     pc_telemetry_enc = (\<lambda>_. [67]), pc_telemetry_dec = (\<lambda>_. None),
     pc_routing_enc = (\<lambda>_. [5]), pc_routing_dec = (\<lambda>_. Some (ErrorReason PkiFailed)),
     pc_neighbor_enc = (\<lambda>_. [71]), pc_neighbor_dec = (\<lambda>_. None),
     pc_route_enc = (\<lambda>_. [70]), pc_route_dec = (\<lambda>_. None),
     pc_admin_enc = am_session_passkey,
     pc_admin_dec = (\<lambda>bs. Some \<lparr>am_session_passkey = bs, am_variant = Some (RebootSeconds 5)\<rparr>),
     pc_config_type = (\<lambda>_. None), pc_module_type = (\<lambda>_. None), pc_hw_model_known = (\<lambda>_. True)\<rparr>"

text \<open>Flash that is never read back successfully, and random numbers that count.\<close>

definition dead_flash :: "bytes flash_ops" where
  "dead_flash = \<lparr>fl_read = (\<lambda>_ _ _. None), fl_write = (\<lambda>_ _ fl. (fl, False)), fl_erase = (\<lambda>_ _ fl. (fl, False))\<rparr>"

definition example_host :: "bytes host" where
  "example_host = \<lparr>h_env = toy_env, h_flash = dead_flash, h_sort = (\<lambda>_ xs. xs), h_region_num = (\<lambda>_. 0),
     h_random = of_nat, h_codec = example_codec\<rparr>"

definition example_ctx :: "bytes ctx" where
  "example_ctx = \<lparr>cx_device = toy_device, cx_node_db = node_db_new 9, cx_storage = nvs_new dead_flash [] 0,
     cx_router = router_new 9, cx_pending_packets = [], cx_pending_rebroadcast = [], cx_my_position_bytes = [],
     cx_session_passkey = None, cx_from_radio_id = 1, cx_ble_connected = False, cx_last_nodeinfo_tx = None,
     cx_last_position_tx = 0, cx_last_lora_telemetry = None, cx_last_neighborinfo_tx = None,
     cx_metrics = \<lparr>channel_util = 0, air_util_tx = 0\<rparr>, cx_reboot_after_secs = None,
     cx_shutdown_after_secs = None, cx_node_id_str = build_node_id_string 9, cx_boot_time = 0,
     cx_pkc_pub = [], cx_pkc_priv = [], cx_to_ble = [], cx_to_lora = [], cx_led = [], cx_disconn = [],
     cx_drawn = 0, cx_tx_enabled = True\<rparr>"

text \<open>A frame from node 5 to node 7 on a channel nobody here knows, with three hops to go.\<close>

definition strange_header :: packet_header where
  "strange_header = \<lparr>h_destination = 7, h_sender = 5, h_packet_id = 77, h_flags = make_flags False False 3 3,
     h_channel_index = 0, h_next_hop = 0, h_relay_node = 5\<rparr>"

definition strange_frame :: radio_frame where
  "strange_frame = frame_new\<lparr>fr_data := write_at 0 (encode strange_header) (fr_data frame_new), fr_len := 16\<rparr>"

definition example_meta :: radio_metadata where
  "example_meta = \<lparr>rm_rssi = 0, rm_snr = 0\<rparr>"

section \<open>Facts\<close>

lemma dead_storage_ok: "nvs_ok (nvs_new dead_flash [] 0)"
  by (simp add: nvs_new_def load_or_init_def dead_flash_def init_empty_def persist_header_def Let_def nvs_ok_def
      live_def const_defs cached_slot_default_def slot_ok_def)

lemma toy_device_ok: "device_ok toy_device"
  unfolding toy_device_def by (rule device_new_ok) simp

lemma example_ctx_ok: "ctx_ok example_ctx"
  by (simp add: ctx_ok_def example_ctx_def toy_device_ok dead_storage_ok passkey_ok_def const_defs)

lemma toy_device_num [simp]: "my_node_num toy_device = 9"
  by (simp add: toy_device_def device_new_def of_le32_def Let_def)

lemma strange_frame_header: "header strange_frame = Some strange_header"
  by (simp add: strange_frame_def header_def frame_new_def HEADER_SIZE_def hdr.dec_write_0 const_defs)

lemma strange_frame_ok: "frame_ok strange_frame"
  by (simp add: strange_frame_def frame_ok_def frame_new_def const_defs encode_def)

lemma decodes_strings_example: "decodes_strings example_host"
  by (simp add: decodes_strings_def example_host_def example_codec_def admin_strings_def)

end
