(* ===== verification/Direct_Messages.thy ===== *)
theory Direct_Messages
  imports Example_Node
begin

text \<open>
  From one node to another: what \<open>TxBuilder\<close> seals is what \<open>from_radio\<close> authenticates, a text is
  accepted as a direct message only under the pairwise key, and the live and the replay decoder agree
  on channel traffic.
\<close>

section \<open>The receiver, case by case\<close>

definition pkc_key :: "packet_header \<Rightarrow> bytes \<Rightarrow> device_state \<Rightarrow> node_db \<Rightarrow> bytes \<Rightarrow> bytes option" where
  "pkc_key hdr raw dev db priv =
     (if h_channel_index hdr = 0 \<and> h_destination hdr = my_node_num dev \<and> PKC_OVERHEAD < length raw
         \<and> (\<exists>b \<in> set priv. b \<noteq> 0)
      then Option.bind (get (h_sender hdr) db) n_pub_key else None)"

definition decoded_as :: "data_msg \<Rightarrow> u8 \<Rightarrow> decoded_payload" where
  "decoded_as d idx = \<lparr>dc_portnum = d_portnum d, dc_want_response = d_want_response d,
     dc_request_id = d_request_id d, dc_reply_id = d_reply_id d, dc_emoji = d_emoji d,
     dc_payload = d_payload d, dc_channel_index = idx\<rparr>"

definition heard_channel :: "packet_header \<Rightarrow> device_state \<Rightarrow> channel_config option" where
  "heard_channel hdr dev = find_by_hash (h_channel_index hdr) (display_name (modem_preset dev)) (channels dev)"

definition heard_index :: "packet_header \<Rightarrow> device_state \<Rightarrow> u8" where
  "heard_index hdr dev = (case heard_channel hdr dev of Some c \<Rightarrow> ch_index c | None \<Rightarrow> 0)"

lemma try_decrypt_cases:
  "try_decrypt_and_decode E frame hdr dev db priv =
     (let key = pkc_key hdr (payload frame) dev db priv;
          pkc = try_pkc E hdr (payload frame) priv key
      in case Option.bind (case pkc of Some p \<Rightarrow> Some p | None \<Rightarrow> try_psk E hdr (payload frame) (heard_channel hdr dev))
                (env_data_dec E) of
           None \<Rightarrow> final_undecoded_outcome (h_destination hdr = my_node_num dev) hdr key
         | Some d \<Rightarrow> if d_portnum d = TEXT_MESSAGE_APP \<and> h_destination hdr = my_node_num dev \<and> pkc = None then Drop
                     else Authentic (decoded_as d (heard_index hdr dev)))"
  unfolding try_decrypt_and_decode_def pkc_key_def heard_channel_def heard_index_def decoded_as_def Let_def
  by (rule refl)

text \<open>The decoder of stored frames is the channel attempt followed by the protobuf decoder.\<close>

lemma decode_psk_frame_try:
  assumes "header frame = Some hdr"
  shows "decode_psk_frame E frame dev =
    map_option (\<lambda>d. \<lparr>dp_portnum = d_portnum d, dp_payload = d_payload d, dp_channel_index = heard_index hdr dev,
        dp_reply_id = d_reply_id d, dp_emoji = d_emoji d\<rparr>)
      (Option.bind (try_psk E hdr (payload frame) (heard_channel hdr dev)) (env_data_dec E))"
  using assms
  by (simp add: decode_psk_frame_def try_psk_def heard_channel_def heard_index_def Let_def split: option.split)

section \<open>Properties\<close>

lemma sealed_authentic:
  assumes "tx_build E dev db pid (Some (priv, x)) b = Some f" and "prims_ok (env_pkc E)"
    and "tb_dest b = my_node_num dev2" and "Option.bind (get (tb_dest b) db) n_pub_key = Some (prim_public (env_pkc E) priv2)"
    and "Option.bind (get (my_node_num dev) db2) n_pub_key = Some (prim_public (env_pkc E) priv)"
    and "\<exists>v \<in> set priv2. v \<noteq> 0" and "data_roundtrips E (tx_data dev b)" and "env_data_enc E (tx_data dev b) \<noteq> []"
  obtains hdr where "header f = Some hdr" "hdr = tx_header dev db pid True b"
    "try_decrypt_and_decode E f hdr dev2 db2 priv2 = Authentic (decoded_as (tx_data dev b) (heard_index hdr dev2))"
proof -
  let ?h = "tx_header dev db pid True b"
  let ?d = "env_data_enc E (tx_data dev b)"
  from tx_seal [OF assms(1,2)] obtain pub where pub: "Option.bind (get (tb_dest b) db) n_pub_key = Some pub"
    and hdr: "header f = Some ?h" and len: "length (payload f) = length ?d + PKC_OVERHEAD"
    and fits: "HEADER_SIZE + length (payload f) \<le> MAX_LORA_PAYLOAD_LEN"
    and dec: "\<And>secret out. \<lbrakk>pub = prim_public (env_pkc E) secret; length ?d \<le> length out\<rbrakk> \<Longrightarrow>
       decrypt_pkc (env_pkc E) (derive_shared_key (env_pkc E) secret (prim_public (env_pkc E) priv)) pid
         (my_node_num dev) (payload f) out = Inr (length ?d, write_at 0 ?d out)"
    by metis
  have own: "pub = prim_public (env_pkc E) priv2" using pub assms(4) by simp
  have fields: "h_channel_index ?h = 0" "h_destination ?h = my_node_num dev2" "h_sender ?h = my_node_num dev"
    "h_packet_id ?h = pid"
    using assms(3) by (simp_all add: tx_header_def Let_def)
  have key: "pkc_key ?h (payload f) dev2 db2 priv2 = Some (prim_public (env_pkc E) priv)"
    using assms(3,5,6,8) len by (simp add: pkc_key_def fields)
  have small: "length ?d \<le> 227" using fits len by (simp add: const_defs)
  have "try_pkc E ?h (payload f) priv2 (Some (prim_public (env_pkc E) priv)) = Some ?d"
    using small dec [OF own, of "replicate (length ?d) 0"]
    by (simp add: try_pkc_def keypair_from_seed_def Let_def fields len write_at_def vec_extend_def)
  then show thesis
    using assms(7) by (intro that [OF hdr refl]) (simp add: try_decrypt_cases key Let_def data_roundtrips_def)
qed

text \<open>A direct message arrives.  When the sender holds the receiver's public key and the receiver the
  sender's, every frame built with the sender's key for that receiver is authenticated there and yields
  the port number, the payload and the request, reply and emoji fields that were sent.\<close>
lemma direct_message_delivered:
  assumes "tx_build E dev db pid (Some (priv, x)) b = Some f" and "prims_ok (env_pkc E)"
    and "tb_dest b = my_node_num dev2" and "Option.bind (get (tb_dest b) db) n_pub_key = Some (prim_public (env_pkc E) priv2)"
    and "Option.bind (get (my_node_num dev) db2) n_pub_key = Some (prim_public (env_pkc E) priv)"
    and "\<exists>v \<in> set priv2. v \<noteq> 0" and "data_roundtrips E (tx_data dev b)" and "env_data_enc E (tx_data dev b) \<noteq> []"
  shows "\<exists>hdr idx. header f = Some hdr \<and> try_decrypt_and_decode E f hdr dev2 db2 priv2 = Authentic
    \<lparr>dc_portnum = tb_portnum b, dc_want_response = tb_want_response b, dc_request_id = tb_request_id b,
     dc_reply_id = tb_reply_id b, dc_emoji = tb_emoji b, dc_payload = tb_inner_payload b, dc_channel_index = idx\<rparr>"
proof -
  have "d_want_response (tx_data dev b) = tb_want_response b"
    by (simp add: tx_data_def data_default_def Let_def)
  then show ?thesis using sealed_authentic [OF assms] by (auto simp: decoded_as_def)
qed

text \<open>C3: a text addressed to this node is accepted only under the pairwise key: if the decoder
  authenticates it, the sender's public key is stored, the payload opened under the key derived from it,
  and the message is what was sealed.\<close>
theorem direct_text_authentic:
  assumes "try_decrypt_and_decode E frame hdr dev db priv = Authentic d" and "dc_portnum d = TEXT_MESSAGE_APP"
    and "h_destination hdr = my_node_num dev"
  shows "\<exists>peer plain n out. Option.bind (get (h_sender hdr) db) n_pub_key = Some peer
    \<and> decrypt_pkc (env_pkc E) (derive_shared_key (env_pkc E) priv peer) (h_packet_id hdr) (h_sender hdr)
        (payload frame) (replicate (length (payload frame) - PKC_OVERHEAD) 0) = Inr (n, out)
    \<and> env_data_dec E (vec_extend 256 [] (take n out)) = Some plain \<and> d_payload plain = dc_payload d"
proof -
  let ?key = "pkc_key hdr (payload frame) dev db priv"
  obtain p where p: "try_pkc E hdr (payload frame) priv ?key = Some p"
    using assms by (auto simp: try_decrypt_cases Let_def final_undecoded_outcome_def decoded_as_def
        split: option.splits if_splits)
  then obtain peer where peer: "?key = Some peer" by (auto simp: try_pkc_def split: option.splits)
  then have "Option.bind (get (h_sender hdr) db) n_pub_key = Some peer" by (auto simp: pkc_key_def split: if_splits)
  moreover obtain n out where out: "decrypt_pkc (env_pkc E) (derive_shared_key (env_pkc E) priv peer) (h_packet_id hdr)
      (h_sender hdr) (payload frame) (replicate (length (payload frame) - PKC_OVERHEAD) 0) = Inr (n, out)"
    "p = vec_extend 256 [] (take n out)"
    using p peer by (auto simp: try_pkc_def Let_def keypair_from_seed_def split: if_splits sum.splits)
  moreover obtain plain where "env_data_dec E p = Some plain" "d_payload plain = dc_payload d"
    using assms(1) p by (auto simp: try_decrypt_cases Let_def final_undecoded_outcome_def decoded_as_def
        split: option.splits if_splits)
  ultimately show ?thesis by blast
qed

definition replay_of :: "decoded_payload \<Rightarrow> decoded_psk_frame" where
  "replay_of d = \<lparr>dp_portnum = dc_portnum d, dp_payload = dc_payload d, dp_channel_index = dc_channel_index d,
     dp_reply_id = dc_reply_id d, dp_emoji = dc_emoji d\<rparr>"

text \<open>The live decoder and the decoder of stored frames are equivalent on channel traffic.  For a frame
  that is no candidate for the pairwise key, what the live decoder authenticates is what the replay
  decodes, field by field; what the replay decodes was authenticated live, except a text addressed to
  this node, which the live decoder drops.\<close>
lemma psk_decoders_agree:
  assumes "header frame = Some hdr" and "h_channel_index hdr \<noteq> 0 \<or> h_destination hdr \<noteq> my_node_num dev"
  shows "(\<forall>d. try_decrypt_and_decode E frame hdr dev db priv = Authentic d
        \<longrightarrow> decode_psk_frame E frame dev = Some (replay_of d))
    \<and> (\<forall>t. decode_psk_frame E frame dev = Some t \<longrightarrow>
         (\<exists>d. try_decrypt_and_decode E frame hdr dev db priv = Authentic d \<and> t = replay_of d)
         \<or> dp_portnum t = TEXT_MESSAGE_APP \<and> h_destination hdr = my_node_num dev
           \<and> try_decrypt_and_decode E frame hdr dev db priv = Drop)"
proof -
  have "pkc_key hdr (payload frame) dev db priv = None" using assms(2) by (auto simp: pkc_key_def)
  then show ?thesis
    unfolding decode_psk_frame_try [OF assms(1)] try_decrypt_cases Let_def
    by (auto simp: try_pkc_def decoded_as_def replay_of_def final_undecoded_outcome_def split: option.split)
qed

section \<open>Witnesses\<close>

definition toy_peer_device :: device_state where
  "toy_peer_device = device_new [1, 2, 0, 0, 1, 5]"

lemma toy_nums [simp]: "my_node_num toy_peer_device = 0x0105" "tb_dest toy_text = 0x0105"
  by (simp_all add: toy_peer_device_def device_new_def of_le32_def Let_def toy_text_def)

lemma toy_public: "prim_public toy_prims [5] = [5]" "prim_public toy_prims [3] = [3]"
  by (simp_all add: toy_prims_def)

lemma toy_env_pkc: "env_pkc toy_env = toy_prims" by (simp add: toy_env_def)

definition toy_peers2 :: node_db where
  "toy_peers2 = update_pub_key 9 [3] (node_db_new 0x0105)"

lemma toy_peer_key2: "Option.bind (get 9 toy_peers2) n_pub_key = Some [3]"
  by (simp add: toy_peers2_def update_pub_key_def get_or_create_def node_db_new_def get_def modify_at_def
      mark_dirty_def node_stub_def vec_push_def const_defs)

lemma toy_encoded: "env_data_enc toy_env (tx_data toy_device toy_text) = [1, 0x68, 0x69]"
  by (simp add: toy_env_def toy_text_def tx_default_def portnum_defs tx_data_def data_default_def Let_def)

lemma toy_delivery:
  assumes "tx_build toy_env toy_device toy_peers 77 (Some ([3], 8)) toy_text = Some f"
  shows "prims_ok (env_pkc toy_env)" "tb_dest toy_text = my_node_num toy_peer_device"
    "Option.bind (get (tb_dest toy_text) toy_peers) n_pub_key = Some (prim_public (env_pkc toy_env) [5])"
    "Option.bind (get (my_node_num toy_device) toy_peers2) n_pub_key = Some (prim_public (env_pkc toy_env) [3])"
    "\<exists>v \<in> set [5 :: u8]. v \<noteq> 0" "data_roundtrips toy_env (tx_data toy_device toy_text)"
    "env_data_enc toy_env (tx_data toy_device toy_text) \<noteq> []"
  using toy_roundtrips
  by (simp_all add: toy_env_pkc toy_prims_ok toy_peer_key toy_peer_key2 toy_public toy_encoded)

lemma direct_text_authentic_witness:
  "\<exists>f hdr n out. tx_build toy_env toy_device toy_peers 77 (Some ([3], 8)) toy_text = Some f \<and> header f = Some hdr
     \<and> decrypt_pkc toy_prims (derive_shared_key toy_prims [5] [3]) 77 9 (payload f)
         (replicate (length (payload f) - PKC_OVERHEAD) 0) = Inr (n, out)"
proof -
  obtain f where f: "tx_build toy_env toy_device toy_peers 77 (Some ([3], 8)) toy_text = Some f"
    using toy_seal by blast
  from sealed_authentic [OF f toy_delivery [OF f]] obtain hdr where h: "header f = Some hdr"
    "hdr = tx_header toy_device toy_peers 77 True toy_text"
    "try_decrypt_and_decode toy_env f hdr toy_peer_device toy_peers2 [5]
      = Authentic (decoded_as (tx_data toy_device toy_text) (heard_index hdr toy_peer_device))" by metis
  have "dc_portnum (decoded_as (tx_data toy_device toy_text) (heard_index hdr toy_peer_device)) = TEXT_MESSAGE_APP"
    "h_destination hdr = my_node_num toy_peer_device" "h_sender hdr = 9" "h_packet_id hdr = 77"
    by (simp_all add: decoded_as_def toy_text_def h(2))
  with direct_text_authentic [OF h(3)] f h(1) show ?thesis
    by (auto simp: toy_peer_key2 toy_env_pkc)
qed

end
