(* ===== verification/Radio_Safety.thy ===== *)
theory Radio_Safety
  imports Example_Node
begin

text \<open>
  What frames heard on the radio can and cannot do to the node: unauthenticated frames, relays, and
  the delivery reports to the phone.
\<close>

section \<open>Lemmas\<close>

lemma hop_limit_le: "hop_limit h \<le> 7"
  by (simp add: hop_limit_def const_defs word_and_le1)

lemma dec_hop_limit:
  assumes "hop_limit h \<noteq> 0"
  shows "(hop_limit h - 1) AND 7 = hop_limit h - 1" and "unat (hop_limit h) = unat (hop_limit h - 1) + 1"
proof -
  have "unat (hop_limit h) \<le> 7" using hop_limit_le [of h] by (simp add: word_le_nat_alt)
  moreover have u: "unat (hop_limit h - 1) = unat (hop_limit h) - 1" using assms by (simp add: unat_minus_one)
  ultimately have "unat (hop_limit h - 1) < 2 ^ 3" by simp
  then have "unat (take_bit 3 (hop_limit h - 1)) = unat (hop_limit h - 1)"
    by (simp only: unsigned_take_bit_eq) (rule take_bit_nat_eq_self)
  then show "(hop_limit h - 1) AND 7 = hop_limit h - 1" by (simp add: and7_take word_unat_eq_iff)
  show "unat (hop_limit h) = unat (hop_limit h - 1) + 1"
    using u unat_gt_0 [of "hop_limit h"] assms by simp
qed

text \<open>A scheduled relay after a frame was handled is an old one, or the frame with one hop less.\<close>

definition relay_of :: "u32 \<Rightarrow> radio_frame \<Rightarrow> packet_header \<Rightarrow> radio_frame \<Rightarrow> bool" where
  "relay_of my frame hdr f \<longleftrightarrow> h_sender hdr \<noteq> my \<and> hop_limit hdr \<noteq> 0
     \<and> f = with_rewritten_header (hop_limit hdr - 1) (last_byte my) frame"

lemma schedule_pending:
  assumes "p \<in> set (cx_pending_rebroadcast (schedule_rebroadcast H now frame meta l c))"
  shows "p \<in> set (cx_pending_rebroadcast c)
    \<or> rb_frame p = with_rewritten_header l (last_byte (my_node_num (cx_device c))) frame"
  using assms schedule_rebroadcast_shape [of H now frame meta l c]
  by (auto dest!: subsetD [OF enqueue_rebroadcast_set])

lemma opaque_pending:
  assumes "p \<in> set (cx_pending_rebroadcast (maybe_relay_opaque H now frame hdr meta c))"
    and "h_sender hdr \<noteq> my_node_num (cx_device c)"
  shows "p \<in> set (cx_pending_rebroadcast c) \<or> relay_of (my_node_num (cx_device c)) frame hdr (rb_frame p)"
  using assms by (auto simp: maybe_relay_opaque_def relay_of_def split: if_splits prod.splits dest!: schedule_pending)

lemma relay_pending:
  assumes "p \<in> set (cx_pending_rebroadcast (relay H now frame hdr meta c))"
    and "h_sender hdr \<noteq> my_node_num (cx_device c)"
  shows "p \<in> set (cx_pending_rebroadcast c) \<or> relay_of (my_node_num (cx_device c)) frame hdr (rb_frame p)"
  using assms
  by (auto simp: relay_def relay_of_def should_rebroadcast_def split: if_splits option.splits dest!: schedule_pending)

lemma duplicate_pending:
  assumes "p \<in> set (cx_pending_rebroadcast (handle_duplicate result frame hdr c))"
    and "\<And>n. result = DuplicateUpgrade n \<Longrightarrow> n = hop_limit hdr - 1 \<and> hop_limit hdr \<noteq> 0"
    and "h_sender hdr \<noteq> my_node_num (cx_device c)"
  shows "p \<in> set (cx_pending_rebroadcast c) \<or> relay_of (my_node_num (cx_device c)) frame hdr (rb_frame p)"
  using assms
  by (auto simp: handle_duplicate_def relay_of_def split: filter_result.splits dest!: subsetD [OF set_update_first])

lemma dispatch_pending:
  assumes "ctx_ok c" and "p \<in> set (cx_pending_rebroadcast (from_radio_dispatch H now frame meta c))"
  shows "p \<in> set (cx_pending_rebroadcast c)
    \<or> (\<exists>hdr. header frame = Some hdr \<and> relay_of (my_node_num (cx_device c)) frame hdr (rb_frame p))"
proof (cases "header frame")
  case (Some hdr)
  let ?my = "my_node_num (cx_device c)"
  let ?f = "should_filter_received (h_sender hdr) (h_packet_id hdr) (hop_limit hdr) (h_relay_node hdr)
      (pending_hop_limit hdr (cx_pending_rebroadcast c)) (role (cx_device c)) (cx_router c)"
  obtain r res where f: "?f = (r, res)" by fastforce
  have "snd ?f = res" by (simp add: f)
  then have upgrade: "res = DuplicateUpgrade n \<Longrightarrow> n = hop_limit hdr - 1 \<and> hop_limit hdr \<noteq> 0" for n
    using assms(1) by (auto simp: filter_decision ctx_ok_def split: if_splits)
  let ?c = "\<lambda>d. deliver H now hdr d meta (buffer_text H frame (dc_portnum d)
      (introduce H now hdr (record_sender H now hdr meta (c\<lparr>cx_router := r\<rparr>))))"
  have "core (?c d) = core (c\<lparr>cx_router := r\<rparr>)" for d by simp
  from core_fields(2,3) [OF this] have
    core: "cx_pending_rebroadcast (?c d) = cx_pending_rebroadcast c" "my_node_num (cx_device (?c d)) = ?my" for d
    by simp_all
  have err: "core (send_nodeinfo H (h_sender hdr) False (if want_ack hdr
      then send_routing_error H (h_sender hdr) (h_packet_id hdr) PkiUnknownPubkey c else c)) = core c" by simp
  show ?thesis
    using assms(2) Some f core_fields(2) [OF err] core upgrade
    by (auto simp: from_radio_dispatch_def split: if_splits option.splits decrypt_outcome.splits filter_result.splits
        dest!: opaque_pending relay_pending duplicate_pending)
qed (use assms in \<open>simp add: from_radio_dispatch_def\<close>)

section \<open>Properties\<close>

text \<open>C4: every relay takes one hop from its frame.  Whatever arrives on the radio, each relay that is
  scheduled afterwards was scheduled before, or is the frame just heard from another node with a hop
  limit above zero: its hop limit is one less, the last relay is this node, and the sender, the packet
  id and the payload are as heard.  A frame therefore leaves at most seven relays in a row.\<close>
theorem relay_takes_a_hop:
  assumes "ctx_ok c" and "frame_ok frame"
    and "p \<in> set (cx_pending_rebroadcast (from_radio_dispatch H now frame meta c))"
    and "p \<notin> set (cx_pending_rebroadcast c)"
  shows "\<exists>h h'. header frame = Some h \<and> header (rb_frame p) = Some h' \<and> unat (hop_limit h) = unat (hop_limit h') + 1
    \<and> hop_start h' = hop_start h \<and> h_sender h' = h_sender h \<and> h_packet_id h' = h_packet_id h
    \<and> h_destination h' = h_destination h \<and> h_relay_node h' = last_byte (my_node_num (cx_device c))
    \<and> h_sender h \<noteq> my_node_num (cx_device c) \<and> payload (rb_frame p) = payload frame"
proof -
  from dispatch_pending [OF assms(1,3)] assms(4) obtain h where
    h: "header frame = Some h" "relay_of (my_node_num (cx_device c)) frame h (rb_frame p)" by blast
  then have f: "rb_frame p = with_rewritten_header (hop_limit h - 1) (last_byte (my_node_num (cx_device c))) frame"
    and ne: "hop_limit h \<noteq> 0" "h_sender h \<noteq> my_node_num (cx_device c)" by (simp_all add: relay_of_def)
  let ?h = "(set_hop_limit (hop_limit h - 1) h)\<lparr>h_relay_node := last_byte (my_node_num (cx_device c))\<rparr>"
  have hdr: "header (rb_frame p) = Some ?h" unfolding f by (rule header_rewritten [OF assms(2) h(1)])
  have "hop_limit (k\<lparr>h_relay_node := r\<rparr>) = hop_limit k" "hop_start (k\<lparr>h_relay_node := r\<rparr>) = hop_start k" for k r
    by (simp_all add: hop_limit_def hop_start_def)
  then have "hop_limit ?h = hop_limit h - 1" "hop_start ?h = hop_start h" by (simp_all add: dec_hop_limit(1) [OF ne(1)])
  moreover have "payload (rb_frame p) = payload frame" unfolding f by (rule with_rewritten_header_ok(3) [OF assms(2)])
  ultimately show ?thesis
    using h(1) hdr ne(2) dec_hop_limit(2) [OF ne(1)] by (simp add: set_hop_limit_def)
qed

text \<open>What one packet of this node's own changes: the packet number and the queue to the radio.\<close>

definition only_sends :: "nat \<Rightarrow> u32 \<Rightarrow> 'f ctx \<Rightarrow> 'f ctx \<Rightarrow> bool" where
  "only_sends n dest c c' \<longleftrightarrow>
     (\<exists>k fs. c' = c\<lparr>cx_device := (cx_device c)\<lparr>packet_id_counter := k\<rparr>, cx_to_lora := cx_to_lora c @ fs\<rparr> \<and> length fs \<le> n
        \<and> (\<forall>f \<in> set fs. \<exists>h. header f = Some h \<and> h_destination h = dest \<and> h_sender h = my_node_num (cx_device c)))"

lemma only_sends_refl: "only_sends n dest c c"
  unfolding only_sends_def by (rule exI [of _ "packet_id_counter (cx_device c)"], rule exI [of _ "[]"]) simp

lemma only_sends_trans:
  assumes "only_sends n dest c c1" and "only_sends k dest c1 c2"
  shows "only_sends (n + k) dest c c2"
proof -
  obtain i fs where 1: "c1 = c\<lparr>cx_device := (cx_device c)\<lparr>packet_id_counter := i\<rparr>, cx_to_lora := cx_to_lora c @ fs\<rparr>" "length fs \<le> n"
    "\<forall>f \<in> set fs. \<exists>h. header f = Some h \<and> h_destination h = dest \<and> h_sender h = my_node_num (cx_device c)"
    using assms(1) unfolding only_sends_def by blast
  obtain j gs where 2: "c2 = c1\<lparr>cx_device := (cx_device c1)\<lparr>packet_id_counter := j\<rparr>, cx_to_lora := cx_to_lora c1 @ gs\<rparr>" "length gs \<le> k"
    "\<forall>f \<in> set gs. \<exists>h. header f = Some h \<and> h_destination h = dest \<and> h_sender h = my_node_num (cx_device c1)"
    using assms(2) unfolding only_sends_def by blast
  have "c2 = c\<lparr>cx_device := (cx_device c)\<lparr>packet_id_counter := j\<rparr>, cx_to_lora := cx_to_lora c @ (fs @ gs)\<rparr>" by (simp add: 1(1) 2(1))
  moreover have "\<forall>f \<in> set (fs @ gs). \<exists>h. header f = Some h \<and> h_destination h = dest \<and> h_sender h = my_node_num (cx_device c)"
    using 1 2(3) by auto
  ultimately show ?thesis using 1(2) 2(2) unfolding only_sends_def by (metis add_mono length_append)
qed

lemma originate_only_sends: "only_sends 1 (tb_dest b) c (fst (originate H b c))"
proof -
  let ?dev = "(cx_device c)\<lparr>packet_id_counter := packet_id_counter (cx_device c) + 1\<rparr>"
  let ?f = "tx_build (h_env H) ?dev (cx_node_db c) (packet_id_counter (cx_device c) + 1) None b"
  let ?fs = "case ?f of Some f \<Rightarrow> [f] | None \<Rightarrow> []"
  have "fst (originate H b c) = c\<lparr>cx_device := ?dev, cx_to_lora := cx_to_lora c @ ?fs\<rparr>"
    by (simp add: originate_def ctx_packet_id_def next_packet_id_def queue_lora_def Let_def split: option.split)
  moreover have "\<exists>h. header f = Some h \<and> h_destination h = tb_dest b \<and> h_sender h = my_node_num (cx_device c)" if "?f = Some f" for f
    using that by (rule tx_build_SomeD) simp
  ultimately show ?thesis
    unfolding only_sends_def by (intro exI [of _ "packet_id_counter (cx_device c) + 1"] exI [of _ ?fs]) (simp split: option.split)
qed

lemma send_only_sends:
  "only_sends 1 dest c (send_routing_error H dest r e c)" "only_sends 1 dest c (send_nodeinfo H dest w c)"
proof -
  have o: "tb_dest b = dest \<Longrightarrow> only_sends 1 dest c (fst (originate H b c))" for b
    using originate_only_sends [of b c H] by simp
  show "only_sends 1 dest c (send_routing_error H dest r e c)" unfolding send_routing_error_def by (rule o) simp
  show "only_sends 1 dest c (send_nodeinfo H dest w c)"
    unfolding send_nodeinfo_def lora_send_def by (cases "tx_allowed_impolite (cx_metrics c) (ctx_region H c)")
      (simp_all only: not_True_eq_False not_False_eq_True if_True if_False fst_conv only_sends_refl, rule o, simp)
qed

text \<open>C6: an unauthenticated frame reaches next to nothing.  Take a frame from another node that does not authenticate:
  no key of this node decrypts it to a message, or it is a direct text under a channel key.  If it is for another
  node, it changes, at most, the ring of opaque packets, the relay queue and the random source: duplicate history,
  node table, routes, pending deliveries, phone queue, stored messages, settings and timers stay as they are.  If
  it is for this node, it changes nothing, with one exception: with channel hash 0 and no usable pairwise key (none
  is stored for the sender, this node has no key itself, or the payload is too short for one), at most two
  packets for the sender are queued for the radio, which the next packet number counts, and all else stays.\<close>
theorem unauthenticated_isolated:
  assumes "ctx_ok c" and "header frame = Some hdr" and "h_sender hdr \<noteq> my_node_num (cx_device c)"
    and "\<nexists>d. try_decrypt_and_decode (h_env H) frame hdr (cx_device c) (cx_node_db c) (cx_pkc_priv c) = Authentic d"
  shows "if h_destination hdr = my_node_num (cx_device c)
    then from_radio_dispatch H now frame meta c = c
      \<or> h_channel_index hdr = 0 \<and> only_sends 2 (h_sender hdr) c (from_radio_dispatch H now frame meta c)
        \<and> (Option.bind (get (h_sender hdr) (cx_node_db c)) n_pub_key = None \<or> set (cx_pkc_priv c) \<subseteq> {0}
          \<or> length (payload frame) \<le> PKC_OVERHEAD)
    else \<exists>r q n. from_radio_dispatch H now frame meta c
           = c\<lparr>cx_router := r, cx_pending_rebroadcast := q, cx_drawn := n\<rparr>
         \<and> seen r = seen (cx_router c) \<and> history r = history (cx_router c) \<and> router_ok r"
proof -
  let ?d = "from_radio_dispatch H now frame meta c" and ?us = "h_destination hdr = my_node_num (cx_device c)"
  let ?o = "try_decrypt_and_decode (h_env H) frame hdr (cx_device c) (cx_node_db c) (cx_pkc_priv c)"
  let ?P = "\<lambda>d. \<exists>r q n. d = c\<lparr>cx_router := r, cx_pending_rebroadcast := q, cx_drawn := n\<rparr>
    \<and> seen r = seen (cx_router c) \<and> history r = history (cx_router c) \<and> router_ok r"
  have unknown: "?us" "h_channel_index hdr = 0" "Option.bind (get (h_sender hdr) (cx_node_db c)) n_pub_key = None
      \<or> set (cx_pkc_priv c) \<subseteq> {0} \<or> length (payload frame) \<le> PKC_OVERHEAD" if "?o = UnknownPubkey"
    using that by (auto simp: try_decrypt_and_decode_def final_undecoded_outcome_def Let_def split: option.splits if_splits)
  have ok: "router_ok (cx_router c)" using assms(1) by (simp add: ctx_ok_def)
  have same: "?P c"
    by (rule exI [of _ "cx_router c"], rule exI [of _ "cx_pending_rebroadcast c"], rule exI [of _ "cx_drawn c"])
      (simp add: ok)
  obtain r b where r: "should_relay_opaque (h_sender hdr) (h_packet_id hdr) (hop_start hdr) (hop_limit hdr)
      (cx_router c) = (r, b)" by fastforce
  have ring: "seen r = seen (cx_router c)" "history r = history (cx_router c)" "router_ok r"
    using opaque_state(1,2,6) [OF ok, of "h_sender hdr" "h_packet_id hdr" "hop_start hdr" "hop_limit hdr"] r by simp_all
  have "?P (c\<lparr>cx_router := r\<rparr>)"
    by (rule exI [of _ r], rule exI [of _ "cx_pending_rebroadcast c"], rule exI [of _ "cx_drawn c"]) (simp add: ring)
  moreover have "?P (schedule_rebroadcast H now frame meta l (c\<lparr>cx_router := r\<rparr>))" for l
  proof -
    from schedule_rebroadcast_shape [of H now frame meta l "c\<lparr>cx_router := r\<rparr>"] obtain q n where
      "schedule_rebroadcast H now frame meta l (c\<lparr>cx_router := r\<rparr>)
        = c\<lparr>cx_router := r, cx_drawn := n, cx_pending_rebroadcast := q\<rparr>" by (auto simp: r)
    then show ?thesis using ring by (intro exI [of _ r] exI [of _ q] exI [of _ n]) (simp)
  qed
  ultimately have relayed: "?P (maybe_relay_opaque H now frame hdr meta c)"
    using same by (simp add: maybe_relay_opaque_def r)
  show ?thesis
  proof (cases ?o)
    case (Authentic d)
    then show ?thesis using assms(4) by blast
  next
    case UnknownPubkey
    let ?c = "if want_ack hdr then send_routing_error H (h_sender hdr) (h_packet_id hdr) PkiUnknownPubkey c else c"
    have d: "?d = send_nodeinfo H (h_sender hdr) False ?c"
      using assms(2,3) UnknownPubkey by (simp add: from_radio_dispatch_def)
    have "only_sends 1 (h_sender hdr) c ?c"
      by (cases "want_ack hdr") (simp_all only: if_True if_False send_only_sends(1) only_sends_refl)
    from only_sends_trans [OF this send_only_sends(2)] have "only_sends 2 (h_sender hdr) c ?d" unfolding d by (simp only: one_add_one)
    then show ?thesis using unknown [OF UnknownPubkey] by simp
  next
    case Drop
    then have "?d = (if ?us then c else maybe_relay_opaque H now frame hdr meta c)"
      using assms(2,3) by (simp add: from_radio_dispatch_def)
    then show ?thesis using relayed by simp
  qed
qed

text \<open>A routing message with a request id settles the delivery it names, whatever it says.  The first
  pending packet with that id is removed and the phone is told that it was delivered without error, also
  when the message carries an error: the decoded content is not looked at.\<close>
lemma routing_reply_reports_success:
  assumes "pc_routing_dec (h_codec H) (ip_payload pkt) = Some m" and "ip_request_id pkt \<noteq> 0"
    and "position (\<lambda>a. pp_packet_id a = ip_request_id pkt) (cx_pending_packets c) = Some i"
    and "pp_ble_notify (cx_pending_packets c ! i) = Some dest"
  shows "cx_pending_packets (routing_handle H pkt c) = swap_remove i (cx_pending_packets c)
    \<and> cx_to_ble (routing_handle H pkt c) = try_send BLE_TX_QUEUE_SIZE (cx_to_ble c)
        \<lparr>fm_data = encode_from_radio H (cx_from_radio_id c) (FrPacket (mesh_packet_default\<lparr>
           mp_from := my_node_num (cx_device c), mp_to := dest, mp_id := packet_id_counter (cx_device c) + 1,
           mp_payload := Some (Decoded (data_default\<lparr>d_portnum := ROUTING_APP,
             d_payload := pc_routing_enc (h_codec H) (ErrorReason NoError), d_request_id := ip_request_id pkt\<rparr>))\<rparr>)),
         fm_id = cx_from_radio_id c\<rparr>"
proof -
  have "pp_packet_id (cx_pending_packets c ! i) = ip_request_id pkt" using position_SomeD [OF assms(3)] by simp
  then show ?thesis
    using assms
    by (simp add: routing_handle_def clear_pending_def send_ble_routing_result_def ctx_packet_id_def
        next_packet_id_def push_from_radio_def push_with_def next_from_radio_id_def with_db_def Let_def)
qed

text \<open>An implicit acknowledgement silences the report.  When the node hears its own packet relayed, the
  pending delivery is dropped and nothing is sent to the phone; the acknowledgement of the addressee that
  arrives later finds nothing pending (packet ids being distinct), so the phone never learns the outcome.\<close>
lemma implicit_ack_unreported:
  assumes "header frame = Some h" and "h_sender h = my_node_num (cx_device c)"
    and "position (\<lambda>a. pp_packet_id a = h_packet_id h) (cx_pending_packets c) = Some i"
    and "distinct (map pp_packet_id (cx_pending_packets c))" and "ip_request_id pkt = h_packet_id h"
  shows "from_radio_dispatch H now frame meta c = c\<lparr>cx_pending_packets := swap_remove i (cx_pending_packets c)\<rparr>
    \<and> cx_to_ble (routing_handle H pkt (from_radio_dispatch H now frame meta c)) = cx_to_ble c"
proof -
  let ?q = "cx_pending_packets c"
  have d: "from_radio_dispatch H now frame meta c = c\<lparr>cx_pending_packets := swap_remove i ?q\<rparr>"
    using assms(1-3) by (simp add: from_radio_dispatch_def)
  note i = position_SomeD [OF assms(3)]
  have m: "image_mset pp_packet_id (add_mset (?q ! i) (mset (swap_remove i ?q))) = mset (map pp_packet_id ?q)"
    using i by (simp add: mset_swap_remove)
  have "distinct (map pp_packet_id (?q ! i # swap_remove i ?q))"
    using m mset_eq_imp_distinct_iff [of "map pp_packet_id (?q ! i # swap_remove i ?q)" "map pp_packet_id ?q"] assms(4)
    by simp
  then have "\<forall>a \<in> set (swap_remove i ?q). pp_packet_id a \<noteq> ip_request_id pkt"
    using i assms(5) by (force simp: image_iff)
  then have none: "position (\<lambda>a. pp_packet_id a = ip_request_id pkt) (swap_remove i ?q) = None" by simp
  show ?thesis
    by (simp add: d routing_handle_def clear_pending_def with_db_def none del: position_None split: option.split)
qed

section \<open>Witnesses\<close>

lemma strange_undecodable:
  "try_decrypt_and_decode (h_env example_host) strange_frame strange_header (cx_device example_ctx)
     (cx_node_db example_ctx) (cx_pkc_priv example_ctx) = Drop"
proof -
  have "payload strange_frame = []" by (simp add: payload_def strange_frame_def const_defs slice_def)
  moreover have "env_data_dec toy_env [] = None" by (simp add: toy_env_def)
  ultimately show ?thesis
    by (simp add: try_decrypt_and_decode_def try_pkc_def final_undecoded_outcome_def strange_header_def
        example_host_def example_ctx_def try_psk_def vec_extend_def Let_def split: option.split)
qed

lemma strange_scheduled:
  "\<exists>p \<in> set (cx_pending_rebroadcast (from_radio_dispatch example_host 0 strange_frame example_meta example_ctx)).
     p \<notin> set (cx_pending_rebroadcast example_ctx)"
proof -
  have limit: "hop_limit strange_header \<noteq> 0"
    using make_flags_fields(3) [of strange_header False False 3 3] by (simp add: strange_header_def)
  have role: "role toy_device = Client" by (simp add: toy_device_def device_new_def Let_def)
  have seen: "snd (should_relay_opaque s i st l (router_new 9))" for s i st l
    by (simp add: should_relay_opaque_def router_new_def Let_def)
  obtain r where r: "should_relay_opaque (h_sender strange_header) (h_packet_id strange_header)
      (hop_start strange_header) (hop_limit strange_header) (router_new 9) = (r, True)"
    using seen by (metis prod.collapse)
  have "from_radio_dispatch example_host 0 strange_frame example_meta example_ctx
      = schedule_rebroadcast example_host 0 strange_frame example_meta (hop_limit strange_header - 1)
          (example_ctx\<lparr>cx_router := r\<rparr>)"
    using strange_undecodable limit r role
    by (simp add: from_radio_dispatch_def strange_frame_header maybe_relay_opaque_def should_rebroadcast_for_role_def)
      (simp add: example_ctx_def strange_header_def)
  moreover have "cx_pending_rebroadcast example_ctx = []" by (simp add: example_ctx_def)
  moreover have "set (enqueue_rebroadcast e []) \<noteq> {}" for e
    using enqueue_rebroadcast_mem [of "[]" e] by (auto simp: const_defs)
  ultimately show ?thesis
    using schedule_rebroadcast_shape [of example_host 0 strange_frame example_meta "hop_limit strange_header - 1"
        "example_ctx\<lparr>cx_router := r\<rparr>"] by (auto simp: ex_in_conv)
qed

lemma relay_takes_a_hop_witness:
  "\<exists>p h'. p \<in> set (cx_pending_rebroadcast (from_radio_dispatch example_host 0 strange_frame example_meta example_ctx))
     \<and> header (rb_frame p) = Some h' \<and> h_packet_id h' = 77 \<and> h_relay_node h' = 9"
proof -
  from strange_scheduled obtain p where
    p: "p \<in> set (cx_pending_rebroadcast (from_radio_dispatch example_host 0 strange_frame example_meta example_ctx))"
    "p \<notin> set (cx_pending_rebroadcast example_ctx)" by blast
  from relay_takes_a_hop [OF example_ctx_ok strange_frame_ok p] p(1) show ?thesis
    by (auto simp: strange_frame_header strange_header_def example_ctx_def last_byte_def)
qed

lemma unauthenticated_isolated_witness:
  "\<exists>r q n. from_radio_dispatch example_host 0 strange_frame example_meta example_ctx
     = example_ctx\<lparr>cx_router := r, cx_pending_rebroadcast := q, cx_drawn := n\<rparr> \<and> seen r = seen (router_new 9)"
proof -
  have "h_sender strange_header \<noteq> my_node_num (cx_device example_ctx)"
    by (simp add: strange_header_def example_ctx_def)
  moreover have "\<nexists>d. try_decrypt_and_decode (h_env example_host) strange_frame strange_header (cx_device example_ctx)
      (cx_node_db example_ctx) (cx_pkc_priv example_ctx) = Authentic d" by (simp add: strange_undecodable)
  moreover have "h_destination strange_header \<noteq> my_node_num (cx_device example_ctx)" by (simp add: strange_header_def example_ctx_def)
  ultimately have "\<exists>r q n. from_radio_dispatch example_host 0 strange_frame example_meta example_ctx
     = example_ctx\<lparr>cx_router := r, cx_pending_rebroadcast := q, cx_drawn := n\<rparr> \<and> seen r = seen (cx_router example_ctx)"
    using unauthenticated_isolated [OF example_ctx_ok strange_frame_header, of example_host 0 example_meta] by auto
  then show ?thesis by (simp add: example_ctx_def)
qed

end
