(* ===== verification/From_App.thy ===== *)
theory From_App
  imports Direct_Messages
begin

text \<open>
  \<open>handlers/from_app\<close>: what the phone asks for over BLE.  It hands over packets for the mesh, downloads
  the configuration in two stages, keeps the link alive, and collects the stored messages.
\<close>

section \<open>Packets for the mesh\<close>

text \<open>Why a packet for the pairwise key is refused: silently, or with a report to the phone.\<close>

datatype refusal = Silent | Report routing_error

definition pkc_refusal :: "node_db \<Rightarrow> bytes \<Rightarrow> mesh_packet \<Rightarrow> i32 \<Rightarrow> refusal option" where
  "pkc_refusal db priv pkt portnum =
     (if \<not> portnum_allows_pkc portnum then Some Silent
      else if mp_to pkt = BROADCAST_ADDR \<or> mp_to pkt = 0 then Some Silent
      else if length (mp_public_key pkt) = 32
          \<and> (case Option.bind (get (mp_to pkt) db) n_pub_key of Some stored \<Rightarrow> stored \<noteq> mp_public_key pkt | None \<Rightarrow> False)
        then Some (Report PkiFailed)
      else if \<not> has_pub_key db (mp_to pkt) \<or> \<not> (\<exists>b \<in> set priv. b \<noteq> 0) then Some (Report PkiSendFailPublicKey)
      else None)"

definition ble_builder :: "mesh_packet \<Rightarrow> data_msg \<Rightarrow> u8 \<Rightarrow> bool \<Rightarrow> tx_builder" where
  "ble_builder pkt d channel_idx want =
     tx_default\<lparr>tb_dest := mp_to pkt, tb_portnum := d_portnum d, tb_inner_payload := d_payload d,
       tb_channel_idx := Some channel_idx, tb_want_ack := want, tb_request_id := d_request_id d,
       tb_reply_id := d_reply_id d, tb_emoji := d_emoji d,
       tb_hop_limit := Some (min (ucast (mp_hop_limit pkt)) MAX_HOP_LIMIT)\<rparr>"

text \<open>Sending the frame, tracking its acknowledgement when one is wanted.\<close>

definition send_tracked :: "'f host \<Rightarrow> instant \<Rightarrow> mesh_packet \<Rightarrow> u32 \<Rightarrow> bool \<Rightarrow> radio_frame \<Rightarrow> 'f ctx \<Rightarrow> 'f ctx" where
  "send_tracked H now pkt packet_id want frame c =
     (let ack_dest = (if mp_from pkt = 0 then my_node_num (cx_device c) else mp_from pkt)
      in if want \<and> mp_to pkt \<noteq> BROADCAST_ADDR then
           (let entry = \<lparr>pp_frame = frame, pp_packet_id = packet_id, pp_dest = mp_to pkt,
                  pp_sender = my_node_num (cx_device c), pp_deadline = now + WANT_ACK_TIMEOUT_MS,
                  pp_retries_left = of_nat NUM_RELIABLE_RETX, pp_is_our_packet = True, pp_ble_notify = Some ack_dest\<rparr>;
                c = (case vec_push PENDING_CAP (cx_pending_packets c) entry of
                       Some q \<Rightarrow> c\<lparr>cx_pending_packets := q\<rparr>
                     | None \<Rightarrow> send_ble_routing_ack H ack_dest (mp_id pkt) c)
            in queue_lora frame c)
         else send_ble_routing_ack H ack_dest (mp_id pkt) (queue_lora frame c))"

definition send_built :: "'f host \<Rightarrow> instant \<Rightarrow> mesh_packet \<Rightarrow> data_msg \<Rightarrow> u8 \<Rightarrow> bool \<Rightarrow> u32 \<Rightarrow> (bytes \<times> u32) option
    \<Rightarrow> 'f ctx \<Rightarrow> 'f ctx" where
  "send_built H now pkt d channel_idx want packet_id keys c =
     (case tx_build (h_env H) (cx_device c) (cx_node_db c) packet_id keys (ble_builder pkt d channel_idx want) of
        None \<Rightarrow> c
      | Some frame \<Rightarrow> send_tracked H now pkt packet_id want frame c)"

definition send_to_mesh :: "'f host \<Rightarrow> instant \<Rightarrow> mesh_packet \<Rightarrow> data_msg \<Rightarrow> 'f ctx \<Rightarrow> 'f ctx" where
  "send_to_mesh H now pkt d c =
     (let (c, packet_id) = (if mp_id pkt \<noteq> 0 then (c, mp_id pkt) else ctx_packet_id c);
          want = (mp_want_ack pkt \<or> d_portnum d = TEXT_MESSAGE_APP);
          wants_pkc = (mp_channel pkt = ucast PKC_CHANNEL_INDEX);
          channel_idx = (if wants_pkc then 0 else ucast (mp_channel pkt))
      in if of_nat MAX_CHANNELS \<le> channel_idx \<and> \<not> wants_pkc then c
         else
           (case (if wants_pkc then pkc_refusal (cx_node_db c) (cx_pkc_priv c) pkt (d_portnum d) else None) of
              Some Silent \<Rightarrow> c
            | Some (Report err) \<Rightarrow> send_ble_routing_result H (mp_to pkt) (mp_id pkt) err c
            | None \<Rightarrow>
                if wants_pkc then
                  (let (c, extra_nonce) = random_u32 H c
                   in send_built H now pkt d channel_idx want packet_id (Some (cx_pkc_priv c, extra_nonce)) c)
                else send_built H now pkt d channel_idx want packet_id None c))"

definition transmit_from_ble_packet :: "'f host \<Rightarrow> instant \<Rightarrow> mesh_packet \<Rightarrow> 'f ctx \<Rightarrow> 'f ctx" where
  "transmit_from_ble_packet H now pkt c =
     (case mp_payload pkt of
        Some (Decoded d) \<Rightarrow>
          if d_portnum d = ADMIN_APP
             \<and> (mp_to pkt = my_node_num (cx_device c) \<or> mp_to pkt = BROADCAST_ADDR \<or> mp_to pkt = 0) then
            (let c = admin_dispatch H now (mp_from pkt) (mp_id pkt) (d_payload d) False c
             in if mp_want_ack pkt then send_ble_routing_ack H (mp_from pkt) (mp_id pkt) c else c)
          else
            send_to_mesh H now pkt d
              (if d_portnum d = POSITION_APP
               then c\<lparr>cx_my_position_bytes := vec_extend POSITION_CAP [] (d_payload d)\<rparr> else c)
      | _ \<Rightarrow> c)"

section \<open>The configuration download\<close>

definition FIRMWARE_VERSION :: bytes where "FIRMWARE_VERSION = ascii ''2.8.0.0''"

definition own_node_info :: "'f ctx \<Rightarrow> node_info" where
  "own_node_info c =
     node_info_default\<lparr>nf_num := my_node_num (cx_device c),
       nf_user := Some (user_default\<lparr>u_id := cx_node_id_str c, u_long_name := long_name (cx_device c),
         u_short_name := short_name (cx_device c), u_hw_model := hw_model (cx_device c),
         u_public_key := cx_pkc_pub c\<rparr>), nf_is_favorite := True\<rparr>"

definition config_variants :: "env \<Rightarrow> 'f ctx \<Rightarrow> config_variant list" where
  "config_variants E c =
     [CfgDevice (role_num (role (cx_device c))), CfgPosition, CfgPower, CfgNetwork, CfgDisplay,
      CfgLora (build_lora_config E (cx_device c)), CfgBluetooth \<lparr>bt_enabled = True, bt_random_pin = True\<rparr>,
      CfgSecurity \<lparr>se_public_key = cx_pkc_pub c, se_private_key = cx_pkc_priv c\<rparr>, CfgSessionkey, CfgDeviceUi]"

definition module_variants :: "module_variant list" where
  "module_variants = [ModMqtt, ModSerial, ModExternalNotification, ModStoreForward, ModRangeTest, ModTelemetry,
     ModCannedMessage, ModAudio, ModRemoteHardware, ModNeighborInfo, ModAmbientLighting, ModDetectionSensor,
     ModPaxcounter, ModStatusmessage, ModTrafficManagement, ModTak, ModMeshBeacon]"

definition config_messages :: "env \<Rightarrow> u32 \<Rightarrow> 'f ctx \<Rightarrow> from_radio_variant list" where
  "config_messages E config_id c =
     [FrMyInfo \<lparr>my_num = my_node_num (cx_device c), my_nodedb_count = 1 + of_nat (length (db_nodes (cx_node_db c))),
        my_min_app_version = MIN_APP_VERSION\<rparr>,
      FrDeviceUiConfig, FrNodeInfo (own_node_info c),
      FrMetadata \<lparr>md_firmware_version = FIRMWARE_VERSION, md_device_state_version = DEVICE_STATE_VERSION,
        md_has_bluetooth = True, md_hw_model = hw_model (cx_device c), md_role = role_num (role (cx_device c))\<rparr>,
      FrRegionPresets]
     @ map (\<lambda>idx. FrChannel (channel_message (channels (cx_device c)) (of_nat idx))) [0..<8]
     @ map FrConfig (config_variants E c) @ map FrModuleConfig module_variants @ [FrConfigCompleteId config_id]"

definition send_config_exchange :: "'f host \<Rightarrow> u32 \<Rightarrow> 'f ctx \<Rightarrow> 'f ctx" where
  "send_config_exchange H config_id c = fold (push_from_radio H) (config_messages (h_env H) config_id c) c"

definition push_own_node_info :: "'f host \<Rightarrow> 'f ctx \<Rightarrow> 'f ctx" where
  "push_own_node_info H c = push_from_radio H (FrNodeInfo (own_node_info c)) c"

definition push_node_db :: "'f host \<Rightarrow> 'f ctx \<Rightarrow> 'f ctx" where
  "push_node_db H c =
     fold (\<lambda>num c. case get num (cx_node_db c) of
         Some e \<Rightarrow> push_with (\<lambda>fid. make_node_info_from_radio H fid e) c | None \<Rightarrow> c)
       (take CONFIG_EXCHANGE_MAX_NODES (map n_num (db_nodes (cx_node_db c)))) c"

definition send_nodeinfo_exchange :: "'f host \<Rightarrow> u32 \<Rightarrow> 'f ctx \<Rightarrow> 'f ctx" where
  "send_nodeinfo_exchange H config_id c =
     replay_satellite_db H (push_from_radio H (FrConfigCompleteId config_id) (push_node_db H (push_own_node_info H c)))"

section \<open>Stored messages\<close>

definition replay_args :: "packet_header \<Rightarrow> decoded_psk_frame \<Rightarrow> packet_forward_args" where
  "replay_args hdr t = \<lparr>fa_header = hdr, fa_channel_index = dp_channel_index t, fa_portnum = dp_portnum t,
     fa_payload = dp_payload t, fa_reply_id = dp_reply_id t, fa_emoji = dp_emoji t,
     fa_meta = \<lparr>rm_rssi = 0, rm_snr = 0\<rparr>\<rparr>"

definition replay_one :: "'f host \<Rightarrow> radio_frame \<Rightarrow> 'f ctx \<Rightarrow> 'f ctx" where
  "replay_one H frame c =
     (case header frame of
        None \<Rightarrow> c
      | Some hdr \<Rightarrow>
          (case decode_psk_frame (h_env H) frame (cx_device c) of
             None \<Rightarrow> c
           | Some t \<Rightarrow> push_with (\<lambda>fid. make_from_radio_packet H fid (replay_args hdr t)) c))"

lemma replay_one_storage [simp]: "cx_storage (replay_one H frame c) = cx_storage c"
  by (simp add: replay_one_def push_with_def split_beta split: option.split)

lemma peek_pop_count:
  "nvs_peek st = Inr (Some frame) \<Longrightarrow> nv_count (fst (nvs_pop F st)) < nv_count st"
  by (auto simp: nvs_peek_def nvs_pop_def persist_header_def persist_slot_def Let_def split: if_splits)

function replay_loop :: "'f host \<Rightarrow> 'f ctx \<Rightarrow> 'f ctx" where
  "replay_loop H c =
     (case nvs_peek (cx_storage c) of
        Inr (Some frame) \<Rightarrow>
          replay_loop H (replay_one H frame (c\<lparr>cx_storage := fst (nvs_pop (h_flash H) (cx_storage c))\<rparr>))
      | _ \<Rightarrow> c)"
  by pat_completeness auto
termination
  by (relation "measure (\<lambda>(H, c). nv_count (cx_storage c))") (auto simp: peek_pop_count)

declare replay_loop.simps [simp del]

definition replay_stored_frames :: "'f host \<Rightarrow> 'f ctx \<Rightarrow> 'f ctx" where
  "replay_stored_frames H c = (if nv_count (cx_storage c) = 0 then c else replay_loop H c)"

section \<open>Dispatch\<close>

definition heartbeat_reply :: "'f host \<Rightarrow> u32 \<Rightarrow> 'f ctx \<Rightarrow> 'f ctx" where
  "heartbeat_reply H nonce c =
     (if nonce = 1 then send_nodeinfo H BROADCAST_ADDR False c
      else push_from_radio H (FrQueueStatus \<lparr>qs_res = 0,
        qs_free = of_nat (LORA_TX_QUEUE_SIZE - length (cx_to_lora c)), qs_maxlen = of_nat LORA_TX_QUEUE_SIZE,
        qs_mesh_packet_id = 0\<rparr>) c)"

definition from_app_dispatch :: "'f host \<Rightarrow> instant \<Rightarrow> bytes \<Rightarrow> 'f ctx \<Rightarrow> 'f ctx" where
  "from_app_dispatch H now data c =
     (if data = [] then c
      else case pc_to_radio_dec (h_codec H) data of
        None \<Rightarrow> c
      | Some variant \<Rightarrow>
          (let c = (case variant of
                 Some (TrPacket pkt) \<Rightarrow> transmit_from_ble_packet H now pkt c
               | Some (TrWantConfigId n) \<Rightarrow>
                   replay_stored_frames H (if n = SPECIAL_NONCE_ONLY_NODES
                     then send_nodeinfo_exchange H n c else send_config_exchange H n c)
               | Some (TrHeartbeat nonce) \<Rightarrow> heartbeat_reply H nonce c
               | Some TrDisconnect \<Rightarrow> c\<lparr>cx_disconn := try_send 1 (cx_disconn c) ()\<rparr>
               | _ \<Rightarrow> c)
           in c\<lparr>cx_led := try_send LED_QUEUE_SIZE (cx_led c) DoubleBlink\<rparr>))"

section \<open>Every request keeps the state well-formed\<close>

lemma queue_lora_ok: "ctx_ok c \<Longrightarrow> frame_ok f \<Longrightarrow> ctx_ok (queue_lora f c)"
  and queue_lora_core [simp]: "core (queue_lora f c) = core c"
  by (simp_all add: queue_lora_def ctx_ok_def core_def)

lemma send_tracked_ok:
  assumes "ctx_ok c" and "frame_ok frame"
  shows "ctx_ok (send_tracked H now pkt pid want frame c)"
proof -
  have "vec_push PENDING_CAP (cx_pending_packets c) e = Some q \<Longrightarrow> frame_ok (pp_frame e)
      \<Longrightarrow> ctx_ok (c\<lparr>cx_pending_packets := q\<rparr>)" for e q
    using assms(1) by (intro ctx_ok_packets) (auto simp: vec_push_def ctx_ok_def split: if_splits)
  then show ?thesis
    using assms by (simp add: send_tracked_def Let_def queue_lora_ok split: option.split)
qed

lemma send_tracked_core [simp]: "core (send_tracked H now pkt pid want frame c) = core c"
  by (simp add: send_tracked_def Let_def split: option.split)

lemma random_u32_ok [simp]: "ctx_ok (fst (random_u32 H c)) = ctx_ok c" "core (fst (random_u32 H c)) = core c"
  "cx_device (fst (random_u32 H c)) = cx_device c" "cx_node_db (fst (random_u32 H c)) = cx_node_db c"
  "cx_to_lora (fst (random_u32 H c)) = cx_to_lora c"
  by (simp_all add: random_u32_def ctx_ok_def core_def)

lemma packet_id_choice:
  assumes "(if mp_id pkt \<noteq> 0 then (c, mp_id pkt) else ctx_packet_id c) = (c1, pid)"
  shows "ctx_ok c1 = ctx_ok c" "core c1 = core c" "cx_node_db c1 = cx_node_db c" "cx_to_lora c1 = cx_to_lora c"
    "cx_pkc_priv c1 = cx_pkc_priv c" "cx_to_ble c1 = cx_to_ble c"
  using assms ctx_packet_id_ok [of c c1 pid] by (auto simp: ctx_packet_id_def Let_def split: if_splits prod.splits)

lemma send_built_ok: "ctx_ok c \<Longrightarrow> ctx_ok (send_built H now pkt d i w pid k c)"
  and send_built_core [simp]: "core (send_built H now pkt d i w pid k c) = core c"
proof -
  have "tx_build E dev db n k b = Some f \<Longrightarrow> frame_ok f" for E dev db n k b f by (erule tx_build_SomeD) simp
  then show "ctx_ok c \<Longrightarrow> ctx_ok (send_built H now pkt d i w pid k c)"
    by (auto simp: send_built_def send_tracked_ok split: option.split)
qed (simp add: send_built_def split: option.split)

lemma refusal_cases:
  "\<lbrakk>P a; \<And>e. P (f e); P x; P y\<rbrakk>
    \<Longrightarrow> P (if q then a else case r of Some Silent \<Rightarrow> a | Some (Report e) \<Rightarrow> f e | None \<Rightarrow> if b then x else y)"
  by (simp split: option.split refusal.split)

lemma send_to_mesh_ok: "ctx_ok c \<Longrightarrow> ctx_ok (send_to_mesh H now pkt d c)"
  and send_to_mesh_core [simp]: "core (send_to_mesh H now pkt d c) = core c"
proof -
  obtain c1 pid where p: "(if mp_id pkt \<noteq> 0 then (c, mp_id pkt) else ctx_packet_id c) = (c1, pid)" by fastforce
  note p1 = packet_id_choice [OF p]
  obtain c2 x where r: "random_u32 H c1 = (c2, x)" by fastforce
  have c2: "ctx_ok c2 = ctx_ok c1" "core c2 = core c1" using random_u32_ok(1,2) [of H c1] r by simp_all
  have keeps: "\<lbrakk>P c1; \<And>e. P (send_ble_routing_result H (mp_to pkt) (mp_id pkt) e c1);
      \<And>i w k. P (send_built H now pkt d i w pid k c1); \<And>i w k. P (send_built H now pkt d i w pid k c2)\<rbrakk>
      \<Longrightarrow> P (send_to_mesh H now pkt d c)" for P
    unfolding send_to_mesh_def Let_def p prod.case r
    by (rule refusal_cases)
  show "ctx_ok c \<Longrightarrow> ctx_ok (send_to_mesh H now pkt d c)"
    by (rule keeps [where P = ctx_ok]) (simp_all add: p1(1) c2(1) send_built_ok)
  show "core (send_to_mesh H now pkt d c) = core c"
    by (rule keeps [where P = "\<lambda>x. core x = core c"]) (simp_all add: p1(2) c2(2))
qed

lemma transmit_ok: "ctx_ok c \<Longrightarrow> decodes_strings H \<Longrightarrow> ctx_ok (transmit_from_ble_packet H now pkt c)"
  and transmit_core [simp]: "core (transmit_from_ble_packet H now pkt c) = core c"
  by (auto simp: transmit_from_ble_packet_def Let_def admin_dispatch_ok send_to_mesh_ok ctx_ok_position length_vec_extend
      split: option.split packet_payload.split)

lemma exchange_ok [simp]:
  assumes "ctx_ok c"
  shows "ctx_ok (send_config_exchange H n c)" "ctx_ok (push_own_node_info H c)" "ctx_ok (push_node_db H c)"
    "ctx_ok (send_nodeinfo_exchange H n c)"
proof -
  have db: "ctx_ok c \<Longrightarrow> ctx_ok (push_node_db H c)" for c :: "'a ctx"
    unfolding push_node_db_def
    by (rule fold_keeps [where P = ctx_ok]) (auto simp: push_with_ok make_node_info_from_radio_def split: option.split)
  show "ctx_ok (send_config_exchange H n c)"
    unfolding send_config_exchange_def using assms by (rule fold_keeps [where P = ctx_ok]) simp
  show "ctx_ok (push_own_node_info H c)" "ctx_ok (push_node_db H c)" "ctx_ok (send_nodeinfo_exchange H n c)"
    using assms by (simp_all add: push_own_node_info_def send_nodeinfo_exchange_def db)
qed

lemma exchange_core [simp]:
  "core (send_config_exchange H n c) = core c" "core (push_own_node_info H c) = core c"
  "core (push_node_db H c) = core c" "core (send_nodeinfo_exchange H n c) = core c"
proof -
  have db: "core (push_node_db H c) = core c" for c :: "'a ctx"
    unfolding push_node_db_def by (rule fold_keeps [where P = "\<lambda>x. core x = core c"]) (auto split: option.split)
  show "core (send_config_exchange H n c) = core c"
    unfolding send_config_exchange_def by (rule fold_keeps [where P = "\<lambda>x. core x = core c"]) simp_all
  show "core (push_own_node_info H c) = core c" "core (push_node_db H c) = core c"
    "core (send_nodeinfo_exchange H n c) = core c"
    by (simp_all add: push_own_node_info_def send_nodeinfo_exchange_def db)
qed

lemma replay_one_ok: "ctx_ok c \<Longrightarrow> ctx_ok (replay_one H f c)"
  and replay_one_core [simp]: "core (replay_one H f c) = core c"
  by (simp_all add: replay_one_def push_with_ok make_from_radio_packet_def split: option.split)

lemma replay_loop_ok: "ctx_ok c \<Longrightarrow> ctx_ok (replay_loop H c)"
proof (induction H c rule: replay_loop.induct)
  case (1 H c)
  have ok: "nvs_ok (cx_storage c)" using "1.prems" by (simp add: ctx_ok_def)
  show ?case
  proof (cases rule: nvs_port.peek_cases [OF ok, where F = "h_flash H"])
    case (2 f)
    then have "ctx_ok (replay_one H f (c\<lparr>cx_storage := fst (nvs_pop (h_flash H) (cx_storage c))\<rparr>))"
      using "1.prems" by (intro replay_one_ok) (simp add: ctx_ok_def)
    with 1(1) [of "Some f" f] 2 show ?thesis by (subst replay_loop.simps) simp
  qed (use "1.prems" in \<open>subst replay_loop.simps, simp\<close>)
qed

lemma replay_loop_core [simp]: "core (replay_loop H c) = core c"
  by (induction H c rule: replay_loop.induct) (subst replay_loop.simps, simp split: sum.split option.split)

lemma replay_stored_ok: "ctx_ok c \<Longrightarrow> ctx_ok (replay_stored_frames H c)"
  and replay_stored_core [simp]: "core (replay_stored_frames H c) = core c"
  by (simp_all add: replay_stored_frames_def replay_loop_ok)

lemma heartbeat_ok: "ctx_ok c \<Longrightarrow> ctx_ok (heartbeat_reply H n c)"
  and heartbeat_core [simp]: "core (heartbeat_reply H n c) = core c"
  by (simp_all add: heartbeat_reply_def)

lemma ctx_ok_disconn: "ctx_ok c \<Longrightarrow> ctx_ok (c\<lparr>cx_disconn := try_send 1 (cx_disconn c) (),
    cx_led := try_send LED_QUEUE_SIZE (cx_led c) x\<rparr>)"
  by (simp add: ctx_ok_def length_try_send)

lemma from_app_dispatch_ok: "ctx_ok c \<Longrightarrow> decodes_strings H \<Longrightarrow> ctx_ok (from_app_dispatch H now data c)"
  by (auto simp: from_app_dispatch_def Let_def intro!: ctx_ok_led
      split: option.split to_radio.split simp: transmit_ok replay_stored_ok heartbeat_ok ctx_ok_disconn [unfolded One_nat_def])

text \<open>Only the disconnect flag of the relay machinery and the identity can change.\<close>

lemma from_app_dispatch_fields:
  "cx_router (from_app_dispatch H now data c) = cx_router c"
  "cx_pending_rebroadcast (from_app_dispatch H now data c) = cx_pending_rebroadcast c"
  "my_node_num (cx_device (from_app_dispatch H now data c)) = my_node_num (cx_device c)"
  "cx_ble_connected (from_app_dispatch H now data c) = cx_ble_connected c"
proof -
  let ?c = "\<lambda>x. (x :: 'a ctx)\<lparr>cx_disconn := []\<rparr>"
  have eq: "core x = core c \<Longrightarrow> core (?c x) = core (?c c)" for x by (simp add: core_def)
  have led: "core (?c (x\<lparr>cx_led := q\<rparr>)) = core (?c x)" for x q by (simp add: core_def)
  have dis: "core (?c (x\<lparr>cx_disconn := q\<rparr>)) = core (?c x)" for x q by (simp add: core_def)
  have "core (?c (from_app_dispatch H now data c)) = core (?c c)"
    by (auto simp: from_app_dispatch_def Let_def led dis intro!: eq split: option.split to_radio.split)
  from core_fields [OF this] show
    "cx_router (from_app_dispatch H now data c) = cx_router c"
    "cx_pending_rebroadcast (from_app_dispatch H now data c) = cx_pending_rebroadcast c"
    "my_node_num (cx_device (from_app_dispatch H now data c)) = my_node_num (cx_device c)"
    "cx_ble_connected (from_app_dispatch H now data c) = cx_ble_connected c"
    by simp_all
qed

end
