(* ===== verification/Phone_Link.thy ===== *)
theory Phone_Link
  imports From_App
begin

text \<open>
  What the phone can rely on: a direct message is never sent under a channel key, the configuration
  download ends with its completion message, and the messages stored while it was away follow it.
\<close>

section \<open>Queueing a batch of messages\<close>

text \<open>The ids of the next \<open>n\<close> messages, and the messages made with them.\<close>

fun ids_from :: "nat \<Rightarrow> u32 \<Rightarrow> u32 list" where
  "ids_from 0 fid = []"
| "ids_from (Suc n) fid = fid # ids_from n (fst (next_from_radio_id fid))"

definition messages :: "(u32 \<Rightarrow> bytes) list \<Rightarrow> u32 \<Rightarrow> from_radio_message list" where
  "messages mks fid = map2 (\<lambda>mk i. \<lparr>fm_data = mk i, fm_id = i\<rparr>) mks (ids_from (length mks) fid)"

lemma messages_simps [simp]:
  "messages [] fid = []"
  "messages (mk # mks) fid = \<lparr>fm_data = mk fid, fm_id = fid\<rparr> # messages mks (fst (next_from_radio_id fid))"
  by (simp_all add: messages_def)

lemma length_ids_from [simp]: "length (ids_from n fid) = n"
  by (induction n arbitrary: fid) simp_all

lemma length_messages [simp]: "length (messages mks fid) = length mks"
  by (simp add: messages_def)

lemma messages_append:
  "\<exists>fid'. messages (xs @ ys) fid = messages xs fid @ messages ys fid'"
  by (induction xs arbitrary: fid) auto

text \<open>What a batch leaves alone, and how much of it the queue takes.\<close>

definition ble_only :: "'f ctx \<Rightarrow> 'f ctx" where
  "ble_only c = c\<lparr>cx_from_radio_id := 0, cx_to_ble := []\<rparr>"

lemma ble_only_fields:
  assumes "ble_only c' = ble_only c"
  shows "cx_device c' = cx_device c" "cx_node_db c' = cx_node_db c" "cx_storage c' = cx_storage c"
    "cx_node_id_str c' = cx_node_id_str c" "cx_pkc_pub c' = cx_pkc_pub c" "cx_pkc_priv c' = cx_pkc_priv c"
    "cx_to_lora c' = cx_to_lora c"
proof -
  have "cx_device c' = cx_device (ble_only c')" "cx_node_db c' = cx_node_db (ble_only c')"
    "cx_storage c' = cx_storage (ble_only c')" "cx_node_id_str c' = cx_node_id_str (ble_only c')"
    "cx_pkc_pub c' = cx_pkc_pub (ble_only c')" "cx_pkc_priv c' = cx_pkc_priv (ble_only c')"
    "cx_to_lora c' = cx_to_lora (ble_only c')"
    by (simp_all add: ble_only_def)
  then show "cx_device c' = cx_device c" "cx_node_db c' = cx_node_db c" "cx_storage c' = cx_storage c"
    "cx_node_id_str c' = cx_node_id_str c" "cx_pkc_pub c' = cx_pkc_pub c" "cx_pkc_priv c' = cx_pkc_priv c"
    "cx_to_lora c' = cx_to_lora c"
    unfolding assms by (simp_all add: ble_only_def)
qed

lemma push_with_only [simp]: "ble_only (push_with mk c) = ble_only c"
  by (simp add: push_with_def ble_only_def split_beta)

lemma push_all:
  "ble_only (fold push_with mks c) = ble_only c
   \<and> cx_to_ble (fold push_with mks c)
     = cx_to_ble c @ take (BLE_TX_QUEUE_SIZE - length (cx_to_ble c)) (messages mks (cx_from_radio_id c))"
proof (induction mks arbitrary: c)
  case (Cons mk mks)
  have id: "cx_from_radio_id (push_with mk c) = fst (next_from_radio_id (cx_from_radio_id c))"
    "snd (next_from_radio_id (cx_from_radio_id c)) = cx_from_radio_id c"
    by (simp_all add: push_with_def next_from_radio_id_def)
  have q: "cx_to_ble (push_with mk c)
      = try_send BLE_TX_QUEUE_SIZE (cx_to_ble c) \<lparr>fm_data = mk (cx_from_radio_id c), fm_id = cx_from_radio_id c\<rparr>"
    by (simp add: push_with_def split_beta id(2))
  show ?case
  proof (cases "length (cx_to_ble c) < BLE_TX_QUEUE_SIZE")
    case True
    then have "BLE_TX_QUEUE_SIZE - length (cx_to_ble c) = Suc (BLE_TX_QUEUE_SIZE - Suc (length (cx_to_ble c)))" by simp
    then show ?thesis using True Cons.IH [of "push_with mk c"] by (simp add: id q try_send_def)
  qed (use Cons.IH [of "push_with mk c"] in \<open>simp add: q try_send_def\<close>)
qed simp

lemma push_all_room:
  assumes "length (cx_to_ble c) + length mks \<le> BLE_TX_QUEUE_SIZE"
  shows "cx_to_ble (fold push_with mks c) = cx_to_ble c @ messages mks (cx_from_radio_id c)"
  using push_all [of mks c] assms by simp

section \<open>The batches of the download\<close>

lemma config_exchange_batch:
  "send_config_exchange H n c = fold push_with (map (\<lambda>v fid. encode_from_radio H fid v) (config_messages (h_env H) n c)) c"
  by (simp add: send_config_exchange_def fold_map comp_def push_from_radio_def [abs_def])

lemma length_config_messages: "length (config_messages E n c) = 41"
  by (simp add: config_messages_def config_variants_def module_variants_def)

text \<open>The stored frames that decode, as message makers.\<close>

definition stored_message :: "'f host \<Rightarrow> device_state \<Rightarrow> radio_frame \<Rightarrow> (u32 \<Rightarrow> bytes) option" where
  "stored_message H dev frame =
     (case header frame of
        None \<Rightarrow> None
      | Some hdr \<Rightarrow> map_option (\<lambda>t fid. make_from_radio_packet H fid (replay_args hdr t)) (decode_psk_frame (h_env H) frame dev))"

definition stored_messages :: "'f host \<Rightarrow> device_state \<Rightarrow> radio_frame list \<Rightarrow> (u32 \<Rightarrow> bytes) list" where
  "stored_messages H dev fs = concat (map (\<lambda>f. case stored_message H dev f of Some mk \<Rightarrow> [mk] | None \<Rightarrow> []) fs)"

lemma stored_messages_simps [simp]:
  "stored_messages H dev [] = []"
  "stored_messages H dev (f # fs)
     = (case stored_message H dev f of Some mk \<Rightarrow> [mk] | None \<Rightarrow> []) @ stored_messages H dev fs"
  by (simp_all add: stored_messages_def)

lemma length_stored_messages: "length (stored_messages H dev fs) \<le> length fs"
  by (induction fs) (simp_all split: option.split)

lemma replay_one_push:
  "replay_one H frame c = (case stored_message H (cx_device c) frame of Some mk \<Rightarrow> push_with mk c | None \<Rightarrow> c)"
  by (simp add: replay_one_def stored_message_def split: option.split)

lemma push_all_storage:
  "cx_from_radio_id (fold push_with mks (cx_storage_update (\<lambda>_. st) c)) = cx_from_radio_id (fold push_with mks c)
   \<and> cx_to_ble (fold push_with mks (cx_storage_update (\<lambda>_. st) c)) = cx_to_ble (fold push_with mks c)"
proof (induction mks arbitrary: c)
  case (Cons mk mks)
  have "push_with mk (c\<lparr>cx_storage := st\<rparr>) = (push_with mk c)\<lparr>cx_storage := st\<rparr>"
    by (simp add: push_with_def split_beta)
  then show ?case using Cons.IH [of "push_with mk c"] by simp
qed simp

text \<open>The loop hands over every stored frame, oldest first, and leaves the store empty.\<close>

lemma replay_loop_spec:
  assumes "nvs_ok (cx_storage c)"
  shows "\<exists>fs. map as_bytes fs = frames (cx_storage c) \<and> frames (cx_storage (replay_loop H c)) = []
    \<and> cx_from_radio_id (replay_loop H c) = cx_from_radio_id (fold push_with (stored_messages H (cx_device c) fs) c)
    \<and> cx_to_ble (replay_loop H c) = cx_to_ble (fold push_with (stored_messages H (cx_device c) fs) c)"
  using assms
proof (induction H c rule: replay_loop.induct)
  case (1 H c)
  let ?pop = "fst (nvs_pop (h_flash H) (cx_storage c))"
  show ?case
  proof (cases rule: nvs_port.peek_cases [OF "1.prems", where F = "h_flash H"])
    case 1
    then show ?thesis by (intro exI [of _ "[]"]) (simp add: replay_loop.simps [of H c])
  next
    case (2 f)
    let ?c = "replay_one H f (c\<lparr>cx_storage := ?pop\<rparr>)"
    have step: "replay_loop H c = replay_loop H ?c" using 2(1) by (subst replay_loop.simps) simp
    have "nvs_ok (cx_storage ?c)" using 2(4) by simp
    from 1(1) [OF 2(1) refl this] obtain fs where
      fs: "map as_bytes fs = frames ?pop" "frames (cx_storage (replay_loop H ?c)) = []"
      "cx_from_radio_id (replay_loop H ?c) = cx_from_radio_id (fold push_with (stored_messages H (cx_device ?c) fs) ?c)"
      "cx_to_ble (replay_loop H ?c) = cx_to_ble (fold push_with (stored_messages H (cx_device ?c) fs) ?c)"
      by auto
    have dev: "cx_device ?c = cx_device c"
      by (simp add: replay_one_push push_with_def split_beta split: option.split)
    show ?thesis
      using fs [unfolded dev] 2(3) push_all_storage [of "stored_messages H (cx_device c) (f # fs)" ?pop c]
      by (intro exI [of _ "f # fs"], cases "stored_message H (cx_device c) f")
        (simp_all add: step replay_one_push)
  qed
qed

lemma replay_stored_spec:
  assumes "nvs_ok (cx_storage c)"
  obtains fs where "map as_bytes fs = frames (cx_storage c)" "frames (cx_storage (replay_stored_frames H c)) = []"
    "cx_to_ble (replay_stored_frames H c)
       = cx_to_ble c @ take (BLE_TX_QUEUE_SIZE - length (cx_to_ble c))
           (messages (stored_messages H (cx_device c) fs) (cx_from_radio_id c))"
proof (cases "nv_count (cx_storage c) = 0")
  case True
  then have "frames (cx_storage c) = []" by (simp add: frames_def live_def window_def)
  with True show thesis by (intro that [of "[]"]) (simp_all add: replay_stored_frames_def)
next
  case False
  from replay_loop_spec [OF assms, of H] obtain fs where
    fs: "map as_bytes fs = frames (cx_storage c)" "frames (cx_storage (replay_loop H c)) = []"
    "cx_to_ble (replay_loop H c) = cx_to_ble (fold push_with (stored_messages H (cx_device c) fs) c)" by blast
  with False push_all [of "stored_messages H (cx_device c) fs" c] show thesis
    by (intro that [of fs]) (simp_all add: replay_stored_frames_def)
qed

text \<open>The second stage: the node list.\<close>

lemma find_key: "distinct (map f xs) \<Longrightarrow> x \<in> set xs \<Longrightarrow> find (\<lambda>y. f y = f x) xs = Some x"
  by (induction xs) (auto simp: image_iff)

lemma get_self: "distinct (map n_num (db_nodes db)) \<Longrightarrow> e \<in> set (db_nodes db) \<Longrightarrow> get (n_num e) db = Some e"
  by (simp add: get_def find_key)

lemma push_node_db_batch:
  assumes "distinct (map n_num (db_nodes (cx_node_db c)))"
  shows "push_node_db H c = fold push_with
    (map (\<lambda>e fid. make_node_info_from_radio H fid e) (take CONFIG_EXCHANGE_MAX_NODES (db_nodes (cx_node_db c)))) c"
proof -
  have "fold (\<lambda>num c. case get num (cx_node_db c) of
         Some e \<Rightarrow> push_with (\<lambda>fid. make_node_info_from_radio H fid e) c | None \<Rightarrow> c) (map n_num es) x
      = fold push_with (map (\<lambda>e fid. make_node_info_from_radio H fid e) es) x"
    if "cx_node_db x = cx_node_db c" "set es \<subseteq> set (db_nodes (cx_node_db c))" for es and x :: "'a ctx"
    using that
  proof (induction es arbitrary: x)
    case (Cons e es)
    have "cx_node_db (push_with mk x) = cx_node_db c" for mk
      using Cons.prems(1) ble_only_fields(2) [OF push_with_only [of mk x]] by simp
    then show ?case using Cons get_self [OF assms, of e] by simp
  qed simp
  from this [of c "take CONFIG_EXCHANGE_MAX_NODES (db_nodes (cx_node_db c))"] show ?thesis
    by (simp add: push_node_db_def take_map set_take_subset)
qed

lemma satellites_append: "\<exists>rest. cx_to_ble (replay_satellite_db H c) = cx_to_ble c @ rest"
proof -
  have "\<exists>rest. cx_to_ble (fold (\<lambda>x. push_with (mk x)) xs c) = cx_to_ble c @ rest" for mk xs and c :: "'a ctx"
    using push_all [of "map mk xs" c] by (auto simp: fold_map comp_def)
  then have "\<exists>rest. cx_to_ble (fold (\<lambda>x. push_with (mk2 x)) ys (fold (\<lambda>x. push_with (mk1 x)) xs c)) = cx_to_ble c @ rest"
    for mk1 mk2 xs ys and c :: "'a ctx" by (metis append.assoc)
  then show ?thesis unfolding replay_satellite_db_def Let_def replay_fold .
qed

section \<open>Requests for the pairwise key\<close>

lemma report_lora [simp]:
  "cx_to_lora (send_ble_routing_result H dest rid err c) = cx_to_lora c"
  "cx_to_lora (send_ble_routing_ack H dest rid c) = cx_to_lora c"
proof -
  show "cx_to_lora (send_ble_routing_result H dest rid err c) = cx_to_lora c" for err
    by (simp add: send_ble_routing_result_def ctx_packet_id_def push_from_radio_def push_with_def split_beta Let_def)
  then show "cx_to_lora (send_ble_routing_ack H dest rid c) = cx_to_lora c" by (simp add: send_ble_routing_ack_def)
qed

lemma send_tracked_lora: "cx_to_lora (send_tracked H now pkt pid want f c) = cx_to_lora c @ [f]"
  by (simp add: send_tracked_def queue_lora_def Let_def split: option.split)

text \<open>A packet for the mesh under the pairwise key: refused, or built with the node's own secret.\<close>

lemma send_to_mesh_pkc:
  assumes "mp_channel pkt = ucast PKC_CHANNEL_INDEX"
  shows "case pkc_refusal (cx_node_db c) (cx_pkc_priv c) pkt (d_portnum d) of
      Some Silent \<Rightarrow> cx_to_lora (send_to_mesh H now pkt d c) = cx_to_lora c
    | Some (Report err) \<Rightarrow> \<exists>c1. send_to_mesh H now pkt d c = send_ble_routing_result H (mp_to pkt) (mp_id pkt) err c1
        \<and> cx_to_lora c1 = cx_to_lora c \<and> cx_to_ble c1 = cx_to_ble c
    | None \<Rightarrow> cx_to_lora (send_to_mesh H now pkt d c) = cx_to_lora c
        \<or> (\<exists>f dev pid x want. cx_to_lora (send_to_mesh H now pkt d c) = cx_to_lora c @ [f]
             \<and> my_node_num dev = my_node_num (cx_device c)
             \<and> tx_build (h_env H) dev (cx_node_db c) pid (Some (cx_pkc_priv c, x)) (ble_builder pkt d 0 want) = Some f)"
proof -
  obtain c1 pid where p: "(if mp_id pkt \<noteq> 0 then (c, mp_id pkt) else ctx_packet_id c) = (c1, pid)" by fastforce
  note p1 = packet_id_choice [OF p]
  have num: "my_node_num (cx_device c1) = my_node_num (cx_device c)" using core_fields(3) [OF p1(2)] .
  obtain c2 x where r: "random_u32 H c1 = (c2, x)" by fastforce
  then have c2: "cx_device c2 = cx_device c1" "cx_node_db c2 = cx_node_db c" "cx_pkc_priv c2 = cx_pkc_priv c"
    "cx_to_lora c2 = cx_to_lora c"
    using p1 by (auto simp: random_u32_def)
  let ?w = "mp_want_ack pkt \<or> d_portnum d = TEXT_MESSAGE_APP"
  have built: "cx_to_lora (send_built H now pkt d 0 ?w pid (Some (cx_pkc_priv c2, x)) c2) = cx_to_lora c
      \<or> (\<exists>f. cx_to_lora (send_built H now pkt d 0 ?w pid (Some (cx_pkc_priv c2, x)) c2) = cx_to_lora c @ [f]
           \<and> tx_build (h_env H) (cx_device c1) (cx_node_db c) pid (Some (cx_pkc_priv c, x)) (ble_builder pkt d 0 ?w) = Some f)"
    by (simp add: send_built_def c2 send_tracked_lora split: option.split)
  have eq: "send_to_mesh H now pkt d c =
     (case pkc_refusal (cx_node_db c) (cx_pkc_priv c) pkt (d_portnum d) of
        Some Silent \<Rightarrow> c1
      | Some (Report err) \<Rightarrow> send_ble_routing_result H (mp_to pkt) (mp_id pkt) err c1
      | None \<Rightarrow> send_built H now pkt d 0 ?w pid (Some (cx_pkc_priv c2, x)) c2)"
    using assms by (simp add: send_to_mesh_def p p1) (simp add: r Let_def split: option.split refusal.split)
  show ?thesis
  proof (cases "pkc_refusal (cx_node_db c) (cx_pkc_priv c) pkt (d_portnum d)")
    case None
    then show ?thesis using built num unfolding eq by auto
  next
    case (Some a)
    then show ?thesis using p1 unfolding eq by (cases a) auto
  qed
qed

lemma pkc_refusal_None:
  assumes "pkc_refusal db priv pkt n = None"
  shows "portnum_allows_pkc n" "mp_to pkt \<noteq> BROADCAST_ADDR" "mp_to pkt \<noteq> 0" "has_pub_key db (mp_to pkt)"
    "\<exists>b \<in> set priv. b \<noteq> 0"
  using assms by (auto simp: pkc_refusal_def split: if_splits)

lemma transmit_to_mesh:
  assumes "mp_payload pkt = Some (Decoded d)"
    and "d_portnum d \<noteq> ADMIN_APP \<or> mp_to pkt \<notin> {my_node_num (cx_device c), BROADCAST_ADDR, 0}"
  obtains c0 where "transmit_from_ble_packet H now pkt c = send_to_mesh H now pkt d c0"
    "cx_device c0 = cx_device c" "cx_node_db c0 = cx_node_db c" "cx_pkc_priv c0 = cx_pkc_priv c"
    "cx_to_lora c0 = cx_to_lora c" "cx_to_ble c0 = cx_to_ble c"
proof (rule that)
  let ?c = "if d_portnum d = POSITION_APP then c\<lparr>cx_my_position_bytes := vec_extend POSITION_CAP [] (d_payload d)\<rparr> else c"
  show "transmit_from_ble_packet H now pkt c = send_to_mesh H now pkt d ?c"
    using assms by (auto simp: transmit_from_ble_packet_def)
  show "cx_device ?c = cx_device c" "cx_node_db ?c = cx_node_db c" "cx_pkc_priv ?c = cx_pkc_priv c"
    "cx_to_lora ?c = cx_to_lora c" "cx_to_ble ?c = cx_to_ble c" by simp_all
qed

section \<open>Properties\<close>

lemma pkc_frame_sealed:
  assumes "tx_build E dev db pid (Some (priv, x)) (ble_builder pkt d 0 want) = Some f" and "prims_ok (env_pkc E)"
    and "mp_to pkt \<noteq> BROADCAST_ADDR"
  shows "\<exists>hdr pub. header f = Some hdr \<and> h_channel_index hdr = 0 \<and> h_destination hdr = mp_to pkt
    \<and> Option.bind (get (mp_to pkt) db) n_pub_key = Some pub
    \<and> (\<forall>secret. pub = prim_public (env_pkc E) secret \<longrightarrow> (\<exists>n out. decrypt_pkc (env_pkc E)
         (derive_shared_key (env_pkc E) secret (prim_public (env_pkc E) priv)) (h_packet_id hdr) (my_node_num dev) (payload f)
         (replicate (length (payload f)) 0) = Inr (n, out) \<and> n + PKC_OVERHEAD = length (payload f)))"
proof -
  let ?P = "env_pkc E" and ?b = "ble_builder pkt d 0 want"
  let ?d = "env_data_enc E (tx_data dev ?b)"
  from tx_seal [OF assms(1,2)] obtain pub where
    pub: "Option.bind (get (tb_dest ?b) db) n_pub_key = Some pub" and hdr: "header f = Some (tx_header dev db pid True ?b)"
    and len: "length (payload f) = length ?d + PKC_OVERHEAD"
    and open_pkc: "\<And>secret out. \<lbrakk>pub = prim_public ?P secret; length ?d \<le> length out\<rbrakk> \<Longrightarrow>
      decrypt_pkc ?P (derive_shared_key ?P secret (prim_public ?P priv)) pid (my_node_num dev) (payload f) out
      = Inr (length ?d, write_at 0 ?d out)" by metis
  have "tb_dest ?b = mp_to pkt" by (simp add: ble_builder_def)
  then show ?thesis
    using pub hdr len assms(3) open_pkc [where out = "replicate (length (payload f)) 0"]
    by (intro exI [of _ "tx_header dev db pid True ?b"] exI [of _ pub]) (auto simp: tx_header_def Let_def)
qed

text \<open>C9: a request for the pairwise key is never downgraded.  When the phone hands over a packet for the
  mesh on the channel index that asks for the pairwise key, either nothing is transmitted, or one frame
  marked with channel hash 0 that opens under the key shared with the addressee, whose public key is
  stored, and that is no broadcast; without a stored key, for a port that may use the pairwise key and an addressee
  that is neither the broadcast address nor 0, the phone is told so.\<close>
theorem pkc_request_never_downgraded:
  assumes "mp_payload pkt = Some (Decoded d)" and "mp_channel pkt = ucast PKC_CHANNEL_INDEX"
    and "d_portnum d \<noteq> ADMIN_APP \<or> mp_to pkt \<notin> {my_node_num (cx_device c), BROADCAST_ADDR, 0}"
    and "prims_ok (env_pkc (h_env H))"
  shows "(cx_to_lora (transmit_from_ble_packet H now pkt c) = cx_to_lora c
      \<or> (\<exists>f hdr pub. cx_to_lora (transmit_from_ble_packet H now pkt c) = cx_to_lora c @ [f] \<and> header f = Some hdr
           \<and> h_channel_index hdr = 0 \<and> h_destination hdr = mp_to pkt \<and> mp_to pkt \<noteq> BROADCAST_ADDR
           \<and> portnum_allows_pkc (d_portnum d) \<and> Option.bind (get (mp_to pkt) (cx_node_db c)) n_pub_key = Some pub
           \<and> (\<forall>secret. pub = prim_public (env_pkc (h_env H)) secret \<longrightarrow> (\<exists>n out. decrypt_pkc (env_pkc (h_env H))
                (derive_shared_key (env_pkc (h_env H)) secret (prim_public (env_pkc (h_env H)) (cx_pkc_priv c)))
                (h_packet_id hdr) (my_node_num (cx_device c)) (payload f) (replicate (length (payload f)) 0) = Inr (n, out)
                \<and> n + PKC_OVERHEAD = length (payload f)))))
    \<and> (Option.bind (get (mp_to pkt) (cx_node_db c)) n_pub_key = None \<and> portnum_allows_pkc (d_portnum d)
         \<and> mp_to pkt \<noteq> BROADCAST_ADDR \<and> mp_to pkt \<noteq> 0 \<longrightarrow>
       (\<exists>c1. transmit_from_ble_packet H now pkt c
            = send_ble_routing_result H (mp_to pkt) (mp_id pkt) PkiSendFailPublicKey c1 \<and> cx_to_ble c1 = cx_to_ble c))"
    (is "(?same \<or> ?sealed) \<and> ?told")
proof
  let ?P = "env_pkc (h_env H)"
  from transmit_to_mesh [OF assms(1,3), of H now] obtain c0 where
    c0: "transmit_from_ble_packet H now pkt c = send_to_mesh H now pkt d c0" "cx_device c0 = cx_device c"
    "cx_node_db c0 = cx_node_db c" "cx_pkc_priv c0 = cx_pkc_priv c" "cx_to_lora c0 = cx_to_lora c"
    "cx_to_ble c0 = cx_to_ble c" by metis
  note send = send_to_mesh_pkc [OF assms(2), where c = c0 and d = d and H = H and now = now, unfolded c0(2-6) c0(1) [symmetric]]
  show "?same \<or> ?sealed"
  proof (cases "pkc_refusal (cx_node_db c) (cx_pkc_priv c) pkt (d_portnum d)")
    case None
    note allowed = pkc_refusal_None [OF None]
    have "?sealed" if "\<not> ?same"
    proof -
      from send None that obtain f dev pid x want where
        f: "cx_to_lora (transmit_from_ble_packet H now pkt c) = cx_to_lora c @ [f]"
          "my_node_num dev = my_node_num (cx_device c)"
          "tx_build (h_env H) dev (cx_node_db c) pid (Some (cx_pkc_priv c, x)) (ble_builder pkt d 0 want) = Some f" by auto
      from pkc_frame_sealed [OF f(3) assms(4) allowed(2)] f(1,2) allowed(1,2) show ?thesis by auto
    qed
    then show ?thesis by blast
  next
    case (Some a)
    then show ?thesis using send by (cases a) auto
  qed
  show ?told
  proof
    assume a: "Option.bind (get (mp_to pkt) (cx_node_db c)) n_pub_key = None \<and> portnum_allows_pkc (d_portnum d)
         \<and> mp_to pkt \<noteq> BROADCAST_ADDR \<and> mp_to pkt \<noteq> 0"
    then have "pkc_refusal (cx_node_db c) (cx_pkc_priv c) pkt (d_portnum d) = Some (Report PkiSendFailPublicKey)"
      by (auto simp: pkc_refusal_def has_pub_key_def split: option.splits)
    with send show "\<exists>c1. transmit_from_ble_packet H now pkt c
            = send_ble_routing_result H (mp_to pkt) (mp_id pkt) PkiSendFailPublicKey c1 \<and> cx_to_ble c1 = cx_to_ble c"
      by auto
  qed
qed

text \<open>The configuration download completes.  When the phone asks for the configuration and at most
  thirteen messages are still waiting, it is sent, with consecutive ids and in this order, the 41
  messages of the exchange, the last one reporting completion, and then every stored message that
  decodes, oldest first; the store is empty afterwards.\<close>
lemma config_download_completes:
  assumes "ctx_ok c" and "data \<noteq> []" and "pc_to_radio_dec (h_codec H) data = Some (Some (TrWantConfigId n))"
    and "n \<noteq> SPECIAL_NONCE_ONLY_NODES" and "length (cx_to_ble c) \<le> 13"
  shows "\<exists>fs. map as_bytes fs = frames (cx_storage c)
    \<and> cx_to_ble (from_app_dispatch H now data c) = cx_to_ble c
        @ messages (map (\<lambda>v fid. encode_from_radio H fid v) (config_messages (h_env H) n c)
                    @ stored_messages H (cx_device c) fs) (cx_from_radio_id c)
    \<and> length (config_messages (h_env H) n c) = 41 \<and> last (config_messages (h_env H) n c) = FrConfigCompleteId n
    \<and> frames (cx_storage (from_app_dispatch H now data c)) = []"
proof -
  let ?mks = "map (\<lambda>v fid. encode_from_radio H fid v) (config_messages (h_env H) n c)"
  let ?c = "send_config_exchange H n c"
  have batch: "?c = fold push_with ?mks c" by (rule config_exchange_batch)
  note only = ble_only_fields [of ?c c, unfolded batch, OF conjunct1 [OF push_all]]
  have ok: "nvs_ok (cx_storage ?c)" using assms(1) only by (simp add: batch ctx_ok_def)
  from replay_loop_spec [OF ok, of H] replay_stored_spec [OF ok, of H] obtain fs where
    fs: "map as_bytes fs = frames (cx_storage ?c)" "frames (cx_storage (replay_stored_frames H ?c)) = []"
    "cx_to_ble (replay_stored_frames H ?c) = cx_to_ble (fold push_with (stored_messages H (cx_device ?c) fs) ?c)"
    using push_all by metis
  have "length fs = length (frames (cx_storage c))" using fs(1) only(3) by (metis batch length_map)
  moreover have "length (frames (cx_storage c)) \<le> MAX_BUFFERED_MESSAGES"
    using assms(1) by (intro nvs_port.view_cap) (simp add: ctx_ok_def)
  ultimately have "length (stored_messages H (cx_device c) fs) \<le> 10"
    using length_stored_messages [of H "cx_device c" fs] by (simp add: const_defs)
  then have "cx_to_ble (fold push_with (?mks @ stored_messages H (cx_device c) fs) c)
      = cx_to_ble c @ messages (?mks @ stored_messages H (cx_device c) fs) (cx_from_radio_id c)"
    using assms(5) by (intro push_all_room) (simp add: length_config_messages const_defs)
  then have "cx_to_ble (replay_stored_frames H ?c)
      = cx_to_ble c @ messages (?mks @ stored_messages H (cx_device c) fs) (cx_from_radio_id c)"
    using fs(3) only(1) by (simp add: batch)
  moreover have "last (config_messages (h_env H) n c) = FrConfigCompleteId n" by (simp add: config_messages_def)
  ultimately show ?thesis
    using assms fs(1,2) only(3)
    by (intro exI [of _ fs]) (simp add: from_app_dispatch_def length_config_messages batch Let_def)
qed

text \<open>The node list completes before anything else is sent.  In the second stage of the download, with
  at most 52 messages waiting, the phone is sent the node's own entry, the first ten entries of the node
  table and the completion message; positions, telemetry and stored messages come after it.\<close>
lemma node_download_completes:
  assumes "ctx_ok c" and "data \<noteq> []"
    and "pc_to_radio_dec (h_codec H) data = Some (Some (TrWantConfigId SPECIAL_NONCE_ONLY_NODES))"
    and "length (cx_to_ble c) \<le> 52"
  shows "\<exists>rest. cx_to_ble (from_app_dispatch H now data c) = cx_to_ble c
    @ messages ((\<lambda>fid. encode_from_radio H fid (FrNodeInfo (own_node_info c)))
        # map (\<lambda>e fid. make_node_info_from_radio H fid e) (take CONFIG_EXCHANGE_MAX_NODES (db_nodes (cx_node_db c)))
        @ [\<lambda>fid. encode_from_radio H fid (FrConfigCompleteId SPECIAL_NONCE_ONLY_NODES)]) (cx_from_radio_id c) @ rest"
proof -
  let ?own = "\<lambda>fid. encode_from_radio H fid (FrNodeInfo (own_node_info c))"
  let ?done = "\<lambda>fid. encode_from_radio H fid (FrConfigCompleteId SPECIAL_NONCE_ONLY_NODES)"
  let ?nodes = "map (\<lambda>e fid. make_node_info_from_radio H fid e) (take CONFIG_EXCHANGE_MAX_NODES (db_nodes (cx_node_db c)))"
  have own: "push_own_node_info H c = push_with ?own c" by (simp add: push_own_node_info_def push_from_radio_def)
  have db: "cx_node_db (push_with ?own c) = cx_node_db c" by (rule ble_only_fields(2)) simp
  then have "distinct (map n_num (db_nodes (cx_node_db (push_with ?own c))))"
    using assms(1) by (simp add: ctx_ok_def db_ok_def)
  from push_node_db_batch [OF this, of H] have
    "push_from_radio H (FrConfigCompleteId SPECIAL_NONCE_ONLY_NODES) (push_node_db H (push_own_node_info H c))
      = fold push_with (?own # ?nodes @ [?done]) c"
    by (simp add: own db push_from_radio_def)
  moreover have "cx_to_ble (fold push_with (?own # ?nodes @ [?done]) c)
      = cx_to_ble c @ messages (?own # ?nodes @ [?done]) (cx_from_radio_id c)"
    using assms(4) by (intro push_all_room) (auto simp: const_defs)
  ultimately obtain rest where
    "cx_to_ble (send_nodeinfo_exchange H SPECIAL_NONCE_ONLY_NODES c)
      = cx_to_ble c @ messages (?own # ?nodes @ [?done]) (cx_from_radio_id c) @ rest"
    using satellites_append unfolding send_nodeinfo_exchange_def by (metis append.assoc)
  moreover have "nvs_ok (cx_storage (send_nodeinfo_exchange H SPECIAL_NONCE_ONLY_NODES c))"
    using exchange_ok(4) [OF assms(1), of H SPECIAL_NONCE_ONLY_NODES] by (simp add: ctx_ok_def)
  then obtain more where "cx_to_ble (replay_stored_frames H (send_nodeinfo_exchange H SPECIAL_NONCE_ONLY_NODES c))
      = cx_to_ble (send_nodeinfo_exchange H SPECIAL_NONCE_ONLY_NODES c) @ more"
    by (metis replay_stored_spec [of "send_nodeinfo_exchange H SPECIAL_NONCE_ONLY_NODES c" H])
  ultimately show ?thesis using assms(2,3) by (simp add: from_app_dispatch_def Let_def)
qed

text \<open>A stored message is given up even when it cannot be queued.  The replay empties the store whatever
  room the phone's queue has; of the messages it decodes only as many as fit are queued, and with a full
  queue all stored messages are lost.\<close>
lemma replay_overflow_loses:
  assumes "ctx_ok c"
  shows "frames (cx_storage (replay_stored_frames H c)) = []
    \<and> length (cx_to_ble (replay_stored_frames H c)) \<le> max BLE_TX_QUEUE_SIZE (length (cx_to_ble c))
    \<and> (BLE_TX_QUEUE_SIZE \<le> length (cx_to_ble c) \<longrightarrow> cx_to_ble (replay_stored_frames H c) = cx_to_ble c)"
proof -
  have "nvs_ok (cx_storage c)" using assms by (simp add: ctx_ok_def)
  from replay_stored_spec [OF this, of H] obtain fs where
    "frames (cx_storage (replay_stored_frames H c)) = []"
    "cx_to_ble (replay_stored_frames H c) = cx_to_ble c @ take (BLE_TX_QUEUE_SIZE - length (cx_to_ble c))
           (messages (stored_messages H (cx_device c) fs) (cx_from_radio_id c))" by blast
  then show ?thesis by (auto simp: max_def)
qed

text \<open>A direct message that arrives while the phone is away is lost.  It is authenticated under the
  pairwise key and put into the store, but the decoder used for the replay knows the channel keys only:
  when no channel hashes to 0 and the ciphertext is not itself a message, nothing is sent for it.\<close>
lemma offline_direct_message_lost:
  assumes "ctx_ok c" and "frame_ok frame" and "header frame = Some hdr" and "\<not> cx_ble_connected c"
    and "try_decrypt_and_decode (h_env H) frame hdr (cx_device c) (cx_node_db c) (cx_pkc_priv c) = Authentic d"
    and "dc_portnum d = TEXT_MESSAGE_APP" and "h_destination hdr = my_node_num (cx_device c)"
    and "find_by_hash 0 (display_name (modem_preset (cx_device c))) (channels (cx_device c)) = None"
    and "env_data_dec (h_env H) (vec_extend 256 [] (payload frame)) = None"
  shows "frames (cx_storage (buffer_text H frame (dc_portnum d) c))
      = fifo_push MAX_BUFFERED_MESSAGES (frames (cx_storage c)) (as_bytes frame)
    \<and> replay_one H frame (buffer_text H frame (dc_portnum d) c) = buffer_text H frame (dc_portnum d) c"
proof -
  have hash: "h_channel_index hdr = 0"
  proof (rule ccontr)
    assume "h_channel_index hdr \<noteq> 0"
    then have "pkc_key hdr (payload frame) (cx_device c) (cx_node_db c) (cx_pkc_priv c) = None" by (simp add: pkc_key_def)
    then show False
      using assms(5-7) by (auto simp: try_decrypt_cases Let_def try_pkc_def decoded_as_def final_undecoded_outcome_def
          split: option.splits if_splits)
  qed
  have "cx_device (buffer_text H frame (dc_portnum d) c) = cx_device c" by (simp add: buffer_text_def)
  moreover have "decode_psk_frame (h_env H) frame (cx_device c) = None"
    using assms(8,9) by (simp add: decode_psk_frame_try [OF assms(3)] heard_channel_def hash try_psk_def)
  ultimately have "replay_one H frame (buffer_text H frame (dc_portnum d) c) = buffer_text H frame (dc_portnum d) c"
    by (simp add: replay_one_def assms(3))
  moreover have "nvs_ok (cx_storage c)" using assms(1) by (simp add: ctx_ok_def)
  ultimately show ?thesis
    using assms(2,4,6) by (simp add: buffer_text_def nvs_port.view_add)
qed

section \<open>Witnesses\<close>

definition keyless_request :: mesh_packet where
  "keyless_request = mesh_packet_default\<lparr>mp_to := 0x0105, mp_id := 5, mp_channel := ucast PKC_CHANNEL_INDEX,
     mp_payload := Some (Decoded (data_default\<lparr>d_portnum := TEXT_MESSAGE_APP, d_payload := [0x68]\<rparr>))\<rparr>"

lemma pkc_request_never_downgraded_witness:
  "\<exists>c1. transmit_from_ble_packet example_host 0 keyless_request example_ctx
     = send_ble_routing_result example_host 0x0105 5 PkiSendFailPublicKey c1 \<and> cx_to_ble c1 = []"
proof -
  have "prims_ok (env_pkc (h_env example_host))" by (simp add: example_host_def toy_env_pkc toy_prims_ok)
  moreover have "Option.bind (get 0x0105 (cx_node_db example_ctx)) n_pub_key = None"
    by (simp add: example_ctx_def node_db_new_def get_def)
  moreover have "portnum_allows_pkc TEXT_MESSAGE_APP" by (simp add: portnum_allows_pkc_def portnum_defs)
  moreover have "(0x0105 :: u32) \<noteq> BROADCAST_ADDR" by (simp add: const_defs)
  moreover have "TEXT_MESSAGE_APP \<noteq> ADMIN_APP" by (simp add: portnum_defs)
  moreover have "cx_to_ble example_ctx = []" by (simp add: example_ctx_def)
  ultimately show ?thesis
    using pkc_request_never_downgraded [of keyless_request
        "data_default\<lparr>d_portnum := TEXT_MESSAGE_APP, d_payload := [0x68]\<rparr>" example_ctx example_host 0]
    by (simp add: keyless_request_def mesh_packet_default_def)
qed

lemma example_empty: "frames (cx_storage example_ctx) = []" "cx_to_ble example_ctx = []"
  by (simp_all add: example_ctx_def nvs_new_def load_or_init_def dead_flash_def init_empty_def persist_header_def
      Let_def frames_def live_def window_def)

text \<open>A receiver whose protobuf decoder takes messages of three bytes only.\<close>

definition strict_env :: env where
  "strict_env = toy_env\<lparr>env_data_dec := (\<lambda>bs. if length bs = 3 then env_data_dec toy_env bs else None)\<rparr>"

lemma strict_seal:
  "\<exists>f. tx_build strict_env toy_device toy_peers 77 (Some ([3], 8)) toy_text = Some f"
proof -
  have E: "env_pkc strict_env = env_pkc toy_env" "env_data_enc strict_env = env_data_enc toy_env"
    "env_keystream strict_env = env_keystream toy_env" by (simp_all add: strict_env_def)
  have "tx_build strict_env toy_device toy_peers 77 (Some ([3], 8)) toy_text
      = tx_build toy_env toy_device toy_peers 77 (Some ([3], 8)) toy_text"
    unfolding tx_build_def tx_encrypt_def E by (rule refl)
  with toy_seal show ?thesis by simp
qed

end
