(* ===== verification/Ble_Link.thy ===== *)
theory Ble_Link
  imports Phone_Link Nvs_Flash Layout
begin

text \<open>
  \<open>boards/esp32/src/tasks/ble_task.rs\<close>: the GATT server between the phone and the queues.  The BLE
  library is not modelled; what it reports are the events.  The state is what the connection loop
  keeps (the one-message read buffer, the bond) with the two queues it shares with the mesh task, and,
  as a record of what happened, the replies to reads of \<open>FromRadio\<close> and the notifications sent.
\<close>

section \<open>Bond information\<close>

datatype security_level = NoEncryption | Encrypted_Link | EncryptedAuthenticated

text \<open>The identity-resolving key is a type of the library with its own byte conversions.\<close>

record 'k bond_info =
  bi_random :: bool
  bi_addr :: bytes
  bi_irk :: "'k option"
  bi_ltk :: "128 word"
  bi_level :: security_level
  bi_bonded :: bool

record 'k irk_codec =
  irk_to_le :: "'k \<Rightarrow> bytes"
  irk_from_le :: "bytes \<Rightarrow> 'k option"

definition le128 :: "128 word \<Rightarrow> bytes" where
  "le128 w = le64 (ucast w) @ le64 (ucast (drop_bit 64 w))"

definition of_le128 :: "bytes \<Rightarrow> 128 word" where
  "of_le128 bs = ucast (of_le64 (take 8 bs)) OR push_bit 64 (ucast (of_le64 (drop 8 bs)))"

definition serialize_bond :: "'k irk_codec \<Rightarrow> 'k bond_info \<Rightarrow> bytes" where
  "serialize_bond K info =
     writes ([(5, bi_addr info)]
       @ (case bi_irk info of Some irk \<Rightarrow> [(11, [1]), (12, irk_to_le K irk)] | None \<Rightarrow> [])
       @ [(28, le128 (bi_ltk info)),
          (44, [case bi_level info of NoEncryption \<Rightarrow> 0 | Encrypted_Link \<Rightarrow> 1 | EncryptedAuthenticated \<Rightarrow> 2]),
          (45, [if bi_bonded info then 1 else 0])])
       (init_bond_header (replicate BOND_SIZE 0))"

definition deserialize_bond :: "'k irk_codec \<Rightarrow> bytes \<Rightarrow> 'k bond_info option" where
  "deserialize_bond K b =
     (if \<not> bond_magic_valid b then None
      else Some \<lparr>bi_random = True, bi_addr = slice 5 11 b,
        bi_irk = (if b ! 11 \<noteq> 0 then irk_from_le K (slice 12 28 b) else None),
        bi_ltk = of_le128 (slice 28 44 b),
        bi_level = (if b ! 44 = 1 then Encrypted_Link else if b ! 44 = 2 then EncryptedAuthenticated else NoEncryption),
        bi_bonded = (b ! 45 \<noteq> 0)\<rparr>)"

section \<open>A connection\<close>

definition FROM_RADIO_CHAR_SIZE :: nat where [const_defs]: "FROM_RADIO_CHAR_SIZE = 512"

record ble_link =
  bl_queue :: "from_radio_message list"
  bl_mesh_in :: "mesh_event list"
  bl_has_data :: bool
  bl_buf :: bytes
  bl_len :: nat
  bl_from_num :: u32
  bl_bond :: "bytes option"
  bl_clear_pending :: bool
  bl_open :: bool
  bl_replies :: "bytes list"
  bl_notified :: "bytes list"

text \<open>What the loop waits for.  \<open>Next_Message\<close> is the queue's turn in the select, which the loop only
  takes when the phone has subscribed and has read the message before.\<close>

datatype 'k link_event =
    Disconnected
  | Pairing_Complete "'k bond_info option"
  | Bond_Lost
  | Pairing_Failed bool
  | Link_Encrypted
  | Write_To_Radio bytes
  | Read_From_Radio
  | Next_Message
  | Disconnect_Command
  | Other_Event

definition load_message :: "from_radio_message \<Rightarrow> ble_link \<Rightarrow> ble_link" where
  "load_message msg l =
     (let n = min (length (fm_data msg)) FROM_RADIO_CHAR_SIZE
      in l\<lparr>bl_len := n, bl_buf := write_at 0 (take n (fm_data msg)) (bl_buf l), bl_has_data := True,
           bl_from_num := fm_id msg\<rparr>)"

definition take_next :: "ble_link \<Rightarrow> ble_link" where
  "take_next l =
     (case bl_queue l of
        msg # rest \<Rightarrow> if bl_has_data l then l else load_message msg (l\<lparr>bl_queue := rest\<rparr>)
      | [] \<Rightarrow> l)"

definition read_from_radio :: "ble_link \<Rightarrow> ble_link" where
  "read_from_radio l =
     (let l = take_next l
      in if bl_has_data l then l\<lparr>bl_replies := bl_replies l @ [take (bl_len l) (bl_buf l)], bl_has_data := False\<rparr>
         else l\<lparr>bl_replies := bl_replies l @ [[]]\<rparr>)"

definition next_message :: "ble_link \<Rightarrow> ble_link" where
  "next_message l =
     (if bl_has_data l \<or> bl_queue l = [] then l
      else (let l = take_next l in l\<lparr>bl_notified := bl_notified l @ [le32 (bl_from_num l)]\<rparr>))"

definition mesh_try_send :: "mesh_event \<Rightarrow> ble_link \<Rightarrow> ble_link" where
  "mesh_try_send e l = l\<lparr>bl_mesh_in := try_send MESH_IN_QUEUE_SIZE (bl_mesh_in l) e\<rparr>"

definition drop_bond :: "ble_link \<Rightarrow> ble_link" where
  "drop_bond l = mesh_try_send BondClear (l\<lparr>bl_clear_pending := True\<rparr>)"

definition gatt_event :: "'k irk_codec \<Rightarrow> 'k link_event \<Rightarrow> ble_link \<Rightarrow> ble_link" where
  "gatt_event K e l =
     (if \<not> bl_open l then l
      else case e of
        Disconnected \<Rightarrow> l\<lparr>bl_open := False\<rparr>
      | Pairing_Complete bond \<Rightarrow>
          (case bond of
             Some info \<Rightarrow> (let b = serialize_bond K info in mesh_try_send (BondSave b) (l\<lparr>bl_bond := Some b\<rparr>))
           | None \<Rightarrow> l)
      | Bond_Lost \<Rightarrow> drop_bond l
      | Pairing_Failed peer_rejected \<Rightarrow> if peer_rejected then drop_bond l else l
      | Link_Encrypted \<Rightarrow> mesh_try_send BleConnected l
      | Write_To_Radio data \<Rightarrow> l\<lparr>bl_mesh_in := bl_mesh_in l @ [BleRx (vec_extend 512 [] data)]\<rparr>
      | Read_From_Radio \<Rightarrow> read_from_radio l
      | Next_Message \<Rightarrow> next_message l
      | Disconnect_Command \<Rightarrow> l\<lparr>bl_open := False\<rparr>
      | Other_Event \<Rightarrow> l)"

text \<open>Before a connection is accepted the queue is emptied; the loop starts with an empty buffer.\<close>

definition accept_connection :: "ble_link \<Rightarrow> ble_link" where
  "accept_connection l =
     l\<lparr>bl_queue := [], bl_has_data := False, bl_buf := replicate FROM_RADIO_CHAR_SIZE 0, bl_len := 0,
       bl_clear_pending := False, bl_open := True\<rparr>"

definition end_connection :: "ble_link \<Rightarrow> ble_link" where
  "end_connection l =
     mesh_try_send BleDisconnected (if bl_clear_pending l then l\<lparr>bl_bond := None\<rparr> else l)"

definition gatt_events_loop :: "'k irk_codec \<Rightarrow> 'k link_event list \<Rightarrow> ble_link \<Rightarrow> ble_link" where
  "gatt_events_loop K es l = fold (gatt_event K) es l"

definition connection :: "'k irk_codec \<Rightarrow> 'k link_event list \<Rightarrow> ble_link \<Rightarrow> ble_link" where
  "connection K es l = end_connection (gatt_events_loop K es (accept_connection l))"

section \<open>The bond blob\<close>

lemma of_le128_le128 [simp]: "of_le128 (le128 w) = w"
proof -
  have "ucast (ucast w :: u64) OR push_bit 64 (ucast (ucast (drop_bit 64 w) :: u64)) = w"
    by (rule bit_eqI) (auto simp: bit_or_iff bit_push_bit_iff bit_ucast_iff bit_drop_bit_eq possible_bit_def)
  then show ?thesis by (simp add: of_le128_def le128_def)
qed

lemma length_le128 [simp]: "length (le128 w) = 16"
  by (simp add: le128_def)

lemma writes_append: "writes (fs @ gs) buf = writes gs (writes fs buf)"
  by (simp add: writes_def)

definition bond_fields :: "'k irk_codec \<Rightarrow> 'k bond_info \<Rightarrow> field list" where
  "bond_fields K info =
     [(0, le32 BOND_MAGIC), (4, [BOND_VERSION]), (5, bi_addr info)]
       @ (case bi_irk info of Some irk \<Rightarrow> [(11, [1]), (12, irk_to_le K irk)] | None \<Rightarrow> [])
       @ [(28, le128 (bi_ltk info)),
          (44, [case bi_level info of NoEncryption \<Rightarrow> 0 | Encrypted_Link \<Rightarrow> 1 | EncryptedAuthenticated \<Rightarrow> 2]),
          (45, [if bi_bonded info then 1 else 0])]"

lemma serialize_bond_fields: "serialize_bond K info = writes (bond_fields K info) (replicate BOND_SIZE 0)"
  by (simp add: serialize_bond_def init_bond_header_def bond_fields_def writes_append [symmetric])

definition irk_ok :: "'k irk_codec \<Rightarrow> 'k option \<Rightarrow> bool" where
  "irk_ok K irk = (case irk of Some k \<Rightarrow> length (irk_to_le K k) = 16 \<and> irk_from_le K (irk_to_le K k) = Some k | None \<Rightarrow> True)"

lemma bond_layout:
  assumes "length (bi_addr info) = 6" "irk_ok K (bi_irk info)"
  shows "layout_ok 0 (length (replicate BOND_SIZE (0 :: u8))) (bond_fields K info)"
  using assms by (auto simp: bond_fields_def irk_ok_def const_defs split: option.split)

lemma no_irk_flag: "bi_irk info = None \<Longrightarrow> length (bi_addr info) = 6 \<Longrightarrow> serialize_bond K info ! 11 = 0"
  unfolding serialize_bond_fields
  by (simp add: bond_fields_def writes_def nth_write_at const_defs)

lemma deserialize_serialize:
  assumes "length (bi_addr info) = 6" "irk_ok K (bi_irk info)"
  shows "deserialize_bond K (serialize_bond K info) = Some (info\<lparr>bi_random := True\<rparr>)"
    and "length (serialize_bond K info) = BOND_SIZE"
proof -
  let ?b = "serialize_bond K info"
  note lay = bond_layout [OF assms]
  note field = writes_field [OF lay, folded serialize_bond_fields]
  note byte = writes_byte [OF lay, folded serialize_bond_fields]
  have mem: "(5, bi_addr info) \<in> set (bond_fields K info)" "(28, le128 (bi_ltk info)) \<in> set (bond_fields K info)"
    "(4, [BOND_VERSION]) \<in> set (bond_fields K info)" "(0, le32 BOND_MAGIC) \<in> set (bond_fields K info)"
    "(44, [case bi_level info of NoEncryption \<Rightarrow> 0 | Encrypted_Link \<Rightarrow> 1 | EncryptedAuthenticated \<Rightarrow> 2]) \<in> set (bond_fields K info)"
    "(45, [if bi_bonded info then 1 else 0]) \<in> set (bond_fields K info)" by (simp_all add: bond_fields_def)
  have irk: "(if ?b ! 11 \<noteq> 0 then irk_from_le K (slice 12 28 ?b) else None) = bi_irk info"
  proof (cases "bi_irk info")
    case (Some k)
    then have "(11, [1]) \<in> set (bond_fields K info)" "(12, irk_to_le K k) \<in> set (bond_fields K info)"
      by (simp_all add: bond_fields_def)
    then show ?thesis using byte field [of 12 "irk_to_le K k" 28] assms(2) Some by (simp add: irk_ok_def)
  qed (simp add: no_irk_flag assms(1))
  have "bond_magic_valid ?b"
    using writes_le32 [OF lay mem(4), of 1 2 3] byte [OF mem(3)] by (simp add: bond_magic_valid_def serialize_bond_fields)
  then show "deserialize_bond K ?b = Some (info\<lparr>bi_random := True\<rparr>)"
    using irk field [OF mem(1), of 11] field [OF mem(2), of 44] byte [OF mem(5)] byte [OF mem(6)] assms(1)
    by (simp add: deserialize_bond_def split: security_level.split)
  show "length ?b = BOND_SIZE" using length_writes [OF lay] by (simp add: serialize_bond_fields)
qed

text \<open>C34: a bond survives a reboot.  The blob written for a bond with a random address and a key the
  library can read back fills exactly the bond sector's record; saved to flash that only clears bits
  and loaded after any restart it is recognised, and read back as the bond it was written for, with
  or without an identity key.  (A public address comes back as a random one.)\<close>
theorem bond_survives_reboot:
  assumes "length (bi_addr info) = 6" and "irk_ok K (bi_irk info)" and "room (nv_base st) (nv_flash st)"
  shows "load_bond nor_ops (fst (save_bond nor_ops (serialize_bond K info) st)) = Some (serialize_bond K info)
    \<and> deserialize_bond K (serialize_bond K info) = Some (info\<lparr>bi_random := True\<rparr>)"
proof -
  note b = deserialize_serialize [OF assms(1,2)]
  have r: "room (nv_base st) (id (nv_flash st))" using assms(3) by simp
  have sec: "unat BOND_SECTOR < 5" "length (serialize_bond K info) \<le> 4096" "BOND_SIZE \<le> 4096"
    by (simp_all add: b(2)) (simp_all add: const_defs)
  have "bond_magic_valid (serialize_bond K info)" using b(1) by (auto simp: deserialize_bond_def split: if_splits)
  then show ?thesis
    using nor.save_then_load [OF r sec(1,1,2,3)] b by (simp add: load_bond_def save_bond_def)
qed

definition sample_codec :: "128 word irk_codec" where
  "sample_codec = \<lparr>irk_to_le = le128, irk_from_le = (\<lambda>bs. Some (of_le128 bs))\<rparr>"

definition sample_bond :: "128 word bond_info" where
  "sample_bond = \<lparr>bi_random = True, bi_addr = [1, 2, 3, 4, 5, 0xC6], bi_irk = Some 7, bi_ltk = 9,
     bi_level = EncryptedAuthenticated, bi_bonded = True\<rparr>"

theorem bond_survives_reboot_witness:
  "deserialize_bond sample_codec (serialize_bond sample_codec sample_bond) = Some sample_bond"
  using bond_survives_reboot [of sample_bond sample_codec "(nvs_new dead_flash [] 0)\<lparr>nv_flash := replicate 20480 0xFF\<rparr>"]
  by (simp add: sample_bond_def sample_codec_def irk_ok_def room_def NVS_BYTES_def nvs_new_def load_or_init_def
      dead_flash_def init_empty_def persist_header_def)

section \<open>The read buffer and the queue are one queue\<close>

locale phone_port =
  fixes ok :: "'s \<Rightarrow> bool" and waiting :: "'s \<Rightarrow> bytes list" and content :: "'m \<Rightarrow> bytes" and enqueue :: "'m \<Rightarrow> 's \<Rightarrow> 's"
    and read :: "'s \<Rightarrow> bytes \<times> 's" and refill :: "'s \<Rightarrow> 's"
  assumes ok_enqueue: "ok s \<Longrightarrow> ok (enqueue m s)" and ok_read: "ok s \<Longrightarrow> ok (snd (read s))"
    and ok_refill: "ok s \<Longrightarrow> ok (refill s)"
    and waiting_enqueue: "ok s \<Longrightarrow> waiting (enqueue m s) = waiting s @ [content m]"
    and waiting_refill: "ok s \<Longrightarrow> waiting (refill s) = waiting s"
    and read_spec: "ok s \<Longrightarrow> fst (read s) = (case waiting s of [] \<Rightarrow> [] | d # _ \<Rightarrow> d)"
    and waiting_read: "ok s \<Longrightarrow> waiting (snd (read s)) = tl (waiting s)"

text \<open>The phone reads a number of times.\<close>

fun read_times :: "('s \<Rightarrow> bytes \<times> 's) \<Rightarrow> nat \<Rightarrow> 's \<Rightarrow> bytes list \<times> 's" where
  "read_times rd 0 s = ([], s)"
| "read_times rd (Suc n) s = (case rd s of (d, s) \<Rightarrow> (case read_times rd n s of (ds, s) \<Rightarrow> (d # ds, s)))"

context phone_port begin

lemma reads_all: "ok s \<Longrightarrow> n = length (waiting s) \<Longrightarrow> fst (read_times read (Suc n) s) = waiting s @ [[]]"
proof (induction n arbitrary: s)
  case 0
  then show ?case by (simp add: read_spec split: prod.split) (metis fst_conv list.simps(4) read_spec)
next
  case (Suc n)
  obtain d s' where r: "read s = (d, s')" by fastforce
  obtain w ws where w: "waiting s = w # ws" using Suc.prems(2) by (cases "waiting s") auto
  have s': "ok s'" "waiting s' = ws" "d = w"
    using ok_read [OF Suc.prems(1)] waiting_read [OF Suc.prems(1)] read_spec [OF Suc.prems(1)] r w by simp_all
  have "fst (read_times read (Suc n) s') = ws @ [[]]" using Suc.IH [OF s'(1)] s'(2) Suc.prems(2) w by simp
  then show ?case using r w s'(3) by (simp del: read_times.simps(2)) (simp add: read_times.simps(2) [of read "Suc n"] split_beta)
qed

end

text \<open>What the phone will read: the message in the buffer, then the queue, each cut to the characteristic.\<close>

definition served :: "from_radio_message \<Rightarrow> bytes" where
  "served m = take FROM_RADIO_CHAR_SIZE (fm_data m)"

definition ble_waiting :: "ble_link \<Rightarrow> bytes list" where
  "ble_waiting l = (if bl_has_data l then [take (bl_len l) (bl_buf l)] else []) @ map served (bl_queue l)"

definition link_ok :: "ble_link \<Rightarrow> bool" where
  "link_ok l \<longleftrightarrow> length (bl_buf l) = FROM_RADIO_CHAR_SIZE"

definition ble_enqueue :: "from_radio_message \<Rightarrow> ble_link \<Rightarrow> ble_link" where
  "ble_enqueue m l = l\<lparr>bl_queue := bl_queue l @ [m]\<rparr>"

definition ble_read :: "ble_link \<Rightarrow> bytes \<times> ble_link" where
  "ble_read l = (let l = read_from_radio l in (last (bl_replies l), l))"

lemma load_message_waiting:
  assumes "link_ok l" "\<not> bl_has_data l"
  shows "ble_waiting (load_message m l) = served m # ble_waiting l" "link_ok (load_message m l)" "bl_has_data (load_message m l)"
    "bl_replies (load_message m l) = bl_replies l" "bl_open (load_message m l) = bl_open l"
proof -
  have cut: "take (min (length d) n) d = take n d" "take (min (length d) n) (write_at 0 (take n d) b) = take n d" for d b :: bytes and n
    by (cases "length d \<le> n"; simp add: write_at_def)+
  then show "ble_waiting (load_message m l) = served m # ble_waiting l"
    using assms(2) by (simp add: load_message_def ble_waiting_def Let_def served_def cut)
  show "link_ok (load_message m l)" using assms(1) by (simp add: load_message_def link_ok_def Let_def)
qed (simp_all add: load_message_def Let_def)

lemma take_next_facts:
  assumes "link_ok l"
  shows "ble_waiting (take_next l) = ble_waiting l" "link_ok (take_next l)" "bl_replies (take_next l) = bl_replies l"
    "bl_open (take_next l) = bl_open l" "\<not> bl_has_data (take_next l) \<Longrightarrow> ble_waiting l = []"
proof -
  have ok: "link_ok (l\<lparr>bl_queue := q\<rparr>)" for q using assms by (simp add: link_ok_def)
  have w: "\<not> bl_has_data l \<Longrightarrow> bl_queue l = m # q \<Longrightarrow> ble_waiting l = served m # ble_waiting (l\<lparr>bl_queue := q\<rparr>)" for m q
    by (simp add: ble_waiting_def)
  note lm = load_message_waiting [OF ok]
  show "ble_waiting (take_next l) = ble_waiting l" "link_ok (take_next l)" "bl_replies (take_next l) = bl_replies l"
    "bl_open (take_next l) = bl_open l" "\<not> bl_has_data (take_next l) \<Longrightarrow> ble_waiting l = []"
    using assms lm w by (auto simp: take_next_def ble_waiting_def split: list.splits if_splits)
qed

lemma read_facts:
  assumes "link_ok l"
  shows "ble_waiting (read_from_radio l) = tl (ble_waiting l)" "link_ok (read_from_radio l)"
    "bl_replies (read_from_radio l) = bl_replies l @ [case ble_waiting l of [] \<Rightarrow> [] | d # _ \<Rightarrow> d]"
    "bl_open (read_from_radio l) = bl_open l"
proof -
  let ?l = "take_next l"
  note t = take_next_facts [OF assms]
  have full: "ble_waiting l = take (bl_len ?l) (bl_buf ?l) # map served (bl_queue ?l)" if "bl_has_data ?l"
    using that t(1) by (simp add: ble_waiting_def)
  show "ble_waiting (read_from_radio l) = tl (ble_waiting l)"
    "bl_replies (read_from_radio l) = bl_replies l @ [case ble_waiting l of [] \<Rightarrow> [] | d # _ \<Rightarrow> d]"
    using full t by (auto simp: read_from_radio_def Let_def) (simp_all add: ble_waiting_def)
  show "link_ok (read_from_radio l)" "bl_open (read_from_radio l) = bl_open l"
    using t by (simp_all add: read_from_radio_def Let_def link_ok_def)
qed

lemma next_message_facts:
  assumes "link_ok l"
  shows "ble_waiting (next_message l) = ble_waiting l" "link_ok (next_message l)"
    "bl_replies (next_message l) = bl_replies l" "bl_open (next_message l) = bl_open l"
  using take_next_facts [OF assms] assms by (auto simp: next_message_def Let_def link_ok_def ble_waiting_def)

lemma enqueue_facts: "link_ok (ble_enqueue m l) = link_ok l" "ble_waiting (ble_enqueue m l) = ble_waiting l @ [served m]"
  by (simp_all add: ble_enqueue_def link_ok_def ble_waiting_def)

interpretation ble: phone_port link_ok ble_waiting served ble_enqueue ble_read next_message
  by unfold_locales (simp_all add: ble_read_def Let_def read_facts next_message_facts enqueue_facts)

text \<open>The abstract connection: a list of messages, the replies so far, and whether it is open.\<close>

fun phone_spec :: "'k link_event \<Rightarrow> bytes list \<times> bytes list \<times> bool \<Rightarrow> bytes list \<times> bytes list \<times> bool" where
  "phone_spec e (w, r, False) = (w, r, False)"
| "phone_spec Disconnected (w, r, True) = (w, r, False)"
| "phone_spec Disconnect_Command (w, r, True) = (w, r, False)"
| "phone_spec Read_From_Radio (w, r, True) = (tl w, r @ [case w of [] \<Rightarrow> [] | d # _ \<Rightarrow> d], True)"
| "phone_spec _ (w, r, True) = (w, r, True)"

definition ble_abs :: "ble_link \<Rightarrow> bytes list \<times> bytes list \<times> bool" where
  "ble_abs l = (ble_waiting l, bl_replies l, bl_open l)"

lemma gatt_event_refines:
  assumes "link_ok l"
  shows "ble_abs (gatt_event K e l) = phone_spec e (ble_abs l) \<and> link_ok (gatt_event K e l)"
proof (cases "bl_open l")
  case True
  have same: "ble_abs (mesh_try_send x l) = ble_abs l" "link_ok (mesh_try_send x l)" "ble_abs (drop_bond l) = ble_abs l"
    "link_ok (drop_bond l)" for x
    using assms by (simp_all add: mesh_try_send_def drop_bond_def ble_abs_def ble_waiting_def link_ok_def)
  have bond: "ble_abs (mesh_try_send x (l\<lparr>bl_bond := b\<rparr>)) = ble_abs l" "link_ok (mesh_try_send x (l\<lparr>bl_bond := b\<rparr>))" for x b
    using assms by (simp_all add: mesh_try_send_def ble_abs_def ble_waiting_def link_ok_def)
  have closed: "ble_abs (l\<lparr>bl_open := False\<rparr>) = (ble_waiting l, bl_replies l, False)" "link_ok (l\<lparr>bl_open := False\<rparr>)"
    "ble_abs (l\<lparr>bl_mesh_in := q\<rparr>) = ble_abs l" "link_ok (l\<lparr>bl_mesh_in := q\<rparr>)" for q
    using assms by (simp_all add: ble_abs_def ble_waiting_def link_ok_def)
  have read: "ble_abs (read_from_radio l) = (tl (ble_waiting l), bl_replies l @ [case ble_waiting l of [] \<Rightarrow> [] | d # _ \<Rightarrow> d], True)"
    "ble_abs (next_message l) = ble_abs l"
    using True read_facts [OF assms] next_message_facts [OF assms] by (simp_all add: ble_abs_def)
  have open_abs: "ble_abs l = (ble_waiting l, bl_replies l, True)" using True by (simp add: ble_abs_def)
  show ?thesis
    using True assms same bond closed read read_facts(2) [OF assms] next_message_facts(2) [OF assms]
    by (cases e) (simp_all add: gatt_event_def Let_def open_abs split: option.split)
qed (use assms in \<open>simp add: gatt_event_def ble_abs_def\<close>)

text \<open>To the phone the connection is one queue.  Under any sequence of events, reads, notifications,
  pairing, writes and the closing of the link in any order, the replies to the phone's reads and what is
  still to be read are those of a plain first-in first-out list: every message is delivered once, whole
  and in order, an empty reply is given exactly when nothing waits, and the message held in the read
  buffer is never overwritten by the next one.\<close>
lemma ble_refines_queue:
  assumes "link_ok l"
  shows "ble_abs (gatt_events_loop K es l) = fold phone_spec es (ble_abs l)"
proof -
  have "ble_abs (fold (gatt_event K) es l) = fold phone_spec es (ble_abs l)" using assms
    by (induction es arbitrary: l) (simp_all add: gatt_event_refines)
  then show ?thesis by (simp add: gatt_events_loop_def)
qed

definition idle_link :: ble_link where
  "idle_link = \<lparr>bl_queue = [], bl_mesh_in = [], bl_has_data = False, bl_buf = replicate FROM_RADIO_CHAR_SIZE 0, bl_len = 0,
     bl_from_num = 0, bl_bond = None, bl_clear_pending = False, bl_open = True, bl_replies = [], bl_notified = []\<rparr>"

lemma from_app_queue_ok:
  assumes "ctx_ok c" "decodes_strings H" "m \<in> set (cx_to_ble (from_app_dispatch H now data c))"
  shows "served m = fm_data m"
proof -
  have "message_ok m"
    using from_app_dispatch_ok [OF assms(1,2), of now data] assms(3) by (auto simp: ctx_ok_def)
  then show ?thesis by (simp add: message_ok_def served_def const_defs)
qed

text \<open>C11: the configuration reaches the phone.  The phone writes a request for the configuration on a
  connection with nothing left to read; once the mesh task has handled it, the phone's next reads return
  the 41 encoded messages of the exchange, ending with the completion marker it waits for, then every
  stored message that decodes, oldest first, whole and in this order, and then the empty reply that
  tells it to stop; and the message store is empty.\<close>
theorem config_reaches_phone:
  assumes "ctx_ok c" and "decodes_strings H" and "cx_to_ble c = []" and "data \<noteq> []"
    and "pc_to_radio_dec (h_codec H) data = Some (Some (TrWantConfigId n))" and "n \<noteq> SPECIAL_NONCE_ONLY_NODES"
    and "link_ok l" and "\<not> bl_has_data l" and "bl_queue l = cx_to_ble (from_app_dispatch H now data c)"
  shows "\<exists>fs. map as_bytes fs = frames (cx_storage c)
    \<and> (let mks = map (\<lambda>v fid. encode_from_radio H fid v) (config_messages (h_env H) n c) @ stored_messages H (cx_device c) fs
       in fst (read_times ble_read (Suc (length mks)) l) = map fm_data (messages mks (cx_from_radio_id c)) @ [[]])
    \<and> length (config_messages (h_env H) n c) = 41 \<and> last (config_messages (h_env H) n c) = FrConfigCompleteId n
    \<and> frames (cx_storage (from_app_dispatch H now data c)) = []"
proof -
  have "length (cx_to_ble c) \<le> 13" by (simp add: assms(3))
  from config_download_completes [OF assms(1,4-6) this, of now] obtain fs where
    fs: "map as_bytes fs = frames (cx_storage c)"
      "cx_to_ble (from_app_dispatch H now data c) = messages (map (\<lambda>v fid. encode_from_radio H fid v) (config_messages (h_env H) n c)
         @ stored_messages H (cx_device c) fs) (cx_from_radio_id c)"
      "length (config_messages (h_env H) n c) = 41" "last (config_messages (h_env H) n c) = FrConfigCompleteId n"
      "frames (cx_storage (from_app_dispatch H now data c)) = []" by (auto simp: assms(3))
  let ?mks = "map (\<lambda>v fid. encode_from_radio H fid v) (config_messages (h_env H) n c) @ stored_messages H (cx_device c) fs"
  have "map served (bl_queue l) = map fm_data (bl_queue l)"
    using from_app_queue_ok [OF assms(1,2)] by (simp add: assms(9))
  then have w: "ble_waiting l = map fm_data (messages ?mks (cx_from_radio_id c))"
    using fs(2) by (simp add: ble_waiting_def assms(8,9))
  have "length ?mks = length (ble_waiting l)" unfolding w by (simp only: length_map length_messages)
  from ble.reads_all [OF assms(7) this] show ?thesis
    unfolding w Let_def using fs(1,3-5) by blast
qed

theorem config_reaches_phone_witness:
  "last (fst (read_times ble_read 42 (idle_link\<lparr>bl_queue := cx_to_ble (from_app_dispatch example_host 0 [5] example_ctx)\<rparr>))) = []"
proof -
  let ?l = "idle_link\<lparr>bl_queue := cx_to_ble (from_app_dispatch example_host 0 [5] example_ctx)\<rparr>"
  have l: "link_ok ?l" "\<not> bl_has_data ?l" by (simp_all add: idle_link_def link_ok_def)
  have dec: "pc_to_radio_dec (h_codec example_host) [5] = Some (Some (TrWantConfigId 5))"
    by (simp add: example_host_def example_codec_def)
  have e: "cx_to_ble example_ctx = []" "(5 :: u32) \<noteq> SPECIAL_NONCE_ONLY_NODES"
    by (simp_all add: example_ctx_def SPECIAL_NONCE_ONLY_NODES_def)
  obtain fs where fs: "map as_bytes fs = frames (cx_storage example_ctx)"
    "fst (read_times ble_read (Suc (length (map (\<lambda>v fid. encode_from_radio example_host fid v) (config_messages (h_env example_host) 5 example_ctx)
        @ stored_messages example_host (cx_device example_ctx) fs))) ?l)
      = map fm_data (messages (map (\<lambda>v fid. encode_from_radio example_host fid v) (config_messages (h_env example_host) 5 example_ctx)
        @ stored_messages example_host (cx_device example_ctx) fs) (cx_from_radio_id example_ctx)) @ [[]]"
    using config_reaches_phone [OF example_ctx_ok decodes_strings_example e(1) _ dec e(2) l] unfolding Let_def by auto
  have "fs = []" using fs(1) by (simp add: example_empty)
  then show ?thesis using fs(2) by (simp add: stored_messages_def length_config_messages)
qed

section \<open>Bonds across a connection\<close>

definition closes :: "'k link_event \<Rightarrow> bool" where
  "closes e = (case e of Disconnected \<Rightarrow> True | Disconnect_Command \<Rightarrow> True | _ \<Rightarrow> False)"

definition revokes :: "'k link_event \<Rightarrow> bool" where
  "revokes e = (case e of Bond_Lost \<Rightarrow> True | Pairing_Failed r \<Rightarrow> r | _ \<Rightarrow> False)"

definition paired :: "'k irk_codec \<Rightarrow> 'k link_event \<Rightarrow> bytes option \<Rightarrow> bytes option" where
  "paired K e b = (case e of Pairing_Complete (Some info) \<Rightarrow> Some (serialize_bond K info) | _ \<Rightarrow> b)"

lemma closed_stays: "\<not> bl_open l \<Longrightarrow> fold (gatt_event K) es l = l"
  by (induction es) (simp_all add: gatt_event_def)

lemma take_next_bond [simp]: "bl_bond (take_next l) = bl_bond l" "bl_clear_pending (take_next l) = bl_clear_pending l"
    "bl_open (take_next l) = bl_open l"
  by (simp_all add: take_next_def load_message_def Let_def split: list.split)

lemma gatt_event_bond:
  assumes "bl_open l"
  shows "bl_bond (gatt_event K e l) = paired K e (bl_bond l)" "bl_clear_pending (gatt_event K e l) = (bl_clear_pending l \<or> revokes e)"
    "bl_open (gatt_event K e l) = (\<not> closes e)"
  using assms by (cases e; simp add: gatt_event_def paired_def revokes_def closes_def Let_def mesh_try_send_def drop_bond_def
      read_from_radio_def next_message_def split: option.split)+

text \<open>C36: which bond the BLE task holds after a connection.  Up to the event that closes the link: if the peer
  never lost its bond and never rejected ours, it is the last one paired, or else the one held before,
  so failures of our own stack do not lose it.  But once the peer announced that it had lost its bond,
  none is held at the end, even when the pairing in progress completed and a new bond was stored.\<close>
theorem bond_after_connection:
  "bl_bond (connection K es l) =
    (if \<exists>e \<in> set (takeWhile (\<lambda>e. \<not> closes e) es). revokes e then None
     else fold (paired K) (takeWhile (\<lambda>e. \<not> closes e) es) (bl_bond l))"
proof -
  have "bl_open l \<Longrightarrow> bl_clear_pending (fold (gatt_event K) es l)
        = (bl_clear_pending l \<or> (\<exists>e \<in> set (takeWhile (\<lambda>e. \<not> closes e) es). revokes e))
      \<and> bl_bond (fold (gatt_event K) es l) = fold (paired K) (takeWhile (\<lambda>e. \<not> closes e) es) (bl_bond l)" for l
  proof (induction es arbitrary: l)
    case (Cons e es)
    show ?case
    proof (cases "closes e")
      case True
      then have "\<not> revokes e" "paired K e b = b" for b by (cases e; simp add: closes_def revokes_def paired_def)+
      then show ?thesis using True gatt_event_bond [OF Cons.prems, of K e] closed_stays [of "gatt_event K e l" K es] by simp
    next
      case False
      then show ?thesis using Cons.IH [of "gatt_event K e l"] gatt_event_bond [OF Cons.prems, of K e] by (simp add: disj_assoc)
    qed
  qed simp
  from this [of "accept_connection l"] show ?thesis
    by (simp add: connection_def gatt_events_loop_def end_connection_def mesh_try_send_def accept_connection_def)
qed

theorem bond_after_connection_witness:
  "bl_bond (connection sample_codec [Bond_Lost, Pairing_Complete (Some sample_bond), Link_Encrypted, Disconnected] idle_link) = None
    \<and> bl_bond (connection sample_codec [Pairing_Failed False, Disconnected] (idle_link\<lparr>bl_bond := Some [1]\<rparr>)) = Some [1]"
  using bond_after_connection [of sample_codec "[Bond_Lost, Pairing_Complete (Some sample_bond), Link_Encrypted, Disconnected]" idle_link]
    bond_after_connection [of sample_codec "[Pairing_Failed False, Disconnected]" "idle_link\<lparr>bl_bond := Some [1]\<rparr>"]
  by (simp add: closes_def revokes_def paired_def)

end
