(* ===== verification/Ble_Boards.thy ===== *)
theory Ble_Boards
  imports Ble_Link
begin

text \<open>
  The BLE tasks as wholes: connections during which the mesh task goes on queueing messages, the ESP32's
  restart of its Bluetooth stack in place, and \<open>boards/nrf52/src/tasks/ble_task.rs\<close>, a second copy of the
  code over another version of the library.  The copy is compared with the original.
\<close>

section \<open>A connection with the mesh task at work\<close>

datatype 'k link_input = Link "'k link_event" | Mesh_Sends from_radio_message

fun link_step :: "'k irk_codec \<Rightarrow> 'k link_input \<Rightarrow> ble_link \<Rightarrow> ble_link" where
  "link_step K (Link e) l = gatt_event K e l"
| "link_step K (Mesh_Sends m) l = ble_enqueue m l"

definition link_run :: "'k irk_codec \<Rightarrow> 'k link_input list \<Rightarrow> ble_link \<Rightarrow> ble_link" where
  "link_run K ins l = fold (link_step K) ins (accept_connection l)"

section \<open>The ESP32 task\<close>

text \<open>The bond that a new stack is given.\<close>

definition registered_bond :: "'k irk_codec \<Rightarrow> bytes option \<Rightarrow> 'k bond_info option" where
  "registered_bond K bond_bytes = (case bond_bytes of Some bytes \<Rightarrow> deserialize_bond K bytes | None \<Rightarrow> None)"

text \<open>One life of the stack: connections that end, and then the failure of the stack, between two connections or in
  the middle of one; what the loops keep in local variables is gone.\<close>

definition stack_session :: "'k irk_codec \<Rightarrow> 'k link_input list list \<Rightarrow> 'k link_input list option \<Rightarrow> ble_link \<Rightarrow> ble_link" where
  "stack_session K conns broken l =
     (let l = fold (\<lambda>ins l. end_connection (link_run K ins l)) conns l;
          l = (case broken of Some ins \<Rightarrow> link_run K ins l | None \<Rightarrow> l)
      in mesh_try_send BleDisconnected (l\<lparr>bl_open := False, bl_from_num := 0\<rparr>))"

definition ble_task :: "'k irk_codec \<Rightarrow> bytes option \<Rightarrow> ('k link_input list list \<times> 'k link_input list option) list \<Rightarrow> ble_link \<Rightarrow> ble_link" where
  "ble_task K initial_bond sessions l = fold (\<lambda>(conns, broken). stack_session K conns broken) sessions (l\<lparr>bl_bond := initial_bond\<rparr>)"

section \<open>The nRF52 task\<close>

definition nrf_serialize_bond :: "'k irk_codec \<Rightarrow> 'k bond_info \<Rightarrow> bytes" where
  "nrf_serialize_bond K info =
     (let b = init_bond_header (replicate BOND_SIZE 0);
          b = write_at 5 (bi_addr info) b;
          b = (case bi_irk info of Some irk \<Rightarrow> write_at 12 (irk_to_le K irk) (write_at 11 [1] b) | None \<Rightarrow> b);
          b = write_at 28 (le128 (bi_ltk info)) b;
          b = write_at 44 [case bi_level info of NoEncryption \<Rightarrow> 0 | Encrypted_Link \<Rightarrow> 1 | EncryptedAuthenticated \<Rightarrow> 2] b
      in write_at 45 [if bi_bonded info then 1 else 0] b)"

definition nrf_deserialize_bond :: "'k irk_codec \<Rightarrow> bytes \<Rightarrow> 'k bond_info option" where
  "nrf_deserialize_bond K b =
     (if \<not> bond_magic_valid b then None
      else
        (let addr = slice 5 11 b;
             irk = (if b ! 11 \<noteq> 0 then irk_from_le K (slice 12 28 b) else None);
             ltk = of_le128 (slice 28 44 b);
             security_level = (if b ! 44 = 1 then Encrypted_Link else if b ! 44 = 2 then EncryptedAuthenticated else NoEncryption)
         in Some \<lparr>bi_random = True, bi_addr = addr, bi_irk = irk, bi_ltk = ltk, bi_level = security_level,
              bi_bonded = (b ! 45 \<noteq> 0)\<rparr>))"

text \<open>The bond is given to the stack once, at the start.\<close>

definition nrf_restored_bond :: "'k irk_codec \<Rightarrow> bytes option \<Rightarrow> 'k bond_info option" where
  "nrf_restored_bond K initial_bond = (case initial_bond of Some bytes \<Rightarrow> nrf_deserialize_bond K bytes | None \<Rightarrow> None)"

text \<open>A read is answered from the buffer, filled from the queue if it is empty; a message is only taken from
  the queue on its own turn when the last one has been read.\<close>

definition nrf_read :: "ble_link \<Rightarrow> ble_link" where
  "nrf_read l =
     (let l = (case bl_queue l of
                 msg # rest \<Rightarrow> if \<not> bl_has_data l then load_message msg (l\<lparr>bl_queue := rest\<rparr>) else l
               | [] \<Rightarrow> l)
      in if bl_has_data l
         then l\<lparr>bl_replies := bl_replies l @ [take (bl_len l) (bl_buf l)], bl_has_data := False\<rparr>
         else l\<lparr>bl_replies := bl_replies l @ [[]]\<rparr>)"

definition nrf_next_message :: "ble_link \<Rightarrow> ble_link" where
  "nrf_next_message l =
     (case bl_queue l of
        msg # rest \<Rightarrow>
          if bl_has_data l then l
          else (let l = load_message msg (l\<lparr>bl_queue := rest\<rparr>)
                in l\<lparr>bl_notified := bl_notified l @ [le32 (bl_from_num l)]\<rparr>)
      | [] \<Rightarrow> l)"

definition nrf_gatt_event :: "'k irk_codec \<Rightarrow> 'k link_event \<Rightarrow> ble_link \<Rightarrow> ble_link" where
  "nrf_gatt_event K e l =
     (if \<not> bl_open l then l
      else case e of
        Disconnected \<Rightarrow> l\<lparr>bl_open := False\<rparr>
      | Pairing_Complete bond \<Rightarrow>
          (case bond of Some info \<Rightarrow> mesh_try_send (BondSave (nrf_serialize_bond K info)) l | None \<Rightarrow> l)
      | Bond_Lost \<Rightarrow> mesh_try_send BondClear (l\<lparr>bl_clear_pending := True\<rparr>)
      | Pairing_Failed peer_rejected \<Rightarrow>
          if peer_rejected then mesh_try_send BondClear (l\<lparr>bl_clear_pending := True\<rparr>) else l
      | Link_Encrypted \<Rightarrow> mesh_try_send BleConnected l
      | Write_To_Radio data \<Rightarrow> l\<lparr>bl_mesh_in := bl_mesh_in l @ [BleRx (vec_extend 512 [] data)]\<rparr>
      | Read_From_Radio \<Rightarrow> nrf_read l
      | Next_Message \<Rightarrow> nrf_next_message l
      | Disconnect_Command \<Rightarrow> l\<lparr>bl_open := False\<rparr>
      | Other_Event \<Rightarrow> l)"

fun nrf_step :: "'k irk_codec \<Rightarrow> 'k link_input \<Rightarrow> ble_link \<Rightarrow> ble_link" where
  "nrf_step K (Link e) l = nrf_gatt_event K e l"
| "nrf_step K (Mesh_Sends m) l = ble_enqueue m l"

text \<open>The loop starts with an empty buffer, and with whatever is in the queue.\<close>

definition nrf_accept :: "ble_link \<Rightarrow> ble_link" where
  "nrf_accept l =
     l\<lparr>bl_has_data := False, bl_buf := replicate FROM_RADIO_CHAR_SIZE 0, bl_len := 0, bl_clear_pending := False, bl_open := True\<rparr>"

definition nrf_run :: "'k irk_codec \<Rightarrow> 'k link_input list \<Rightarrow> ble_link \<Rightarrow> ble_link" where
  "nrf_run K ins l = fold (nrf_step K) ins (nrf_accept l)"

text \<open>At the end a bond the peer rejected is removed from the stack: the flag of the result.\<close>

definition nrf_connection :: "'k irk_codec \<Rightarrow> 'k link_input list \<Rightarrow> ble_link \<Rightarrow> ble_link \<times> bool" where
  "nrf_connection K ins l =
     (let l = nrf_run K ins l; bond_clear_pending = bl_clear_pending l
      in (mesh_try_send BleDisconnected l, bond_clear_pending))"

section \<open>The two copies\<close>

lemma nrf_bond_codec:
  "nrf_serialize_bond K info = serialize_bond K info" "nrf_deserialize_bond K b = deserialize_bond K b"
  "nrf_restored_bond K bond = registered_bond K bond"
proof -
  show "nrf_serialize_bond K info = serialize_bond K info"
    by (simp add: nrf_serialize_bond_def serialize_bond_def Let_def writes_def split: option.split)
  show d: "nrf_deserialize_bond K b = deserialize_bond K b" for b
    by (simp add: nrf_deserialize_bond_def deserialize_bond_def Let_def)
  show "nrf_restored_bond K bond = registered_bond K bond"
    by (simp add: nrf_restored_bond_def registered_bond_def d split: option.split)
qed

lemma nrf_queue_ops: "nrf_read l = read_from_radio l" "nrf_next_message l = next_message l"
  by (auto simp: nrf_read_def read_from_radio_def take_next_def nrf_next_message_def next_message_def Let_def split: list.split)

text \<open>The copy does not track the bond; in all else an event has the same effect.\<close>

lemma take_next_bond_irrelevant: "take_next (l\<lparr>bl_bond := b\<rparr>) = (take_next l)\<lparr>bl_bond := b\<rparr>"
  by (simp add: take_next_def load_message_def Let_def split: list.split)

lemma nrf_gatt_event_eq: "nrf_gatt_event K e (l\<lparr>bl_bond := b\<rparr>) = (gatt_event K e l)\<lparr>bl_bond := b\<rparr>"
  by (cases e) (simp_all add: nrf_gatt_event_def gatt_event_def nrf_bond_codec(1) nrf_queue_ops read_from_radio_def
      next_message_def take_next_bond_irrelevant mesh_try_send_def drop_bond_def Let_def split: option.split)

lemma nrf_step_eq: "nrf_step K i (l\<lparr>bl_bond := b\<rparr>) = (link_step K i l)\<lparr>bl_bond := b\<rparr>"
  by (cases i) (simp_all add: nrf_gatt_event_eq ble_enqueue_def)

lemma nrf_fold_eq: "fold (nrf_step K) ins (l\<lparr>bl_bond := b\<rparr>) = (fold (link_step K) ins l)\<lparr>bl_bond := b\<rparr>"
  by (induction ins arbitrary: l) (simp_all add: nrf_step_eq)

lemma nrf_run_eq: "nrf_run K ins l = (fold (link_step K) ins (nrf_accept l))\<lparr>bl_bond := bl_bond l\<rparr>"
proof -
  have "nrf_accept l = (nrf_accept l)\<lparr>bl_bond := bl_bond l\<rparr>" by (simp add: nrf_accept_def)
  then show ?thesis using nrf_fold_eq [where l = "nrf_accept l" and b = "bl_bond l"] by (simp only: nrf_run_def)
qed

lemma accept_eq: "bl_queue l = [] \<Longrightarrow> accept_connection l = nrf_accept l"
  by (simp add: accept_connection_def nrf_accept_def)

section \<open>One queue on both boards\<close>

fun served_step :: "'k link_input \<Rightarrow> bytes list \<times> bytes list \<times> bool \<Rightarrow> bytes list \<times> bytes list \<times> bool" where
  "served_step (Link e) s = phone_spec e s"
| "served_step (Mesh_Sends m) (w, r, up) = (w @ [served m], r, up)"

lemma enqueue_frame [simp]:
  "bl_replies (ble_enqueue m l) = bl_replies l" "bl_open (ble_enqueue m l) = bl_open l" "bl_bond (ble_enqueue m l) = bl_bond l"
  "bl_clear_pending (ble_enqueue m l) = bl_clear_pending l" "bl_mesh_in (ble_enqueue m l) = bl_mesh_in l"
  by (simp_all add: ble_enqueue_def)

lemma link_step_refines: "link_ok l \<Longrightarrow> ble_abs (link_step K i l) = served_step i (ble_abs l) \<and> link_ok (link_step K i l)"
proof (cases i)
  case (Mesh_Sends m)
  then show "link_ok l \<Longrightarrow> ?thesis" by (simp add: ble_abs_def enqueue_facts)
qed (simp add: gatt_event_refines)

lemma link_fold_refines: "link_ok l \<Longrightarrow> ble_abs (fold (link_step K) ins l) = fold served_step ins (ble_abs l)"
  by (induction ins arbitrary: l) (simp_all add: link_step_refines)

section \<open>The bond across a failure of the stack\<close>

fun link_events :: "'k link_input list \<Rightarrow> 'k link_event list" where
  "link_events [] = []"
| "link_events (Link e # ins) = e # link_events ins"
| "link_events (Mesh_Sends m # ins) = link_events ins"

lemma closed_run: "\<not> bl_open l \<Longrightarrow> bl_bond (fold (link_step K) ins l) = bl_bond l \<and> bl_clear_pending (fold (link_step K) ins l) = bl_clear_pending l"
proof (induction ins arbitrary: l)
  case (Cons i ins)
  then show ?case by (cases i) (simp_all add: gatt_event_def)
qed simp

lemma run_bond:
  "bl_open l \<Longrightarrow> bl_bond (fold (link_step K) ins l) = fold (paired K) (takeWhile (\<lambda>e. \<not> closes e) (link_events ins)) (bl_bond l)
    \<and> bl_clear_pending (fold (link_step K) ins l)
      = (bl_clear_pending l \<or> (\<exists>e \<in> set (takeWhile (\<lambda>e. \<not> closes e) (link_events ins)). revokes e))"
proof (induction ins arbitrary: l)
  case (Cons i ins)
  show ?case
  proof (cases i)
    case (Link e)
    note g = gatt_event_bond [OF Cons.prems, of K e]
    show ?thesis
    proof (cases "closes e")
      case True
      then have "\<not> revokes e" "paired K e b = b" for b by (cases e; simp add: closes_def revokes_def paired_def)+
      then show ?thesis using True Link g closed_run [of "gatt_event K e l" K ins] by simp
    next
      case False
      then show ?thesis using Cons.IH [of "gatt_event K e l"] g Link by (simp add: disj_assoc)
    qed
  qed (use Cons in simp)
qed simp

section \<open>Properties\<close>

text \<open>C12: on both boards the connection is one queue, whatever the mesh task adds to it meanwhile.  The replies to the
  phone's reads and what is left to read are those of a list to which the mesh task appends and from which reads
  take, each message whole, once and in order: a read returns the oldest message that waits, and an empty reply when
  none does.  (A message that is empty itself, as one that did not fit its buffer is, reads like the end of
  the queue.)  The lists differ
  in where they start: on the ESP32 empty, on the nRF52 with what the connection before has left, so that the
  first reads of a phone on the nRF52 return messages that were meant for that one.\<close>
theorem connection_is_a_queue:
  "ble_abs (link_run K ins l) = fold served_step ins ([], bl_replies l, True)
    \<and> ble_abs (nrf_run K ins l) = fold served_step ins (map served (bl_queue l), bl_replies l, True)"
proof -
  have ok: "link_ok (accept_connection l)" "link_ok (nrf_accept l)" by (simp_all add: link_ok_def accept_connection_def nrf_accept_def)
  have start: "ble_abs (accept_connection l) = ([], bl_replies l, True)"
    "ble_abs (nrf_accept l) = (map served (bl_queue l), bl_replies l, True)"
    by (simp_all add: ble_abs_def ble_waiting_def accept_connection_def nrf_accept_def)
  have "ble_abs (nrf_run K ins l) = ble_abs (fold (link_step K) ins (nrf_accept l))"
    by (simp add: nrf_run_eq ble_abs_def ble_waiting_def)
  then show ?thesis using link_fold_refines [OF ok(1), of K ins] link_fold_refines [OF ok(2), of K ins] start by (simp add: link_run_def)
qed

text \<open>C26: the nRF52's copy of the task does what the ESP32's does.  Its bonds are written and read in the same
  format, the one a stack is given at boot is the same, and from an empty queue a whole connection, with
  whatever the phone, the library and the mesh task do, answers the phone alike, sends the mesh task the same
  events and removes a rejected bond in the same cases; only the ESP32 keeps the bond's bytes.\<close>
theorem nrf_copy_agrees:
  assumes "bl_queue l = []"
  shows "nrf_serialize_bond K info = serialize_bond K info \<and> nrf_restored_bond K bond = registered_bond K bond
    \<and> fst (nrf_connection K ins l) = (end_connection (link_run K ins l))\<lparr>bl_bond := bl_bond l\<rparr>
    \<and> snd (nrf_connection K ins l) = bl_clear_pending (link_run K ins l)"
  by (simp add: nrf_bond_codec nrf_connection_def end_connection_def mesh_try_send_def link_run_def nrf_run_eq accept_eq [OF assms] Let_def)

theorem nrf_copy_agrees_witness:
  "snd (nrf_connection sample_codec [Link Bond_Lost, Link Disconnected] idle_link)"
  using nrf_copy_agrees [of idle_link sample_codec sample_bond None "[Link Bond_Lost, Link Disconnected]"]
  by (simp add: idle_link_def link_run_def accept_connection_def gatt_event_def drop_bond_def mesh_try_send_def)

text \<open>C37: a restart of the Bluetooth stack brings back the bond, even a dead one.  When the ESP32's stack fails in
  the middle of a connection, the stack built in its place is given the last bond paired before the failure, or
  else the one from before the connection, and the mesh task is told that the phone is gone.  That holds also
  when the peer had just said that it lost this bond, so that flash was told to forget it.\<close>
theorem restart_brings_bond_back:
  "registered_bond K (bl_bond (stack_session K [] (Some ins) l))
      = registered_bond K (fold (paired K) (takeWhile (\<lambda>e. \<not> closes e) (link_events ins)) (bl_bond l))
    \<and> bl_mesh_in (stack_session K [] (Some ins) l) = try_send MESH_IN_QUEUE_SIZE (bl_mesh_in (link_run K ins l)) BleDisconnected
    \<and> bl_bond (stack_session K [] (Some [Link Bond_Lost]) l) = bl_bond l
    \<and> bl_mesh_in (stack_session K [] (Some [Link Bond_Lost]) l)
      = try_send MESH_IN_QUEUE_SIZE (try_send MESH_IN_QUEUE_SIZE (bl_mesh_in l) BondClear) BleDisconnected"
proof -
  have bond: "bl_bond (link_run K ins l) = fold (paired K) (takeWhile (\<lambda>e. \<not> closes e) (link_events ins)) (bl_bond l)"
    for ins l
    using run_bond [of "accept_connection l" K ins] by (simp add: link_run_def accept_connection_def)
  have lost: "bl_mesh_in (link_run K [Link Bond_Lost] l) = try_send MESH_IN_QUEUE_SIZE (bl_mesh_in l) BondClear"
    by (simp add: link_run_def accept_connection_def gatt_event_def drop_bond_def mesh_try_send_def)
  show ?thesis
    by (simp add: stack_session_def mesh_try_send_def bond lost Let_def closes_def paired_def)
qed

end
