(* ===== verification/Admin_Safety.thy ===== *)
theory Admin_Safety
  imports Example_Node
begin

text \<open>
  Remote administration: who may change the settings, how long a session key lasts, and that no
  administrator can leave the radio with parameters it cannot run with.
\<close>

section \<open>Session keys\<close>

lemma rejected_unchanged:
  assumes "\<And>msg. pc_admin_dec (h_codec H) bs = Some msg \<Longrightarrow> \<not> passkey_accepted now (cx_session_passkey c) (am_session_passkey msg)"
  shows "admin_dispatch H now r q bs True c = c"
  using assms by (auto simp: admin_dispatch_def split: option.split)

text \<open>C14: a remote administrator needs the current key.  A message over the mesh that changes anything
  carries exactly the key of the open session, which is not empty and was issued less than 300 seconds
  ago; without an open session no sequence of messages over the mesh, whatever they contain, has any
  effect, so a session can only be opened by the phone.\<close>
theorem remote_admin_needs_key:
  shows "(admin_dispatch H now r q bs True c \<noteq> c \<longrightarrow>
      (\<exists>msg k. pc_admin_dec (h_codec H) bs = Some msg \<and> cx_session_passkey c = Some k
         \<and> am_session_passkey msg = sp_key k \<and> sp_key k \<noteq> [] \<and> now - sp_issued_at k < 300000))
    \<and> (cx_session_passkey c = None \<longrightarrow>
        fold (\<lambda>(t, r, q, bs). admin_dispatch H t r q bs True) ms c = c)"
proof
  have "\<exists>msg. pc_admin_dec (h_codec H) bs = Some msg \<and> passkey_accepted now (cx_session_passkey c) (am_session_passkey msg)"
    if "admin_dispatch H now r q bs True c \<noteq> c"
    using rejected_unchanged [of H bs now c r q] that by blast
  then show "admin_dispatch H now r q bs True c \<noteq> c \<longrightarrow>
      (\<exists>msg k. pc_admin_dec (h_codec H) bs = Some msg \<and> cx_session_passkey c = Some k
         \<and> am_session_passkey msg = sp_key k \<and> sp_key k \<noteq> [] \<and> now - sp_issued_at k < 300000)"
    by (cases "cx_session_passkey c") (fastforce simp: passkey_accepted_def is_expired_def const_defs)+
  have "admin_dispatch H t r q bs True c = c" if "cx_session_passkey c = None" for t r q bs
    using that by (intro rejected_unchanged) (simp add: passkey_accepted_def)
  then show "cx_session_passkey c = None \<longrightarrow> fold (\<lambda>(t, r, q, bs). admin_dispatch H t r q bs True) ms c = c"
    by (induction ms) (auto simp: split_beta)
qed

lemma ensure_session_passkey_fresh:
  "\<exists>k. cx_session_passkey (ensure_session_passkey H now c) = Some k \<and> now - sp_issued_at k < 150000"
  by (cases "cx_session_passkey c")
    (auto simp: ensure_session_passkey_def random_u32_def needs_refresh_def const_defs Let_def)

lemma originate_passkey: "cx_session_passkey (fst (originate H b c)) = cx_session_passkey c"
  by (simp add: originate_def ctx_packet_id_def queue_lora_def Let_def split_beta split: option.split)

lemma send_admin_response_passkey:
  "cx_session_passkey (send_admin_response H now r q v l c) = cx_session_passkey (ensure_session_passkey H now c)"
  by (simp add: send_admin_response_def Let_def originate_passkey ctx_packet_id_def split_beta)

text \<open>A key that was handed out stays good for a while.  After every response the session has a key of
  eight bytes, the one in the response, and a command that carries it is accepted at any time in the
  150 seconds that follow.\<close>
lemma handed_key_stays_valid:
  assumes "ctx_ok c" and "t < now + 150000"
  shows "\<exists>k. cx_session_passkey (send_admin_response H now r q v l c) = Some k \<and> length (sp_key k) = 8
    \<and> passkey_accepted t (cx_session_passkey (send_admin_response H now r q v l c)) (sp_key k)"
proof -
  obtain k where k: "cx_session_passkey (send_admin_response H now r q v l c) = Some k" "now - sp_issued_at k < 150000"
    unfolding send_admin_response_passkey using ensure_session_passkey_fresh by blast
  have "length (sp_key k) = 8"
    using send_admin_response_ok [OF assms(1), of H now r q v l] k(1) by (simp add: ctx_ok_def passkey_ok_def)
  moreover from this have "sp_key k \<noteq> []" by auto
  moreover have "\<not> is_expired t k" using k(2) assms(2) by (simp add: is_expired_def const_defs)
  ultimately show ?thesis using k(1) by (simp add: passkey_accepted_def)
qed

section \<open>Radio parameters\<close>

text \<open>Parameters the modem can be programmed with; the frequency plan divides by the bandwidth.\<close>

definition radio_ok :: "device_state \<Rightarrow> bool" where
  "radio_ok dev \<longleftrightarrow> 5 \<le> custom_sf dev \<and> custom_sf dev \<le> 12 \<and> 4 \<le> custom_cr dev \<and> custom_cr dev \<le> 8
     \<and> custom_bw_hz dev \<noteq> 0 \<and> hop_limit_cfg dev \<le> MAX_HOP_LIMIT"

lemma ucast_small: "(n :: u32) \<le> 12 \<Longrightarrow> unat (ucast n :: u8) = unat n"
  by (simp add: word_le_nat_alt unsigned_ucast_eq take_bit_nat_eq_self)

lemma clamps:
  "5 \<le> clamp_custom_sf n \<and> clamp_custom_sf n \<le> 12" "4 \<le> clamp_custom_cr n \<and> clamp_custom_cr n \<le> 8"
  "clamp_custom_bw_hz n \<noteq> 0"
proof -
  show "5 \<le> clamp_custom_sf n \<and> clamp_custom_sf n \<le> 12" "4 \<le> clamp_custom_cr n \<and> clamp_custom_cr n \<le> 8"
    using ucast_small [of n]
    by (auto simp: clamp_custom_sf_def clamp_custom_cr_def const_defs word_le_nat_alt)
  show "clamp_custom_bw_hz n \<noteq> 0" by (simp add: clamp_custom_bw_hz_def Let_def const_defs)
qed

lemma apply_lora_config_radio: "radio_ok (apply_lora_config H l dev)"
  using clamps [of "lc_spread_factor l"] clamps [of "lc_coding_rate l"] clamps [of "lc_bandwidth l"]
  by (simp add: radio_ok_def apply_lora_config_def)

lemma radio_ok_fields [simp]:
  "radio_ok (dev\<lparr>role := x\<rparr>) = radio_ok dev" "radio_ok (dev\<lparr>channels := cs\<rparr>) = radio_ok dev"
  "radio_ok (dev\<lparr>long_name := s\<rparr>) = radio_ok dev" "radio_ok (dev\<lparr>short_name := s\<rparr>) = radio_ok dev"
  "radio_ok (dev\<lparr>hw_model := h\<rparr>) = radio_ok dev" "radio_ok (dev\<lparr>packet_id_counter := n\<rparr>) = radio_ok dev"
  by (simp_all add: radio_ok_def)

lemma device_new_radio: "radio_ok (device_new m)"
  by (simp add: radio_ok_def device_new_def Let_def const_defs)

lemma ctx_packet_id_radio [simp]: "radio_ok (cx_device (fst (ctx_packet_id c))) = radio_ok (cx_device c)"
  by (simp add: ctx_packet_id_def next_packet_id_def Let_def)

lemma originate_radio [simp]: "radio_ok (cx_device (fst (originate H b c))) = radio_ok (cx_device c)"
  using ctx_packet_id_radio [of c] by (simp add: originate_def queue_lora_def split_beta split: option.split)

lemma ensure_session_passkey_device [simp]: "cx_device (ensure_session_passkey H now c) = cx_device c"
  by (simp add: ensure_session_passkey_def random_u32_def Let_def)

lemma send_admin_response_radio [simp]:
  "radio_ok (cx_device (send_admin_response H now r q v l c)) = radio_ok (cx_device c)"
  using ctx_packet_id_radio [of "ensure_session_passkey H now c"]
  by (simp add: send_admin_response_def Let_def split_beta)

lemma persist_device_device [simp]: "cx_device (persist_device H c) = cx_device c"
  by (simp add: persist_device_def)

lemma with_db_device [simp]: "cx_device (with_db f c) = cx_device c"
  by (simp add: with_db_def)

lemma admin_perform_radio: "radio_ok (cx_device c) \<Longrightarrow> radio_ok (cx_device (admin_perform H now r q l v c))"
  by (cases v) (simp_all add: admin_perform_def admin_defs get_owner_def get_config_def get_channel_def
      get_module_config_def set_owner_def set_config_def set_channel_def handle_set_fixed_position_def
      handle_factory_reset_def handle_nodedb_reset_def apply_lora_config_radio Let_def
      split: option.split config_variant.split)

text \<open>C35: the radio always has parameters it can run with.  A new device has them, every administration
  message keeps them, from the phone or from the mesh, and setting the radio configuration establishes
  them from any state: spreading factor 5 to 12, coding rate 4 to 8, at most seven hops, and a
  bandwidth that is not zero, by which the frequency plan divides.\<close>
theorem radio_settings_safe:
  "radio_ok (device_new m) \<and> radio_ok (cx_device (set_config H (Some (CfgLora l)) c))
   \<and> (radio_ok (cx_device c) \<longrightarrow> radio_ok (cx_device (admin_dispatch H now r q bs via_lora c))
        \<and> mc_bandwidth_hz (fst (lora_params E (cx_device c))) \<noteq> 0)"
proof -
  have "mc_bandwidth_hz (preset_config p) \<noteq> 0" for p by (cases p) (simp_all add: preset_config_def)
  moreover have "radio_ok (cx_device (admin_dispatch H now r q bs via_lora c))" if "radio_ok (cx_device c)"
    using that by (simp add: admin_dispatch_def admin_perform_radio split: option.split)
  moreover have "radio_ok (cx_device (set_config H (Some (CfgLora l)) c))"
    by (simp add: set_config_def apply_lora_config_radio)
  ultimately show ?thesis
    using device_new_radio by (simp add: lora_params_def Let_def radio_ok_def)
qed

text \<open>What the phone sets is what it reads back.  For a radio configuration with a known preset and
  region and values in range, the answer to a later request for it is the configuration that was set
  (the bandwidth code 1625, a second name of 1600, is excluded).\<close>
lemma lora_config_roundtrip:
  assumes "env_preset (h_env H) (uint (ucast (lc_modem_preset l) :: u8)) = Some p"
    and "ucast (env_preset_num (h_env H) p) = lc_modem_preset l"
    and "env_region (h_env H) (uint (ucast (lc_region l) :: u8)) = Some rg" and "ucast (h_region_num H rg) = lc_region l"
    and "5 \<le> lc_spread_factor l" and "lc_spread_factor l \<le> 12" and "4 \<le> lc_coding_rate l" and "lc_coding_rate l \<le> 8"
    and "0 < lc_bandwidth l" and "lc_bandwidth l < 65536" and "lc_bandwidth l \<noteq> 1625" and "lc_hop_limit l \<le> 7"
    and "lc_tx_power l = LORA_TX_POWER_DBM"
  shows "get_config H now r q LoraConfig via_lora (set_config H (Some (CfgLora l)) c)
    = send_admin_response H now r q (GetConfigResponse (CfgLora l)) via_lora (set_config H (Some (CfgLora l)) c)"
proof -
  have small: "ucast (ucast n :: u8) = n" if "n \<le> 12" for n :: u32
    using that by (simp add: word_unat_eq_iff unsigned_ucast_eq unsigned_take_bit_eq take_bit_nat_eq_self word_le_nat_alt)
  have code: "ucast (ucast n :: u16) = n" if "n < 65536" for n :: u32
    using that by (simp add: word_unat_eq_iff unsigned_ucast_eq unsigned_take_bit_eq take_bit_nat_eq_self word_less_nat_alt)
  have bw: "ucast (bw_hz_to_code (clamp_custom_bw_hz (lc_bandwidth l))) = lc_bandwidth l"
  proof -
    let ?n = "ucast (lc_bandwidth l) :: u16"
    have n: "ucast ?n = lc_bandwidth l" by (rule code [OF assms(10)])
    have "?n \<noteq> 1625" "?n \<noteq> 0" using n assms(9,11) by auto
    then have "bw_hz_to_code (bw_code_to_hz ?n) = ?n" by (simp add: bw_code_roundtrip)
    moreover from this \<open>?n \<noteq> 0\<close> have "bw_code_to_hz ?n \<noteq> 0" by (auto simp: bw_hz_to_code_def)
    ultimately show ?thesis using n by (simp add: clamp_custom_bw_hz_def Let_def)
  qed
  have hop: "ucast (min (ucast (lc_hop_limit l)) MAX_HOP_LIMIT) = lc_hop_limit l"
  proof -
    have "lc_hop_limit l \<le> 12" using assms(12) by (simp add: word_le_nat_alt)
    then have "ucast (lc_hop_limit l) \<le> MAX_HOP_LIMIT"
      using ucast_small [of "lc_hop_limit l"] assms(12) by (simp add: word_le_nat_alt const_defs)
    then show ?thesis using small [OF \<open>lc_hop_limit l \<le> 12\<close>] by (simp add: min_def)
  qed
  have "lc_coding_rate l \<le> 12" using assms(8) by (simp add: word_le_nat_alt)
  then have "build_lora_config (h_env H) (apply_lora_config H l (cx_device c)) = l"
    using assms bw hop small [OF assms(6)] small [of "lc_coding_rate l"]
    by (simp add: build_lora_config_def apply_lora_config_def preset_from_proto_def region_from_proto_def
        clamp_custom_sf_def clamp_custom_cr_def)
  then show ?thesis by (simp add: get_config_def set_config_def)
qed

section \<open>Witnesses\<close>

lemma remote_admin_needs_key_witness:
  "fold (\<lambda>(t, r, q, bs). admin_dispatch example_host t r q bs True) [(0, 5, 1, [1]), (10, 5, 2, [])] example_ctx
     = example_ctx"
  using remote_admin_needs_key [where c = example_ctx and H = example_host] by (simp add: example_ctx_def)

lemma radio_settings_safe_witness: "mc_bandwidth_hz (fst (lora_params toy_env (cx_device example_ctx))) \<noteq> 0"
  using radio_settings_safe [where c = example_ctx] by (simp add: example_ctx_def toy_device_def)

end
