(* ===== verification/Periodic.thy ===== *)
theory Periodic
  imports Example_Node
begin

text \<open>
  \<open>handlers/periodic.rs\<close> and \<open>outgoing/telemetry.rs\<close>: the broadcasts a node makes on its own, their
  intervals, which depend on role and congestion, and the airtime gates in front of them.
\<close>

section \<open>Intervals\<close>

definition TWO_HOURS_MS :: u64 where [const_defs]: "TWO_HOURS_MS = 7200000"

definition congestion_scale :: "instant \<Rightarrow> 'f ctx \<Rightarrow> f32" where
  "congestion_scale now c =
     (let n = online_count (of_nat now) TWO_HOURS_MS (cx_node_db c)
      in if n \<le> 40 then 1 else fl (1 + fl (fl (of_nat (n - 40)) * fl (75 / 1000))))"

definition role_scaled_interval_ms :: "device_role \<Rightarrow> nat \<Rightarrow> f32 \<Rightarrow> nat" where
  "role_scaled_interval_ms r base_ms scale =
     (if r = Repeater \<or> r = ClientHidden then 0
      else if r = Router \<or> r = RouterClient then ROUTER_BROADCAST_INTERVAL_MS
      else min (nat \<lfloor>fl (fl (of_nat base_ms) * scale)\<rfloor>) (2 ^ 64 - 1))"

definition nodeinfo_interval_ms :: "instant \<Rightarrow> 'f ctx \<Rightarrow> nat" where
  "nodeinfo_interval_ms now c =
     role_scaled_interval_ms (role (cx_device c)) NODEINFO_BROADCAST_INTERVAL_MS (congestion_scale now c)"

definition position_interval_ms :: "instant \<Rightarrow> 'f ctx \<Rightarrow> nat" where
  "position_interval_ms now c =
     role_scaled_interval_ms (role (cx_device c)) POSITION_BROADCAST_INTERVAL_MS (congestion_scale now c)"

definition telemetry_interval_ms :: "instant \<Rightarrow> 'f ctx \<Rightarrow> nat" where
  "telemetry_interval_ms now c =
     role_scaled_interval_ms (role (cx_device c)) TELEMETRY_LORA_INTERVAL_MS (congestion_scale now c)"

section \<open>Broadcasts\<close>

definition broadcast_nodeinfo :: "'f host \<Rightarrow> instant \<Rightarrow> 'f ctx \<Rightarrow> 'f ctx" where
  "broadcast_nodeinfo H now c =
     (let (c, sent) = lora_send H NODEINFO_APP (nodeinfo_payload H c) BROADCAST_ADDR False c
      in if sent then c\<lparr>cx_last_nodeinfo_tx := Some now\<rparr> else c)"

definition broadcast_position :: "'f host \<Rightarrow> instant \<Rightarrow> 'f ctx \<Rightarrow> 'f ctx" where
  "broadcast_position H now c =
     (if cx_my_position_bytes c = [] then c
      else let (c, sent) = lora_send H POSITION_APP (cx_my_position_bytes c) BROADCAST_ADDR False c
           in if sent then c\<lparr>cx_last_position_tx := now\<rparr> else c)"

definition neighbor_of :: "node_entry \<Rightarrow> neighbor" where
  "neighbor_of e = \<lparr>nb_node_id = n_num e, nb_snr = entry_snr e, nb_last_rx_time = n_last_heard e,
     nb_broadcast_interval_secs = of_nat (NODEINFO_BROADCAST_INTERVAL_MS div 1000)\<rparr>"

definition broadcast_neighborinfo :: "'f host \<Rightarrow> instant \<Rightarrow> 'f ctx \<Rightarrow> 'f ctx" where
  "broadcast_neighborinfo H now c =
     (let my = my_node_num (cx_device c);
          neighbors = map neighbor_of (filter (\<lambda>e. n_num e \<noteq> my) (db_nodes (cx_node_db c)))
      in if neighbors = [] then c\<lparr>cx_last_neighborinfo_tx := Some now\<rparr>
         else (fst (lora_send H NEIGHBORINFO_APP (pc_neighbor_enc (h_codec H) \<lparr>ni_node_id = my, ni_last_sent_by_id = my,
                 ni_broadcast_interval_secs = of_nat (NEIGHBORINFO_BROADCAST_INTERVAL_MS div 1000),
                 ni_neighbors = neighbors\<rparr>) BROADCAST_ADDR False c))\<lparr>cx_last_neighborinfo_tx := Some now\<rparr>)"

definition telemetry_payload :: "'f host \<Rightarrow> u8 \<Rightarrow> f32 \<Rightarrow> f32 \<Rightarrow> f32 \<Rightarrow> u32 \<Rightarrow> bytes" where
  "telemetry_payload H battery_level voltage_v channel_utilization air_util uptime_seconds =
     pc_telemetry_enc (h_codec H) \<lparr>tm_time = 0, tm_variant = Some (DeviceMetrics
       \<lparr>dm_battery_level = Some (ucast battery_level), dm_voltage = Some voltage_v,
        dm_channel_utilization = Some channel_utilization, dm_air_util_tx = Some air_util,
        dm_uptime_seconds = Some uptime_seconds\<rparr>)\<rparr>"

definition telemetry_due :: "instant \<Rightarrow> 'f ctx \<Rightarrow> bool" where
  "telemetry_due now c \<longleftrightarrow>
     0 < telemetry_interval_ms now c \<and> channel_util (cx_metrics c) < CHANNEL_UTIL_THRESHOLD
     \<and> (case cx_last_lora_telemetry c of Some t \<Rightarrow> telemetry_interval_ms now c \<le> now - t | None \<Rightarrow> True)"

definition send_device_telemetry :: "'f host \<Rightarrow> instant \<Rightarrow> u8 \<Rightarrow> u16 \<Rightarrow> 'f ctx \<Rightarrow> 'f ctx" where
  "send_device_telemetry H now battery_level voltage_mv c =
     (let voltage_v = fl (fl (of_nat (unat voltage_mv)) / 1000);
          pl = telemetry_payload H battery_level voltage_v (channel_util (cx_metrics c)) (air_util_tx (cx_metrics c))
            (of_nat ((now - cx_boot_time c) div 1000));
          c = (if telemetry_due now c
               then (let (c, sent) = lora_send H TELEMETRY_APP pl BROADCAST_ADDR False c
                     in if sent then c\<lparr>cx_last_lora_telemetry := Some now\<rparr> else c)
               else c)
      in if cx_ble_connected c then
           (let (c, packet_id) = ctx_packet_id c
            in push_from_radio H (FrPacket (mesh_packet_default\<lparr>mp_from := my_node_num (cx_device c),
                 mp_to := BROADCAST_ADDR, mp_id := packet_id, mp_payload := Some (Decoded
                   (data_default\<lparr>d_portnum := TELEMETRY_APP, d_payload := pl\<rparr>))\<rparr>)) c)
         else c)"

definition nodeinfo_due :: "instant \<Rightarrow> 'f ctx \<Rightarrow> bool" where
  "nodeinfo_due now c \<longleftrightarrow> 0 < nodeinfo_interval_ms now c
     \<and> nodeinfo_interval_ms now c \<le> now - (case cx_last_nodeinfo_tx c of Some t \<Rightarrow> t | None \<Rightarrow> 0)"

definition neighborinfo_due :: "instant \<Rightarrow> 'f ctx \<Rightarrow> bool" where
  "neighborinfo_due now c \<longleftrightarrow> NEIGHBORINFO_BROADCAST_INTERVAL_MS
     \<le> now - (case cx_last_neighborinfo_tx c of Some t \<Rightarrow> t | None \<Rightarrow> cx_boot_time c)"

definition position_due :: "instant \<Rightarrow> 'f ctx \<Rightarrow> bool" where
  "position_due now c \<longleftrightarrow> 0 < position_interval_ms now c \<and> cx_my_position_bytes c \<noteq> []
     \<and> position_interval_ms now c \<le> now - cx_last_position_tx c"

definition periodic_dispatch :: "'f host \<Rightarrow> instant \<Rightarrow> 'f ctx \<Rightarrow> 'f ctx" where
  "periodic_dispatch H now c =
     (let polite_ok = tx_allowed_polite (cx_metrics c) (ctx_region H c);
          c = (if nodeinfo_due now c \<and> polite_ok then broadcast_nodeinfo H now c else c);
          c = (if neighborinfo_due now c \<and> polite_ok then broadcast_neighborinfo H now c else c)
      in if position_due now c \<and> polite_ok then broadcast_position H now c else c)"

section \<open>Lemmas\<close>

lemma lora_send_sent_ok: "lora_send H p pl d w c = (c', b) \<Longrightarrow> ctx_ok c \<Longrightarrow> ctx_ok c'"
  and lora_send_sent_core: "lora_send H p pl d w c = (c', b) \<Longrightarrow> core c' = core c"
  using lora_send_ok [of c H p pl d w] lora_send_core [of H p pl d w c] by auto

lemma broadcast_ok:
  assumes "ctx_ok c"
  shows "ctx_ok (broadcast_nodeinfo H now c)" "ctx_ok (broadcast_position H now c)" "ctx_ok (broadcast_neighborinfo H now c)"
  using assms
  by (auto simp: broadcast_nodeinfo_def broadcast_position_def broadcast_neighborinfo_def Let_def ctx_ok_fields lora_send_ok
      split: prod.split dest: lora_send_sent_ok)

lemma broadcast_core [simp]:
  "core (broadcast_nodeinfo H now c) = core c" "core (broadcast_position H now c) = core c"
  "core (broadcast_neighborinfo H now c) = core c"
  by (auto simp: broadcast_nodeinfo_def broadcast_position_def broadcast_neighborinfo_def Let_def
      split: prod.split dest: lora_send_sent_core)

lemma periodic_dispatch_ok: "ctx_ok c \<Longrightarrow> ctx_ok (periodic_dispatch H now c)"
  and periodic_dispatch_core [simp]: "core (periodic_dispatch H now c) = core c"
  by (simp_all add: periodic_dispatch_def Let_def broadcast_ok)

lemma telemetry_lora_ok:
  assumes "ctx_ok c"
  shows "ctx_ok (case lora_send H p pl d w c of (c, sent) \<Rightarrow> if sent then c\<lparr>cx_last_lora_telemetry := t\<rparr> else c)"
  using assms by (auto simp: ctx_ok_fields split: prod.split dest: lora_send_sent_ok)

lemma ctx_packet_push_ok: "ctx_ok c \<Longrightarrow> ctx_ok (case ctx_packet_id c of (c, pid) \<Rightarrow> push_from_radio H (v c pid) c)"
  and ctx_packet_push_core: "core (case ctx_packet_id c of (c, pid) \<Rightarrow> push_from_radio H (v c pid) c) = core c"
  using ctx_packet_id_ok [of c] by (auto split: prod.split)

lemma send_device_telemetry_ok: "ctx_ok c \<Longrightarrow> ctx_ok (send_device_telemetry H now b v c)"
  and send_device_telemetry_core [simp]: "core (send_device_telemetry H now b v c) = core c"
proof -
  have "core (case lora_send H p pl d w c of (c, sent) \<Rightarrow> if sent then c\<lparr>cx_last_lora_telemetry := t\<rparr> else c) = core c"
    for p pl d w t by (auto split: prod.split dest: lora_send_sent_core)
  then show "core (send_device_telemetry H now b v c) = core c"
    by (simp add: send_device_telemetry_def Let_def ctx_packet_push_core)
qed (simp add: send_device_telemetry_def Let_def ctx_packet_push_ok telemetry_lora_ok)

section \<open>Properties\<close>

lemma fl_bases: "fl 10800000 = 10800000" "fl 900000 = 900000" "fl 3600000 = 3600000" "fl 1 = 1"
  by (simp_all add: fl_def exp2_def ilog2.simps two_to_def Let_def round_even_def)

lemma congestion_scale_ge_1: "1 \<le> congestion_scale now c"
proof -
  have "fl 1 \<le> fl (1 + x)" if "0 \<le> x" for x :: rat using that by (intro fl_mono) simp
  then show ?thesis by (simp add: congestion_scale_def Let_def fl_nonneg fl_bases(4))
qed

lemma scaled_ge:
  assumes "fl (of_nat base) = of_nat base" "base < 2 ^ 64" "1 \<le> scale" "r \<notin> {Repeater, ClientHidden, Router, RouterClient}"
  shows "base \<le> role_scaled_interval_ms r base scale" "role_scaled_interval_ms r base 1 = base"
proof -
  have "of_nat base \<le> fl (of_nat base * scale)"
  proof -
    have "of_nat base * 1 \<le> of_nat base * scale" using assms(3) by (intro mult_left_mono) simp_all
    then have "fl (of_nat base) \<le> fl (of_nat base * scale)" by (intro fl_mono) simp
    with assms(1) show ?thesis by simp
  qed
  then have "int base \<le> \<lfloor>fl (of_nat base * scale)\<rfloor>" by (simp add: le_floor_iff)
  then have "base \<le> nat \<lfloor>fl (of_nat base * scale)\<rfloor>" by simp
  then show "base \<le> role_scaled_interval_ms r base scale" "role_scaled_interval_ms r base 1 = base"
    using assms by (auto simp: role_scaled_interval_ms_def)
qed

text \<open>A node never broadcasts more often than configured.  For every role but the four special ones,
  the intervals of NodeInfo, position and telemetry are at least 3 hours, 15 minutes and 1 hour, and
  exactly these while at most 40 nodes are online; routers use 12 hours for all, repeaters and hidden
  clients are silent.\<close>
lemma broadcast_intervals:
  "(if role (cx_device c) \<in> {Repeater, ClientHidden}
    then nodeinfo_interval_ms now c = 0 \<and> position_interval_ms now c = 0 \<and> telemetry_interval_ms now c = 0
    else if role (cx_device c) \<in> {Router, RouterClient}
    then nodeinfo_interval_ms now c = 43200000 \<and> position_interval_ms now c = 43200000 \<and> telemetry_interval_ms now c = 43200000
    else 10800000 \<le> nodeinfo_interval_ms now c \<and> 900000 \<le> position_interval_ms now c \<and> 3600000 \<le> telemetry_interval_ms now c
      \<and> (online_count (of_nat now) TWO_HOURS_MS (cx_node_db c) \<le> 40 \<longrightarrow>
          nodeinfo_interval_ms now c = 10800000 \<and> position_interval_ms now c = 900000 \<and> telemetry_interval_ms now c = 3600000))"
proof -
  let ?r = "role (cx_device c)"
  have one: "congestion_scale now c = 1" if "online_count (of_nat now) TWO_HOURS_MS (cx_node_db c) \<le> 40"
    using that by (simp add: congestion_scale_def)
  have ordinary: "10800000 \<le> nodeinfo_interval_ms now c" "900000 \<le> position_interval_ms now c"
    "3600000 \<le> telemetry_interval_ms now c"
    "congestion_scale now c = 1 \<Longrightarrow> nodeinfo_interval_ms now c = 10800000 \<and> position_interval_ms now c = 900000
       \<and> telemetry_interval_ms now c = 3600000"
    if r: "?r \<notin> {Repeater, ClientHidden, Router, RouterClient}"
    using scaled_ge(1) [OF _ _ congestion_scale_ge_1 r, of 10800000 now c]
      scaled_ge(1) [OF _ _ congestion_scale_ge_1 r, of 900000 now c]
      scaled_ge(1) [OF _ _ congestion_scale_ge_1 r, of 3600000 now c]
      scaled_ge(2) [OF _ _ order_refl r, of 10800000] scaled_ge(2) [OF _ _ order_refl r, of 900000]
      scaled_ge(2) [OF _ _ order_refl r, of 3600000]
    by (simp_all add: nodeinfo_interval_ms_def position_interval_ms_def telemetry_interval_ms_def const_defs fl_bases)
  show ?thesis
    using ordinary one
    by (auto simp: nodeinfo_interval_ms_def position_interval_ms_def telemetry_interval_ms_def
        role_scaled_interval_ms_def const_defs)
qed

lemma lora_send_quiet: "\<not> tx_allowed_impolite (cx_metrics c) (ctx_region H c) \<Longrightarrow> lora_send H p pl d w c = (c, False)"
  by (simp add: lora_send_def)

lemma busy_not_impolite: "40 \<le> channel_util m \<Longrightarrow> \<not> tx_allowed_impolite m r"
  by (simp add: tx_allowed_impolite_def is_tx_allowed_channel_util_def const_defs)

text \<open>Background traffic yields to the channel.  While the channel is busy to 25 percent or more, or
  half of the region's duty cycle is used up, the tick changes nothing; from 25 percent on no telemetry
  goes out over the radio, whatever is due.\<close>
lemma background_yields:
  "(25 \<le> channel_util (cx_metrics c) \<or> fl (duty_cycle_pct (ctx_region H c) * (1 / 2)) \<le> air_util_tx (cx_metrics c)
      \<longrightarrow> periodic_dispatch H now c = c)
    \<and> (25 \<le> channel_util (cx_metrics c) \<longrightarrow>
        cx_to_lora (send_device_telemetry H now battery voltage c) = cx_to_lora c)"
proof -
  have "periodic_dispatch H now c = c" if "\<not> tx_allowed_polite (cx_metrics c) (ctx_region H c)"
    using that by (simp add: periodic_dispatch_def Let_def)
  moreover have "cx_to_lora (case ctx_packet_id c of (c, pid) \<Rightarrow> push_from_radio H (v c pid) c) = cx_to_lora c" for v
    by (simp add: ctx_packet_id_def push_from_radio_def push_with_def split_beta Let_def)
  ultimately show ?thesis
    by (auto simp: tx_allowed_polite_def is_tx_allowed_channel_util_def is_tx_allowed_air_util_def const_defs Let_def
        send_device_telemetry_def telemetry_due_def)
qed

section \<open>Witnesses\<close>

end
