(* ===== verification/Mesh_Task.thy ===== *)
theory Mesh_Task
  imports From_App Periodic Nvs_Flash
begin

text \<open>
  \<open>handlers/mod.rs\<close> and \<open>tasks/mesh_task.rs\<close>: the event loop that owns the state.  \<open>MeshState\<close> keeps the
  fields of the handlers' context, the time of the last flush of the node table, and the signals to
  the watchdog and the BLE task.  One turn of the loop is a step; what the radio, BLE and LED tasks
  take from the queues are steps of their own.
\<close>

section \<open>Dispatch of an event\<close>

definition mesh_dispatch :: "'f host \<Rightarrow> instant \<Rightarrow> mesh_event \<Rightarrow> 'f ctx \<Rightarrow> 'f ctx" where
  "mesh_dispatch H now event c =
     (case event of
        LoraRx frame meta \<Rightarrow> from_radio_dispatch H now frame meta c
      | BleRx msg \<Rightarrow> from_app_dispatch H now msg c
      | BleConnected \<Rightarrow> c\<lparr>cx_ble_connected := True\<rparr>
      | BleDisconnected \<Rightarrow> c\<lparr>cx_ble_connected := False\<rparr>
      | BondSave bond \<Rightarrow> c\<lparr>cx_storage := fst (save_bond (h_flash H) bond (cx_storage c))\<rparr>
      | BondClear \<Rightarrow> c\<lparr>cx_storage := clear_bond (h_flash H) (cx_storage c)\<rparr>
      | BatteryUpdate level voltage_mv \<Rightarrow> send_device_telemetry H now level voltage_mv c
      | ChannelUtilUpdate u a \<Rightarrow> c\<lparr>cx_metrics := \<lparr>channel_util = u, air_util_tx = a\<rparr>\<rparr>
      | Tick \<Rightarrow> periodic_dispatch H now c)"

section \<open>The state of the task\<close>

definition NODE_DB_FLUSH_INTERVAL_MS :: nat where [const_defs]: "NODE_DB_FLUSH_INTERVAL_MS = 300000"

record 'f mesh_state =
  ms_ctx :: "'f ctx"
  ms_last_node_db_flush :: instant
  ms_activity :: "instant option"
  ms_radio_stats :: "(16 word \<times> i8) option"
  ms_shutdown_cmd :: "u32 option"
  ms_rebooting :: "u32 option"

text \<open>\<open>MeshState::new\<close> with empty queues; the board copies the loaded \<open>tx_enabled\<close> into the radio's gate.\<close>

definition mesh_state_new :: "'f host \<Rightarrow> bytes \<Rightarrow> 'f nvs \<Rightarrow> bytes \<times> bytes \<Rightarrow> instant \<Rightarrow> 'f mesh_state" where
  "mesh_state_new H m storage pkc_keypair now =
     (let device = device_new m;
          node_num = my_node_num device;
          device = load_state (h_env H) (h_flash H) storage device;
          node_db = load_node_db (h_flash H) storage (node_db_new node_num)
      in \<lparr>ms_ctx = \<lparr>cx_device = device, cx_node_db = node_db, cx_storage = storage, cx_router = router_new node_num,
            cx_pending_packets = [], cx_pending_rebroadcast = [], cx_my_position_bytes = [],
            cx_session_passkey = None, cx_from_radio_id = 1, cx_ble_connected = False, cx_last_nodeinfo_tx = None,
            cx_last_position_tx = now, cx_last_lora_telemetry = None, cx_last_neighborinfo_tx = None,
            cx_metrics = \<lparr>channel_util = 0, air_util_tx = 0\<rparr>, cx_reboot_after_secs = None,
            cx_shutdown_after_secs = None, cx_node_id_str = build_node_id_string node_num, cx_boot_time = now,
            cx_pkc_pub = snd pkc_keypair, cx_pkc_priv = fst pkc_keypair, cx_to_ble = [], cx_to_lora = [],
            cx_led = [], cx_disconn = [], cx_drawn = 0, cx_tx_enabled = tx_enabled device\<rparr>,
          ms_last_node_db_flush = now, ms_activity = None, ms_radio_stats = None, ms_shutdown_cmd = None,
          ms_rebooting = None\<rparr>)"

section \<open>Waiting for the next event\<close>

text \<open>What is noted of an event from the queue before it is returned.\<close>

definition is_own_frame :: "'f ctx \<Rightarrow> radio_frame \<Rightarrow> bool" where
  "is_own_frame c frame = (case header frame of Some h \<Rightarrow> h_sender h = my_node_num (cx_device c) | None \<Rightarrow> False)"

definition note_event :: "instant \<Rightarrow> mesh_event \<Rightarrow> 'f mesh_state \<Rightarrow> 'f mesh_state" where
  "note_event now event s =
     (case event of
        LoraRx frame meta \<Rightarrow>
          (let c = ms_ctx s;
               s = (if is_own_frame c frame then s else s\<lparr>ms_activity := Some now\<rparr>)
           in s\<lparr>ms_ctx := c\<lparr>cx_pending_packets :=
                  extend_pending_deadlines RETX_AIRTIME_EXTENSION_MS (cx_pending_packets c)\<rparr>,
                ms_radio_stats := Some (rm_rssi meta, rm_snr meta)\<rparr>)
      | BleRx _ \<Rightarrow> s\<lparr>ms_activity := Some now\<rparr>
      | BleConnected \<Rightarrow> s\<lparr>ms_activity := Some now\<rparr>
      | _ \<Rightarrow> s)"

text \<open>The rebroadcast timer fired: the entry with the earliest deadline is transmitted.\<close>

definition send_due_rebroadcast :: "'f ctx \<Rightarrow> 'f ctx" where
  "send_due_rebroadcast c =
     (case min_idx rb_deadline (cx_pending_rebroadcast c) of
        Some idx \<Rightarrow> queue_lora (rb_frame (cx_pending_rebroadcast c ! idx))
          (c\<lparr>cx_pending_rebroadcast := swap_remove idx (cx_pending_rebroadcast c)\<rparr>)
      | None \<Rightarrow> c)"

text \<open>The retransmission timer fired: frames to repeat go out, given-up packets are reported.\<close>

definition retransmit :: "'f host \<Rightarrow> instant \<Rightarrow> 'f ctx \<Rightarrow> 'f ctx" where
  "retransmit H now c =
     (case tick_retransmissions now (cx_pending_packets c) (cx_node_db c) of
        (pending, db, result) \<Rightarrow>
          fold (\<lambda>(dest, packet_id). send_ble_routing_result H dest packet_id MaxRetransmit) (rr_gave_up result)
            (fold queue_lora (rr_to_send result) (c\<lparr>cx_pending_packets := pending, cx_node_db := db\<rparr>)))"

definition heartbeat_led :: "'f ctx \<Rightarrow> 'f ctx" where
  "heartbeat_led c = c\<lparr>cx_led := try_send LED_QUEUE_SIZE (cx_led c) Heartbeat\<rparr>"

section \<open>One turn of the loop\<close>

definition save_nodes :: "'f host \<Rightarrow> 'f ctx \<Rightarrow> 'f ctx" where
  "save_nodes H c =
     (case save_node_db (h_sort H) (h_flash H) (cx_node_db c) (cx_storage c) of
        (st, Inl _) \<Rightarrow> c\<lparr>cx_storage := st\<rparr>
      | (st, Inr _) \<Rightarrow> c\<lparr>cx_storage := st, cx_node_db := mark_clean (cx_node_db c)\<rparr>)"

definition flush_node_db :: "'f host \<Rightarrow> instant \<Rightarrow> 'f mesh_state \<Rightarrow> 'f mesh_state" where
  "flush_node_db H now s =
     (if db_dirty (cx_node_db (ms_ctx s)) \<and> NODE_DB_FLUSH_INTERVAL_MS \<le> now - ms_last_node_db_flush s
      then s\<lparr>ms_ctx := save_nodes H (ms_ctx s), ms_last_node_db_flush := now\<rparr> else s)"

definition forward_shutdown :: "'f host \<Rightarrow> 'f mesh_state \<Rightarrow> 'f mesh_state" where
  "forward_shutdown H s =
     (case cx_shutdown_after_secs (ms_ctx s) of
        None \<Rightarrow> s
      | Some secs \<Rightarrow>
          (let c = (ms_ctx s)\<lparr>cx_shutdown_after_secs := None\<rparr>;
               c = (if db_dirty (cx_node_db c) then save_nodes H c else c)
           in s\<lparr>ms_ctx := c, ms_shutdown_cmd := Some secs\<rparr>))"

definition take_reboot :: "'f mesh_state \<Rightarrow> 'f mesh_state" where
  "take_reboot s =
     (case cx_reboot_after_secs (ms_ctx s) of
        None \<Rightarrow> s
      | Some secs \<Rightarrow> s\<lparr>ms_ctx := (ms_ctx s)\<lparr>cx_reboot_after_secs := None\<rparr>, ms_rebooting := Some secs\<rparr>)"

definition finish_turn :: "'f host \<Rightarrow> instant \<Rightarrow> 'f mesh_state \<Rightarrow> 'f mesh_state" where
  "finish_turn H now s = take_reboot (forward_shutdown H (flush_node_db H now s))"

definition turn :: "'f host \<Rightarrow> instant \<Rightarrow> mesh_event \<Rightarrow> 'f mesh_state \<Rightarrow> 'f mesh_state" where
  "turn H now event s = finish_turn H now (s\<lparr>ms_ctx := mesh_dispatch H now event (ms_ctx s)\<rparr>)"

text \<open>The node introduces itself 30 seconds after boot, before the first turn.\<close>

definition announce :: "'f host \<Rightarrow> instant \<Rightarrow> 'f mesh_state \<Rightarrow> 'f mesh_state" where
  "announce H now s = s\<lparr>ms_ctx := broadcast_nodeinfo H now (ms_ctx s)\<rparr>"

text \<open>What the tasks that feed the queue guarantee of their events.\<close>

definition event_ok :: "mesh_event \<Rightarrow> bool" where
  "event_ok e \<longleftrightarrow> (case e of LoraRx f _ \<Rightarrow> frame_ok f | BleRx d \<Rightarrow> length d \<le> 512 | BondSave b \<Rightarrow> length b = 48 | _ \<Rightarrow> True)"

text \<open>The flash holds a sound ring, and a configuration with at most seven hops or none.\<close>

definition boot_ok :: "'f host \<Rightarrow> 'f nvs \<Rightarrow> bool" where
  "boot_ok H st \<longleftrightarrow> nvs_ok st
     \<and> (\<forall>saved. load_config (h_flash H) st = Some saved \<longrightarrow> sv_hop_limit saved \<le> MAX_HOP_LIMIT)"

inductive mesh_step :: "'f host \<Rightarrow> 'f mesh_state \<Rightarrow> 'f mesh_state \<Rightarrow> bool" for H where
  Receive: "ms_rebooting s = None \<Longrightarrow> event_ok event \<Longrightarrow> mesh_step H s (turn H now event (note_event now event s))"
| Beat: "ms_rebooting s = None \<Longrightarrow> mesh_step H s (turn H now Tick (s\<lparr>ms_ctx := heartbeat_led (ms_ctx s)\<rparr>))"
| Rebroadcast: "ms_rebooting s = None \<Longrightarrow> p \<in> set (cx_pending_rebroadcast (ms_ctx s)) \<Longrightarrow> rb_deadline p \<le> now
    \<Longrightarrow> mesh_step H s (s\<lparr>ms_ctx := send_due_rebroadcast (ms_ctx s)\<rparr>)"
| Retransmit: "ms_rebooting s = None \<Longrightarrow> p \<in> set (cx_pending_packets (ms_ctx s)) \<Longrightarrow> pp_deadline p \<le> now
    \<Longrightarrow> mesh_step H s (s\<lparr>ms_ctx := retransmit H now (ms_ctx s)\<rparr>)"
| Radio_takes: "cx_to_lora (ms_ctx s) = f # fs \<Longrightarrow> mesh_step H s (s\<lparr>ms_ctx := (ms_ctx s)\<lparr>cx_to_lora := fs\<rparr>\<rparr>)"
| Ble_takes: "cx_to_ble (ms_ctx s) = x # xs \<Longrightarrow> mesh_step H s (s\<lparr>ms_ctx := (ms_ctx s)\<lparr>cx_to_ble := xs\<rparr>\<rparr>)"
| Led_takes: "cx_led (ms_ctx s) = l # ls \<Longrightarrow> mesh_step H s (s\<lparr>ms_ctx := (ms_ctx s)\<lparr>cx_led := ls\<rparr>\<rparr>)"
| Disconnects: "cx_disconn (ms_ctx s) = u # us \<Longrightarrow> mesh_step H s (s\<lparr>ms_ctx := (ms_ctx s)\<lparr>cx_disconn := us\<rparr>\<rparr>)"

inductive reachable :: "'f host \<Rightarrow> bytes \<Rightarrow> 'f mesh_state \<Rightarrow> bool" for H m where
  Boot: "length m = 6 \<Longrightarrow> boot_ok H storage \<Longrightarrow>
    reachable H m (announce H (t + NODEINFO_BOOT_DELAY_MS) (mesh_state_new H m storage keys t))"
| Step: "reachable H m s \<Longrightarrow> mesh_step H s s' \<Longrightarrow> reachable H m s'"

section \<open>Every reachable state is well-formed\<close>

lemma apply_channel_ok:
  assumes "channels_ok cs" and "\<forall>c. Some c \<in> set cs \<longrightarrow> utf8_valid (ch_name c)"
  shows "channels_ok (apply_channel sc cs) \<and> (\<forall>c. Some c \<in> set (apply_channel sc cs) \<longrightarrow> utf8_valid (ch_name c))"
proof -
  let ?name = "case from_utf8 (take (unat (sc_name_len sc)) (sc_name sc)) of
     Some s \<Rightarrow> vec_extend CHANNEL_NAME_CAP [] s | None \<Rightarrow> []"
  let ?psk = "vec_extend PSK_CAP [] (take (unat (sc_psk_len sc)) (sc_psk sc))"
  have name: "utf8_valid ?name" "length ?name \<le> CHANNEL_NAME_CAP"
    by (auto simp: from_utf8_def length_vec_extend utf8_vec_extend split: option.split)
  have psk: "length ?psk \<le> PSK_CAP" by (simp add: length_vec_extend)
  have set: "channels_ok (chan_set (sc_index sc) ch cs)" "\<forall>c. Some c \<in> set (chan_set (sc_index sc) ch cs) \<longrightarrow> utf8_valid (ch_name c)"
    if ch: "ch_index ch = sc_index sc" "ch_name ch = ?name" "ch_psk ch = ?psk" for ch
  proof -
    show "channels_ok (chan_set (sc_index sc) ch cs)" using ch assms(1) psk name(2) by (intro chan_set_ok) simp_all
    show "\<forall>c. Some c \<in> set (chan_set (sc_index sc) ch cs) \<longrightarrow> utf8_valid (ch_name c)"
      using assms(2) name(1) ch(2) chan_set_mem [of _ "sc_index sc" ch cs] by metis
  qed
  let ?ch = "\<lambda>r. \<lparr>ch_index = sc_index sc, ch_name = ?name, ch_psk = ?psk, ch_role = r\<rparr>"
  consider "apply_channel sc cs = cs" | r where "apply_channel sc cs = chan_set (sc_index sc) (?ch r) cs"
    by (cases "sc_role sc = 1"; cases "sc_role sc = 2") (simp_all add: apply_channel_def Let_def)
  then show ?thesis
  proof cases
    case (2 r)
    then show ?thesis using set [of "?ch r"] by simp
  qed (use assms in simp)
qed

lemma load_state_ok:
  assumes "device_ok dev" and "\<forall>saved. load_config F st = Some saved \<longrightarrow> sv_hop_limit saved \<le> MAX_HOP_LIMIT"
  shows "device_ok (load_state E F st dev)"
proof (cases "load_config F st")
  case (Some saved)
  have name: "utf8_valid old \<Longrightarrow> length old \<le> cap \<Longrightarrow>
      utf8_valid (apply_name cap l arr old) \<and> length (apply_name cap l arr old) \<le> cap" for cap l arr old
    by (auto simp: apply_name_def from_utf8_def length_vec_extend utf8_vec_extend split: option.split)
  have "channels_ok (fold apply_channel scs cs) \<and> (\<forall>c. Some c \<in> set (fold apply_channel scs cs) \<longrightarrow> utf8_valid (ch_name c))"
    if "channels_ok cs" "\<forall>c. Some c \<in> set cs \<longrightarrow> utf8_valid (ch_name c)" for scs cs
    using that
  proof (induction scs arbitrary: cs)
    case (Cons sc scs)
    show ?case unfolding fold.simps comp_apply using apply_channel_ok [OF Cons.prems] by (intro Cons.IH) blast+
  qed simp
  from this [of "channels dev" "take (unat (sv_num_channels saved)) (sv_channels saved)"] show ?thesis
    using assms Some name by (simp add: load_state_def apply_saved_config_def device_ok_def)
qed (use assms in \<open>simp add: load_state_def\<close>)

lemma load_state_num [simp]: "my_node_num (load_state E F st dev) = my_node_num dev"
  by (simp add: load_state_def apply_saved_config_def split: option.split)

lemma load_node_db_ok: "db_ok db \<Longrightarrow> db_ok (load_node_db F st db)"
  by (simp add: load_node_db_def restore_snapshot_ok split: option.split)

lemma mesh_state_new_ok:
  assumes "length m = 6" and "boot_ok H st"
  shows "ctx_ok (ms_ctx (mesh_state_new H m st keys t))"
proof -
  have "device_ok (load_state (h_env H) (h_flash H) st (device_new m))"
    using assms by (intro load_state_ok device_new_ok) (simp_all add: boot_ok_def)
  moreover have "db_ok (load_node_db (h_flash H) st (node_db_new n))" for n by (intro load_node_db_ok) simp
  ultimately show ?thesis using assms(2) by (simp add: mesh_state_new_def Let_def ctx_ok_def boot_ok_def passkey_ok_def)
qed

lemma mesh_dispatch_ok:
  assumes "ctx_ok c" and "event_ok event" and "decodes_strings H"
  shows "ctx_ok (mesh_dispatch H now event c)"
proof -
  have "ctx_ok (c\<lparr>cx_storage := fst (save_bond (h_flash H) b (cx_storage c))\<rparr>)"
    "ctx_ok (c\<lparr>cx_storage := clear_bond (h_flash H) (cx_storage c)\<rparr>)" for b
    using assms(1) by (simp_all add: ctx_ok_def)
  then show ?thesis
    using assms by (cases event) (simp_all add: mesh_dispatch_def event_ok_def from_radio_dispatch_ok from_app_dispatch_ok
        ctx_ok_fields send_device_telemetry_ok periodic_dispatch_ok)
qed

lemma save_nodes_ok: "ctx_ok c \<Longrightarrow> ctx_ok (save_nodes H c)"
proof (cases "save_node_db (h_sort H) (h_flash H) (cx_node_db c) (cx_storage c)")
  case (Pair st r)
  assume ok: "ctx_ok c"
  then have "nvs_ok st" using save_ram(3) [of "h_sort H" "h_flash H" "cx_node_db c" "cx_storage c"] Pair
    by (simp add: ctx_ok_def)
  with ok Pair show ?thesis by (simp add: save_nodes_def ctx_ok_def mark_clean_def db_ok_def split: sum.split)
qed

lemma finish_turn_ok:
  assumes "ctx_ok (ms_ctx s)"
  shows "ctx_ok (ms_ctx (finish_turn H now s))"
proof -
  have "ctx_ok (ms_ctx (flush_node_db H now s))" using assms by (simp add: flush_node_db_def save_nodes_ok)
  then have "ctx_ok (ms_ctx (forward_shutdown H (flush_node_db H now s)))"
    by (auto simp: forward_shutdown_def Let_def ctx_ok_fields save_nodes_ok split: option.split)
  then show ?thesis by (simp add: finish_turn_def take_reboot_def ctx_ok_fields split: option.split)
qed

lemma note_event_ok: "ctx_ok (ms_ctx s) \<Longrightarrow> ctx_ok (ms_ctx (note_event now event s))"
proof -
  assume ok: "ctx_ok (ms_ctx s)"
  then have "ctx_ok ((ms_ctx s)\<lparr>cx_pending_packets := extend_pending_deadlines e (cx_pending_packets (ms_ctx s))\<rparr>)" for e
    by (intro ctx_ok_packets) (auto simp: ctx_ok_def extend_pending_deadlines_def)
  with ok show ?thesis by (cases event) (simp_all add: note_event_def Let_def)
qed

lemma send_due_ok: "ctx_ok c \<Longrightarrow> ctx_ok (send_due_rebroadcast c)"
proof (cases "min_idx rb_deadline (cx_pending_rebroadcast c)")
  case (Some i)
  let ?q = "cx_pending_rebroadcast c"
  assume ok: "ctx_ok c"
  have i: "i < length ?q" using min_idx_SomeD [OF Some] by simp
  have q: "length ?q \<le> REBROADCAST_CAP" "\<forall>p \<in> set ?q. frame_ok (rb_frame p)" using ok by (simp_all add: ctx_ok_def)
  have "ctx_ok (c\<lparr>cx_pending_rebroadcast := swap_remove i ?q\<rparr>)"
    using ok q set_swap_remove_subset [OF i] by (intro ctx_ok_pending) auto
  then show ?thesis using Some q i by (simp add: send_due_rebroadcast_def queue_lora_ok)
qed (simp add: send_due_rebroadcast_def)

text \<open>The retransmission pass: frames keep their form, the table its invariant.\<close>

lemma clear_next_hop_ok: "frame_ok f \<Longrightarrow> frame_ok (clear_next_hop f)"
  by (auto simp: clear_next_hop_def frame_ok_def header_def encode_def const_defs Let_def split: option.split)

lemma rearm_ok: "frame_ok (pp_frame p) \<Longrightarrow> frame_ok (pp_frame (rearm now p))"
  by (simp add: rearm_def Let_def clear_next_hop_ok)

lemma tick_loop_db: "db_ok db \<Longrightarrow> tick_loop now i pending db res = (pending', db', res') \<Longrightarrow> db_ok db'"
proof (induction now i pending db res arbitrary: pending' db' res' rule: tick_loop.induct)
  case (1 now i pending db res)
  have flood: "db_ok (fall_back_to_flood p db)" for p
    using "1.prems"(1) by (auto simp: fall_back_to_flood_def intro!: ndb.inv_update)
  note step = "1.prems"(2) [unfolded tick_loop.simps [of now i pending db res]]
  consider "length pending \<le> i" | "i < length pending" "now < pp_deadline (pending ! i)"
    | "i < length pending" "pp_deadline (pending ! i) \<le> now" "0 < pp_retries_left (pending ! i)"
    | "i < length pending" "pp_deadline (pending ! i) \<le> now" "\<not> 0 < pp_retries_left (pending ! i)"
    by linarith
  then show ?case
  proof cases
    case 1
    then show ?thesis using step "1.prems"(1) by simp
  next
    case 2
    then show ?thesis using step "1.prems"(1) "1.IH"(1) by (simp add: not_le not_less)
  next
    case 3
    then show ?thesis using step flood "1.IH"(2) by (simp add: Let_def not_le not_less)
  next
    case 4
    then show ?thesis using step "1.prems"(1) "1.IH"(3) by (simp add: Let_def not_le not_less)
  qed
qed

lemma fold_queue_lora_ok: "ctx_ok c \<Longrightarrow> \<forall>f \<in> set fs. frame_ok f \<Longrightarrow> ctx_ok (fold queue_lora fs c)"
  by (induction fs arbitrary: c) (simp_all add: queue_lora_ok)

lemma retransmit_ok:
  assumes "ctx_ok c"
  shows "ctx_ok (retransmit H now c)"
proof -
  let ?q = "cx_pending_packets c"
  have q: "length ?q \<le> PENDING_CAP" "\<forall>p \<in> set ?q. frame_ok (pp_frame p)" "db_ok (cx_node_db c)"
    using assms by (simp_all add: ctx_ok_def)
  obtain pending db res where t: "tick_retransmissions now ?q (cx_node_db c) = (pending, db, res)" by (metis prod_cases3)
  note facts = tick_facts [OF t q(1)] tick_loop_spec [OF t [unfolded tick_retransmissions_def]]
  have "set_mset (mset (rr_to_send res)) \<subseteq> (\<lambda>p. pp_frame (rearm now p)) ` set ?q"
    using facts(4) q(1) by auto
  then have send: "\<forall>f \<in> set (rr_to_send res). frame_ok f" using q(2) rearm_ok by fastforce
  have "\<forall>p \<in> set pending. frame_ok (pp_frame p)" using facts(3) q(2) rearm_ok by fastforce
  moreover have "db_ok db" using tick_loop_db [OF q(3) t [unfolded tick_retransmissions_def]] .
  ultimately have "ctx_ok (c\<lparr>cx_pending_packets := pending, cx_node_db := db\<rparr>)"
    using assms facts(2) q(1) by (simp add: ctx_ok_def)
  then have "ctx_ok (fold queue_lora (rr_to_send res) (c\<lparr>cx_pending_packets := pending, cx_node_db := db\<rparr>))"
    using send by (rule fold_queue_lora_ok)
  then show ?thesis
    unfolding retransmit_def t prod.case by (rule fold_keeps [where P = ctx_ok]) (simp split: prod.split)
qed

lemma mesh_step_ok:
  assumes "mesh_step H s s'" and "ctx_ok (ms_ctx s)" and "decodes_strings H"
  shows "ctx_ok (ms_ctx s')"
  using assms(1)
proof cases
  case (Receive event now)
  have "ctx_ok (ms_ctx (note_event now event s))" using assms(2) by (rule note_event_ok)
  then have "ctx_ok (mesh_dispatch H now event (ms_ctx (note_event now event s)))"
    using Receive(3) assms(3) by (rule mesh_dispatch_ok)
  then show ?thesis unfolding Receive(1) turn_def by (intro finish_turn_ok) simp
next
  case (Beat now)
  have "ctx_ok (heartbeat_led (ms_ctx s))" using assms(2) by (simp add: heartbeat_led_def ctx_ok_led)
  then have "ctx_ok (mesh_dispatch H now Tick (heartbeat_led (ms_ctx s)))"
    using assms(3) by (intro mesh_dispatch_ok) (simp_all add: event_ok_def)
  then show ?thesis unfolding Beat(1) turn_def by (intro finish_turn_ok) simp
next
  case (Retransmit p now)
  then show ?thesis using assms(2) by (simp add: retransmit_ok)
next
  case (Rebroadcast p now)
  then show ?thesis using assms(2) by (simp add: send_due_ok)
qed (use assms(2) in \<open>simp_all add: ctx_ok_def\<close>)

section \<open>Properties\<close>

text \<open>C1: every state the node can reach is well-formed.  Take a boot with a six-byte hardware address from a flash with
  a consistent message ring and a configuration of at most seven hops or none, and a protobuf decoder that yields
  valid strings.  Whatever frames, phone messages, timers and consumers of the queues interleave, after any number
  of steps the node table, the channel table, the duplicate ring, the pending deliveries, the scheduled relays and the
  queues of LED patterns and disconnect requests are within their capacities, every stored or queued frame is a
  valid frame, the node table has no reserved or duplicate number, the channels and the names are valid, the
  duplicate ring and the message ring are consistent, and every message queued for the phone fits its buffer and
  has an id.  (Of the queues to the phone and to the radio only the contents are bounded here: the handlers wait
  for room in them, and the model appends at once.)\<close>
theorem reachable_ok:
  assumes "reachable H m s" and "decodes_strings H"
  shows "ctx_ok (ms_ctx s)"
  using assms(1)
proof (induction rule: reachable.induct)
  case (Boot storage t keys)
  then show ?case by (simp add: announce_def broadcast_ok mesh_state_new_ok)
next
  case (Step s s')
  then show ?case using assms(2) mesh_step_ok by blast
qed

lemma turn_radio_stats: "ms_radio_stats (turn H now e s) = ms_radio_stats s"
  by (simp add: turn_def finish_turn_def take_reboot_def forward_shutdown_def flush_node_db_def Let_def split: option.split)

theorem reachable_ok_witness:
  "\<exists>s. reachable example_host [1, 2, 3, 4, 5, 6] s \<and> ms_radio_stats s = Some (0, 0) \<and> ctx_ok (ms_ctx s)"
proof -
  let ?boot = "mesh_state_new example_host [1, 2, 3, 4, 5, 6] (nvs_new dead_flash [] 0) ([], []) 0"
  let ?s = "announce example_host (0 + NODEINFO_BOOT_DELAY_MS) ?boot"
  let ?t = "turn example_host 40000 (LoraRx strange_frame example_meta) (note_event 40000 (LoraRx strange_frame example_meta) ?s)"
  have "load_config (h_flash example_host) st = None" for st
    by (simp add: load_config_def load_sector_def example_host_def dead_flash_def)
  then have "boot_ok example_host (nvs_new dead_flash [] 0)" by (simp add: boot_ok_def dead_storage_ok)
  then have s: "reachable example_host [1, 2, 3, 4, 5, 6] ?s" by (intro reachable.Boot) simp_all
  have "ms_rebooting ?s = None" by (simp add: announce_def mesh_state_new_def Let_def)
  then have t: "reachable example_host [1, 2, 3, 4, 5, 6] ?t"
    using s by (intro reachable.Step [OF s] mesh_step.Receive) (simp_all add: event_ok_def strange_frame_ok)
  have "ms_radio_stats ?t = Some (0, 0)" unfolding turn_radio_stats by (simp add: note_event_def Let_def example_meta_def)
  with t show ?thesis using reachable_ok [OF t decodes_strings_example] by blast
qed

lemma send_due_step:
  assumes "cx_pending_rebroadcast c \<noteq> []"
  obtains p where "p \<in> set (cx_pending_rebroadcast c)" "\<forall>q \<in> set (cx_pending_rebroadcast c). rb_deadline p \<le> rb_deadline q"
    "add_mset p (mset (cx_pending_rebroadcast (send_due_rebroadcast c))) = mset (cx_pending_rebroadcast c)"
    "cx_to_lora (send_due_rebroadcast c) = cx_to_lora c @ [rb_frame p]"
proof -
  let ?q = "cx_pending_rebroadcast c"
  obtain i where i: "min_idx rb_deadline ?q = Some i" using assms by (cases "min_idx rb_deadline ?q") auto
  note d = min_idx_SomeD [OF i]
  show thesis
    using that [of "?q ! i"] d mset_swap_remove [of i ?q] by (simp add: send_due_rebroadcast_def i queue_lora_def)
qed

text \<open>Queued relays are sent in the order of their deadlines, each exactly once.  Every firing of the
  rebroadcast timer takes one entry off the queue, so after as many firings as there are entries the
  queue is empty, and what was appended to the radio's queue is a permutation of the waiting frames
  in which deadlines never decrease, whatever order the swap-removals left the entries in.\<close>
lemma relays_drain:
  "cx_pending_rebroadcast ((send_due_rebroadcast ^^ length (cx_pending_rebroadcast c)) c) = []
    \<and> (\<exists>ps. mset ps = mset (cx_pending_rebroadcast c) \<and> sorted (map rb_deadline ps)
         \<and> cx_to_lora ((send_due_rebroadcast ^^ length (cx_pending_rebroadcast c)) c) = cx_to_lora c @ map rb_frame ps)"
proof (induction "length (cx_pending_rebroadcast c)" arbitrary: c)
  case 0
  then show ?case by simp
next
  case (Suc n)
  let ?q = "cx_pending_rebroadcast c" and ?c = "send_due_rebroadcast c"
  obtain p where p: "p \<in> set ?q" "\<forall>q \<in> set ?q. rb_deadline p \<le> rb_deadline q"
    "add_mset p (mset (cx_pending_rebroadcast ?c)) = mset ?q" "cx_to_lora ?c = cx_to_lora c @ [rb_frame p]"
    using send_due_step [of c] Suc.hyps(2) by (metis length_0_conv nat.distinct(1))
  have n: "length (cx_pending_rebroadcast ?c) = n"
    using arg_cong [OF p(3), of size] Suc.hyps(2) by simp
  obtain ps where ps: "mset ps = mset (cx_pending_rebroadcast ?c)" "sorted (map rb_deadline ps)"
    "cx_to_lora ((send_due_rebroadcast ^^ n) ?c) = cx_to_lora ?c @ map rb_frame ps"
    "cx_pending_rebroadcast ((send_due_rebroadcast ^^ n) ?c) = []"
    using Suc.hyps(1) [of ?c] n by auto
  have "set ps \<subseteq> set ?q" using p(3) ps(1) by (metis insert_subset order_refl set_mset_add_mset_insert set_mset_mset)
  then have "sorted (map rb_deadline (p # ps))" using ps(2) p(2) by auto
  moreover have "mset (p # ps) = mset ?q" using p(3) ps(1) by simp
  moreover have "cx_to_lora ((send_due_rebroadcast ^^ n) ?c) = cx_to_lora c @ map rb_frame (p # ps)" using ps(3) p(4) by simp
  ultimately show ?case
    using ps(4) unfolding Suc.hyps(2) [symmetric] funpow_Suc_right comp_apply by blast
qed

end
