(* ===== verification/Lifecycle.thy ===== *)
theory Lifecycle
  imports Mesh_Task
begin

text \<open>
  Shutdown, reboot and factory reset across the power cycle: what the turn that carries out the
  request leaves in flash, and what \<open>MeshState::new\<close> reads back.  Flash is the device that only
  clears bits until a sector is erased.
\<close>

section \<open>Saved and erased sectors\<close>

definition saved_nodes :: "'f host \<Rightarrow> u32 \<Rightarrow> node_db \<Rightarrow> node_entry list" where
  "saved_nodes H our db = filter (\<lambda>n. n_num n \<noteq> our) (map persisted (most_recent (h_sort H) db))"

definition flash_room :: "bytes nvs \<Rightarrow> bool" where
  "flash_room st \<longleftrightarrow> room (nv_base st) (nv_flash st)"

lemma save_nodes_load:
  assumes "h_flash H = nor_ops" and "flash_room (cx_storage c)" and "db_ok (cx_node_db c)"
    and "\<forall>n \<in> set (db_nodes (cx_node_db c)). record_ok n" and "sorts_descending (h_sort H)"
  shows "load_node_db nor_ops (cx_storage (save_nodes H c)) (node_db_new our)
      = (node_db_new our)\<lparr>db_nodes := saved_nodes H our (cx_node_db c)\<rparr>"
    and "load_config nor_ops (cx_storage (save_nodes H c)) = load_config nor_ops (cx_storage c)"
    and "load_bond nor_ops (cx_storage (save_nodes H c)) = load_bond nor_ops (cx_storage c)"
    and "\<not> db_dirty (cx_node_db (save_nodes H c))"
proof -
  let ?st = "cx_storage c" and ?blob = "to_snapshot (h_sort H) (cx_node_db c)"
  have room: "room (nv_base ?st) (id (nv_flash ?st))" using assms(2) by (simp add: flash_room_def)
  have fits: "length ?blob \<le> 4096" "length ?blob = SNAPSHOT_BYTES" "SNAPSHOT_BYTES \<le> 4096"
    using snapshot_restored [OF assms(3-5) node_db_new_ok, of our] by (simp_all add: FLASH_SECTOR_SIZE_def)
  have sec: "unat NODEDB_SECTOR < 5" "unat CONFIG_SECTOR < 5" "unat BOND_SECTOR < 5" "CONFIG_SECTOR \<noteq> NODEDB_SECTOR"
    "BOND_SECTOR \<noteq> NODEDB_SECTOR" "CONFIG_SIZE \<le> 4096" "BOND_SIZE \<le> 4096" by (simp_all add: const_defs)
  note saved = nor.save_sector_content(1) [OF room sec(1) fits(1)]
  have st: "cx_storage (save_nodes H c) = fst (save_sector nor_ops NODEDB_SECTOR ?blob ?st)"
    "\<not> db_dirty (cx_node_db (save_nodes H c))"
    using saved by (auto simp: save_nodes_def save_node_db_def assms(1) mark_clean_def split: prod.split sum.split)
  note ld = nor.save_then_load [OF room sec(1) _ fits(1)]
  show "load_node_db nor_ops (cx_storage (save_nodes H c)) (node_db_new our)
      = (node_db_new our)\<lparr>db_nodes := saved_nodes H our (cx_node_db c)\<rparr>"
    using snapshot_restored [OF assms(3-5) node_db_new_ok, of our]
    by (simp add: load_node_db_def st(1) ld [OF sec(1) fits(3)] fits(2) saved_nodes_def node_db_new_def)
  show "load_config nor_ops (cx_storage (save_nodes H c)) = load_config nor_ops ?st"
    by (simp add: load_config_def st(1) ld [OF sec(2,6)] sec(4))
  show "load_bond nor_ops (cx_storage (save_nodes H c)) = load_bond nor_ops ?st"
    by (simp add: load_bond_def st(1) ld [OF sec(3,7)] sec(5))
  show "\<not> db_dirty (cx_node_db (save_nodes H c))" by (rule st(2))
qed

text \<open>The turn's end writes the table when it is dirty and either the flush is due or a shutdown waits.\<close>

definition turn_saves :: "instant \<Rightarrow> 'f mesh_state \<Rightarrow> bool" where
  "turn_saves now s \<longleftrightarrow> db_dirty (cx_node_db (ms_ctx s))
     \<and> (NODE_DB_FLUSH_INTERVAL_MS \<le> now - ms_last_node_db_flush s \<or> cx_shutdown_after_secs (ms_ctx s) \<noteq> None)"

lemma save_nodes_shutdown: "save_nodes H (c\<lparr>cx_shutdown_after_secs := x\<rparr>) = (save_nodes H c)\<lparr>cx_shutdown_after_secs := x\<rparr>"
  by (simp add: save_nodes_def split: prod.split sum.split)

lemma save_nodes_fields [simp]:
  "cx_shutdown_after_secs (save_nodes H c) = cx_shutdown_after_secs c" "cx_reboot_after_secs (save_nodes H c) = cx_reboot_after_secs c"
  by (simp_all add: save_nodes_def split: prod.split sum.split)

lemma finish_turn_storage:
  assumes "\<not> db_dirty (cx_node_db (save_nodes H (ms_ctx s)))"
  shows "cx_storage (ms_ctx (finish_turn H now s))
      = (if turn_saves now s then cx_storage (save_nodes H (ms_ctx s)) else cx_storage (ms_ctx s))"
  using assms by (auto simp: finish_turn_def take_reboot_def forward_shutdown_def flush_node_db_def turn_saves_def Let_def
      save_nodes_shutdown split: option.split)

lemma finish_turn_signals:
  "ms_shutdown_cmd (finish_turn H now s) = (case cx_shutdown_after_secs (ms_ctx s) of None \<Rightarrow> ms_shutdown_cmd s | Some n \<Rightarrow> Some n)"
  "ms_rebooting (finish_turn H now s) = (case cx_reboot_after_secs (ms_ctx s) of None \<Rightarrow> ms_rebooting s | Some n \<Rightarrow> Some n)"
  by (simp_all add: finish_turn_def take_reboot_def forward_shutdown_def flush_node_db_def Let_def split: option.split)

section \<open>Starting again\<close>

definition next_boot :: "bytes host \<Rightarrow> bytes \<Rightarrow> bytes mesh_state \<Rightarrow> bytes mesh_state" where
  "next_boot H m s = mesh_state_new H m (cx_storage (ms_ctx s)) (cx_pkc_priv (ms_ctx s), cx_pkc_pub (ms_ctx s)) 0"

lemma next_boot_nodes:
  "db_nodes (cx_node_db (ms_ctx (next_boot H m s)))
    = db_nodes (load_node_db (h_flash H) (cx_storage (ms_ctx s)) (node_db_new (my_node_num (device_new m))))"
  "cx_device (ms_ctx (next_boot H m s)) = load_state (h_env H) (h_flash H) (cx_storage (ms_ctx s)) (device_new m)"
  by (simp_all add: next_boot_def mesh_state_new_def Let_def)

text \<open>C27: a shutdown request saves what the node has learned.  The turn that handles it hands the delay
  to the watchdog with the node table clean in flash: if the table had unsaved changes, the next boot
  knows our at most 42 most recently heard peers in their stored form, even on flash that only clears
  bits; the device settings it starts from are those that were in flash before.\<close>
theorem shutdown_saves_nodes:
  assumes "h_flash H = nor_ops" and "flash_room (cx_storage (ms_ctx s))" and "db_ok (cx_node_db (ms_ctx s))"
    and "\<forall>n \<in> set (db_nodes (cx_node_db (ms_ctx s))). record_ok n" and "sorts_descending (h_sort H)"
    and "cx_shutdown_after_secs (ms_ctx s) = Some secs" and "db_dirty (cx_node_db (ms_ctx s))"
  shows "ms_shutdown_cmd (finish_turn H now s) = Some secs
    \<and> db_nodes (cx_node_db (ms_ctx (next_boot H m (finish_turn H now s))))
        = saved_nodes H (my_node_num (device_new m)) (cx_node_db (ms_ctx s))
    \<and> cx_device (ms_ctx (next_boot H m (finish_turn H now s)))
        = load_state (h_env H) nor_ops (cx_storage (ms_ctx s)) (device_new m)"
proof -
  note ld = save_nodes_load [OF assms(1-5)]
  have "cx_storage (ms_ctx (finish_turn H now s)) = cx_storage (save_nodes H (ms_ctx s))"
    using finish_turn_storage [OF ld(4)] assms(6,7) by (simp add: turn_saves_def)
  then show ?thesis
    using assms(6) by (simp add: next_boot_nodes finish_turn_signals assms(1) ld(1) load_state_def ld(2))
qed

definition nor_host :: "bytes host" where
  "nor_host = example_host\<lparr>h_flash := nor_ops, h_sort := stable_desc\<rparr>"

definition nor_ctx :: "bytes ctx" where
  "nor_ctx = example_ctx\<lparr>cx_storage := (nvs_new dead_flash [] 0)\<lparr>nv_flash := replicate 20480 0xFF\<rparr>,
     cx_node_db := sample_db\<lparr>db_dirty := True\<rparr>\<rparr>"

definition nor_state :: "bytes mesh_state" where
  "nor_state = \<lparr>ms_ctx = nor_ctx, ms_last_node_db_flush = 0, ms_activity = None, ms_radio_stats = None,
     ms_shutdown_cmd = None, ms_rebooting = None\<rparr>"

lemma persist_header_base [simp]: "nv_base (persist_header F st) = nv_base st"
  by (simp add: persist_header_def)

lemma nor_state_ok:
  "h_flash nor_host = nor_ops" "flash_room (cx_storage (ms_ctx nor_state))" "db_ok (cx_node_db (ms_ctx nor_state))"
  "\<forall>n \<in> set (db_nodes (cx_node_db (ms_ctx nor_state))). record_ok n" "sorts_descending (h_sort nor_host)"
  "db_dirty (cx_node_db (ms_ctx nor_state))"
  using sample_db_ok stable_desc_sorts
  by (simp_all add: nor_host_def nor_state_def nor_ctx_def flash_room_def room_def NVS_BYTES_def nvs_new_def load_or_init_def
      dead_flash_def init_empty_def db_ok_def)

theorem shutdown_saves_nodes_witness:
  "ms_shutdown_cmd (finish_turn nor_host 7 (nor_state\<lparr>ms_ctx := handle_shutdown 60 nor_ctx\<rparr>)) = Some 60"
proof -
  let ?s = "nor_state\<lparr>ms_ctx := handle_shutdown 60 nor_ctx\<rparr>"
  have s: "cx_storage (ms_ctx ?s) = cx_storage (ms_ctx nor_state)" "cx_node_db (ms_ctx ?s) = cx_node_db (ms_ctx nor_state)"
    "cx_shutdown_after_secs (ms_ctx ?s) = Some 60"
    by (simp_all add: handle_shutdown_def nor_state_def)
  show ?thesis
    using shutdown_saves_nodes [of nor_host ?s 60 7 "[1, 2, 3, 4, 5, 6]"] nor_state_ok s by simp
qed

section \<open>Factory reset\<close>

lemma decode_erased: "decode_config (replicate CONFIG_SIZE 0xFF) = None" "\<not> bond_magic_valid (replicate BOND_SIZE 0xFF)"
  "restore_snapshot (replicate SNAPSHOT_BYTES 0xFF) db = (db, False)"
  by (simp_all add: decode_config_def bond_magic_valid_def restore_snapshot_def Let_def of_le32_def const_defs)

lemma factory_reset_erases:
  assumes "h_flash H = nor_ops" and "flash_room (cx_storage c)"
  shows "load_config nor_ops (cx_storage (handle_factory_reset H c)) = None"
    and "load_bond nor_ops (cx_storage (handle_factory_reset H c)) = None"
    and "load_node_db nor_ops (cx_storage (handle_factory_reset H c)) db = db"
    and "flash_room (cx_storage (handle_factory_reset H c))"
    and "load_pkc_keypair nor_ops (cx_storage (handle_factory_reset H c)) = load_pkc_keypair nor_ops (cx_storage c)"
proof -
  let ?st = "cx_storage c"
  let ?c = "erase_sector nor_ops CONFIG_SECTOR ?st"
  let ?n = "erase_sector nor_ops NODEDB_SECTOR ?c"
  let ?b = "erase_sector nor_ops BOND_SECTOR ?n"
  have sec: "unat NODEDB_SECTOR < 5" "unat CONFIG_SECTOR < 5" "unat BOND_SECTOR < 5" "unat PKC_SECTOR < 5"
    "CONFIG_SECTOR \<noteq> NODEDB_SECTOR" "BOND_SECTOR \<noteq> NODEDB_SECTOR" "CONFIG_SECTOR \<noteq> BOND_SECTOR"
    "PKC_SECTOR \<noteq> NODEDB_SECTOR" "PKC_SECTOR \<noteq> BOND_SECTOR" "PKC_SECTOR \<noteq> CONFIG_SECTOR"
    "CONFIG_SIZE \<le> 4096" "BOND_SIZE \<le> 4096" "SNAPSHOT_BYTES \<le> 4096" "PKC_BLOB_SIZE \<le> 4096" by (simp_all add: const_defs)
  have r0: "room (nv_base ?st) (id (nv_flash ?st))" using assms(2) by (simp add: flash_room_def)
  note r1 = nor.erase_frame(1) [OF r0 sec(2)]
  note r2 = nor.erase_frame(1) [OF r1 sec(1)]
  note r3 = nor.erase_frame(1) [OF r2 sec(3)]
  note f1 = nor.erase_frame(2) [OF r0 sec(2)]
  note f2 = nor.erase_frame(2) [OF r1 sec(1)]
  note f3 = nor.erase_frame(2) [OF r2 sec(3)]
  have st: "cx_storage (handle_factory_reset H c) = ?b"
    by (simp add: handle_factory_reset_def assms(1) clear_bond_def erase_config_def)
  show "load_config nor_ops (cx_storage (handle_factory_reset H c)) = None"
    unfolding st load_config_def f3 [OF sec(2,7,11)] f2 [OF sec(2,5,11)] nor.erase_then_load [OF r0 sec(2,11)]
    by (simp add: decode_erased)
  show "load_bond nor_ops (cx_storage (handle_factory_reset H c)) = None"
    unfolding st load_bond_def nor.erase_then_load [OF r2 sec(3,12)] by (simp add: decode_erased)
  show "load_node_db nor_ops (cx_storage (handle_factory_reset H c)) db = db"
    unfolding st load_node_db_def f3 [OF sec(1) sec(6) [symmetric] sec(13)] nor.erase_then_load [OF r1 sec(1,13)]
    by (simp add: decode_erased)
  show "flash_room (cx_storage (handle_factory_reset H c))" using r3 by (simp add: st flash_room_def)
  show "load_pkc_keypair nor_ops (cx_storage (handle_factory_reset H c)) = load_pkc_keypair nor_ops ?st"
    unfolding st load_pkc_keypair_def f3 [OF sec(4,9,14)] f2 [OF sec(4,8,14)] f1 [OF sec(4,10,14)] ..
qed

lemma node_db_new_nodes [simp]: "db_nodes (node_db_new our) = []"
  by (simp add: node_db_new_def)

text \<open>C40: what a factory reset leaves behind.  The turn that handles it reboots the node in two seconds
  with the settings and the phone's bond erased, so the next boot starts from the defaults of a new
  device.  The node table is erased too, but the same turn writes it back if it was dirty and the
  flush interval had passed (or a shutdown was pending): then the next boot still knows the peers.\<close>
theorem factory_reset_outcome:
  assumes "h_flash H = nor_ops" and "flash_room (cx_storage (ms_ctx s))" and "db_ok (cx_node_db (ms_ctx s))"
    and "\<forall>n \<in> set (db_nodes (cx_node_db (ms_ctx s))). record_ok n" and "sorts_descending (h_sort H)"
  shows "let s' = finish_turn H now (s\<lparr>ms_ctx := handle_factory_reset H (ms_ctx s)\<rparr>);
             boot = next_boot H m s'
         in ms_rebooting s' = Some 2 \<and> cx_device (ms_ctx boot) = device_new m
          \<and> load_bond nor_ops (cx_storage (ms_ctx s')) = None
          \<and> db_nodes (cx_node_db (ms_ctx boot)) =
              (if turn_saves now s then saved_nodes H (my_node_num (device_new m)) (cx_node_db (ms_ctx s)) else [])"
proof -
  let ?c = "handle_factory_reset H (ms_ctx s)" and ?s = "s\<lparr>ms_ctx := handle_factory_reset H (ms_ctx s)\<rparr>"
  note er = factory_reset_erases [OF assms(1,2)]
  have same: "cx_node_db ?c = cx_node_db (ms_ctx s)" "cx_reboot_after_secs ?c = Some 2" "turn_saves now ?s = turn_saves now s"
    by (simp_all add: handle_factory_reset_def turn_saves_def)
  note ld = save_nodes_load [of H ?c, OF assms(1) er(4), unfolded same(1), OF assms(3-5)]
  have "cx_storage (ms_ctx (finish_turn H now ?s)) = (if turn_saves now s then cx_storage (save_nodes H ?c) else cx_storage ?c)"
    using finish_turn_storage [of H ?s now] ld(4) same(3) by simp
  then show ?thesis
    by (simp add: Let_def next_boot_nodes finish_turn_signals assms(1) same(2) ld(1-3) er(1-3) load_state_def)
qed

theorem factory_reset_outcome_witness:
  "db_nodes (cx_node_db (ms_ctx (next_boot nor_host [1, 2, 3, 4, 5, 6]
      (finish_turn nor_host 300000 (nor_state\<lparr>ms_ctx := handle_factory_reset nor_host nor_ctx\<rparr>)))))
    = saved_nodes nor_host (my_node_num (device_new [1, 2, 3, 4, 5, 6])) (cx_node_db nor_ctx)"
proof -
  have "turn_saves 300000 nor_state" "ms_ctx nor_state = nor_ctx"
    using nor_state_ok(6) by (simp_all add: turn_saves_def nor_state_def const_defs)
  then show ?thesis
    using factory_reset_outcome [OF nor_state_ok(1-5), of 300000 "[1, 2, 3, 4, 5, 6]"] by (simp add: Let_def)
qed

end
