(* ===== verification/Sx1262.thy ===== *)
theory Sx1262
  imports Mesh_Context "HOL-Library.Signed_Division"
begin

text \<open>
  \<open>drivers/sx1262_direct.rs\<close> and the start of the radio task of the boards
  (\<open>boards/esp32/src/tasks/lora_task.rs\<close>): the register writes the radio library does not offer, and the
  packet that woke the node, read out of the chip before the library resets it.  The bus is a log of what
  the driver did; an environment answers each action from the whole log, and may refuse any of them.
\<close>

section \<open>The bus\<close>

datatype sx_error = Sx_Spi | Sx_Busy

datatype spi_action = Wait_Low | Pause_Us nat | Cs_Low | Transfer bytes | Read_Bytes nat | Cs_High

type_synonym spi_log = "spi_action list"

text \<open>\<open>se_miso\<close> is what the chip clocks out, byte by byte.\<close>

record spi_env =
  se_ready :: "spi_log \<Rightarrow> bool"
  se_pin :: "spi_log \<Rightarrow> bool"
  se_miso :: "spi_log \<Rightarrow> (nat \<Rightarrow> u8) option"

text \<open>A driver routine extends the log and returns a value, or the error that ended it.\<close>

type_synonym 'a drv = "spi_log \<Rightarrow> (sx_error + 'a) \<times> spi_log"

definition ret :: "'a \<Rightarrow> 'a drv" where
  "ret x = (\<lambda>l. (Inr x, l))"

definition bnd :: "'a drv \<Rightarrow> ('a \<Rightarrow> 'b drv) \<Rightarrow> 'b drv" where
  "bnd m f = (\<lambda>l. case m l of (Inr x, l) \<Rightarrow> f x l | (Inl e, l) \<Rightarrow> (Inl e, l))"

definition attempt :: "sx_error \<Rightarrow> spi_action \<Rightarrow> (spi_log \<Rightarrow> 'a option) \<Rightarrow> 'a drv" where
  "attempt e a answer = (\<lambda>l. let l = l @ [a] in case answer l of Some x \<Rightarrow> (Inr x, l) | None \<Rightarrow> (Inl e, l))"

definition pause :: "nat \<Rightarrow> unit drv" where
  "pause us = (\<lambda>l. (Inr (), l @ [Pause_Us us]))"

definition wait_for_low :: "spi_env \<Rightarrow> unit drv" where
  "wait_for_low E = attempt Sx_Busy Wait_Low (\<lambda>l. if se_ready E l then Some () else None)"

definition set_low :: "spi_env \<Rightarrow> unit drv" where
  "set_low E = attempt Sx_Spi Cs_Low (\<lambda>l. if se_pin E l then Some () else None)"

definition set_high :: "spi_env \<Rightarrow> unit drv" where
  "set_high E = attempt Sx_Spi Cs_High (\<lambda>l. if se_pin E l then Some () else None)"

definition transfer_in_place :: "spi_env \<Rightarrow> bytes \<Rightarrow> bytes drv" where
  "transfer_in_place E buf =
     attempt Sx_Spi (Transfer buf) (\<lambda>l. map_option (\<lambda>miso. map miso [0..<length buf]) (se_miso E l))"

definition read_bytes :: "spi_env \<Rightarrow> nat \<Rightarrow> bytes drv" where
  "read_bytes E n = attempt Sx_Spi (Read_Bytes n) (\<lambda>l. map_option (\<lambda>miso. map miso [0..<n]) (se_miso E l))"

section \<open>Registers\<close>

definition OPCODE_GET_STATUS :: u8 where [const_defs]: "OPCODE_GET_STATUS = 0xC0"
definition OPCODE_GET_RX_BUFFER_STATUS :: u8 where [const_defs]: "OPCODE_GET_RX_BUFFER_STATUS = 0x13"
definition OPCODE_READ_BUFFER :: u8 where [const_defs]: "OPCODE_READ_BUFFER = 0x1E"
definition OPCODE_GET_PACKET_STATUS :: u8 where [const_defs]: "OPCODE_GET_PACKET_STATUS = 0x14"
definition OPCODE_GET_IRQ_STATUS :: u8 where [const_defs]: "OPCODE_GET_IRQ_STATUS = 0x12"
definition OPCODE_WRITE_REGISTER :: u8 where [const_defs]: "OPCODE_WRITE_REGISTER = 0x0D"
definition REG_SYNC_WORD_MSB :: u16 where [const_defs]: "REG_SYNC_WORD_MSB = 0x0740"
definition REG_RX_SENSITIVITY_PATCH :: u16 where [const_defs]: "REG_RX_SENSITIVITY_PATCH = 0x08B5"
definition RX_SENSITIVITY_PATCH_VALUE :: u8 where [const_defs]: "RX_SENSITIVITY_PATCH_VALUE = 0x01"
definition REG_OCP_CONFIGURATION :: u16 where [const_defs]: "REG_OCP_CONFIGURATION = 0x08E7"
definition OCP_CURRENT_LIMIT_140MA :: u8 where [const_defs]: "OCP_CURRENT_LIMIT_140MA = 0x38"
definition MESHTASTIC_SYNC_WORD :: u16 where [const_defs]: "MESHTASTIC_SYNC_WORD = 0x2B"
definition SX1262_SYNC_WORD_MSB :: u8 where [const_defs]: "SX1262_SYNC_WORD_MSB = 0x24"
definition SX1262_SYNC_WORD_LSB :: u8 where [const_defs]: "SX1262_SYNC_WORD_LSB = 0xB4"

definition write_register :: "spi_env \<Rightarrow> u16 \<Rightarrow> bytes \<Rightarrow> unit drv" where
  "write_register E addr data =
     bnd (wait_for_low E) (\<lambda>_.
     let cmd = [OPCODE_WRITE_REGISTER, ucast (drop_bit 8 addr), ucast (addr AND 0xFF)] in
     bnd (set_low E) (\<lambda>_.
     bnd (transfer_in_place E cmd) (\<lambda>_.
     bnd (transfer_in_place E data) (\<lambda>_.
     set_high E))))"

definition write_sync_word :: "spi_env \<Rightarrow> u8 \<Rightarrow> u8 \<Rightarrow> unit drv" where
  "write_sync_word E msb lsb = write_register E REG_SYNC_WORD_MSB [msb, lsb]"

definition write_rx_sensitivity_patch :: "spi_env \<Rightarrow> unit drv" where
  "write_rx_sensitivity_patch E = write_register E REG_RX_SENSITIVITY_PATCH [RX_SENSITIVITY_PATCH_VALUE]"

definition write_current_limit :: "spi_env \<Rightarrow> unit drv" where
  "write_current_limit E = write_register E REG_OCP_CONFIGURATION [OCP_CURRENT_LIMIT_140MA]"

section \<open>The packet that woke the node\<close>

definition transaction :: "spi_env \<Rightarrow> bytes \<Rightarrow> bytes drv" where
  "transaction E cmd =
     bnd (set_low E) (\<lambda>_. bnd (transfer_in_place E cmd) (\<lambda>r. bnd (set_high E) (\<lambda>_. ret r)))"

definition read_buffer :: "spi_env \<Rightarrow> u8 \<Rightarrow> nat \<Rightarrow> bytes drv" where
  "read_buffer E offset n =
     bnd (set_low E) (\<lambda>_. bnd (transfer_in_place E [OPCODE_READ_BUFFER, offset, 0]) (\<lambda>_.
     bnd (read_bytes E n) (\<lambda>data. bnd (set_high E) (\<lambda>_. ret data))))"

datatype poll_end = Rx_Done | Rx_Timeout | Gave_Up

definition WAKE_POLLS :: nat where [const_defs]: "WAKE_POLLS = 400"

primrec wake_poll :: "spi_env \<Rightarrow> nat \<Rightarrow> poll_end drv" where
  "wake_poll E 0 = ret Gave_Up"
| "wake_poll E (Suc n) =
     bnd (pause 10000) (\<lambda>_. bnd (wait_for_low E) (\<lambda>_. bnd (transaction E [OPCODE_GET_IRQ_STATUS, 0, 0, 0]) (\<lambda>irq.
       if irq ! 3 AND 0x02 \<noteq> 0 then ret Rx_Done else if irq ! 2 AND 0x02 \<noteq> 0 then ret Rx_Timeout else wake_poll E n)))"

definition rssi_of :: "u8 \<Rightarrow> 16 word" where
  "rssi_of b = word_of_int ((- int (unat b)) sdiv 2)"

definition snr_of :: "u8 \<Rightarrow> i8" where
  "snr_of b = word_of_int (sint b sdiv 4)"

definition read_wake_packet :: "spi_env \<Rightarrow> bytes \<Rightarrow> ((u8 \<times> 16 word \<times> i8) option \<times> bytes) drv" where
  "read_wake_packet E buffer =
     bnd (wait_for_low E) (\<lambda>_. bnd (pause 100) (\<lambda>_. bnd (transaction E [OPCODE_GET_STATUS, 0]) (\<lambda>status.
     bnd (if drop_bit 4 (status ! 1) AND 0x07 = 5 then wake_poll E WAKE_POLLS else ret Rx_Done) (\<lambda>poll.
     if poll = Rx_Timeout then ret (None, buffer)
     else bnd (wait_for_low E) (\<lambda>_. bnd (transaction E [OPCODE_GET_RX_BUFFER_STATUS, 0, 0, 0]) (\<lambda>rx.
       let payload_len = rx ! 2; buffer_offset = rx ! 3 in
       if payload_len = 0 then ret (None, buffer)
       else if length buffer < unat payload_len then ret (None, buffer)
       else bnd (wait_for_low E) (\<lambda>_. bnd (read_buffer E buffer_offset (unat payload_len)) (\<lambda>data.
         bnd (wait_for_low E) (\<lambda>_. bnd (transaction E [OPCODE_GET_PACKET_STATUS, 0, 0, 0, 0]) (\<lambda>pkt.
         ret (Some (payload_len, rssi_of (pkt ! 2), snr_of (pkt ! 3)), data @ drop (unat payload_len) buffer)))))))))))"

section \<open>The start of the radio task\<close>

text \<open>A wake by the radio hands the packet to the mesh task; an error is only logged.\<close>

definition wake_to_mesh :: "spi_env \<Rightarrow> mesh_event list \<times> spi_log \<Rightarrow> mesh_event list \<times> spi_log" where
  "wake_to_mesh E = (\<lambda>(mesh_in, l).
     case read_wake_packet E (replicate MAX_LORA_PAYLOAD_LEN 0) l of
       (Inr (Some (len, rssi, snr), buffer), l) \<Rightarrow>
         (case from_raw (take (unat len) buffer) of
            Some frame \<Rightarrow> (try_send MESH_IN_QUEUE_SIZE mesh_in (LoraRx frame \<lparr>rm_rssi = rssi, rm_snr = snr\<rparr>), l)
          | None \<Rightarrow> (mesh_in, l))
     | (_, l) \<Rightarrow> (mesh_in, l))"

definition write_radio_registers :: "spi_env \<Rightarrow> unit drv" where
  "write_radio_registers E =
     bnd (write_sync_word E SX1262_SYNC_WORD_MSB SX1262_SYNC_WORD_LSB) (\<lambda>_.
     bnd (write_rx_sensitivity_patch E) (\<lambda>_. write_current_limit E))"

text \<open>The library resets and configures the chip over the same bus; it may fail, which is a panic, as is a
  failed register write: both are \<^term>\<open>None\<close> here.\<close>

definition lora_task_start ::
  "spi_env \<Rightarrow> (spi_log \<Rightarrow> spi_log option) \<Rightarrow> bool \<Rightarrow> mesh_event list \<Rightarrow> (mesh_event list \<times> spi_log) option" where
  "lora_task_start E lora_new is_wakeup mesh_in =
     (let (mesh_in, l) = (if is_wakeup then wake_to_mesh E (mesh_in, []) else (mesh_in, []))
      in case lora_new l of
           None \<Rightarrow> None
         | Some l \<Rightarrow> (case write_radio_registers E l of (Inr _, l) \<Rightarrow> Some (mesh_in, l) | (Inl _, _) \<Rightarrow> None))"

section \<open>Judgements on driver routines\<close>

text \<open>What a log costs, for a weight of the actions: the time it waits, or the number of commands of a kind.\<close>

definition cost :: "(spi_action \<Rightarrow> nat) \<Rightarrow> spi_log \<Rightarrow> nat" where
  "cost w l = sum_list (map w l)"

lemma cost_simps [simp]: "cost w [] = 0" "cost w (a # l) = w a + cost w l" "cost w (k @ l) = cost w k + cost w l"
  by (simp_all add: cost_def)

definition spends :: "(spi_action \<Rightarrow> nat) \<Rightarrow> nat \<Rightarrow> 'a drv \<Rightarrow> bool" where
  "spends w n m \<longleftrightarrow> (\<forall>l. cost w l \<le> cost w (snd (m l)) \<and> cost w (snd (m l)) \<le> cost w l + n)"

text \<open>The level of the chip-select line after a log; it idles high.\<close>

definition cs_released :: "spi_log \<Rightarrow> bool" where
  "cs_released l = fold (\<lambda>a h. case a of Cs_Low \<Rightarrow> False | Cs_High \<Rightarrow> True | _ \<Rightarrow> h) l True"

definition releases :: "'a drv \<Rightarrow> bool" where
  "releases m \<longleftrightarrow> (\<forall>l. cs_released l \<and> fst (m l) \<noteq> Inl Sx_Spi \<longrightarrow> cs_released (snd (m l)))"

definition gives :: "('a \<Rightarrow> bool) \<Rightarrow> 'a drv \<Rightarrow> bool" where
  "gives Q m \<longleftrightarrow> (\<forall>l x. fst (m l) = Inr x \<longrightarrow> Q x)"

named_theorems drv_intros \<open>compositional rules for driver routines\<close>

lemma spends_ret [drv_intros]: "spends w n (ret x)"
  by (simp add: spends_def ret_def)

lemma spends_bnd:
  assumes "spends w n m" "\<And>x. spends w k (f x)" "n + k \<le> t"
  shows "spends w t (bnd m f)"
  unfolding spends_def
proof
  fix l
  obtain r l' where m: "m l = (r, l')" by fastforce
  have 1: "cost w l \<le> cost w l'" "cost w l' \<le> cost w l + n" using assms(1) m by (auto simp: spends_def dest: spec [of _ l])
  have 2: "cost w l' \<le> cost w (snd (f x l'))" "cost w (snd (f x l')) \<le> cost w l' + k" for x
    using assms(2) by (simp_all add: spends_def)
  show "cost w l \<le> cost w (snd (bnd m f l)) \<and> cost w (snd (bnd m f l)) \<le> cost w l + t"
    using 1 2 [of "projr r"] assms(3) by (cases r) (simp_all add: bnd_def m)
qed

lemma spends_bnd0 [drv_intros]: "spends w 0 m \<Longrightarrow> (\<And>x. spends w n (f x)) \<Longrightarrow> spends w n (bnd m f)"
  by (rule spends_bnd) auto

lemma spends_attempt: "w a \<le> n \<Longrightarrow> spends w n (attempt e a answer)"
  by (simp add: spends_def attempt_def Let_def split: option.split)

lemma spends_if [drv_intros]: "(b \<Longrightarrow> spends w n m) \<Longrightarrow> (\<not> b \<Longrightarrow> spends w n k) \<Longrightarrow> spends w n (if b then m else k)"
  by simp

lemma releases_ret [drv_intros]: "releases (ret x)"
  by (simp add: releases_def ret_def)

lemma releases_bnd [drv_intros]:
  assumes "releases m" "\<And>x. releases (f x)"
  shows "releases (bnd m f)"
  unfolding releases_def
proof (intro allI impI)
  fix l assume l: "cs_released l \<and> fst (bnd m f l) \<noteq> Inl Sx_Spi"
  obtain r l' where m: "m l = (r, l')" by fastforce
  show "cs_released (snd (bnd m f l))"
  proof (cases r)
    case (Inl e)
    then show ?thesis using assms(1) l m by (auto simp: releases_def bnd_def dest: spec [of _ l])
  next
    case (Inr x)
    then have "cs_released l'" using assms(1) l m by (auto simp: releases_def dest: spec [of _ l])
    then show ?thesis using assms(2) l m Inr by (simp add: releases_def bnd_def)
  qed
qed

lemma releases_if [drv_intros]: "(b \<Longrightarrow> releases m) \<Longrightarrow> (\<not> b \<Longrightarrow> releases k) \<Longrightarrow> releases (if b then m else k)"
  by simp

lemma gives_ret [drv_intros]: "Q x \<Longrightarrow> gives Q (ret x)"
  by (simp add: gives_def ret_def)

lemma gives_bnd: "gives R m \<Longrightarrow> (\<And>x. R x \<Longrightarrow> gives Q (f x)) \<Longrightarrow> gives Q (bnd m f)"
  unfolding gives_def
proof (intro allI impI)
  fix l x assume m: "\<forall>l x. fst (m l) = Inr x \<longrightarrow> R x" and f: "\<And>x. R x \<Longrightarrow> \<forall>l y. fst (f x l) = Inr y \<longrightarrow> Q y"
    and r: "fst (bnd m f l) = Inr x"
  show "Q x" using m f r by (cases "m l"; cases "fst (m l)") (auto simp: bnd_def, metis fst_conv)
qed

lemma gives_bnd_any [drv_intros]: "(\<And>x. gives Q (f x)) \<Longrightarrow> gives Q (bnd m f)"
  by (rule gives_bnd [of "\<lambda>_. True"]) (simp_all add: gives_def)

lemma gives_if [drv_intros]: "(b \<Longrightarrow> gives Q m) \<Longrightarrow> (\<not> b \<Longrightarrow> gives Q k) \<Longrightarrow> gives Q (if b then m else k)"
  by simp

text \<open>The primitive routines.\<close>

lemma cs_released_simps [simp]:
  "cs_released (l @ [Cs_High])" "\<not> cs_released (l @ [Cs_Low])" "cs_released (l @ [Transfer b]) = cs_released l"
  "cs_released (l @ [Read_Bytes n]) = cs_released l" "cs_released (l @ [Wait_Low]) = cs_released l"
  "cs_released (l @ [Pause_Us n]) = cs_released l"
  by (simp_all add: cs_released_def)

lemma releases_prims [drv_intros]:
  "releases (wait_for_low E)" "releases (pause us)" "releases (transaction E cmd)" "releases (read_buffer E off n)"
  by (auto simp: releases_def wait_for_low_def pause_def transaction_def read_buffer_def bnd_def attempt_def ret_def set_low_def
      set_high_def transfer_in_place_def read_bytes_def Let_def cs_released_def split: option.splits sum.splits prod.splits)

lemma releases_write_register [drv_intros]: "releases (write_register E a d)"
  by (auto simp: releases_def wait_for_low_def write_register_def bnd_def attempt_def set_low_def set_high_def
      transfer_in_place_def Let_def cs_released_def split: option.splits sum.splits prod.splits)

lemma spends_prims:
  "w Wait_Low \<le> n \<Longrightarrow> spends w n (wait_for_low E)" "w (Pause_Us us) \<le> n \<Longrightarrow> spends w n (pause us)"
  by (simp_all add: wait_for_low_def spends_attempt) (simp add: spends_def pause_def)

lemma spends_transaction:
  "w Cs_Low = 0 \<Longrightarrow> w Cs_High = 0 \<Longrightarrow> w (Transfer cmd) = 0 \<Longrightarrow> spends w 0 (transaction E cmd)"
  unfolding transaction_def set_low_def set_high_def transfer_in_place_def
  by (intro drv_intros spends_attempt) simp_all

lemma spends_read_buffer:
  "w Cs_Low = 0 \<Longrightarrow> w Cs_High = 0 \<Longrightarrow> w (Transfer [OPCODE_READ_BUFFER, off, 0]) = 0 \<Longrightarrow> w (Read_Bytes n) = 0
    \<Longrightarrow> spends w 0 (read_buffer E off n)"
  unfolding read_buffer_def set_low_def set_high_def transfer_in_place_def read_bytes_def
  by (intro drv_intros spends_attempt) simp_all

lemma gives_answer: "gives (\<lambda>r. length r = length cmd) (transfer_in_place E cmd)" "gives (\<lambda>r. length r = n) (read_bytes E n)"
  by (auto simp: gives_def transfer_in_place_def read_bytes_def attempt_def Let_def split: option.splits)

lemma gives_transaction: "gives (\<lambda>r. length r = length cmd) (transaction E cmd)"
  unfolding transaction_def by (rule gives_bnd_any, rule gives_bnd [OF gives_answer(1)]) (intro drv_intros)

lemma gives_read_buffer: "gives (\<lambda>r. length r = n) (read_buffer E off n)"
  unfolding read_buffer_def by (rule gives_bnd_any, rule gives_bnd_any, rule gives_bnd [OF gives_answer(2)]) (intro drv_intros)

section \<open>Reading the packet is safe\<close>

definition waits_us :: "spi_action \<Rightarrow> nat" where
  "waits_us a = (case a of Pause_Us n \<Rightarrow> n | _ \<Rightarrow> 0)"

text \<open>Commands that only read from the chip; any other counts.\<close>

definition changes_chip :: "spi_action \<Rightarrow> nat" where
  "changes_chip a = (case a of
     Transfer cmd \<Rightarrow> (if hd cmd \<in> {OPCODE_GET_STATUS, OPCODE_GET_RX_BUFFER_STATUS, OPCODE_READ_BUFFER, OPCODE_GET_PACKET_STATUS,
         OPCODE_GET_IRQ_STATUS} then 0 else 1)
   | _ \<Rightarrow> 0)"

lemma weights [simp]:
  "waits_us (Pause_Us n) = n" "waits_us Wait_Low = 0" "waits_us Cs_Low = 0" "waits_us Cs_High = 0" "waits_us (Transfer b) = 0"
  "waits_us (Read_Bytes n) = 0" "changes_chip (Pause_Us n) = 0" "changes_chip Wait_Low = 0" "changes_chip Cs_Low = 0"
  "changes_chip Cs_High = 0" "changes_chip (Read_Bytes n) = 0"
  by (simp_all add: waits_us_def changes_chip_def)

lemma reads_only [simp]: "op \<in> {OPCODE_GET_STATUS, OPCODE_GET_RX_BUFFER_STATUS, OPCODE_READ_BUFFER, OPCODE_GET_PACKET_STATUS,
    OPCODE_GET_IRQ_STATUS} \<Longrightarrow> changes_chip (Transfer (op # args)) = 0"
  by (simp add: changes_chip_def)

lemma wake_poll_spends:
  "spends waits_us (n * 10000) (wake_poll E n)" "spends changes_chip 0 (wake_poll E n)" "releases (wake_poll E n)"
proof (induction n)
  case (Suc n)
  case 1
  show ?case unfolding wake_poll.simps
    by (rule spends_bnd [of _ 10000 _ "n * 10000"])
      (auto intro!: drv_intros spends_prims spends_transaction Suc)
  case 2
  show ?case unfolding wake_poll.simps
    by (auto intro!: drv_intros spends_prims spends_transaction Suc)
  case 3
  show ?case unfolding wake_poll.simps by (intro drv_intros Suc)
qed (simp_all add: drv_intros)

lemma read_wake_spends:
  "spends waits_us 4000100 (read_wake_packet E buffer)" "spends changes_chip 0 (read_wake_packet E buffer)"
  "releases (read_wake_packet E buffer)"
proof -
  have poll: "spends waits_us 4000000 (if b then wake_poll E WAKE_POLLS else ret Rx_Done)" for b
    using wake_poll_spends(1) [of WAKE_POLLS E] by (simp add: WAKE_POLLS_def drv_intros)
  have tail: "spends waits_us 4000000 (bnd (if b then wake_poll E WAKE_POLLS else ret Rx_Done) f)"
    if "\<And>x. spends waits_us 0 (f x)" for b and f :: "poll_end \<Rightarrow> 'a drv"
    by (rule spends_bnd [OF poll that]) simp
  show "spends waits_us 4000100 (read_wake_packet E buffer)"
    unfolding read_wake_packet_def Let_def
    by (rule spends_bnd0, simp add: spends_prims, rule spends_bnd [of _ 100 _ 4000000])
      (auto intro!: drv_intros tail spends_prims spends_transaction spends_read_buffer)
  show "spends changes_chip 0 (read_wake_packet E buffer)"
    unfolding read_wake_packet_def Let_def
    by (auto intro!: drv_intros spends_prims spends_transaction spends_read_buffer wake_poll_spends)
  show "releases (read_wake_packet E buffer)"
    unfolding read_wake_packet_def Let_def by (intro drv_intros wake_poll_spends)
qed

lemma sint_word_of_int_small: "- 128 \<le> k \<Longrightarrow> k < 128 \<Longrightarrow> sint (word_of_int k :: i8) = k"
  "- 32768 \<le> k \<Longrightarrow> k < 32768 \<Longrightarrow> sint (word_of_int k :: 16 word) = k"
  by (simp_all add: signed_of_int signed_take_bit_int_eq_self)

lemma sint_i8: "- 128 \<le> sint (b :: i8) \<and> sint b < 128"
  using sint_greater_eq [of b] sint_less [of b] by simp

text \<open>The readings of the chip, in half decibels below zero and in signed quarters.\<close>

lemma rssi_of: "sint (rssi_of b) = - (int (unat b) div 2)"
proof -
  have "int (unat b) < 256" using unsigned_less [of b] by simp
  moreover have "(- int (unat b)) sdiv 2 = - (int (unat b) div 2)" by (simp add: signed_divide_int_def sgn_if)
  ultimately show ?thesis unfolding rssi_of_def by (subst sint_word_of_int_small(2)) linarith+
qed

lemma snr_of: "sint (snr_of b) = sint b sdiv 4" "- 32 \<le> sint b sdiv 4" "sint b sdiv 4 \<le> 31"
proof -
  have "- 32 \<le> sint b sdiv 4 \<and> sint b sdiv 4 \<le> 31"
    using sint_i8 [of b] by (auto simp: signed_divide_int_def sgn_if)
  then show "sint (snr_of b) = sint b sdiv 4" "- 32 \<le> sint b sdiv 4" "sint b sdiv 4 \<le> 31"
    by (simp_all add: snr_of_def sint_word_of_int_small)
qed

definition wake_result_ok :: "bytes \<Rightarrow> (u8 \<times> 16 word \<times> i8) option \<times> bytes \<Rightarrow> bool" where
  "wake_result_ok buffer = (\<lambda>(res, buf). case res of
     None \<Rightarrow> buf = buffer
   | Some (len, rssi, snr) \<Rightarrow> len \<noteq> 0 \<and> unat len \<le> length buffer \<and> length buf = length buffer
       \<and> drop (unat len) buf = drop (unat len) buffer \<and> - 127 \<le> sint rssi \<and> sint rssi \<le> 0 \<and> - 32 \<le> sint snr \<and> sint snr \<le> 31)"

lemma wake_result: "gives (wake_result_ok buffer) (read_wake_packet E buffer)"
proof -
  have rssi: "- 127 \<le> sint (rssi_of b) \<and> sint (rssi_of b) \<le> 0" for b
  proof -
    have "int (unat b) < 256" using unsigned_less [of b] by simp
    then show ?thesis unfolding rssi_of by linarith
  qed
  have tail: "gives (wake_result_ok buffer) (bnd (read_buffer E off (unat n)) (\<lambda>data. bnd (m data) (\<lambda>u. bnd (k data) (\<lambda>pkt.
      ret (Some (n, rssi_of (pkt ! 2), snr_of (pkt ! 3)), data @ drop (unat n) buffer)))))"
    if "n \<noteq> 0" "\<not> length buffer < unat n" for off n and m :: "bytes \<Rightarrow> unit drv" and k :: "bytes \<Rightarrow> bytes drv"
    using that rssi
    by (intro gives_bnd [OF gives_read_buffer] gives_bnd_any gives_ret) (simp add: wake_result_ok_def snr_of)
  show ?thesis
    unfolding read_wake_packet_def Let_def
    by (intro drv_intros tail) (simp_all add: wake_result_ok_def)
qed

text \<open>C21: reading the wake packet is safe whatever the chip answers.  For every behaviour of the bus the
  routine ends: it waits at most 4.0001 seconds in all, and sends only commands that read.  A packet it
  returns is not empty and fits the buffer, of which it overwrites exactly the packet's bytes; a result
  without a packet leaves the buffer alone.  The signal readings stay in range, from -127 to 0 dBm and
  from -32 to 31 dB.  The chip is deselected at the end unless a bus transfer failed.\<close>
theorem wake_read_safe:
  assumes "read_wake_packet E buffer [] = (r, l)"
  shows "cost waits_us l \<le> 4000100 \<and> cost changes_chip l = 0 \<and> (r \<noteq> Inl Sx_Spi \<longrightarrow> cs_released l)
    \<and> (\<forall>res. r = Inr res \<longrightarrow> wake_result_ok buffer res)"
  using read_wake_spends [of E buffer] wake_result [of buffer E] assms
  by (auto simp: spends_def releases_def gives_def cs_released_def dest!: spec [of _ "[]"])

definition silent_chip :: spi_env where
  "silent_chip = \<lparr>se_ready = (\<lambda>l. length l < 5), se_pin = (\<lambda>_. True), se_miso = (\<lambda>_. Some (\<lambda>_. 0))\<rparr>"

theorem wake_read_safe_witness:
  "\<exists>l. read_wake_packet silent_chip [0, 0] [] = (Inl Sx_Busy, l) \<and> cs_released l"
proof -
  obtain l where "read_wake_packet silent_chip [0, 0] [] = (Inl Sx_Busy, l)"
    by (simp add: read_wake_packet_def silent_chip_def bnd_def wait_for_low_def pause_def transaction_def attempt_def set_low_def
        set_high_def transfer_in_place_def ret_def Let_def)
  then show ?thesis using wake_read_safe [of silent_chip "[0, 0]" "Inl Sx_Busy" l] by auto
qed

section \<open>The wake packet reaches the mesh task\<close>

text \<open>A chip that holds a received packet, as its data sheet describes it: a buffer of 256 bytes read in a
  circle from the reported offset, and the interrupt flags of a reception that ends at some poll.\<close>

record wake_chip =
  wc_status :: u8
  wc_polls :: nat
  wc_offset :: u8
  wc_len :: u8
  wc_memory :: "u8 \<Rightarrow> u8"
  wc_rssi :: u8
  wc_snr :: u8

definition irq_polls :: "spi_log \<Rightarrow> nat" where
  "irq_polls l = cost (\<lambda>a. if a = Transfer [OPCODE_GET_IRQ_STATUS, 0, 0, 0] then 1 else 0) l"

definition irq_answer :: "wake_chip \<Rightarrow> nat \<Rightarrow> (nat \<Rightarrow> u8) \<Rightarrow> bool" where
  "irq_answer C n f = (if wc_polls C \<le> n then f 3 AND 2 \<noteq> 0 else f 3 AND 2 = 0 \<and> f 2 AND 2 = 0)"

definition command_answer :: "wake_chip \<Rightarrow> nat \<Rightarrow> bytes \<Rightarrow> (nat \<Rightarrow> u8) \<Rightarrow> bool" where
  "command_answer C polls cmd f \<longleftrightarrow>
     (cmd = [OPCODE_GET_STATUS, 0] \<longrightarrow> f 1 = wc_status C)
     \<and> (cmd = [OPCODE_GET_IRQ_STATUS, 0, 0, 0] \<longrightarrow> irq_answer C (Suc polls) f)
     \<and> (cmd = [OPCODE_GET_RX_BUFFER_STATUS, 0, 0, 0] \<longrightarrow> f 2 = wc_len C \<and> f 3 = wc_offset C)
     \<and> (cmd = [OPCODE_GET_PACKET_STATUS, 0, 0, 0, 0] \<longrightarrow> f 2 = wc_rssi C \<and> f 3 = wc_snr C)"

definition holds_packet :: "spi_env \<Rightarrow> wake_chip \<Rightarrow> bool" where
  "holds_packet E C \<longleftrightarrow>
     (\<forall>l. se_ready E l \<and> se_pin E l)
     \<and> (\<forall>l cmd. \<exists>f. se_miso E (l @ [Transfer cmd]) = Some f \<and> command_answer C (irq_polls l) cmd f)
     \<and> (\<forall>l off n. \<exists>f. se_miso E (l @ [Transfer [OPCODE_READ_BUFFER, off, 0], Read_Bytes n]) = Some f
          \<and> (\<forall>i < n. f i = wc_memory C (off + of_nat i)))"

definition wake_payload :: "wake_chip \<Rightarrow> bytes" where
  "wake_payload C = map (\<lambda>i. wc_memory C (wc_offset C + of_nat i)) [0..<unat (wc_len C)]"

lemma length_wake_payload [simp]: "length (wake_payload C) = unat (wc_len C)"
  by (simp add: wake_payload_def)

lemma irq_polls_simps [simp]:
  "irq_polls [] = 0" "irq_polls (l @ k) = irq_polls l + irq_polls k"
  "irq_polls (a # l) = (if a = Transfer [OPCODE_GET_IRQ_STATUS, 0, 0, 0] then 1 else 0) + irq_polls l"
  by (simp_all add: irq_polls_def)

lemma chip_ready [simp]: "holds_packet E C \<Longrightarrow> se_ready E l" "holds_packet E C \<Longrightarrow> se_pin E l"
  by (simp_all add: holds_packet_def)

lemma bnd_Inr [simp]: "m l = (Inr x, l') \<Longrightarrow> bnd m f l = f x l'"
  by (simp add: bnd_def)

lemma prims_run:
  assumes "holds_packet E C"
  shows "wait_for_low E l = (Inr (), l @ [Wait_Low])" "set_low E l = (Inr (), l @ [Cs_Low])" "set_high E l = (Inr (), l @ [Cs_High])"
    "pause us l = (Inr (), l @ [Pause_Us us])"
  using assms by (simp_all add: wait_for_low_def set_low_def set_high_def attempt_def pause_def)

lemma transaction_run:
  assumes "holds_packet E C"
  shows "\<exists>r. transaction E cmd l = (Inr r, l @ [Cs_Low, Transfer cmd, Cs_High]) \<and> command_answer C (irq_polls l) cmd (\<lambda>i. r ! i)"
proof -
  obtain f where f: "se_miso E ((l @ [Cs_Low]) @ [Transfer cmd]) = Some f" "command_answer C (irq_polls (l @ [Cs_Low])) cmd f"
    using assms unfolding holds_packet_def by blast
  then have "transfer_in_place E cmd (l @ [Cs_Low]) = (Inr (map f [0..<length cmd]), (l @ [Cs_Low]) @ [Transfer cmd])"
    by (simp add: transfer_in_place_def attempt_def)
  then have "transaction E cmd l = (Inr (map f [0..<length cmd]), l @ [Cs_Low, Transfer cmd, Cs_High])"
    using assms by (simp add: transaction_def prims_run ret_def)
  moreover have "command_answer C (irq_polls l) cmd (\<lambda>i. map f [0..<length cmd] ! i)"
    using f(2) unfolding command_answer_def irq_answer_def by (intro conjI impI; simp add: eval_nat_numeral split: if_splits)
  ultimately show ?thesis by blast
qed

lemma read_buffer_run:
  assumes "holds_packet E C"
  shows "\<exists>l'. read_buffer E off n l = (Inr (map (\<lambda>i. wc_memory C (off + of_nat i)) [0..<n]), l')"
proof -
  obtain g where g: "transfer_in_place E [OPCODE_READ_BUFFER, off, 0] (l @ [Cs_Low])
      = (Inr g, (l @ [Cs_Low]) @ [Transfer [OPCODE_READ_BUFFER, off, 0]])"
  proof -
    obtain f where "se_miso E ((l @ [Cs_Low]) @ [Transfer [OPCODE_READ_BUFFER, off, 0]]) = Some f"
      using assms unfolding holds_packet_def by blast
    then show ?thesis using that by (simp add: transfer_in_place_def attempt_def)
  qed
  obtain f where "se_miso E ((l @ [Cs_Low]) @ [Transfer [OPCODE_READ_BUFFER, off, 0], Read_Bytes n]) = Some f"
      "\<forall>i < n. f i = wc_memory C (off + of_nat i)"
    using assms unfolding holds_packet_def by blast
  then have "read_bytes E n ((l @ [Cs_Low]) @ [Transfer [OPCODE_READ_BUFFER, off, 0]])
      = (Inr (map (\<lambda>i. wc_memory C (off + of_nat i)) [0..<n]), l @ [Cs_Low, Transfer [OPCODE_READ_BUFFER, off, 0], Read_Bytes n])"
    by (simp add: read_bytes_def attempt_def)
  then show ?thesis using assms g by (simp add: read_buffer_def prims_run ret_def)
qed

lemma wake_poll_run:
  "holds_packet E C \<Longrightarrow> 0 < n \<Longrightarrow> wc_polls C \<le> irq_polls l + n \<Longrightarrow> \<exists>l'. wake_poll E n l = (Inr Rx_Done, l')"
proof (induction n arbitrary: l)
  case (Suc n)
  let ?l = "l @ [Pause_Us 10000, Wait_Low]"
  obtain r where r: "transaction E [OPCODE_GET_IRQ_STATUS, 0, 0, 0] ?l
      = (Inr r, ?l @ [Cs_Low, Transfer [OPCODE_GET_IRQ_STATUS, 0, 0, 0], Cs_High])"
    "irq_answer C (Suc (irq_polls ?l)) (\<lambda>i. r ! i)"
    using transaction_run [OF Suc.prems(1), of "[OPCODE_GET_IRQ_STATUS, 0, 0, 0]" ?l] by (auto simp: command_answer_def)
  show ?case
  proof (cases "wc_polls C \<le> Suc (irq_polls l)")
    case True
    then show ?thesis using r Suc.prems(1) by (simp add: prims_run irq_answer_def ret_def)
  next
    case False
    let ?k = "l @ [Pause_Us 10000, Wait_Low, Cs_Low, Transfer [OPCODE_GET_IRQ_STATUS, 0, 0, 0], Cs_High]"
    have "\<exists>l'. wake_poll E n ?k = (Inr Rx_Done, l')" using Suc.prems False by (intro Suc.IH) simp_all
    then show ?thesis using r False Suc.prems(1) by (simp add: prims_run irq_answer_def)
  qed
qed simp

lemma read_wake_run:
  assumes chip: "holds_packet E C" and "drop_bit 4 (wc_status C) AND 7 = 5 \<longrightarrow> wc_polls C \<le> WAKE_POLLS"
    and "wc_len C \<noteq> 0" "unat (wc_len C) \<le> length buffer"
  shows "\<exists>l. read_wake_packet E buffer [] = (Inr (Some (wc_len C, rssi_of (wc_rssi C), snr_of (wc_snr C)),
    wake_payload C @ drop (unat (wc_len C)) buffer), l)"
proof -
  note run = transaction_run [OF chip] and prims = prims_run [OF chip]
  obtain st where st: "transaction E [OPCODE_GET_STATUS, 0] [Wait_Low, Pause_Us 100]
      = (Inr st, [Wait_Low, Pause_Us 100, Cs_Low, Transfer [OPCODE_GET_STATUS, 0], Cs_High])" "st ! 1 = wc_status C"
    using run [of "[OPCODE_GET_STATUS, 0]" "[Wait_Low, Pause_Us 100]"] by (auto simp: command_answer_def)
  obtain k where poll: "(if drop_bit 4 (st ! 1) AND 7 = 5 then wake_poll E WAKE_POLLS else ret Rx_Done)
      [Wait_Low, Pause_Us 100, Cs_Low, Transfer [OPCODE_GET_STATUS, 0], Cs_High] = (Inr Rx_Done, k)"
    using wake_poll_run [OF chip, of WAKE_POLLS "[Wait_Low, Pause_Us 100, Cs_Low, Transfer [OPCODE_GET_STATUS, 0], Cs_High]"]
      assms(2) st(2) by (cases "drop_bit 4 (wc_status C) AND 7 = 5") (auto simp: WAKE_POLLS_def ret_def const_defs)
  obtain rx l1 where rx: "transaction E [OPCODE_GET_RX_BUFFER_STATUS, 0, 0, 0] (k @ [Wait_Low]) = (Inr rx, l1)"
      "rx ! 2 = wc_len C" "rx ! 3 = wc_offset C"
    using run [of "[OPCODE_GET_RX_BUFFER_STATUS, 0, 0, 0]" "k @ [Wait_Low]"] by (auto simp: command_answer_def)
  obtain l2 where rd: "read_buffer E (wc_offset C) (unat (wc_len C)) (l1 @ [Wait_Low]) = (Inr (wake_payload C), l2)"
    using read_buffer_run [OF chip] unfolding wake_payload_def by blast
  obtain pkt l3 where pkt: "transaction E [OPCODE_GET_PACKET_STATUS, 0, 0, 0, 0] (l2 @ [Wait_Low]) = (Inr pkt, l3)"
      "pkt ! 2 = wc_rssi C" "pkt ! 3 = wc_snr C"
    using run [of "[OPCODE_GET_PACKET_STATUS, 0, 0, 0, 0]" "l2 @ [Wait_Low]"] by (auto simp: command_answer_def)
  show ?thesis
    using st poll rx rd pkt assms(3,4) by (simp add: read_wake_packet_def prims ret_def Let_def)
qed

text \<open>C10: the packet that wakes the node is not lost.  A frame another node sent, held by the chip in its
  receive buffer, at any offset and also when it wraps around the end of the buffer, is handed to the
  mesh task byte for byte with the signal readings of the chip, whether its reception was over at the
  wake or ends within four seconds; any room in the queue is enough.\<close>
theorem wake_packet_delivered:
  assumes "holds_packet E C" and "drop_bit 4 (wc_status C) AND 7 = 5 \<longrightarrow> wc_polls C \<le> WAKE_POLLS"
    and "from_parts h p = Some f" and "wake_payload C = as_bytes f"
    and "length mesh_in < MESH_IN_QUEUE_SIZE"
  shows "fst (wake_to_mesh E (mesh_in, [])) = mesh_in @ [LoraRx f \<lparr>rm_rssi = rssi_of (wc_rssi C), rm_snr = snr_of (wc_snr C)\<rparr>]"
proof -
  have "length (as_bytes f) = HEADER_SIZE + length p" "length (as_bytes f) \<le> MAX_LORA_PAYLOAD_LEN"
    using from_parts_SomeD [OF assms(3)] by (simp_all add: frame_ok_def as_bytes_def)
  then have len: "unat (wc_len C) = HEADER_SIZE + length p" "unat (wc_len C) \<le> MAX_LORA_PAYLOAD_LEN"
    using arg_cong [OF assms(4), of length] by simp_all
  then have "wc_len C \<noteq> 0" by (auto simp: HEADER_SIZE_def)
  with len(2) read_wake_run [OF assms(1,2), of "replicate MAX_LORA_PAYLOAD_LEN 0"]
  obtain l where "read_wake_packet E (replicate MAX_LORA_PAYLOAD_LEN 0) [] = (Inr (Some (wc_len C, rssi_of (wc_rssi C), snr_of (wc_snr C)),
    wake_payload C @ drop (unat (wc_len C)) (replicate MAX_LORA_PAYLOAD_LEN 0)), l)" by auto
  then show ?thesis
    using assms(4,5) from_raw_as_bytes [OF assms(3)] length_wake_payload [of C]
    by (simp add: wake_to_mesh_def try_send_def del: length_wake_payload)
qed

definition waking_chip :: wake_chip where
  "waking_chip = \<lparr>wc_status = 0x52, wc_polls = 3, wc_offset = 250, wc_len = 18, wc_memory = (\<lambda>a. (encode sample_header @ [7, 8]) ! unat (a - 250)),
     wc_rssi = 180, wc_snr = 40\<rparr>"

text \<open>An environment that answers as the chip does.\<close>

definition chip_env :: "wake_chip \<Rightarrow> spi_env" where
  "chip_env C = \<lparr>se_ready = (\<lambda>_. True), se_pin = (\<lambda>_. True),
     se_miso = (\<lambda>l. case rev l of
        Transfer cmd # k \<Rightarrow>
          Some (if cmd = [OPCODE_GET_STATUS, 0] then (\<lambda>_. wc_status C)
            else if cmd = [OPCODE_GET_IRQ_STATUS, 0, 0, 0]
              then (\<lambda>i. if i = 3 \<and> wc_polls C \<le> Suc (irq_polls (rev k)) then 2 else 0)
            else if cmd = [OPCODE_GET_RX_BUFFER_STATUS, 0, 0, 0] then (\<lambda>i. if i = 2 then wc_len C else wc_offset C)
            else (\<lambda>i. if i = 2 then wc_rssi C else wc_snr C))
      | Read_Bytes n # Transfer [op, off, z] # k \<Rightarrow> Some (\<lambda>i. wc_memory C (off + of_nat i))
      | _ \<Rightarrow> None)\<rparr>"

lemma chip_env_holds: "holds_packet (chip_env C) C"
  by (simp add: holds_packet_def chip_env_def command_answer_def irq_answer_def const_defs)

theorem wake_packet_delivered_witness:
  "\<exists>f. from_parts sample_header [7, 8] = Some f
    \<and> fst (wake_to_mesh (chip_env waking_chip) ([], [])) = [LoraRx f \<lparr>rm_rssi = rssi_of 180, rm_snr = snr_of 40\<rparr>]"
proof -
  obtain f where f: "from_parts sample_header [7, 8] = Some f"
    using from_parts_None [of sample_header "[7, 8]"] by (cases "from_parts sample_header [7, 8]") (simp_all add: const_defs HEADER_SIZE_def)
  then have "as_bytes f = encode sample_header @ [7, 8]" using from_parts_SomeD by blast
  moreover have "wake_payload waking_chip = encode sample_header @ [7, 8]"
    by (simp add: wake_payload_def waking_chip_def upt_rec nth_append encode_def le32_def)
  ultimately show ?thesis
    using wake_packet_delivered [OF chip_env_holds [of waking_chip] _ f, of "[]"] f by (simp add: waking_chip_def const_defs)
qed

section \<open>The registers\<close>

text \<open>What the chip makes of the bus: a frame is what was clocked in between the edges of chip select, and a
  WriteRegister frame stores its data at consecutive addresses.\<close>

primrec spi_frames :: "bytes \<Rightarrow> spi_log \<Rightarrow> bytes list" where
  "spi_frames cur [] = []"
| "spi_frames cur (a # l) =
     (case a of
        Cs_Low \<Rightarrow> spi_frames [] l
      | Transfer b \<Rightarrow> spi_frames (cur @ b) l
      | Read_Bytes n \<Rightarrow> spi_frames (cur @ replicate n 0) l
      | Cs_High \<Rightarrow> cur # spi_frames [] l
      | _ \<Rightarrow> spi_frames cur l)"

definition store_frame :: "bytes \<Rightarrow> (u16 \<rightharpoonup> u8) \<Rightarrow> (u16 \<rightharpoonup> u8)" where
  "store_frame fr R =
     (case fr of
        op # hi # lo # data \<Rightarrow>
          if op = OPCODE_WRITE_REGISTER
          then fold (\<lambda>i R. R((push_bit 8 (ucast hi) OR ucast lo) + of_nat i \<mapsto> data ! i)) [0..<length data] R
          else R
      | _ \<Rightarrow> R)"

definition chip_registers :: "spi_log \<Rightarrow> (u16 \<rightharpoonup> u8) \<Rightarrow> (u16 \<rightharpoonup> u8)" where
  "chip_registers l R = fold store_frame (spi_frames [] l) R"

definition register_write :: "u16 \<Rightarrow> bytes \<Rightarrow> spi_log" where
  "register_write addr data =
     [Wait_Low, Cs_Low, Transfer [OPCODE_WRITE_REGISTER, ucast (drop_bit 8 addr), ucast (addr AND 0xFF)], Transfer data, Cs_High]"

lemma write_register_log:
  "write_register E addr data l = (Inr u, l') \<Longrightarrow> l' = l @ register_write addr data"
  by (auto simp: write_register_def register_write_def bnd_def wait_for_low_def set_low_def set_high_def transfer_in_place_def
      attempt_def Let_def split: option.splits sum.splits prod.splits if_splits)

lemma write_radio_registers_log:
  assumes "write_radio_registers E l = (Inr u, l')"
  shows "l' = l @ register_write REG_SYNC_WORD_MSB [SX1262_SYNC_WORD_MSB, SX1262_SYNC_WORD_LSB]
    @ register_write REG_RX_SENSITIVITY_PATCH [RX_SENSITIVITY_PATCH_VALUE]
    @ register_write REG_OCP_CONFIGURATION [OCP_CURRENT_LIMIT_140MA]"
proof -
  obtain l1 where 1: "write_sync_word E SX1262_SYNC_WORD_MSB SX1262_SYNC_WORD_LSB l = (Inr (), l1)"
    using assms by (auto simp: write_radio_registers_def bnd_def split: prod.splits sum.splits)
  obtain l2 where 2: "write_rx_sensitivity_patch E l1 = (Inr (), l2)"
    using assms 1 by (auto simp: write_radio_registers_def bnd_def split: prod.splits sum.splits)
  have 3: "write_current_limit E l2 = (Inr u, l')" using assms 1 2 by (simp add: write_radio_registers_def)
  show ?thesis
    using 1 2 3 by (auto simp: write_sync_word_def write_rx_sensitivity_patch_def write_current_limit_def dest!: write_register_log)
qed

lemma write_register_run:
  assumes "holds_packet E C"
  shows "write_register E addr data l = (Inr (), l @ register_write addr data)"
proof -
  have "\<exists>r. transfer_in_place E cmd k = (Inr r, k @ [Transfer cmd])" for cmd k
  proof -
    obtain f where "se_miso E (k @ [Transfer cmd]) = Some f" using assms unfolding holds_packet_def by blast
    then show ?thesis by (simp add: transfer_in_place_def attempt_def)
  qed
  then obtain f where "transfer_in_place E cmd k = (Inr (f cmd k), k @ [Transfer cmd])" for cmd k by metis
  then show ?thesis by (simp add: write_register_def register_write_def prims_run [OF assms])
qed

text \<open>C23: the radio never starts half configured.  If the start of the radio task returns, the chip was set
  up after the library's reset: its sync word registers hold the two halves of the mesh's sync word in
  the layout the chip uses, the sensitivity patch is applied, the current limit is 140 mA at 2.5 mA a
  step, and no other register was touched; otherwise the task panics.  A cold start delivers nothing.\<close>
theorem radio_configured:
  assumes "lora_task_start E lora_new is_wakeup mesh_in = Some (mesh_in', l')"
  shows "\<exists>l k. lora_new (snd (if is_wakeup then wake_to_mesh E (mesh_in, []) else (mesh_in, []))) = Some l \<and> l' = l @ k
    \<and> chip_registers k R = R(0x0740 \<mapsto> (ucast MESHTASTIC_SYNC_WORD AND 0xF0) OR 0x04,
        0x0741 \<mapsto> push_bit 4 (ucast MESHTASTIC_SYNC_WORD AND 0x0F) OR 0x04, 0x08B5 \<mapsto> 0x01, 0x08E7 \<mapsto> OCP_CURRENT_LIMIT_140MA)
    \<and> 2 * 140 = 5 * unat OCP_CURRENT_LIMIT_140MA \<and> (\<not> is_wakeup \<longrightarrow> mesh_in' = mesh_in)"
proof -
  obtain q l0 where w: "(if is_wakeup then wake_to_mesh E (mesh_in, []) else (mesh_in, [])) = (q, l0)" by fastforce
  obtain l where l: "lora_new l0 = Some l" using assms w by (auto simp: lora_task_start_def Let_def split: option.splits)
  obtain u where r: "write_radio_registers E l = (Inr u, l')" "mesh_in' = q"
    using assms w l by (auto simp: lora_task_start_def Let_def split: sum.splits prod.splits)
  let ?k = "register_write REG_SYNC_WORD_MSB [SX1262_SYNC_WORD_MSB, SX1262_SYNC_WORD_LSB]
    @ register_write REG_RX_SENSITIVITY_PATCH [RX_SENSITIVITY_PATCH_VALUE]
    @ register_write REG_OCP_CONFIGURATION [OCP_CURRENT_LIMIT_140MA]"
  have k: "chip_registers ?k R = R(0x0740 \<mapsto> (ucast MESHTASTIC_SYNC_WORD AND 0xF0) OR 0x04,
        0x0741 \<mapsto> push_bit 4 (ucast MESHTASTIC_SYNC_WORD AND 0x0F) OR 0x04, 0x08B5 \<mapsto> 0x01, 0x08E7 \<mapsto> OCP_CURRENT_LIMIT_140MA)"
    by (simp add: chip_registers_def register_write_def store_frame_def const_defs)
  have "l' = l @ ?k" using write_radio_registers_log [OF r(1)] .
  then show ?thesis
    using w l r(2) k by (intro exI [of _ l] exI [of _ ?k]) (auto simp: OCP_CURRENT_LIMIT_140MA_def)
qed

theorem radio_configured_witness:
  "\<exists>l k. chip_registers k Map.empty = [0x0740 \<mapsto> 0x24, 0x0741 \<mapsto> 0xB4, 0x08B5 \<mapsto> 0x01, 0x08E7 \<mapsto> 0x38]
    \<and> lora_task_start (chip_env waking_chip) Some False [] = Some ([], l @ k)"
proof -
  have "\<exists>l'. lora_task_start (chip_env waking_chip) Some False [] = Some ([], l')"
    by (simp add: lora_task_start_def write_radio_registers_def write_sync_word_def write_rx_sensitivity_patch_def
        write_current_limit_def write_register_run [OF chip_env_holds])
  then obtain l' where s: "lora_task_start (chip_env waking_chip) Some False [] = Some ([], l')" by blast
  from radio_configured [OF this, of Map.empty] show ?thesis
    using s by (auto simp: const_defs)
qed

end
