(* ===== verification/Lora_Task.thy ===== *)
theory Lora_Task
  imports Mesh_Context
begin

text \<open>
  \<open>drivers/lora_task_body.rs\<close>: the task that owns the radio.  The radio library is a parameter: the
  log lists the calls made so far, and an environment answers each call from the whole log, so any
  behaviour of the chip, the channel and the clock is covered.
\<close>

section \<open>Modulation parameters\<close>

datatype bandwidth = BW7 | BW10 | BW15 | BW20 | BW31 | BW41 | BW62 | BW125 | BW250 | BW500
datatype spreading = SF5 | SF6 | SF7 | SF8 | SF9 | SF10 | SF11 | SF12
datatype coding = CR45 | CR46 | CR47 | CR48

definition map_bandwidth :: "u32 \<Rightarrow> bandwidth" where
  "map_bandwidth hz =
     (if hz = 7800 then BW7 else if hz = 10400 then BW10 else if hz = 15600 then BW15 else if hz = 20800 then BW20
      else if hz = 31250 then BW31 else if hz = 41700 then BW41 else if hz = 62500 then BW62
      else if hz = 125000 then BW125 else if hz = 250000 then BW250 else if hz = 500000 then BW500 else BW250)"

definition map_spreading_factor :: "u8 \<Rightarrow> spreading" where
  "map_spreading_factor sf =
     (if sf = 5 then SF5 else if sf = 6 then SF6 else if sf = 7 then SF7 else if sf = 8 then SF8
      else if sf = 9 then SF9 else if sf = 10 then SF10 else if sf = 11 then SF11 else if sf = 12 then SF12 else SF11)"

definition map_coding_rate :: "u8 \<Rightarrow> coding" where
  "map_coding_rate cr = (if cr = 5 then CR45 else if cr = 6 then CR46 else if cr = 7 then CR47 else if cr = 8 then CR48 else CR45)"

text \<open>The library may reject a combination; the fallback that it rejects too is a panic, here \<^term>\<open>None\<close>.\<close>

definition modulation_params_with_fallback ::
  "(spreading \<Rightarrow> bandwidth \<Rightarrow> coding \<Rightarrow> u32 \<Rightarrow> 'm option) \<Rightarrow> modem_config \<Rightarrow> u32 \<Rightarrow> 'm option" where
  "modulation_params_with_fallback create modem_cfg freq =
     (case create (map_spreading_factor (mc_spreading_factor modem_cfg)) (map_bandwidth (mc_bandwidth_hz modem_cfg))
             (map_coding_rate (mc_coding_rate modem_cfg)) freq of
        Some p \<Rightarrow> Some p | None \<Rightarrow> create SF11 BW250 CR45 freq)"

section \<open>Receive duty cycle\<close>

definition RX_DUTY_CYCLE_MIN_SYMBOLS :: u32 where [const_defs]: "RX_DUTY_CYCLE_MIN_SYMBOLS = 8"
definition SX1262_TIMER_TICK_US :: u32 where [const_defs]: "SX1262_TIMER_TICK_US = 15625"
definition SX1262_TIMER_TICK_US_DIV :: u32 where [const_defs]: "SX1262_TIMER_TICK_US_DIV = 1000"
definition MIN_WORTHWHILE_SLEEP_US :: u32 where [const_defs]: "MIN_WORTHWHILE_SLEEP_US = 1016"

record duty_cycle_params =
  rx_time :: u32
  sleep_time :: u32

definition us_to_sx1262_ticks :: "u32 \<Rightarrow> u32" where
  "us_to_sx1262_ticks us = us * SX1262_TIMER_TICK_US_DIV div SX1262_TIMER_TICK_US"

definition sat_sub32 :: "u32 \<Rightarrow> u32 \<Rightarrow> u32" where
  "sat_sub32 a b = (if b \<le> a then a - b else 0)"

definition symbol_length_us :: "u8 \<Rightarrow> u32 \<Rightarrow> u32" where
  "symbol_length_us sf bandwidth_khz = push_bit (unat (min sf 31)) 10000 div (10 * bandwidth_khz)"

definition rx_duty_cycle_params :: "u16 \<Rightarrow> u8 \<Rightarrow> u32 \<Rightarrow> duty_cycle_params option" where
  "rx_duty_cycle_params sender_preamble sf bw_hz =
     (let sender_preamble_symbols = ucast sender_preamble :: u32;
          min_symbols = RX_DUTY_CYCLE_MIN_SYMBOLS
      in if sender_preamble_symbols < 2 * min_symbols then None
         else
           (let sleep_symbols = sender_preamble_symbols - 2 * min_symbols;
                bandwidth_khz = bw_hz div 1000
            in if bandwidth_khz = 0 then None
               else
                 (let symb = symbol_length_us sf bandwidth_khz;
                      sleep_period_us = symb * sleep_symbols
                  in if sleep_period_us < MIN_WORTHWHILE_SLEEP_US then None
                     else
                       (let a = sat_sub32 (symb * (sender_preamble_symbols + 1)) (sat_sub32 sleep_period_us 1000) div 2;
                            b = symb * (min_symbols + 1);
                            wake_period_us = max a b
                        in Some \<lparr>rx_time = us_to_sx1262_ticks wake_period_us,
                                 sleep_time = us_to_sx1262_ticks sleep_period_us\<rparr>))))"

section \<open>The radio and the state of the task\<close>

datatype radio_call = Prepare_Cad | Cad | Back_Off nat | Prepare_Tx bytes | Transmit | Prepare_Rx

type_synonym radio_log = "radio_call list"

text \<open>\<open>re_cad\<close> answers \<open>Some True\<close> for a busy channel and \<open>None\<close> for an error.\<close>

record radio_env =
  re_cad_ready :: "radio_log \<Rightarrow> bool"
  re_cad :: "radio_log \<Rightarrow> bool option"
  re_tx_ready :: "radio_log \<Rightarrow> bool"
  re_tx :: "radio_log \<Rightarrow> bool"
  re_ticks :: "radio_log \<Rightarrow> u64"
  re_now :: "radio_log \<Rightarrow> instant"

record lora_state =
  ls_log :: radio_log
  ls_tx_count :: u32
  ls_rx_count :: u32
  ls_tx_airtime_ms :: nat
  ls_rx_airtime_ms :: nat
  ls_util_window_start :: instant
  ls_last_util_report :: instant
  ls_mesh_in :: "mesh_event list"

definition HEARTBEAT_INTERVAL :: nat where [const_defs]: "HEARTBEAT_INTERVAL = 30000"
definition UTIL_WINDOW_MS :: nat where [const_defs]: "UTIL_WINDOW_MS = 3600000"

definition report_channel_util :: "instant \<Rightarrow> lora_state \<Rightarrow> lora_state" where
  "report_channel_util now s =
     (let elapsed_ms = fl (of_nat (max (now - ls_util_window_start s) 1));
          total_airtime_ms = fl (of_nat (ls_tx_airtime_ms s + ls_rx_airtime_ms s));
          channel_util_pct = fl (fl (total_airtime_ms / elapsed_ms) * 100);
          air_util_tx_pct = fl (fl (fl (of_nat (ls_tx_airtime_ms s)) / elapsed_ms) * 100)
      in s\<lparr>ls_mesh_in := try_send MESH_IN_QUEUE_SIZE (ls_mesh_in s) (ChannelUtilUpdate channel_util_pct air_util_tx_pct)\<rparr>)"

text \<open>Report, note the time, and start a new window after an hour.\<close>

definition report_and_roll :: "instant \<Rightarrow> lora_state \<Rightarrow> lora_state" where
  "report_and_roll now s =
     (let s = (report_channel_util now s)\<lparr>ls_last_util_report := now\<rparr>
      in if UTIL_WINDOW_MS \<le> now - ls_util_window_start s
         then s\<lparr>ls_tx_airtime_ms := 0, ls_rx_airtime_ms := 0, ls_util_window_start := now\<rparr> else s)"

definition report_if_due :: "instant \<Rightarrow> lora_state \<Rightarrow> lora_state" where
  "report_if_due now s = (if HEARTBEAT_INTERVAL \<le> now - ls_last_util_report s then report_and_roll now s else s)"

section \<open>Transmission\<close>

text \<open>Listen before talk: a busy channel is tried again after a random pause, at most five times.\<close>

definition cad_jitter :: "radio_env \<Rightarrow> u32 \<Rightarrow> radio_log \<Rightarrow> nat" where
  "cad_jitter E node_num calls = unat (xor (re_ticks E calls) (ucast node_num)) mod CAD_BACKOFF_JITTER_MS"

function cad_loop :: "radio_env \<Rightarrow> u32 \<Rightarrow> nat \<Rightarrow> radio_log \<Rightarrow> radio_log" where
  "cad_loop E node_num cad_retries calls =
     (if CAD_MAX_RETRIES \<le> cad_retries then calls
      else
        (let log1 = calls @ [Prepare_Cad]
         in if \<not> re_cad_ready E log1 then log1
            else
              (let log2 = log1 @ [Cad]
               in case re_cad E log2 of
                    Some True \<Rightarrow> cad_loop E node_num (cad_retries + 1)
                      (log2 @ [Back_Off (CAD_BACKOFF_BASE_MS + cad_jitter E node_num log2)])
                  | _ \<Rightarrow> log2)))"
  by pat_completeness auto
termination
  by (relation "measure (\<lambda>(E, n, r, calls). CAD_MAX_RETRIES - r)") auto

declare cad_loop.simps [simp del]

definition transmit_frame :: "radio_env \<Rightarrow> u32 \<Rightarrow> radio_frame \<Rightarrow> lora_state \<Rightarrow> lora_state" where
  "transmit_frame E node_num frame s =
     (let log1 = cad_loop E node_num 0 (ls_log s) @ [Prepare_Tx (as_bytes frame)]
      in if \<not> re_tx_ready E log1 then s\<lparr>ls_log := log1\<rparr>
         else
           (let log2 = log1 @ [Transmit]
            in if re_tx E log2
               then s\<lparr>ls_log := log2, ls_tx_airtime_ms := ls_tx_airtime_ms s + (re_now E log2 - re_now E log1)\<rparr>
               else s\<lparr>ls_log := log2\<rparr>))"

section \<open>The loop\<close>

datatype radio_event =
    Tx_Queued radio_frame
  | Received bytes "16 word" "16 word"
  | Rx_Error
  | Silent

definition prepare_rx :: "lora_state \<Rightarrow> lora_state" where
  "prepare_rx s = s\<lparr>ls_log := ls_log s @ [Prepare_Rx]\<rparr>"

definition receive_frame :: "bytes \<Rightarrow> 16 word \<Rightarrow> 16 word \<Rightarrow> lora_state \<Rightarrow> lora_state" where
  "receive_frame data rssi snr s =
     (let s = s\<lparr>ls_rx_count := ls_rx_count s + 1, ls_rx_airtime_ms := ls_rx_airtime_ms s + length data\<rparr>
      in case from_raw data of
           Some frame \<Rightarrow> s\<lparr>ls_mesh_in := try_send MESH_IN_QUEUE_SIZE (ls_mesh_in s)
             (LoraRx frame \<lparr>rm_rssi = rssi, rm_snr = ucast snr\<rparr>)\<rparr>
         | None \<Rightarrow> s)"

definition lora_turn :: "radio_env \<Rightarrow> u32 \<Rightarrow> bool \<Rightarrow> radio_event \<Rightarrow> lora_state \<Rightarrow> lora_state" where
  "lora_turn E node_num tx_on event s =
     (case event of
        Silent \<Rightarrow> report_and_roll (re_now E (ls_log s)) s
      | Tx_Queued frame \<Rightarrow>
          if \<not> tx_on then s
          else (let s = prepare_rx (transmit_frame E node_num frame (s\<lparr>ls_tx_count := ls_tx_count s + 1\<rparr>))
                in report_if_due (re_now E (ls_log s)) s)
      | Received data rssi snr \<Rightarrow>
          (let s = receive_frame data rssi snr s in report_if_due (re_now E (ls_log s)) s)
      | Rx_Error \<Rightarrow> prepare_rx s)"

section \<open>Listen before talk\<close>

definition busy_rounds :: "nat list \<Rightarrow> radio_log" where
  "busy_rounds ws = concat (map (\<lambda>w. [Prepare_Cad, Cad, Back_Off w]) ws)"

lemma busy_rounds_simps [simp]: "busy_rounds [] = []" "busy_rounds (w # ws) = [Prepare_Cad, Cad, Back_Off w] @ busy_rounds ws"
  by (simp_all add: busy_rounds_def)

text \<open>How the attempts can end: out of retries, the chip not ready, or the channel not reported busy.\<close>

definition cad_end :: "radio_env \<Rightarrow> nat \<Rightarrow> nat list \<Rightarrow> radio_log \<Rightarrow> radio_log \<Rightarrow> bool" where
  "cad_end E r ws calls t \<longleftrightarrow>
     t = [] \<and> r + length ws = CAD_MAX_RETRIES
     \<or> t = [Prepare_Cad] \<and> \<not> re_cad_ready E (calls @ t)
     \<or> t = [Prepare_Cad, Cad] \<and> re_cad E (calls @ t) \<noteq> Some True"

lemma cad_jitter_less: "cad_jitter E n calls < CAD_BACKOFF_JITTER_MS"
  by (simp add: cad_jitter_def const_defs)

lemma cad_loop_rounds:
  assumes "r \<le> CAD_MAX_RETRIES"
  shows "\<exists>ws t. cad_loop E n r calls = calls @ busy_rounds ws @ t \<and> r + length ws \<le> CAD_MAX_RETRIES
    \<and> (\<forall>w \<in> set ws. CAD_BACKOFF_BASE_MS \<le> w \<and> w < CAD_BACKOFF_BASE_MS + CAD_BACKOFF_JITTER_MS)
    \<and> (\<forall>i < length ws. re_cad E (calls @ busy_rounds (take i ws) @ [Prepare_Cad, Cad]) = Some True)
    \<and> cad_end E r ws (calls @ busy_rounds ws) t"
  using assms
proof (induction E n r calls rule: cad_loop.induct)
  case (1 E n r calls)
  let ?l1 = "calls @ [Prepare_Cad]" and ?l2 = "calls @ [Prepare_Cad, Cad]"
  consider "r = CAD_MAX_RETRIES" | "r < CAD_MAX_RETRIES" "\<not> re_cad_ready E ?l1"
    | "r < CAD_MAX_RETRIES" "re_cad_ready E ?l1" "re_cad E ?l2 \<noteq> Some True"
    | "r < CAD_MAX_RETRIES" "re_cad_ready E ?l1" "re_cad E ?l2 = Some True"
    using "1.prems" by linarith
  then show ?case
  proof cases
    case 1
    then show ?thesis by (intro exI [of _ "[]"]) (subst cad_loop.simps, simp add: cad_end_def)
  next
    case 2
    then show ?thesis
      by (intro exI [of _ "[]"] exI [of _ "[Prepare_Cad]"]) (subst cad_loop.simps, simp add: cad_end_def Let_def)
  next
    case 3
    then have "cad_loop E n r calls = ?l2" by (subst cad_loop.simps) (auto simp: Let_def split: option.splits bool.splits)
    then show ?thesis using 3
      by (intro exI [of _ "[]"] exI [of _ "[Prepare_Cad, Cad]"]) (simp add: cad_end_def)
  next
    case 4
    let ?w = "CAD_BACKOFF_BASE_MS + cad_jitter E n ?l2"
    have loop: "cad_loop E n r calls = cad_loop E n (r + 1) (calls @ [Prepare_Cad, Cad, Back_Off ?w])"
      using 4 by (subst cad_loop.simps) (simp add: Let_def)
    obtain ws t where IH: "cad_loop E n (r + 1) (calls @ [Prepare_Cad, Cad, Back_Off ?w])
          = (calls @ [Prepare_Cad, Cad, Back_Off ?w]) @ busy_rounds ws @ t"
        "r + 1 + length ws \<le> CAD_MAX_RETRIES"
        "\<forall>w \<in> set ws. CAD_BACKOFF_BASE_MS \<le> w \<and> w < CAD_BACKOFF_BASE_MS + CAD_BACKOFF_JITTER_MS"
        "\<forall>i < length ws. re_cad E ((calls @ [Prepare_Cad, Cad, Back_Off ?w]) @ busy_rounds (take i ws) @ [Prepare_Cad, Cad]) = Some True"
        "cad_end E (r + 1) ws ((calls @ [Prepare_Cad, Cad, Back_Off ?w]) @ busy_rounds ws) t"
      using "1.IH" [OF _ refl _ refl _ refl] 4 by auto
    show ?thesis
      using IH 4 cad_jitter_less [of E n ?l2] unfolding loop
      by (intro exI [of _ "?w # ws"] exI [of _ t]) (auto simp: cad_end_def less_Suc_eq_0_disj)
  qed
qed

text \<open>C18: the node listens before it talks.  Whatever the channel and the chip do, one transmission is a
  number of busy channel checks, at most five, each followed by a pause of 50 to 149 milliseconds, then
  either a check that did not report a busy channel (or failed), or nothing after five busy ones, and
  only then the frame: it is handed to the chip once, byte for byte, and sent at most once.\<close>
theorem listen_before_talk:
  "\<exists>ws t sent. ls_log (transmit_frame E n frame s) = ls_log s @ busy_rounds ws @ t @ [Prepare_Tx (as_bytes frame)] @ sent
    \<and> sent \<in> {[], [Transmit]} \<and> length ws \<le> CAD_MAX_RETRIES
    \<and> (\<forall>w \<in> set ws. CAD_BACKOFF_BASE_MS \<le> w \<and> w < CAD_BACKOFF_BASE_MS + CAD_BACKOFF_JITTER_MS)
    \<and> (\<forall>i < length ws. re_cad E (ls_log s @ busy_rounds (take i ws) @ [Prepare_Cad, Cad]) = Some True)
    \<and> cad_end E 0 ws (ls_log s @ busy_rounds ws) t"
proof -
  obtain ws t where c: "cad_loop E n 0 (ls_log s) = ls_log s @ busy_rounds ws @ t" "length ws \<le> CAD_MAX_RETRIES"
    "\<forall>w \<in> set ws. CAD_BACKOFF_BASE_MS \<le> w \<and> w < CAD_BACKOFF_BASE_MS + CAD_BACKOFF_JITTER_MS"
    "\<forall>i < length ws. re_cad E (ls_log s @ busy_rounds (take i ws) @ [Prepare_Cad, Cad]) = Some True"
    "cad_end E 0 ws (ls_log s @ busy_rounds ws) t"
    using cad_loop_rounds [of 0 E n "ls_log s"] by auto
  have "\<exists>sent. ls_log (transmit_frame E n frame s) = cad_loop E n 0 (ls_log s) @ [Prepare_Tx (as_bytes frame)] @ sent
      \<and> sent \<in> {[], [Transmit]}"
    by (auto simp: transmit_frame_def Let_def)
  then show ?thesis using c by auto
qed

definition busy_env :: radio_env where
  "busy_env = \<lparr>re_cad_ready = (\<lambda>_. True), re_cad = (\<lambda>l. Some (length l < 5)), re_tx_ready = (\<lambda>_. True),
     re_tx = (\<lambda>_. True), re_ticks = (\<lambda>_. 7), re_now = length\<rparr>"

theorem listen_before_talk_witness:
  "Cad \<in> set (ls_log (transmit_frame busy_env 9 frame_new
     \<lparr>ls_log = [], ls_tx_count = 0, ls_rx_count = 0, ls_tx_airtime_ms = 0, ls_rx_airtime_ms = 0,
      ls_util_window_start = 0, ls_last_util_report = 0, ls_mesh_in = []\<rparr>))" (is "Cad \<in> set (ls_log (transmit_frame _ _ _ ?s))")
proof -
  obtain ws t sent where l: "ls_log (transmit_frame busy_env 9 frame_new ?s)
      = busy_rounds ws @ t @ [Prepare_Tx (as_bytes frame_new)] @ sent"
    "cad_end busy_env 0 ws (busy_rounds ws) t"
    using listen_before_talk [of busy_env 9 frame_new ?s] by auto
  then show ?thesis by (cases ws) (auto simp: cad_end_def busy_env_def CAD_MAX_RETRIES_def)
qed

section \<open>The duty cycle\<close>

lemma unat_mult_small: "unat (a :: u32) * unat b < 4294967296 \<Longrightarrow> unat (a * b) = unat a * unat b"
  by (simp add: unat_word_ariths)

lemma unat_symbol_length:
  assumes "sf \<le> 12" "unat khz \<le> 4294967"
  shows "unat (symbol_length_us sf khz) = 10000 * 2 ^ unat sf div (10 * unat khz)"
proof -
  have sf: "unat sf \<le> 12" using assms(1) by (simp add: word_le_nat_alt)
  then have "(2 :: nat) ^ unat sf \<le> 2 ^ 12" by (intro power_increasing) simp_all
  then have "10000 * 2 ^ unat sf < (4294967296 :: nat)" by simp
  then have "unat (word_of_nat (10000 * 2 ^ unat sf) :: u32) = 10000 * 2 ^ unat sf"
    by (simp only: unsigned_of_nat of_nat_id) (intro take_bit_nat_eq_self, simp)
  moreover have "push_bit (unat sf) 10000 = (word_of_nat (10000 * 2 ^ unat sf) :: u32)" by (simp add: push_bit_eq_mult)
  ultimately have "unat (push_bit (unat sf) (10000 :: u32)) = 10000 * 2 ^ unat sf" by simp
  moreover have "unat (10 * khz) = 10 * unat khz" using assms(2) by (simp add: unat_mult_small)
  moreover have "min sf 31 = sf" using assms(1) by (simp add: min_def word_le_nat_alt)
  ultimately show ?thesis by (simp add: symbol_length_us_def unat_div)
qed

lemma unat_ticks: "unat us \<le> 4294967 \<Longrightarrow> unat (us_to_sx1262_ticks us) = unat us * 1000 div 15625"
  by (simp add: us_to_sx1262_ticks_def const_defs unat_div unat_mult_small)

lemma unat_sat_sub32: "unat (sat_sub32 a b) = unat a - unat b"
  by (simp add: sat_sub32_def word_le_nat_alt unat_sub)

text \<open>The data sheet's bandwidths are 500 kHz divided by these numbers, whatever round figure names them; a symbol
  lasts 2 to the power of the spreading factor periods of the bandwidth.\<close>

fun bandwidth_divisor :: "bandwidth \<Rightarrow> nat" where
  "bandwidth_divisor BW7 = 64" | "bandwidth_divisor BW10 = 48" | "bandwidth_divisor BW15 = 32" | "bandwidth_divisor BW20 = 24"
| "bandwidth_divisor BW31 = 16" | "bandwidth_divisor BW41 = 12" | "bandwidth_divisor BW62 = 8" | "bandwidth_divisor BW125 = 4"
| "bandwidth_divisor BW250 = 2" | "bandwidth_divisor BW500 = 1"

definition symbol_ns :: "u8 \<Rightarrow> u32 \<Rightarrow> nat" where
  "symbol_ns sf hz = 2000 * bandwidth_divisor (map_bandwidth hz) * 2 ^ unat sf"

definition duty_ok :: "u8 \<Rightarrow> u32 \<Rightarrow> bool" where
  "duty_ok sf hz =
     (case rx_duty_cycle_params MESHTASTIC_PREAMBLE_LENGTH sf hz of
        None \<Rightarrow> False
      | Some p \<Rightarrow> unat (sleep_time p) < 2 ^ 24 \<and> unat (rx_time p) < 2 ^ 24
          \<and> unat (sleep_time p) * 15625 + 10 * symbol_ns sf hz \<le> 64 * symbol_ns sf hz
          \<and> (31250 \<le> hz \<longrightarrow> unat (sleep_time p) * 15625 + 15 * symbol_ns sf hz \<le> 64 * symbol_ns sf hz)
          \<and> 9 * symbol_ns sf hz < (unat (rx_time p) + 1) * 15625)"

lemmas duty_defs = duty_ok_def rx_duty_cycle_params_def Let_def const_defs symbol_length_us_def us_to_sx1262_ticks_def
  sat_sub32_def symbol_ns_def map_bandwidth_def

lemma duty_wide:
  assumes "sf \<in> {5, 6, 7, 8, 9, 10, 11, 12}" and "hz \<in> {62500, 125000, 250000, 500000}"
  shows "duty_ok sf hz"
  using assms by (elim insertE emptyE; simp add: duty_defs)

lemma duty_middle:
  assumes "sf \<in> {5, 6, 7, 8, 9, 10, 11}" and "hz \<in> {31250, 41700}"
  shows "duty_ok sf hz"
  using assms by (elim insertE emptyE; simp add: duty_defs)

lemma duty_narrow:
  assumes "sf \<in> {5, 6, 7, 8, 9}" and "hz \<in> {7800, 10400, 15600, 20800}"
  shows "duty_ok sf hz"
  using assms by (elim insertE emptyE; simp add: duty_defs)

text \<open>C33: the receiver wakes in time to hear a preamble.  Take any bandwidth the chip has, under the name the settings
  give it, and any spreading factor for which the conversion to timer ticks does not wrap: all of them from
  62.5 kHz, up to 11 at 31 and 42 kHz, up to 9 below that.  Listening for a sender with the standard
  64-symbol preamble there always is a duty cycle and it fits the chip's 24-bit timers.  Measured in the symbols
  the chip really sends, with the data sheet's bandwidth and not the code's rounded one, at least 10 symbols of
  the preamble are left when the radio wakes, 15 of them from 31.25 kHz, and it then listens for the nine that the
  detector needs, up to one timer tick.  (A bandwidth the chip lacks runs at 250 kHz; it is not covered.)\<close>
theorem duty_cycle_hears_preamble:
  fixes sf :: u8 and hz :: u32
  assumes "hz \<in> {7800, 10400, 15600, 20800, 31250, 41700, 62500, 125000, 250000, 500000}" and "5 \<le> sf" and "sf \<le> 12"
    and "62500 \<le> hz \<or> 31250 \<le> hz \<and> sf \<le> 11 \<or> sf \<le> 9"
  shows "\<exists>p. rx_duty_cycle_params MESHTASTIC_PREAMBLE_LENGTH sf hz = Some p
    \<and> unat (sleep_time p) < 2 ^ 24 \<and> unat (rx_time p) < 2 ^ 24
    \<and> unat (sleep_time p) * 15625 + 10 * symbol_ns sf hz \<le> 64 * symbol_ns sf hz
    \<and> (31250 \<le> hz \<longrightarrow> unat (sleep_time p) * 15625 + 15 * symbol_ns sf hz \<le> 64 * symbol_ns sf hz)
    \<and> 9 * symbol_ns sf hz < (unat (rx_time p) + 1) * 15625"
proof -
  have "5 \<le> unat sf" "unat sf \<le> 12" using assms(2,3) by (simp_all add: word_le_nat_alt)
  then have "unat sf = 5 \<or> unat sf = 6 \<or> unat sf = 7 \<or> unat sf = 8 \<or> unat sf = 9 \<or> unat sf = 10 \<or> unat sf = 11 \<or> unat sf = 12"
    by arith
  then have sf: "sf \<in> {5, 6, 7, 8, 9, 10, 11, 12}" by (elim disjE; simp add: word_unat_eq_iff)
  have "duty_ok sf hz"
    using assms(1,4) sf duty_wide [of sf hz] duty_middle [of sf hz] duty_narrow [of sf hz] by (elim insertE emptyE; simp)
  then show ?thesis by (auto simp: duty_ok_def split: option.splits)
qed

theorem duty_cycle_hears_preamble_witness:
  "\<exists>p. rx_duty_cycle_params MESHTASTIC_PREAMBLE_LENGTH 11 250000 = Some p \<and> unat (sleep_time p) * 15625 \<le> 49 * 8192000"
proof -
  have "symbol_ns 11 250000 = 8192000" by (simp add: symbol_ns_def map_bandwidth_def)
  with duty_cycle_hears_preamble [of 250000 11] show ?thesis by (auto simp: word_le_nat_alt)
qed

end
