(* ===== verification/Radio_Task.thy ===== *)
theory Radio_Task
  imports Sx1262 Lora_Task "HOL-Library.Sublist"
begin

text \<open>
  The radio task as a whole: what \<open>lora_task_body::run\<close> sets up before its loop, the loop beside the other
  users of the mesh task's queue, and the start of the nRF52 board's task.
\<close>

section \<open>Before the loop\<close>

datatype rx_mode = Duty_Cycle duty_cycle_params | Continuous

definition rx_mode_for :: "modem_config \<Rightarrow> rx_mode" where
  "rx_mode_for modem_cfg =
     (case rx_duty_cycle_params MESHTASTIC_PREAMBLE_LENGTH (mc_spreading_factor modem_cfg) (mc_bandwidth_hz modem_cfg) of
        Some p \<Rightarrow> Duty_Cycle p | None \<Rightarrow> Continuous)"

text \<open>The parameter constructors of the radio library, and whether it enters the receive mode.  The
  arguments after the preamble are the implicit header, the payload limit (receiving), the checksum and
  the inverted IQ.\<close>

record ('m, 'p) radio_lib =
  rl_modulation :: "spreading \<Rightarrow> bandwidth \<Rightarrow> coding \<Rightarrow> u32 \<Rightarrow> 'm option"
  rl_tx_params :: "u16 \<Rightarrow> bool \<Rightarrow> bool \<Rightarrow> bool \<Rightarrow> 'm \<Rightarrow> 'p option"
  rl_rx_params :: "u16 \<Rightarrow> bool \<Rightarrow> u8 \<Rightarrow> bool \<Rightarrow> bool \<Rightarrow> 'm \<Rightarrow> 'p option"
  rl_rx :: "rx_mode \<Rightarrow> 'm \<Rightarrow> 'p \<Rightarrow> bool"

text \<open>The state at the top of the loop; a rejected parameter or a failure to enter the receive mode is a
  panic, \<^term>\<open>None\<close>.\<close>

definition lora_initial :: "instant \<Rightarrow> mesh_event list \<Rightarrow> lora_state" where
  "lora_initial now mesh_in = \<lparr>ls_log = [Prepare_Rx], ls_tx_count = 0, ls_rx_count = 0, ls_tx_airtime_ms = 0,
     ls_rx_airtime_ms = 0, ls_util_window_start = now, ls_last_util_report = now, ls_mesh_in = mesh_in\<rparr>"

definition run_start :: "('m, 'p) radio_lib \<Rightarrow> modem_config \<Rightarrow> u32 \<Rightarrow> instant \<Rightarrow> mesh_event list \<Rightarrow> lora_state option" where
  "run_start L modem_cfg freq now mesh_in =
     (case modulation_params_with_fallback (rl_modulation L) modem_cfg freq of
        None \<Rightarrow> None
      | Some m \<Rightarrow>
          (case rl_tx_params L MESHTASTIC_PREAMBLE_LENGTH False True False m of
             None \<Rightarrow> None
           | Some tx \<Rightarrow>
               (case rl_rx_params L MESHTASTIC_PREAMBLE_LENGTH False (of_nat MAX_LORA_PAYLOAD_LEN) True False m of
                  None \<Rightarrow> None
                | Some rx \<Rightarrow>
                    if rl_rx L (rx_mode_for modem_cfg) m rx then Some (lora_initial now mesh_in) else None)))"

text \<open>The nRF52 board has no deep sleep, so its task only initialises the chip and writes the registers.\<close>

definition nrf_lora_task_start :: "spi_env \<Rightarrow> (spi_log \<Rightarrow> spi_log option) \<Rightarrow> spi_log option" where
  "nrf_lora_task_start E lora_new =
     (case lora_new [] of
        None \<Rightarrow> None
      | Some l \<Rightarrow>
          (case bnd (write_sync_word E SX1262_SYNC_WORD_MSB SX1262_SYNC_WORD_LSB) (\<lambda>_.
                bnd (write_rx_sensitivity_patch E) (\<lambda>_. write_current_limit E)) l of
             (Inr _, l) \<Rightarrow> Some l | (Inl _, _) \<Rightarrow> None))"

lemma nrf_start_cold:
  "map_option (\<lambda>l. (mesh_in, l)) (nrf_lora_task_start E lora_new) = lora_task_start E lora_new False mesh_in"
  by (simp add: nrf_lora_task_start_def lora_task_start_def write_radio_registers_def split: option.split sum.split prod.split)

section \<open>The loop beside the other tasks\<close>

text \<open>A turn of the loop, the mesh task taking an event, or another task queueing one.\<close>

datatype radio_step = Task_Turn bool radio_event | Event_Taken | Event_Queued mesh_event

definition radio_step :: "radio_env \<Rightarrow> u32 \<Rightarrow> radio_step \<Rightarrow> lora_state \<times> mesh_event list \<Rightarrow> lora_state \<times> mesh_event list" where
  "radio_step E n st = (\<lambda>(s, taken).
     case st of
       Task_Turn tx_on event \<Rightarrow> (lora_turn E n tx_on event s, taken)
     | Event_Taken \<Rightarrow> (case ls_mesh_in s of [] \<Rightarrow> (s, taken) | e # q \<Rightarrow> (s\<lparr>ls_mesh_in := q\<rparr>, taken @ [e]))
     | Event_Queued e \<Rightarrow> (s\<lparr>ls_mesh_in := try_send MESH_IN_QUEUE_SIZE (ls_mesh_in s) e\<rparr>, taken))"

definition radio_run :: "radio_env \<Rightarrow> u32 \<Rightarrow> radio_step list \<Rightarrow> lora_state \<Rightarrow> lora_state \<times> mesh_event list" where
  "radio_run E n steps s = fold (radio_step E n) steps (s, [])"

lemma radio_run_snoc: "radio_run E n (steps @ [st]) s = radio_step E n st (radio_run E n steps s)"
  by (simp add: radio_run_def)

section \<open>What a run is measured by\<close>

text \<open>The frames handed to the chip, the time spent waiting for a free channel, and what should be sent.\<close>

definition handed :: "radio_log \<Rightarrow> bytes list" where
  "handed calls = concat (map (\<lambda>c. case c of Prepare_Tx b \<Rightarrow> [b] | _ \<Rightarrow> []) calls)"

definition paused :: "radio_log \<Rightarrow> nat" where
  "paused calls = sum_list (map (\<lambda>c. case c of Back_Off w \<Rightarrow> w | _ \<Rightarrow> 0) calls)"

definition due :: "radio_step \<Rightarrow> radio_frame list" where
  "due st = (case st of Task_Turn True (Tx_Queued f) \<Rightarrow> [f] | _ \<Rightarrow> [])"

text \<open>The frames heard, as the events they become.\<close>

definition is_radio :: "mesh_event \<Rightarrow> bool" where
  "is_radio e \<longleftrightarrow> (case e of LoraRx _ _ \<Rightarrow> True | _ \<Rightarrow> False)"

definition heard :: "radio_step \<Rightarrow> mesh_event list" where
  "heard st =
     (case st of
        Task_Turn _ (Received data rssi snr) \<Rightarrow>
          (case from_raw data of Some f \<Rightarrow> [LoraRx f \<lparr>rm_rssi = rssi, rm_snr = ucast snr\<rparr>] | None \<Rightarrow> [])
      | Event_Queued e \<Rightarrow> (if is_radio e then [e] else [])
      | _ \<Rightarrow> [])"

lemma handed_simps [simp]:
  "handed [] = []" "handed (Prepare_Tx b # k) = b # handed k" "handed (Prepare_Cad # k) = handed k"
  "handed (Cad # k) = handed k" "handed (Back_Off w # k) = handed k" "handed (Transmit # k) = handed k"
  "handed (Prepare_Rx # k) = handed k" "handed (j @ k) = handed j @ handed k"
  by (simp_all add: handed_def)

lemma paused_simps [simp]:
  "paused [] = 0" "paused (Prepare_Tx b # k) = paused k" "paused (Prepare_Cad # k) = paused k"
  "paused (Cad # k) = paused k" "paused (Back_Off w # k) = w + paused k" "paused (Transmit # k) = paused k"
  "paused (Prepare_Rx # k) = paused k" "paused (j @ k) = paused j + paused k"
  by (simp_all add: paused_def)

lemma busy_rounds_measures [simp]: "handed (busy_rounds ws) = []" "paused (busy_rounds ws) = sum_list ws"
  by (induction ws) simp_all

section \<open>One turn\<close>

lemma report_keeps [simp]:
  "ls_log (report_and_roll now s) = ls_log s" "ls_tx_count (report_and_roll now s) = ls_tx_count s"
  "ls_log (report_if_due now s) = ls_log s" "ls_tx_count (report_if_due now s) = ls_tx_count s"
  by (simp_all add: report_and_roll_def report_if_due_def report_channel_util_def Let_def)

lemma sum_list_le: "\<forall>w \<in> set ws. w \<le> (b :: nat) \<Longrightarrow> sum_list ws \<le> length ws * b"
  by (induction ws) auto

lemma transmit_log:
  obtains k where "ls_log (transmit_frame E n f s) = ls_log s @ k" "handed k = [as_bytes f]" "paused k \<le> 745"
proof -
  obtain ws t where c: "cad_loop E n 0 (ls_log s) = ls_log s @ busy_rounds ws @ t" "length ws \<le> CAD_MAX_RETRIES"
    "\<forall>w \<in> set ws. CAD_BACKOFF_BASE_MS \<le> w \<and> w < CAD_BACKOFF_BASE_MS + CAD_BACKOFF_JITTER_MS"
    "cad_end E 0 ws (ls_log s @ busy_rounds ws) t"
    using cad_loop_rounds [of 0 E n "ls_log s"] by auto
  have t: "handed t = []" "paused t = 0" using c(4) by (auto simp: cad_end_def)
  have "sum_list ws \<le> length ws * 149" using c(3) by (intro sum_list_le) (auto simp: const_defs)
  then have ws: "sum_list ws \<le> 745" using c(2) by (simp add: const_defs)
  have "\<exists>sent. ls_log (transmit_frame E n f s) = cad_loop E n 0 (ls_log s) @ [Prepare_Tx (as_bytes f)] @ sent
      \<and> sent \<in> {[], [Transmit]}"
    by (auto simp: transmit_frame_def Let_def)
  then obtain sent where "ls_log (transmit_frame E n f s) = ls_log s @ busy_rounds ws @ t @ Prepare_Tx (as_bytes f) # sent"
    "sent \<in> {[], [Transmit]}" by (auto simp: c(1))
  then show thesis using t ws by (intro that [of "busy_rounds ws @ t @ Prepare_Tx (as_bytes f) # sent"]) auto
qed

lemma transmit_keeps [simp]:
  "ls_tx_count (transmit_frame E n f s) = ls_tx_count s" "ls_mesh_in (transmit_frame E n f s) = ls_mesh_in s"
  by (simp_all add: transmit_frame_def Let_def)

lemma turn_log:
  obtains k where "ls_log (lora_turn E n on ev s) = ls_log s @ k" "handed k = map as_bytes (due (Task_Turn on ev))"
    "paused k \<le> 745 * length (due (Task_Turn on ev))" "k = [] \<or> last k = Prepare_Rx"
    "ls_tx_count (lora_turn E n on ev s) = ls_tx_count s + of_nat (length (due (Task_Turn on ev)))"
proof (cases ev)
  case (Tx_Queued f)
  let ?s = "s\<lparr>ls_tx_count := ls_tx_count s + 1\<rparr>"
  obtain k where "ls_log (transmit_frame E n f ?s) = ls_log s @ k" "handed k = [as_bytes f]" "paused k \<le> 745"
    using transmit_log [of E n f ?s] by auto
  then show thesis
    using Tx_Queued by (cases on; intro that [of "if on then k @ [Prepare_Rx] else []"])
      (simp_all add: lora_turn_def prepare_rx_def due_def Let_def)
next
  case Rx_Error
  then show thesis by (intro that [of "[Prepare_Rx]"]) (simp_all add: lora_turn_def prepare_rx_def due_def split: bool.split)
next
  case (Received data rssi snr)
  then show thesis
    by (intro that [of "[]"]) (simp_all add: lora_turn_def receive_frame_def due_def Let_def split: bool.split option.split)
next
  case Silent
  then show thesis by (intro that [of "[]"]) (simp_all add: lora_turn_def due_def split: bool.split)
qed

text \<open>What a turn adds to the queue: the frame heard, then perhaps a report, each if there is room.\<close>

lemma not_radio_report [simp]: "\<not> is_radio (ChannelUtilUpdate u a)" "is_radio (LoraRx f m)"
  by (simp_all add: is_radio_def)

lemma try_send_radio:
  "\<not> is_radio e \<Longrightarrow> filter is_radio (try_send cap q e) = filter is_radio q"
  by (simp add: try_send_def)

lemma report_queue [simp]:
  "filter is_radio (ls_mesh_in (report_and_roll now s)) = filter is_radio (ls_mesh_in s)"
  "filter is_radio (ls_mesh_in (report_if_due now s)) = filter is_radio (ls_mesh_in s)"
  by (simp_all add: report_and_roll_def report_if_due_def report_channel_util_def Let_def try_send_radio)

lemma report_queue_cap:
  "length (ls_mesh_in s) \<le> MESH_IN_QUEUE_SIZE \<Longrightarrow> length (ls_mesh_in (report_and_roll now s)) \<le> MESH_IN_QUEUE_SIZE"
  "length (ls_mesh_in s) \<le> MESH_IN_QUEUE_SIZE \<Longrightarrow> length (ls_mesh_in (report_if_due now s)) \<le> MESH_IN_QUEUE_SIZE"
  by (simp_all add: report_and_roll_def report_if_due_def report_channel_util_def Let_def length_try_send)

lemma turn_queue:
  "filter is_radio (ls_mesh_in (lora_turn E n on ev s)) =
     filter is_radio (ls_mesh_in s) @ (if length (ls_mesh_in s) < MESH_IN_QUEUE_SIZE then heard (Task_Turn on ev) else [])"
  by (cases ev) (simp_all add: lora_turn_def prepare_rx_def receive_frame_def heard_def try_send_def Let_def split: option.split)

lemma turn_queue_cap:
  "length (ls_mesh_in s) \<le> MESH_IN_QUEUE_SIZE \<Longrightarrow> length (ls_mesh_in (lora_turn E n on ev s)) \<le> MESH_IN_QUEUE_SIZE"
  by (cases ev) (simp_all add: lora_turn_def prepare_rx_def receive_frame_def Let_def report_queue_cap length_try_send split: option.split)

section \<open>Runs\<close>

definition run_ok :: "radio_step list \<Rightarrow> lora_state \<times> mesh_event list \<Rightarrow> bool" where
  "run_ok steps = (\<lambda>(s, taken).
     ls_log s \<noteq> [] \<and> last (ls_log s) = Prepare_Rx
     \<and> handed (ls_log s) = map as_bytes (concat (map due steps))
     \<and> paused (ls_log s) \<le> 745 * length (concat (map due steps))
     \<and> ls_tx_count s = of_nat (length (concat (map due steps)))
     \<and> length (ls_mesh_in s) \<le> MESH_IN_QUEUE_SIZE
     \<and> subseq (filter is_radio (taken @ ls_mesh_in s)) (concat (map heard steps)))"

text \<open>The events of the radio after a step, taken or waiting: those before, and what is heard if it finds room.\<close>

lemma step_arrivals:
  assumes "radio_step E n st (s, taken) = (s', taken')"
  shows "filter is_radio (taken' @ ls_mesh_in s') = filter is_radio (taken @ ls_mesh_in s)
    @ (if length (ls_mesh_in s) < MESH_IN_QUEUE_SIZE then heard st else [])"
  using assms
  by (cases st) (auto simp: radio_step_def turn_queue heard_def try_send_def split: list.splits)

lemma run_ok_step:
  assumes "run_ok steps (s, taken)"
  shows "run_ok (steps @ [st]) (radio_step E n st (s, taken))"
proof -
  obtain s' taken' where st: "radio_step E n st (s, taken) = (s', taken')" by fastforce
  have arr: "subseq (filter is_radio (taken' @ ls_mesh_in s')) (concat (map heard (steps @ [st])))"
    unfolding step_arrivals [OF st] map_append concat_append
    by (intro list_emb_append_mono) (use assms in \<open>simp_all add: run_ok_def\<close>)
  show ?thesis
  proof (cases st)
    case (Task_Turn on ev)
    obtain k where "ls_log (lora_turn E n on ev s) = ls_log s @ k" "handed k = map as_bytes (due st)"
      "paused k \<le> 745 * length (due st)" "k = [] \<or> last k = Prepare_Rx"
      "ls_tx_count (lora_turn E n on ev s) = ls_tx_count s + of_nat (length (due st))"
      unfolding Task_Turn by (rule turn_log)
    with assms arr Task_Turn st turn_queue_cap [of s E n on ev] show ?thesis
      by (auto simp: run_ok_def radio_step_def last_append)
  qed (use assms arr st in \<open>auto simp: run_ok_def radio_step_def due_def length_try_send split: list.splits\<close>)
qed

lemma run_ok_run: "run_ok [] (s, []) \<Longrightarrow> run_ok steps (radio_run E n steps s)"
proof (induction steps rule: rev_induct)
  case (snoc st steps)
  then show ?case unfolding radio_run_snoc by (metis run_ok_step surj_pair)
qed (simp add: radio_run_def)

lemma run_start_state: "run_start L modem_cfg freq now mesh_in = Some s \<Longrightarrow> s = lora_initial now mesh_in"
  by (auto simp: run_start_def split: option.splits if_splits)

lemma run_ok_start: "run_ok [] (lora_initial now [], [])"
  by (simp add: run_ok_def lora_initial_def)

text \<open>Nothing heard is lost while the queue has room.\<close>

lemma run_arrivals:
  assumes "\<And>k. k < length steps \<Longrightarrow> length (ls_mesh_in (fst (radio_run E n (take k steps) s))) < MESH_IN_QUEUE_SIZE"
    and "ls_mesh_in s = []"
  shows "case radio_run E n steps s of (s', taken) \<Rightarrow> filter is_radio (taken @ ls_mesh_in s') = concat (map heard steps)"
  using assms(1)
proof (induction steps rule: rev_induct)
  case (snoc st steps)
  obtain s1 t1 where r: "radio_run E n steps s = (s1, t1)" by fastforce
  have "length (ls_mesh_in (fst (radio_run E n (take k steps) s))) < MESH_IN_QUEUE_SIZE" if "k < length steps" for k
    using snoc.prems [of k] that by simp
  from snoc.IH [OF this] have "filter is_radio (t1 @ ls_mesh_in s1) = concat (map heard steps)" by (simp add: r)
  moreover have "length (ls_mesh_in s1) < MESH_IN_QUEUE_SIZE" using snoc.prems [of "length steps"] r by simp
  ultimately show ?case
    using step_arrivals [of E n st s1 t1] unfolding radio_run_snoc r by (auto split: prod.split)
qed (simp add: radio_run_def assms(2))

section \<open>Properties\<close>

text \<open>C17: the radio task over its whole run.  Once its set-up has succeeded, whatever frames are queued, whatever
  is heard, whatever the chip answers and however the other tasks use the mesh task's queue: after every
  turn the last order to the chip was to receive; the frames handed to it for transmission are those
  queued while the transmitter was enabled, byte for byte, once each and in order, and are counted; at most 745 ms per frame
  are spent waiting for a free channel; what the mesh task gets from the radio, in order, is part of what
  was heard as valid frames, and all of it while its queue has room.\<close>
theorem radio_task_runs:
  assumes "run_start L modem_cfg freq now [] = Some s" and "radio_run E n steps s = (s', taken)"
  shows "last (ls_log s') = Prepare_Rx \<and> handed (ls_log s') = map as_bytes (concat (map due steps))
    \<and> ls_tx_count s' = of_nat (length (concat (map due steps)))
    \<and> paused (ls_log s') \<le> 745 * length (concat (map due steps))
    \<and> length (ls_mesh_in s') \<le> MESH_IN_QUEUE_SIZE
    \<and> subseq (filter is_radio (taken @ ls_mesh_in s')) (concat (map heard steps))
    \<and> ((\<forall>k < length steps. length (ls_mesh_in (fst (radio_run E n (take k steps) s))) < MESH_IN_QUEUE_SIZE)
         \<longrightarrow> filter is_radio (taken @ ls_mesh_in s') = concat (map heard steps))"
proof -
  have s: "s = lora_initial now []" using run_start_state [OF assms(1)] .
  have "run_ok steps (radio_run E n steps s)" by (rule run_ok_run) (simp add: s run_ok_start)
  moreover have "ls_mesh_in s = []" by (simp add: s lora_initial_def)
  ultimately show ?thesis using run_arrivals [of steps E n s] assms(2) by (simp add: run_ok_def)
qed

definition willing_lib :: "(spreading, nat) radio_lib" where
  "willing_lib = \<lparr>rl_modulation = (\<lambda>sf bw cr f. Some sf), rl_tx_params = (\<lambda>_ _ _ _ _. Some 0),
     rl_rx_params = (\<lambda>_ _ _ _ _ _. Some 1), rl_rx = (\<lambda>mode _ _. mode \<noteq> Continuous)\<rparr>"

theorem radio_task_runs_witness:
  "\<exists>s s' taken. run_start willing_lib \<lparr>mc_spreading_factor = 11, mc_bandwidth_hz = 250000, mc_coding_rate = 5\<rparr> 869525000 0 [] = Some s
     \<and> radio_run busy_env 9 [Task_Turn True (Tx_Queued frame_new), Event_Queued BleConnected, Task_Turn False (Tx_Queued frame_new), Event_Taken] s
         = (s', taken)
     \<and> handed (ls_log s') = [as_bytes frame_new] \<and> ls_tx_count s' = 1 \<and> last (ls_log s') = Prepare_Rx"
proof -
  let ?mc = "\<lparr>mc_spreading_factor = 11, mc_bandwidth_hz = 250000, mc_coding_rate = 5\<rparr> :: modem_config"
  let ?steps = "[Task_Turn True (Tx_Queued frame_new), Event_Queued BleConnected, Task_Turn False (Tx_Queued frame_new), Event_Taken]"
  have "rx_mode_for ?mc \<noteq> Continuous"
    by (simp add: rx_mode_for_def rx_duty_cycle_params_def Let_def const_defs symbol_length_us_def)
  then obtain s where s: "run_start willing_lib ?mc 869525000 0 [] = Some s"
    by (simp add: run_start_def modulation_params_with_fallback_def willing_lib_def)
  obtain s' taken where r: "radio_run busy_env 9 ?steps s = (s', taken)" by fastforce
  from radio_task_runs [OF s r] have "last (ls_log s') = Prepare_Rx" "handed (ls_log s') = [as_bytes frame_new]" "ls_tx_count s' = 1"
    by (simp_all add: due_def)
  with s r show ?thesis by blast
qed

end
