(* ===== verification/Over_The_Air.thy ===== *)
theory Over_The_Air
  imports Radio_Task Mesh_Task Phone_Link
begin

text \<open>
  Two nodes: a text typed on one phone leaves through the mesh task, the radio and the air, reaches the
  other phone, and the acknowledgement that comes back settles the delivery.  Also the relay decision for
  every authenticated frame.
\<close>

section \<open>What the handlers on the way leave alone\<close>

definition settings :: "device_state \<Rightarrow> device_state" where
  "settings dev = dev\<lparr>packet_id_counter := 0\<rparr>"

definition quiet :: "'f ctx \<Rightarrow> device_state \<times> from_radio_message list \<times> pending_packet list" where
  "quiet c = (settings (cx_device c), cx_to_ble c, cx_pending_packets c)"

lemma settings_fields:
  assumes "settings dev' = settings dev"
  shows "my_node_num dev' = my_node_num dev" "channels dev' = channels dev" "modem_preset dev' = modem_preset dev"
    "config_ok_to_mqtt dev' = config_ok_to_mqtt dev" "hop_limit_cfg dev' = hop_limit_cfg dev" "role dev' = role dev"
proof -
  have "my_node_num (settings dev') = my_node_num (settings dev)" "channels (settings dev') = channels (settings dev)"
    "modem_preset (settings dev') = modem_preset (settings dev)"
    "config_ok_to_mqtt (settings dev') = config_ok_to_mqtt (settings dev)"
    "hop_limit_cfg (settings dev') = hop_limit_cfg (settings dev)" "role (settings dev') = role (settings dev)" by (simp_all only: assms)
  then show "my_node_num dev' = my_node_num dev" "channels dev' = channels dev" "modem_preset dev' = modem_preset dev"
    "config_ok_to_mqtt dev' = config_ok_to_mqtt dev" "hop_limit_cfg dev' = hop_limit_cfg dev" "role dev' = role dev"
    by (simp_all add: settings_def)
qed

lemma settings_next_id [simp]: "settings (fst (next_packet_id dev)) = settings dev"
  by (simp add: next_packet_id_def settings_def Let_def)

lemma tx_settings:
  assumes "settings dev' = settings dev"
  shows "tx_data dev' b = tx_data dev b" "tx_channel dev' b = tx_channel dev b"
    "tx_header dev' db pid k b = tx_header dev db pid k b" "tx_build E dev' db pid keys b = tx_build E dev db pid keys b"
proof -
  note f = settings_fields [OF assms]
  show d: "tx_data dev' b = tx_data dev b" by (simp add: tx_data_def f)
  show c: "tx_channel dev' b = tx_channel dev b" unfolding tx_channel_def f by (rule refl)
  show h: "tx_header dev' db pid k b = tx_header dev db pid k b" for k unfolding tx_header_def c f by (rule refl)
  have "tx_encrypt E dev' db pid keys b e = tx_encrypt E dev db pid keys b e" for e
    unfolding tx_encrypt_def c f by (rule refl)
  then show "tx_build E dev' db pid keys b = tx_build E dev db pid keys b" unfolding tx_build_def d h by simp
qed

lemma originate_quiet [simp]: "quiet (fst (originate H b c)) = quiet c"
  by (simp add: originate_def ctx_packet_id_def queue_lora_def quiet_def split_beta Let_def split: option.split)

lemma send_nodeinfo_quiet [simp]: "quiet (send_nodeinfo H dest w c) = quiet c"
  by (simp add: send_nodeinfo_def lora_send_def)

lemma maybe_request_quiet [simp]: "quiet (maybe_request_nodeinfo H now n s l c) = quiet c"
proof -
  have "quiet (x\<lparr>cx_last_nodeinfo_tx := t\<rparr>) = quiet x" for x :: "'a ctx" and t by (simp add: quiet_def)
  then show ?thesis by (simp add: maybe_request_nodeinfo_def)
qed

lemma introduce_quiet [simp]: "quiet (introduce H now hdr c) = quiet c"
  by (simp add: introduce_def split: option.split)

lemma buffer_text_quiet [simp]: "quiet (buffer_text H frame n c) = quiet c"
  by (simp add: buffer_text_def quiet_def)

lemma quiet_fields:
  assumes "quiet c' = quiet c"
  shows "settings (cx_device c') = settings (cx_device c)" "cx_to_ble c' = cx_to_ble c"
    "cx_pending_packets c' = cx_pending_packets c"
  using assms by (simp_all add: quiet_def)

text \<open>A new sender is announced to the phone; that is all the phone hears before the message.\<close>

lemma push_with_one:
  "cx_device (push_with mk c) = cx_device c" "cx_pending_packets (push_with mk c) = cx_pending_packets c"
  "cx_node_db (push_with mk c) = cx_node_db c" "cx_to_lora (push_with mk c) = cx_to_lora c"
  "cx_to_ble (push_with mk c) = try_send BLE_TX_QUEUE_SIZE (cx_to_ble c)
     \<lparr>fm_data = mk (cx_from_radio_id c), fm_id = cx_from_radio_id c\<rparr>"
  by (simp_all add: push_with_def next_from_radio_id_def Let_def)

lemma record_sender_effect:
  obtains pre where "cx_to_ble (record_sender H now hdr meta c) = cx_to_ble c @ pre" "length pre \<le> 1"
    "cx_device (record_sender H now hdr meta c) = cx_device c"
    "cx_pending_packets (record_sender H now hdr meta c) = cx_pending_packets c"
proof -
  have notify: "\<exists>pre. cx_to_ble (notify_ble_node_update H n x) = cx_to_ble x @ pre \<and> length pre \<le> 1
      \<and> cx_device (notify_ble_node_update H n x) = cx_device x
      \<and> cx_pending_packets (notify_ble_node_update H n x) = cx_pending_packets x" for n and x :: "'a ctx"
    by (auto simp: notify_ble_node_update_def push_with_one try_send_def split: option.split)
  let ?hops = "if 0 < hop_start hdr \<and> hop_limit hdr \<le> hop_start hdr then Some (hop_start hdr - hop_limit hdr) else None"
  let ?x = "with_db (\<lambda>db. with_node (h_sender hdr) (\<lambda>n. n\<lparr>n_hops_away := ?hops\<rparr>)
      (touch (h_sender hdr) 0 (Some (rm_snr meta)) (of_nat now) db)) (c\<lparr>cx_led := try_send LED_QUEUE_SIZE (cx_led c) SingleBlink\<rparr>)"
  have pick: "(if b then y else x) = y \<or> (if b then y else x) = x" for b and x y :: "'a ctx" by simp
  have x: "record_sender H now hdr meta c = notify_ble_node_update H (h_sender hdr) ?x \<or> record_sender H now hdr meta c = ?x"
    unfolding record_sender_def Let_def by (rule pick)
  have same: "cx_to_ble ?x = cx_to_ble c" "cx_device ?x = cx_device c" "cx_pending_packets ?x = cx_pending_packets c"
    by (simp_all add: with_db_def)
  obtain pre where "cx_to_ble (record_sender H now hdr meta c) = cx_to_ble c @ pre" "length pre \<le> 1"
    "cx_device (record_sender H now hdr meta c) = cx_device c"
    "cx_pending_packets (record_sender H now hdr meta c) = cx_pending_packets c"
    using x notify [of "h_sender hdr" ?x] unfolding same by (metis append_Nil2 le0 list.size(3) same)
  then show thesis by (rule that)
qed

section \<open>The phone's text leaves the node\<close>

lemma tx_build_pkc:
  assumes "prims_ok (env_pkc E)" and "Option.bind (get (tb_dest b) db) n_pub_key = Some pub"
    and "HEADER_SIZE + (length (env_data_enc E (tx_data dev b)) + PKC_OVERHEAD) \<le> MAX_LORA_PAYLOAD_LEN"
  obtains f where "tx_build E dev db pid (Some (priv, x)) b = Some f"
proof -
  let ?d = "env_data_enc E (tx_data dev b)"
  let ?k = "derive_shared_key (env_pkc E) priv pub"
  obtain buf where e: "encrypt_pkc (env_pkc E) ?k pid (my_node_num dev) x ?d (replicate (length ?d + PKC_OVERHEAD) 0)
      = Inr (length ?d + PKC_OVERHEAD, buf)" "length (take (length ?d + PKC_OVERHEAD) buf) = length ?d + PKC_OVERHEAD"
    by (rule encrypt_then_decrypt [OF assms(1), of ?d "replicate (length ?d + PKC_OVERHEAD) 0" ?k pid "my_node_num dev" x])
      (use assms(3) in \<open>simp_all add: const_defs\<close>)
  have "from_parts h (take (length ?d + PKC_OVERHEAD) buf) \<noteq> None" for h
    using assms(3) e(2) by (simp add: from_parts_None del: not_None_eq)
  then show thesis
    using that assms(2) e(1) by (auto simp: tx_build_def tx_encrypt_def keypair_from_seed_def Let_def)
qed

definition awaited :: "'f ctx \<Rightarrow> instant \<Rightarrow> mesh_packet \<Rightarrow> radio_frame \<Rightarrow> pending_packet" where
  "awaited a now pkt f =
     \<lparr>pp_frame = f, pp_packet_id = mp_id pkt, pp_dest = mp_to pkt, pp_sender = my_node_num (cx_device a),
      pp_deadline = now + WANT_ACK_TIMEOUT_MS, pp_retries_left = of_nat NUM_RELIABLE_RETX, pp_is_our_packet = True,
      pp_ble_notify = Some (if mp_from pkt = 0 then my_node_num (cx_device a) else mp_from pkt)\<rparr>"

text \<open>What the phone hands over: a text for one node, under the pairwise key, with a packet id.\<close>

definition direct_text :: "mesh_packet \<Rightarrow> data_msg \<Rightarrow> bool" where
  "direct_text pkt d \<longleftrightarrow> mp_payload pkt = Some (Decoded d) \<and> d_portnum d = TEXT_MESSAGE_APP
     \<and> mp_channel pkt = ucast PKC_CHANNEL_INDEX \<and> mp_id pkt \<noteq> 0"

lemma text_accepted:
  assumes "direct_text pkt d" and "data \<noteq> []" and "pc_to_radio_dec (h_codec H) data = Some (Some (TrPacket pkt))"
    and "pkc_refusal (cx_node_db a) (cx_pkc_priv a) pkt TEXT_MESSAGE_APP = None" and "prims_ok (env_pkc (h_env H))"
    and "HEADER_SIZE + (length (env_data_enc (h_env H) (tx_data (cx_device a) (ble_builder pkt d 0 True))) + PKC_OVERHEAD)
           \<le> MAX_LORA_PAYLOAD_LEN"
    and "length (cx_pending_packets a) < PENDING_CAP"
  obtains f x where "tx_build (h_env H) (cx_device a) (cx_node_db a) (mp_id pkt) (Some (cx_pkc_priv a, x))
      (ble_builder pkt d 0 True) = Some f"
    "mesh_dispatch H now (BleRx data) a = a\<lparr>cx_drawn := Suc (cx_drawn a),
       cx_pending_packets := cx_pending_packets a @ [awaited a now pkt f], cx_to_lora := cx_to_lora a @ [f],
       cx_led := try_send LED_QUEUE_SIZE (cx_led a) DoubleBlink\<rparr>"
proof -
  let ?b = "ble_builder pkt d 0 True" and ?x = "h_random H (cx_drawn a)"
  note pkt = assms(1) [unfolded direct_text_def]
  note allowed = pkc_refusal_None [OF assms(4)]
  have "tb_dest ?b = mp_to pkt" by (simp add: ble_builder_def)
  then obtain pub where "Option.bind (get (tb_dest ?b) (cx_node_db a)) n_pub_key = Some pub"
    using allowed(4) by (auto simp: has_pub_key_def)
  from tx_build_pkc [OF assms(5) this assms(6), where pid = "mp_id pkt" and priv = "cx_pkc_priv a" and x = ?x] obtain f where
    f: "tx_build (h_env H) (cx_device a) (cx_node_db a) (mp_id pkt) (Some (cx_pkc_priv a, ?x)) ?b = Some f" by blast
  have "TEXT_MESSAGE_APP \<noteq> ADMIN_APP" "TEXT_MESSAGE_APP \<noteq> POSITION_APP" by (simp_all add: portnum_defs)
  then have "transmit_from_ble_packet H now pkt a = send_to_mesh H now pkt d a"
    using pkt by (simp add: transmit_from_ble_packet_def)
  also have "\<dots> = send_built H now pkt d 0 True (mp_id pkt) (Some (cx_pkc_priv a, ?x)) (a\<lparr>cx_drawn := Suc (cx_drawn a)\<rparr>)"
    using pkt assms(4) by (simp add: send_to_mesh_def random_u32_def)
  also have "\<dots> = a\<lparr>cx_drawn := Suc (cx_drawn a),
       cx_pending_packets := cx_pending_packets a @ [awaited a now pkt f], cx_to_lora := cx_to_lora a @ [f]\<rparr>"
    using f assms(7) allowed(2) by (simp add: send_built_def send_tracked_def vec_push_def queue_lora_def awaited_def Let_def)
  finally show thesis
    using that [OF f] assms(2,3) by (simp add: mesh_dispatch_def from_app_dispatch_def)
qed

section \<open>The frame crosses the air\<close>

text \<open>The radio hands the chip the bytes of the frame, and a radio that receives these bytes rebuilds it.\<close>

lemma radio_hop:
  assumes "tx_build E dev db pid keys b = Some f"
  shows "\<exists>k. ls_log (lora_turn EA nA True (Tx_Queued f) sA) = ls_log sA @ k \<and> handed k = [as_bytes f]"
    and "length (ls_mesh_in sB) < MESH_IN_QUEUE_SIZE \<Longrightarrow>
      LoraRx f \<lparr>rm_rssi = rssi, rm_snr = ucast snr\<rparr> \<in> set (ls_mesh_in (lora_turn EB nB on (Received (as_bytes f) rssi snr) sB))"
proof -
  show "\<exists>k. ls_log (lora_turn EA nA True (Tx_Queued f) sA) = ls_log sA @ k \<and> handed k = [as_bytes f]"
    by (rule turn_log [of EA nA True "Tx_Queued f" sA]) (simp add: due_def)
  from assms obtain h e where "from_parts h e = Some f" by (rule tx_build_SomeD)
  then have raw: "from_raw (as_bytes f) = Some f" by (rule from_raw_as_bytes)
  let ?e = "LoraRx f \<lparr>rm_rssi = rssi, rm_snr = ucast snr\<rparr>"
  assume "length (ls_mesh_in sB) < MESH_IN_QUEUE_SIZE"
  then have "?e \<in> set (filter is_radio (ls_mesh_in (lora_turn EB nB on (Received (as_bytes f) rssi snr) sB)))"
    unfolding turn_queue by (simp add: heard_def raw)
  then show "?e \<in> set (ls_mesh_in (lora_turn EB nB on (Received (as_bytes f) rssi snr) sB))" by simp
qed

section \<open>A new frame is delivered\<close>

text \<open>The state in which the port handler of a new frame starts.\<close>

definition handler_state :: "'f host \<Rightarrow> instant \<Rightarrow> radio_frame \<Rightarrow> packet_header \<Rightarrow> decoded_payload \<Rightarrow> radio_metadata
    \<Rightarrow> 'f ctx \<Rightarrow> 'f ctx" where
  "handler_state H now f hdr d meta c = buffer_text H f (dc_portnum d) (introduce H now hdr (record_sender H now hdr meta
     (c\<lparr>cx_router := fst (should_filter_received (h_sender hdr) (h_packet_id hdr) (hop_limit hdr) (h_relay_node hdr)
        (pending_hop_limit hdr (cx_pending_rebroadcast c)) (role (cx_device c)) (cx_router c))\<rparr>)))"

lemma new_frame:
  assumes "router_ok (cx_router c)" and "header f = Some hdr" and "h_sender hdr \<noteq> my_node_num (cx_device c)"
    and "try_decrypt_and_decode (h_env H) f hdr (cx_device c) (cx_node_db c) (cx_pkc_priv c) = Authentic d"
    and "(h_sender hdr, h_packet_id hdr) \<notin> set (seen (cx_router c))"
  shows "from_radio_dispatch H now f meta c = relay H now f hdr meta (deliver H now hdr d meta (handler_state H now f hdr d meta c))"
proof -
  let ?f = "should_filter_received (h_sender hdr) (h_packet_id hdr) (hop_limit hdr) (h_relay_node hdr)
        (pending_hop_limit hdr (cx_pending_rebroadcast c)) (role (cx_device c)) (cx_router c)"
  have "snd ?f = New" using assms(1,5) by (simp add: filter_state)
  then obtain r where "?f = (r, New)" by (metis prod.collapse)
  then show ?thesis using assms(2-4) by (simp add: from_radio_dispatch_def handler_state_def)
qed

lemma handler_state_effect:
  obtains pre where "cx_to_ble (handler_state H now f hdr d meta c) = cx_to_ble c @ pre" "length pre \<le> 1"
    "settings (cx_device (handler_state H now f hdr d meta c)) = settings (cx_device c)"
    "cx_pending_packets (handler_state H now f hdr d meta c) = cx_pending_packets c"
    "cx_ble_connected (handler_state H now f hdr d meta c) = cx_ble_connected c"
proof -
  let ?r = "c\<lparr>cx_router := fst (should_filter_received (h_sender hdr) (h_packet_id hdr) (hop_limit hdr) (h_relay_node hdr)
        (pending_hop_limit hdr (cx_pending_rebroadcast c)) (role (cx_device c)) (cx_router c))\<rparr>"
  have q: "quiet (handler_state H now f hdr d meta c) = quiet (record_sender H now hdr meta ?r)"
    by (simp add: handler_state_def)
  have "core (handler_state H now f hdr d meta c) = core ?r" by (simp add: handler_state_def)
  then have "cx_ble_connected (handler_state H now f hdr d meta c) = cx_ble_connected c" by (auto dest: core_fields)
  then show thesis
    using quiet_fields [OF q] by (rule_tac record_sender_effect [of H now hdr meta ?r]) (simp add: that)
qed

lemma relay_keeps [simp]:
  "cx_to_ble (relay H now f hdr meta c) = cx_to_ble c" "cx_to_lora (relay H now f hdr meta c) = cx_to_lora c"
  "cx_pending_packets (relay H now f hdr meta c) = cx_pending_packets c"
  using schedule_rebroadcast_shape [of H now f meta "hop_limit hdr - 1" c]
  by (auto simp: relay_def should_rebroadcast_def)

lemma try_send_keeps: "x \<in> set q \<Longrightarrow> x \<in> set (try_send cap q y)"
  by (simp add: try_send_def)

definition ack_builder :: "u32 \<Rightarrow> u32 \<Rightarrow> u8 \<Rightarrow> tx_builder" where
  "ack_builder dest request_id idx = tx_default\<lparr>tb_dest := dest, tb_portnum := ROUTING_APP, tb_inner_payload := [],
     tb_channel_idx := Some idx, tb_request_id := request_id\<rparr>"

lemma originate_lora:
  "cx_to_lora (fst (originate H b c)) = cx_to_lora c
    @ (case tx_build (h_env H) (cx_device c) (cx_node_db c) (packet_id_counter (cx_device c) + 1) None b of Some g \<Rightarrow> [g] | None \<Rightarrow> [])"
proof -
  let ?n = "next_packet_id (cx_device c)"
  have "tx_build (h_env H) (fst ?n) (cx_node_db c) (snd ?n) None b
      = tx_build (h_env H) (cx_device c) (cx_node_db c) (snd ?n) None b" by (rule tx_settings) simp
  moreover have "snd ?n = packet_id_counter (cx_device c) + 1" by (simp add: next_packet_id_def Let_def)
  ultimately show ?thesis by (simp add: originate_def ctx_packet_id_def queue_lora_def split_beta split: option.split)
qed

text \<open>Before the port handler the node may ask the sender who it is, which takes one packet number.\<close>

definition next_two :: "'f ctx \<Rightarrow> u32 set" where
  "next_two c = {packet_id_counter (cx_device c) + 1, packet_id_counter (cx_device c) + 2}"

lemma handler_state_counter:
  "packet_id_counter (cx_device (handler_state H now f hdr d meta c)) + 1 \<in> next_two c"
proof -
  let ?r = "record_sender H now hdr meta (c\<lparr>cx_router := fst (should_filter_received (h_sender hdr) (h_packet_id hdr) (hop_limit hdr)
        (h_relay_node hdr) (pending_hop_limit hdr (cx_pending_rebroadcast c)) (role (cx_device c)) (cx_router c))\<rparr>)"
  have o: "packet_id_counter (cx_device (fst (originate H b x))) = packet_id_counter (cx_device x) + 1" for b x
    by (simp add: originate_def ctx_packet_id_def next_packet_id_def queue_lora_def Let_def split: option.split)
  have "cx_device (record_sender H now hdr meta x) = cx_device x" for x by (rule record_sender_effect [of H now hdr meta x])
  then have "cx_device ?r = cx_device c" by simp
  moreover have "packet_id_counter (cx_device (introduce H now hdr x)) \<in> {packet_id_counter (cx_device x), packet_id_counter (cx_device x) + 1}" for x
    by (simp add: introduce_def maybe_request_nodeinfo_def send_nodeinfo_def lora_send_def o split: option.split)
  moreover have "cx_device (buffer_text H f p x) = cx_device x" for p x by (simp add: buffer_text_def)
  ultimately show ?thesis unfolding handler_state_def next_two_def by (metis (no_types) insert_iff add.assoc one_add_one singletonD)
qed

definition heard_args :: "packet_header \<Rightarrow> decoded_payload \<Rightarrow> radio_metadata \<Rightarrow> packet_forward_args" where
  "heard_args hdr d meta = \<lparr>fa_header = hdr, fa_channel_index = dc_channel_index d, fa_portnum = dc_portnum d,
     fa_payload = dc_payload d, fa_reply_id = dc_reply_id d, fa_emoji = dc_emoji d, fa_meta = meta\<rparr>"

text \<open>A text for this node: the phone gets it, the sender an acknowledgement.\<close>

lemma text_delivered:
  assumes "h_destination hdr = my_node_num (cx_device c)" and "want_ack hdr" and "dc_portnum d = TEXT_MESSAGE_APP"
    and "cx_ble_connected c" and "length (cx_to_ble c) + 2 \<le> BLE_TX_QUEUE_SIZE"
  obtains pre fid lora db pid where
    "cx_to_ble (deliver H now hdr d meta (handler_state H now f hdr d meta c))
      = cx_to_ble c @ pre @ [\<lparr>fm_data = make_from_radio_packet H fid (heard_args hdr d meta), fm_id = fid\<rparr>]" "length pre \<le> 1"
    "cx_to_lora (deliver H now hdr d meta (handler_state H now f hdr d meta c)) = lora
      @ (case tx_build (h_env H) (cx_device c) db pid None (ack_builder (h_sender hdr) (h_packet_id hdr) (dc_channel_index d)) of
           Some g \<Rightarrow> [g] | None \<Rightarrow> [])" "pid \<in> next_two c"
proof -
  let ?c = "handler_state H now f hdr d meta c"
  obtain pre where c: "cx_to_ble ?c = cx_to_ble c @ pre" "length pre \<le> 1" "settings (cx_device ?c) = settings (cx_device c)"
    "cx_ble_connected ?c = cx_ble_connected c" by (rule handler_state_effect)
  let ?p = "push_with (\<lambda>fid. make_from_radio_packet H fid (heard_args hdr d meta)) ?c"
  let ?b = "ack_builder (h_sender hdr) (h_packet_id hdr) (dc_channel_index d)"
  have num: "my_node_num (cx_device ?c) = my_node_num (cx_device c)" using settings_fields [OF c(3)] by simp
  have "TEXT_MESSAGE_APP \<notin> {POSITION_APP, NODEINFO_APP, ROUTING_APP, ADMIN_APP, TELEMETRY_APP, TRACEROUTE_APP, NEIGHBORINFO_APP}"
    by (simp add: portnum_defs)
  then have "deliver H now hdr d meta ?c = fst (originate H ?b ?p)"
    using assms(1-4) by (simp add: deliver_def handle_port_def c(4) forward_to_ble_def heard_args_def push_with_one num
        send_routing_ack_def ack_builder_def)
  moreover have "cx_to_ble (fst (originate H ?b ?p)) = cx_to_ble ?p"
    using quiet_fields(2) [OF originate_quiet [of H ?b ?p]] .
  moreover have "cx_to_ble ?p = cx_to_ble c @ pre @ [\<lparr>fm_data = make_from_radio_packet H (cx_from_radio_id ?c) (heard_args hdr d meta), fm_id = cx_from_radio_id ?c\<rparr>]"
    using assms(5) c(1,2) by (simp add: push_with_one try_send_def)
  moreover have "cx_to_lora (fst (originate H ?b ?p)) = cx_to_lora ?p
      @ (case tx_build (h_env H) (cx_device c) (cx_node_db ?p) (packet_id_counter (cx_device ?c) + 1) None ?b of Some g \<Rightarrow> [g] | None \<Rightarrow> [])"
    using tx_settings(4) [OF c(3)] by (simp add: originate_lora push_with_one(1))
  ultimately show thesis using c(2) handler_state_counter that by metis
qed

section \<open>The acknowledgement comes back\<close>

lemma tx_build_psk:
  assumes "stream_ok (env_keystream E)" and "tx_channel dev b = Some ch"
    and "is_encrypted ch \<longrightarrow> length (effective_psk ch) \<in> {16, 32}"
    and "HEADER_SIZE + length (env_data_enc E (tx_data dev b)) \<le> MAX_LORA_PAYLOAD_LEN"
  obtains f where "tx_build E dev db pid None b = Some f"
proof -
  let ?d = "env_data_enc E (tx_data dev b)"
  have "\<exists>e. tx_encrypt E dev db pid None b ?d = Some e \<and> length e = length ?d"
  proof (cases "is_encrypted ch")
    case True
    with assms(3) have k: "length (effective_psk ch) = 16 \<or> length (effective_psk ch) = 32" by simp
    then have "copy_psk (effective_psk ch) = effective_psk ch" by (intro copy_psk_short) auto
    with k psk_roundtrip [OF assms(1)] obtain e where
      "crypt_packet (env_keystream E) (copy_psk (effective_psk ch)) pid (my_node_num dev) ?d = Inr e" by metis
    with True show ?thesis using crypt_length [OF assms(1)] by (auto simp: tx_encrypt_def assms(2))
  qed (simp add: tx_encrypt_def assms(2))
  then obtain e where "tx_encrypt E dev db pid None b ?d = Some e" "length e = length ?d" by blast
  moreover from this(2) have "from_parts h e \<noteq> None" for h
    using assms(4) by (simp add: from_parts_None del: not_None_eq)
  ultimately show thesis using that by (auto simp: tx_build_def)
qed

lemma channel_frame_authentic:
  assumes "tx_build E dev db pid None b = Some f" and "tx_channel dev b = Some ch" and "stream_ok (env_keystream E)"
    and "data_roundtrips E (tx_data dev b)"
    and "find_by_hash (channel_hash ch (display_name (modem_preset dev))) (display_name (modem_preset dev2)) (channels dev2) = Some ch2"
    and "effective_psk ch2 = effective_psk ch" and "is_encrypted ch2 = is_encrypted ch"
    and "channel_hash ch (display_name (modem_preset dev)) \<noteq> 0" and "tb_portnum b \<noteq> TEXT_MESSAGE_APP"
  shows "header f = Some (tx_header dev db pid False b)"
    and "try_decrypt_and_decode E f (tx_header dev db pid False b) dev2 db2 priv2
      = Authentic (decoded_as (tx_data dev b) (ch_index ch2))"
proof -
  let ?d = "env_data_enc E (tx_data dev b)" and ?h = "tx_header dev db pid False b"
  from assms(1) obtain enc where enc: "tx_encrypt E dev db pid None b ?d = Some enc"
    and f: "header f = Some ?h" "payload f = enc" and len: "from_parts ?h enc = Some f"
    by (rule tx_build_SomeD) simp
  show "header f = Some ?h" by (rule f(1))
  have hash: "h_channel_index ?h = channel_hash ch (display_name (modem_preset dev))"
    using assms(2) by (simp add: tx_header_def Let_def)
  have heard: "heard_channel ?h dev2 = Some ch2" "heard_index ?h dev2 = ch_index ch2"
    using assms(5) by (simp_all add: heard_channel_def heard_index_def hash)
  have "length enc \<le> 256" using len by (auto simp: from_parts_def Let_def const_defs split: if_splits)
  then have pl: "vec_extend 256 [] enc = enc" by (simp add: vec_extend_def)
  have "try_psk E ?h enc (Some ch2) = Some ?d"
  proof (cases "is_encrypted ch")
    case True
    then have c: "crypt_packet (env_keystream E) (copy_psk (effective_psk ch)) pid (my_node_num dev) ?d = Inr enc"
      using enc assms(2) by (simp add: tx_encrypt_def split: sum.splits)
    have "enc = [] \<Longrightarrow> ?d = []" using crypt_length [OF assms(3) c] by simp
    with crypt_twice [OF assms(3) c] True show ?thesis
      using assms(6,7) pl by (cases "enc = []") (simp_all add: try_psk_def)
  next
    case False
    with enc assms(2,7) show ?thesis by (simp add: tx_encrypt_def try_psk_def pl)
  qed
  moreover have "pkc_key ?h (payload f) dev2 db2 priv2 = None" using assms(8) by (simp add: pkc_key_def hash)
  ultimately show "try_decrypt_and_decode E f ?h dev2 db2 priv2 = Authentic (decoded_as (tx_data dev b) (ch_index ch2))"
    using assms(4,9) by (simp add: try_decrypt_cases heard try_pkc_def f(2) data_roundtrips_def Let_def)
qed

text \<open>An acknowledgement for a pending packet: the entry goes, and the phone is told.\<close>

definition delivery_report :: "'f host \<Rightarrow> u32 \<Rightarrow> u32 \<Rightarrow> u32 \<Rightarrow> u32 \<Rightarrow> u32 \<Rightarrow> from_radio_message" where
  "delivery_report H my dest report_id request_id fid =
     \<lparr>fm_data = encode_from_radio H fid (FrPacket (mesh_packet_default\<lparr>mp_from := my, mp_to := dest, mp_id := report_id,
        mp_payload := Some (Decoded (data_default\<lparr>d_portnum := ROUTING_APP,
          d_payload := pc_routing_enc (h_codec H) (ErrorReason NoError), d_request_id := request_id\<rparr>))\<rparr>)),
      fm_id = fid\<rparr>"

lemma clear_pending_effect:
  assumes "position (\<lambda>p. pp_packet_id p = rid) (cx_pending_packets c) = Some i"
    and "pp_ble_notify (cx_pending_packets c ! i) = Some dest" and "length (cx_to_ble c) < BLE_TX_QUEUE_SIZE"
  obtains pid fid where "cx_pending_packets (clear_pending H rid c) = swap_remove i (cx_pending_packets c)"
    "cx_to_ble (clear_pending H rid c) = cx_to_ble c @ [delivery_report H (my_node_num (cx_device c)) dest pid rid fid]"
    "settings (cx_device (clear_pending H rid c)) = settings (cx_device c)"
proof -
  have "pp_packet_id (cx_pending_packets c ! i) = rid" using position_SomeD [OF assms(1)] by simp
  then show thesis
    using assms by (intro that [of "snd (next_packet_id (cx_device c))" "cx_from_radio_id c"])
      (simp_all add: clear_pending_def send_ble_routing_result_def ctx_packet_id_def push_from_radio_def push_with_one
        delivery_report_def try_send_def split_beta Let_def next_packet_id_def settings_def)
qed

lemma ack_settles:
  assumes "dc_portnum d = ROUTING_APP" and "dc_request_id d = rid" and "rid \<noteq> 0"
    and "pc_routing_dec (h_codec H) (dc_payload d) \<noteq> None"
    and "position (\<lambda>p. pp_packet_id p = rid) (cx_pending_packets c) = Some i"
    and "pp_ble_notify (cx_pending_packets c ! i) = Some dest" and "length (cx_to_ble c) + 2 \<le> BLE_TX_QUEUE_SIZE"
  shows "cx_pending_packets (deliver H now hdr d meta (handler_state H now f hdr d meta c)) = swap_remove i (cx_pending_packets c)
    \<and> (\<exists>pid fid. delivery_report H (my_node_num (cx_device c)) dest pid rid fid
         \<in> set (cx_to_ble (deliver H now hdr d meta (handler_state H now f hdr d meta c))))"
proof -
  let ?c = "handler_state H now f hdr d meta c"
  obtain pre where c: "cx_to_ble ?c = cx_to_ble c @ pre" "length pre \<le> 1" "settings (cx_device ?c) = settings (cx_device c)"
    "cx_pending_packets ?c = cx_pending_packets c" by (rule handler_state_effect)
  obtain pid fid where k: "cx_pending_packets (clear_pending H rid ?c) = swap_remove i (cx_pending_packets c)"
    "cx_to_ble (clear_pending H rid ?c) = cx_to_ble ?c @ [delivery_report H (my_node_num (cx_device c)) dest pid rid fid]"
    by (rule clear_pending_effect [where c = ?c, unfolded c(4) settings_fields(1) [OF c(3)]])
      (use assms(5-7) c(1,2) in simp_all)
  let ?r = "delivery_report H (my_node_num (cx_device c)) dest pid rid fid"
  define pkt where "pkt = \<lparr>ip_sender = h_sender hdr, ip_packet_id = h_packet_id hdr, ip_relay_node = h_relay_node hdr,
      ip_payload = dc_payload d, ip_addressed_to_us = is_for_us (my_node_num (cx_device ?c)) hdr,
      ip_want_response = dc_want_response d, ip_request_id = dc_request_id d, ip_reply_id = dc_reply_id d,
      ip_emoji = dc_emoji d, ip_channel_idx = dc_channel_index d, ip_snr = rm_snr meta\<rparr>"
  have "handle_port H now (dc_portnum d) pkt ?c
      = with_db (\<lambda>db. fst (learn_route db (h_sender hdr) (h_relay_node hdr))) (clear_pending H rid ?c)"
    using assms(1-4) by (auto simp: handle_port_def portnum_defs routing_handle_def pkt_def)
  then have h: "cx_pending_packets (handle_port H now (dc_portnum d) pkt ?c) = swap_remove i (cx_pending_packets c)"
    "?r \<in> set (cx_to_ble (handle_port H now (dc_portnum d) pkt ?c))"
    using k by (simp_all add: with_db_def)
  have f: "cx_pending_packets (forward_to_ble H a x) = cx_pending_packets x"
    "?r \<in> set (cx_to_ble x) \<Longrightarrow> ?r \<in> set (cx_to_ble (forward_to_ble H a x))" for a x
    by (simp_all add: forward_to_ble_def push_with_one try_send_keeps)
  have s: "cx_pending_packets (send_routing_ack H n m l x) = cx_pending_packets x"
    "cx_to_ble (send_routing_ack H n m l x) = cx_to_ble x" for n m l x
    using quiet_fields [OF originate_quiet] by (simp_all add: send_routing_ack_def)
  show ?thesis
    using h f s unfolding deliver_def Let_def pkt_def [symmetric]
    by (intro conjI exI [of _ pid] exI [of _ fid]) simp_all
qed

section \<open>The relay decision\<close>

lemma reply_settings:
  "settings (cx_device (send_nodeinfo H n w c)) = settings (cx_device c)"
  "settings (cx_device (fst (originate H b c))) = settings (cx_device c)"
  "settings (cx_device (send_routing_ack H n r i c)) = settings (cx_device c)"
  "settings (cx_device (maybe_request_nodeinfo H now n s l c)) = settings (cx_device c)"
  using quiet_fields(1) [OF send_nodeinfo_quiet] quiet_fields(1) [OF originate_quiet] quiet_fields(1) [OF maybe_request_quiet]
  by (simp_all add: send_routing_ack_def)

lemma notify_device [simp]: "cx_device (notify_ble_node_update H n c) = cx_device c"
  by (simp add: notify_ble_node_update_def push_with_one split: option.split)

lemma clear_pending_settings: "settings (cx_device (clear_pending H rid c)) = settings (cx_device c)"
  by (simp add: clear_pending_def send_ble_routing_result_def ctx_packet_id_def push_from_radio_def push_with_one
      split_beta Let_def split: option.split)

lemma port_settings:
  assumes "n \<noteq> ADMIN_APP"
  shows "settings (cx_device (handle_port H now n pkt c)) = settings (cx_device c)"
proof -
  have "settings (cx_device (position_handle H pkt c)) = settings (cx_device c)"
    "settings (cx_device (node_info_handle H now pkt c)) = settings (cx_device c)"
    "settings (cx_device (routing_handle H pkt c)) = settings (cx_device c)"
    "settings (cx_device (telemetry_handle H pkt c)) = settings (cx_device c)"
    "settings (cx_device (traceroute_handle H pkt c)) = settings (cx_device c)"
    "settings (cx_device (neighbor_info_handle H pkt c)) = settings (cx_device c)"
    by (simp_all add: position_handle_def node_info_handle_def routing_handle_def telemetry_handle_def
        traceroute_handle_def neighbor_info_handle_def with_db_def reply_settings clear_pending_settings Let_def
        split: option.split telemetry_variant.split)
  then show ?thesis using assms by (simp add: handle_port_def)
qed

lemma deliver_settings:
  assumes "dc_portnum d \<noteq> ADMIN_APP"
  shows "settings (cx_device (deliver H now hdr d meta (handler_state H now f hdr d meta c))) = settings (cx_device c)"
proof -
  let ?c = "handler_state H now f hdr d meta c"
  have f: "cx_device (forward_to_ble H a x) = cx_device x" for a and x :: "'a ctx" by (simp add: forward_to_ble_def push_with_one)
  have "settings (cx_device (deliver H now hdr d meta ?c)) = settings (cx_device ?c)"
    unfolding deliver_def Let_def
    by (simp only: if_distrib [of cx_device] if_distrib [of settings] reply_settings f port_settings [OF assms] if_cancel)
  then show ?thesis by (metis handler_state_effect)
qed

section \<open>The exchange\<close>

definition knows_key :: "env \<Rightarrow> 'f ctx \<Rightarrow> 'f ctx \<Rightarrow> bool" where
  "knows_key E a b \<longleftrightarrow>
     Option.bind (get (my_node_num (cx_device b)) (cx_node_db a)) n_pub_key = Some (prim_public (env_pkc E) (cx_pkc_priv b))
     \<and> (\<exists>v \<in> set (cx_pkc_priv b). v \<noteq> 0)"

text \<open>The channel a node answers a direct message on, and that the other node has it.\<close>

definition direct_index :: "device_state \<Rightarrow> u8" where
  "direct_index dev = (case find_by_hash 0 (display_name (modem_preset dev)) (channels dev) of Some c \<Rightarrow> ch_index c | None \<Rightarrow> 0)"

definition answers_on_shared_channel :: "device_state \<Rightarrow> device_state \<Rightarrow> bool" where
  "answers_on_shared_channel dev dev2 \<longleftrightarrow>
     (\<exists>ch ch2. tx_channel dev (ack_builder 0 0 (direct_index dev)) = Some ch
        \<and> (is_encrypted ch \<longrightarrow> length (effective_psk ch) \<in> {16, 32})
        \<and> channel_hash ch (display_name (modem_preset dev)) \<noteq> 0
        \<and> find_by_hash (channel_hash ch (display_name (modem_preset dev))) (display_name (modem_preset dev2)) (channels dev2) = Some ch2
        \<and> effective_psk ch2 = effective_psk ch \<and> is_encrypted ch2 = is_encrypted ch)"

text \<open>A message the protobuf codec carries and one frame holds.\<close>

definition fits_frame :: "env \<Rightarrow> data_msg \<Rightarrow> bool" where
  "fits_frame E m \<longleftrightarrow> data_roundtrips E m \<and> env_data_enc E m \<noteq> []
     \<and> HEADER_SIZE + (length (env_data_enc E m) + PKC_OVERHEAD) \<le> MAX_LORA_PAYLOAD_LEN"

text \<open>Whatever state two radio tasks are in: the one with the transmitter enabled hands the chip the bytes of
  the frame, once, and the one that hears these bytes and has room in its queue passes the frame on.\<close>

definition crosses_air :: "radio_frame \<Rightarrow> bool" where
  "crosses_air f \<longleftrightarrow>
     (\<forall>E n s. \<exists>k. ls_log (lora_turn E n True (Tx_Queued f) s) = ls_log s @ k \<and> handed k = [as_bytes f])
   \<and> (\<forall>E n on rssi snr s. length (ls_mesh_in s) < MESH_IN_QUEUE_SIZE \<longrightarrow>
        LoraRx f \<lparr>rm_rssi = rssi, rm_snr = ucast snr\<rparr> \<in> set (ls_mesh_in (lora_turn E n on (Received (as_bytes f) rssi snr) s)))"

lemma built_crosses: "tx_build E dev db pid keys b = Some f \<Longrightarrow> crosses_air f"
  unfolding crosses_air_def by (intro conjI allI impI; erule radio_hop; assumption?)

lemma knows_key_allows:
  assumes "knows_key E a b" and "\<exists>v \<in> set (cx_pkc_priv a). v \<noteq> 0" and "mp_to pkt = my_node_num (cx_device b)"
    and "my_node_num (cx_device b) \<notin> {0, BROADCAST_ADDR}" and "length (mp_public_key pkt) \<noteq> 32"
  shows "pkc_refusal (cx_node_db a) (cx_pkc_priv a) pkt TEXT_MESSAGE_APP = None"
proof -
  have "portnum_allows_pkc TEXT_MESSAGE_APP" by (simp add: portnum_allows_pkc_def portnum_defs)
  then show ?thesis using assms by (auto simp: pkc_refusal_def knows_key_def has_pub_key_def)
qed

lemma tx_channel_index: "tb_channel_idx b = tb_channel_idx b' \<Longrightarrow> tx_channel dev b = tx_channel dev b'"
  by (simp add: tx_channel_def)

lemma swap_remove_last [simp]: "swap_remove (length xs) (xs @ [x]) = xs"
  by (simp add: swap_remove_def)

lemma position_fresh: "\<forall>x \<in> set xs. \<not> p x \<Longrightarrow> p y \<Longrightarrow> position p (xs @ [y]) = Some (length xs)"
  by (induction xs) auto

text \<open>The first leg: what the addressee does with the frame.\<close>

lemma text_received:
  assumes "tx_build (h_env H) dev db pid (Some (priv, x)) (ble_builder pkt d 0 True) = Some f"
    and "ctx_ok b" and "prims_ok (env_pkc (h_env H))" and "mp_to pkt = my_node_num (cx_device b)"
    and "my_node_num (cx_device b) \<noteq> BROADCAST_ADDR" and "my_node_num dev \<noteq> my_node_num (cx_device b)"
    and "Option.bind (get (my_node_num (cx_device b)) db) n_pub_key = Some (prim_public (env_pkc (h_env H)) (cx_pkc_priv b))"
    and "Option.bind (get (my_node_num dev) (cx_node_db b)) n_pub_key = Some (prim_public (env_pkc (h_env H)) priv)"
    and "\<exists>v \<in> set (cx_pkc_priv b). v \<noteq> 0" and "fits_frame (h_env H) (tx_data dev (ble_builder pkt d 0 True))"
    and "d_portnum d = TEXT_MESSAGE_APP" and "(my_node_num dev, pid) \<notin> set (seen (cx_router b))"
    and "cx_ble_connected b" and "length (cx_to_ble b) + 2 \<le> BLE_TX_QUEUE_SIZE"
  obtains pre fid hdr lora db2 pid2 where
    "cx_to_ble (mesh_dispatch H now (LoraRx f meta) b) = cx_to_ble b @ pre
      @ [\<lparr>fm_data = make_from_radio_packet H fid (heard_args hdr (decoded_as (tx_data dev (ble_builder pkt d 0 True)) (direct_index (cx_device b))) meta),
          fm_id = fid\<rparr>]"
    "length pre \<le> 1" "hdr = tx_header dev db pid True (ble_builder pkt d 0 True)"
    "cx_to_lora (mesh_dispatch H now (LoraRx f meta) b) = lora
      @ (case tx_build (h_env H) (cx_device b) db2 pid2 None (ack_builder (my_node_num dev) pid (direct_index (cx_device b))) of
           Some g \<Rightarrow> [g] | None \<Rightarrow> [])" "pid2 \<in> next_two b"
proof -
  let ?b = "ble_builder pkt d 0 True"
  let ?d = "decoded_as (tx_data dev ?b) (direct_index (cx_device b))"
  have dest: "tb_dest ?b = my_node_num (cx_device b)" by (simp add: ble_builder_def assms(4))
  obtain hdr where h: "header f = Some hdr" "hdr = tx_header dev db pid True ?b"
    "try_decrypt_and_decode (h_env H) f hdr (cx_device b) (cx_node_db b) (cx_pkc_priv b)
      = Authentic (decoded_as (tx_data dev ?b) (heard_index hdr (cx_device b)))"
    using sealed_authentic [OF assms(1,3) dest _ assms(8,9)] assms(7,10) by (auto simp: dest fits_frame_def)
  have idx: "heard_index hdr (cx_device b) = direct_index (cx_device b)"
    by (simp add: h(2) heard_index_def heard_channel_def direct_index_def tx_header_def Let_def)
  obtain limit where fl: "h_flags hdr = make_flags (tb_want_ack ?b \<and> tb_dest ?b \<noteq> BROADCAST_ADDR) False limit limit"
    by (simp add: h(2) tx_header_def Let_def)
  have hdr: "h_sender hdr = my_node_num dev" "h_destination hdr = my_node_num (cx_device b)" "h_packet_id hdr = pid" "want_ack hdr"
    using make_flags_fields(1) [OF fl] by (simp_all add: h(2) dest assms(5)) (simp add: ble_builder_def)
  have "mesh_dispatch H now (LoraRx f meta) b = relay H now f hdr meta (deliver H now hdr ?d meta (handler_state H now f hdr ?d meta b))"
    using new_frame [OF _ h(1) _ h(3) [unfolded idx], of now meta] assms(2,6,12) by (simp add: mesh_dispatch_def ctx_ok_def hdr)
  moreover have "dc_portnum ?d = TEXT_MESSAGE_APP" by (simp add: decoded_as_def ble_builder_def assms(11))
  moreover have "dc_channel_index ?d = direct_index (cx_device b)" by (simp add: decoded_as_def)
  ultimately show thesis
    using that [OF _ _ h(2)] hdr
    by (rule_tac text_delivered [OF hdr(2,4) _ assms(13,14), of ?d H now meta f]) auto
qed

text \<open>The second leg: what the sender does with the acknowledgement.\<close>

lemma ack_received:
  assumes "tx_build (h_env H) dev db pid None (ack_builder (my_node_num (cx_device c)) rid (direct_index dev)) = Some g"
    and "router_ok (cx_router c)" and "stream_ok (env_keystream (h_env H))" and "answers_on_shared_channel dev (cx_device c)"
    and "data_roundtrips (h_env H) (tx_data dev (ack_builder (my_node_num (cx_device c)) rid (direct_index dev)))"
    and "my_node_num dev \<noteq> my_node_num (cx_device c)" and "(my_node_num dev, pid) \<notin> set (seen (cx_router c))"
    and "rid \<noteq> 0" and "pc_routing_dec (h_codec H) [] \<noteq> None"
    and "position (\<lambda>p. pp_packet_id p = rid) (cx_pending_packets c) = Some i"
    and "pp_ble_notify (cx_pending_packets c ! i) = Some dest" and "length (cx_to_ble c) + 2 \<le> BLE_TX_QUEUE_SIZE"
  shows "cx_pending_packets (mesh_dispatch H now (LoraRx g meta) c) = swap_remove i (cx_pending_packets c)
    \<and> (\<exists>pid fid. delivery_report H (my_node_num (cx_device c)) dest pid rid fid \<in> set (cx_to_ble (mesh_dispatch H now (LoraRx g meta) c)))"
proof -
  let ?b = "ack_builder (my_node_num (cx_device c)) rid (direct_index dev)"
  let ?h = "tx_header dev db pid False ?b"
  have "tx_channel dev ?b = tx_channel dev (ack_builder 0 0 (direct_index dev))"
    by (rule tx_channel_index) (simp add: ack_builder_def)
  then obtain ch ch2 where ch: "tx_channel dev ?b = Some ch" "channel_hash ch (display_name (modem_preset dev)) \<noteq> 0"
    "find_by_hash (channel_hash ch (display_name (modem_preset dev))) (display_name (modem_preset (cx_device c)))
       (channels (cx_device c)) = Some ch2" "effective_psk ch2 = effective_psk ch" "is_encrypted ch2 = is_encrypted ch"
    using assms(4) by (auto simp: answers_on_shared_channel_def)
  have port: "tb_portnum ?b \<noteq> TEXT_MESSAGE_APP" by (simp add: ack_builder_def portnum_defs)
  let ?d = "decoded_as (tx_data dev ?b) (ch_index ch2)"
  have d: "dc_portnum ?d = ROUTING_APP" "dc_request_id ?d = rid" "dc_payload ?d = []"
    by (simp_all add: decoded_as_def ack_builder_def)
  note auth = channel_frame_authentic [OF assms(1) ch(1) assms(3,5) ch(3-5,2) port]
  have "mesh_dispatch H now (LoraRx g meta) c = relay H now g ?h meta (deliver H now ?h ?d meta (handler_state H now g ?h ?d meta c))"
    using new_frame [OF assms(2) auth(1) _ auth(2)] assms(6,7) by (simp add: mesh_dispatch_def)
  then show ?thesis
    using ack_settles [OF d(1,2) assms(8) _ assms(10-12), of H now ?h meta g] assms(9) by (simp add: d(3))
qed

text \<open>C2: a direct text arrives and is confirmed.  Two well-formed nodes with different numbers, the addressee's a valid
  one, hold each other's public key and have their own; the channel the addressee answers on is known to the sender
  with the same key and a hash other than 0; the cryptographic and protobuf libraries keep their contracts.  The
  sender's phone hands over a text with a packet id and no public key attached, which fits one frame, as does the
  acknowledgement.  The sender has room among its pending packets and none with that id; the addressee has not seen
  that id from the sender, nor the sender one of the addressee's next two packet numbers (after a restart numbers
  come again, and then a packet may be taken for an old one); the addressee's phone is connected and two places
  are free in both queues to the phones; the two frames reach the other node.  Then the text leaves as one frame
  that survives the air byte for byte; the other node's phone gets it, with the sender, the packet id, the text,
  the reply id and the emoji of the original, after at most one notice of the new sender; the acknowledgement that
  node queues settles the delivery at the sender: the waiting retransmission is gone and the sender's phone is told
  that the packet was delivered.\<close>
theorem direct_text_confirmed:
  fixes t1 :: instant
  assumes "ctx_ok a" and "ctx_ok b" and "h_env HB = h_env HA"
    and "prims_ok (env_pkc (h_env HA))" and "stream_ok (env_keystream (h_env HA))"
    and "knows_key (h_env HA) a b" and "knows_key (h_env HA) b a"
    and "my_node_num (cx_device a) \<noteq> my_node_num (cx_device b)" and "my_node_num (cx_device b) \<notin> {0, BROADCAST_ADDR}"
    and "answers_on_shared_channel (cx_device b) (cx_device a)"
    and "direct_text pkt d" and "mp_to pkt = my_node_num (cx_device b)" and "length (mp_public_key pkt) \<noteq> 32"
    and "data \<noteq> []" and "pc_to_radio_dec (h_codec HA) data = Some (Some (TrPacket pkt))"
    and "fits_frame (h_env HA) (tx_data (cx_device a) (ble_builder pkt d 0 True))"
    and "fits_frame (h_env HA) (tx_data (cx_device b)
           (ack_builder (my_node_num (cx_device a)) (mp_id pkt) (direct_index (cx_device b))))"
    and "pc_routing_dec (h_codec HA) [] \<noteq> None"
    and "length (cx_pending_packets a) < PENDING_CAP" and "\<forall>p \<in> set (cx_pending_packets a). pp_packet_id p \<noteq> mp_id pkt"
    and "(my_node_num (cx_device a), mp_id pkt) \<notin> set (seen (cx_router b))"
    and "\<forall>i \<in> next_two b. (my_node_num (cx_device b), i) \<notin> set (seen (cx_router a))"
    and "cx_ble_connected b" and "length (cx_to_ble a) + 2 \<le> BLE_TX_QUEUE_SIZE" and "length (cx_to_ble b) + 2 \<le> BLE_TX_QUEUE_SIZE"
  defines "a' \<equiv> mesh_dispatch HA t1 (BleRx data) a"
  shows "\<exists>f g lora pre fid p t.
      cx_to_lora a' = cx_to_lora a @ [f] \<and> crosses_air f
    \<and> cx_to_ble (mesh_dispatch HB t2 (LoraRx f m1) b) = cx_to_ble b @ pre @ [\<lparr>fm_data = encode_from_radio HB fid (FrPacket p), fm_id = fid\<rparr>]
    \<and> length pre \<le> 1 \<and> mp_from p = my_node_num (cx_device a) \<and> mp_to p = my_node_num (cx_device b) \<and> mp_id p = mp_id pkt
    \<and> mp_payload p = Some (Decoded t) \<and> d_portnum t = TEXT_MESSAGE_APP \<and> d_payload t = d_payload d
    \<and> d_reply_id t = d_reply_id d \<and> d_emoji t = d_emoji d
    \<and> cx_to_lora (mesh_dispatch HB t2 (LoraRx f m1) b) = lora @ [g] \<and> crosses_air g
    \<and> cx_pending_packets a' \<noteq> cx_pending_packets a
    \<and> cx_pending_packets (mesh_dispatch HA t3 (LoraRx g m2) a') = cx_pending_packets a
    \<and> (\<exists>dest rpid rfid. delivery_report HA (my_node_num (cx_device a)) dest rpid (mp_id pkt) rfid
         \<in> set (cx_to_ble (mesh_dispatch HA t3 (LoraRx g m2) a')))"
proof -
  let ?E = "h_env HA" and ?bb = "ble_builder pkt d 0 True"
  let ?ack = "ack_builder (my_node_num (cx_device a)) (mp_id pkt) (direct_index (cx_device b))"
  note keys = assms(6,7) [unfolded knows_key_def]
  have refusal: "pkc_refusal (cx_node_db a) (cx_pkc_priv a) pkt TEXT_MESSAGE_APP = None"
    using knows_key_allows [OF assms(6) conjunct2 [OF keys(2)] assms(12,9,13)] .
  have size: "HEADER_SIZE + (length (env_data_enc ?E (tx_data (cx_device a) ?bb)) + PKC_OVERHEAD) \<le> MAX_LORA_PAYLOAD_LEN"
    using assms(16) by (simp add: fits_frame_def)
  obtain f x where f: "tx_build ?E (cx_device a) (cx_node_db a) (mp_id pkt) (Some (cx_pkc_priv a, x)) ?bb = Some f"
    "a' = a\<lparr>cx_drawn := Suc (cx_drawn a), cx_pending_packets := cx_pending_packets a @ [awaited a t1 pkt f],
       cx_to_lora := cx_to_lora a @ [f], cx_led := try_send LED_QUEUE_SIZE (cx_led a) DoubleBlink\<rparr>"
    unfolding a'_def by (rule text_accepted [OF assms(11,14,15) refusal assms(4) size assms(19), of t1])
  have msg: "d_portnum d = TEXT_MESSAGE_APP" "mp_id pkt \<noteq> 0" using assms(11) by (simp_all add: direct_text_def)
  obtain pre fid lora db2 pid2 where b': "cx_to_ble (mesh_dispatch HB t2 (LoraRx f m1) b) = cx_to_ble b @ pre
      @ [\<lparr>fm_data = make_from_radio_packet HB fid (heard_args (tx_header (cx_device a) (cx_node_db a) (mp_id pkt) True ?bb)
            (decoded_as (tx_data (cx_device a) ?bb) (direct_index (cx_device b))) m1), fm_id = fid\<rparr>]" "length pre \<le> 1"
    "cx_to_lora (mesh_dispatch HB t2 (LoraRx f m1) b) = lora
      @ (case tx_build ?E (cx_device b) db2 pid2 None ?ack of Some g \<Rightarrow> [g] | None \<Rightarrow> [])" "pid2 \<in> next_two b"
    by (rule text_received [where H = HB, unfolded assms(3), OF f(1) assms(2,4,12)]) (use assms keys msg in auto)
  obtain ch where ch: "tx_channel (cx_device b) ?ack = Some ch" "is_encrypted ch \<longrightarrow> length (effective_psk ch) \<in> {16, 32}"
    using assms(10) tx_channel_index [of ?ack "ack_builder 0 0 (direct_index (cx_device b))" "cx_device b"]
    by (auto simp: answers_on_shared_channel_def ack_builder_def)
  have "HEADER_SIZE + length (env_data_enc ?E (tx_data (cx_device b) ?ack)) \<le> MAX_LORA_PAYLOAD_LEN"
    using assms(17) by (simp add: fits_frame_def)
  from tx_build_psk [OF assms(5) ch this] obtain g where g: "tx_build ?E (cx_device b) db2 pid2 None ?ack = Some g" by blast
  have pending: "cx_pending_packets a' = cx_pending_packets a @ [awaited a t1 pkt f]" by (simp add: f(2))
  have pos: "position (\<lambda>p. pp_packet_id p = mp_id pkt) (cx_pending_packets a') = Some (length (cx_pending_packets a))"
    unfolding pending by (rule position_fresh) (use assms(20) in \<open>simp_all add: awaited_def\<close>)
  let ?dest = "if mp_from pkt = 0 then my_node_num (cx_device a) else mp_from pkt"
  have same: "cx_device a' = cx_device a" "cx_router a' = cx_router a" "cx_to_ble a' = cx_to_ble a" by (simp_all add: f(2))
  have lora: "cx_to_lora a' = cx_to_lora a @ [f]" by (simp add: f(2))
  have ready: "router_ok (cx_router a)" "data_roundtrips ?E (tx_data (cx_device b) ?ack)"
    "my_node_num (cx_device b) \<noteq> my_node_num (cx_device a)" "(my_node_num (cx_device b), pid2) \<notin> set (seen (cx_router a))"
    "pp_ble_notify (cx_pending_packets a' ! length (cx_pending_packets a)) = Some ?dest"
    using assms(1,8,17,22) b'(4) by (simp_all add: ctx_ok_def fits_frame_def pending awaited_def)
  note settled = ack_received [where c = a', unfolded same, OF g ready(1) assms(5,10) ready(2-4) msg(2) assms(18) pos ready(5) assms(24),
      of t3 m2, unfolded pending swap_remove_last]
  let ?t = "data_default\<lparr>d_portnum := TEXT_MESSAGE_APP, d_payload := d_payload d, d_reply_id := d_reply_id d, d_emoji := d_emoji d\<rparr>"
  obtain p where p: "make_from_radio_packet HB fid (heard_args (tx_header (cx_device a) (cx_node_db a) (mp_id pkt) True ?bb)
        (decoded_as (tx_data (cx_device a) ?bb) (direct_index (cx_device b))) m1) = encode_from_radio HB fid (FrPacket p)"
    "mp_from p = my_node_num (cx_device a)" "mp_to p = my_node_num (cx_device b)" "mp_id p = mp_id pkt" "mp_payload p = Some (Decoded ?t)"
    by (rule that [OF make_from_radio_packet_def]) (simp_all add: forwarded_packet_def heard_args_def decoded_as_def ble_builder_def msg assms(12))
  have sent: "cx_to_lora (mesh_dispatch HB t2 (LoraRx f m1) b) = lora @ [g]" by (simp add: b'(3) g)
  have "d_portnum ?t = TEXT_MESSAGE_APP" "d_payload ?t = d_payload d" "d_reply_id ?t = d_reply_id d" "d_emoji ?t = d_emoji d"
    by simp_all
  moreover have "cx_pending_packets a' \<noteq> cx_pending_packets a" by (simp add: pending)
  ultimately show ?thesis
    using lora built_crosses [OF f(1)] b'(1) [unfolded p(1)] b'(2) p(2-5) sent built_crosses [OF g] settled by blast
qed

text \<open>C5: which frames are relayed.  For every new authenticated frame of another node that is no administration
  message, exactly one relay is queued, with one hop less and this node as the last relay, if the role
  relays, the hop limit is not zero, and the frame is a broadcast, or names this node's last byte as its
  next hop, or is addressed to this node itself; in all other cases none is.  So a message that has
  reached its addressee is transmitted once more, and a directed frame without a next hop goes no further.\<close>
theorem relay_decided:
  assumes "ctx_ok c" and "header f = Some hdr" and "h_sender hdr \<noteq> my_node_num (cx_device c)"
    and "try_decrypt_and_decode (h_env H) f hdr (cx_device c) (cx_node_db c) (cx_pkc_priv c) = Authentic d"
    and "dc_portnum d \<noteq> ADMIN_APP" and "(h_sender hdr, h_packet_id hdr) \<notin> set (seen (cx_router c))"
    and "router_node_num (cx_router c) = my_node_num (cx_device c)"
  shows "if role (cx_device c) \<notin> {ClientMute, ClientHidden} \<and> hop_limit hdr \<noteq> 0
        \<and> (h_destination hdr \<in> {BROADCAST_ADDR, my_node_num (cx_device c)}
             \<or> h_next_hop hdr \<noteq> NO_NEXT_HOP \<and> h_next_hop hdr = last_byte (my_node_num (cx_device c)))
      then \<exists>t. cx_pending_rebroadcast (from_radio_dispatch H now f meta c) = enqueue_rebroadcast
          \<lparr>rb_frame = with_rewritten_header (hop_limit hdr - 1) (last_byte (my_node_num (cx_device c))) f, rb_deadline = t\<rparr>
          (cx_pending_rebroadcast c)
      else cx_pending_rebroadcast (from_radio_dispatch H now f meta c) = cx_pending_rebroadcast c"
proof -
  let ?f = "should_filter_received (h_sender hdr) (h_packet_id hdr) (hop_limit hdr) (h_relay_node hdr)
      (pending_hop_limit hdr (cx_pending_rebroadcast c)) (role (cx_device c)) (cx_router c)"
  let ?D = "deliver H now hdr d meta (handler_state H now f hdr d meta c)"
  have ok: "router_ok (cx_router c)" using assms(1) by (simp add: ctx_ok_def)
  have core: "core ?D = core (c\<lparr>cx_router := fst ?f\<rparr>)" by (simp add: handler_state_def)
  note D = core_fields(1-3) [OF core]
  have num: "router_node_num (cx_router ?D) = my_node_num (cx_device c)" by (simp add: D(1) filter_state(5) [OF ok] assms(7))
  have role: "role (cx_device ?D) = role (cx_device c)" using settings_fields(6) [OF deliver_settings [OF assms(5)]] .
  have r: "from_radio_dispatch H now f meta c = relay H now f hdr meta ?D" by (rule new_frame [OF ok assms(2-4,6)])
  show ?thesis
    using schedule_rebroadcast_shape [of H now f meta "hop_limit hdr - 1" ?D] assms(3)
    by (auto simp: r relay_def should_rebroadcast_def should_rebroadcast_for_role_def should_relay_directed_def num role D(2,3))
qed

section \<open>Witnesses\<close>

text \<open>A codec of four fixed fields, two nodes with each other's keys, and the phone's message.\<close>

definition wire_env :: env where
  "wire_env = toy_env\<lparr>env_data_enc := (\<lambda>d. ucast (d_portnum d) # le32 (d_request_id d) @ d_payload d),
     env_data_dec := (\<lambda>bs. case bs of p # a # b # c # e # pl \<Rightarrow>
        Some (data_default\<lparr>d_portnum := ucast p, d_request_id := of_le32 a b c e, d_payload := pl, d_bitfield := Some 0\<rparr>) | _ \<Rightarrow> None)\<rparr>"

definition greeting :: data_msg where
  "greeting = data_default\<lparr>d_portnum := TEXT_MESSAGE_APP, d_payload := [0x68, 0x69]\<rparr>"

definition greeting_packet :: mesh_packet where
  "greeting_packet = mesh_packet_default\<lparr>mp_to := 0x0105, mp_id := 77, mp_channel := ucast PKC_CHANNEL_INDEX,
     mp_hop_limit := 3, mp_payload := Some (Decoded greeting)\<rparr>"

definition air_host :: "bytes host" where
  "air_host = example_host\<lparr>h_env := wire_env,
     h_codec := example_codec\<lparr>pc_to_radio_dec := (\<lambda>_. Some (Some (TrPacket greeting_packet)))\<rparr>\<rparr>"

definition sender_ctx :: "bytes ctx" where
  "sender_ctx = example_ctx\<lparr>cx_node_db := toy_peers, cx_pkc_priv := [3]\<rparr>"

definition addressee_ctx :: "bytes ctx" where
  "addressee_ctx = example_ctx\<lparr>cx_device := toy_peer_device, cx_node_db := toy_peers2, cx_router := router_new 0x0105,
     cx_pkc_priv := [5], cx_ble_connected := True\<rparr>"

lemma toy_peer_device_ok: "device_ok toy_peer_device"
  unfolding toy_peer_device_def by (rule device_new_ok) simp

lemma pair_ok: "ctx_ok sender_ctx" "ctx_ok addressee_ctx"
  using example_ctx_ok toy_peer_device_ok
  by (simp_all add: ctx_ok_def sender_ctx_def addressee_ctx_def toy_peers_def toy_peers2_def)

lemma pair_keys: "knows_key wire_env sender_ctx addressee_ctx" "knows_key wire_env addressee_ctx sender_ctx"
  by (simp_all add: knows_key_def sender_ctx_def addressee_ctx_def example_ctx_def wire_env_def toy_env_pkc toy_public
      toy_peer_key2 toy_peer_key [unfolded toy_nums])

lemma toy_peer_simps: "modem_preset toy_peer_device = LongFast" "channels toy_peer_device = channel_set_new"
  "config_ok_to_mqtt toy_peer_device = False" "hop_limit_cfg toy_peer_device = hop_limit_cfg toy_device"
  by (simp_all add: toy_peer_device_def toy_device_def device_new_def Let_def)

lemma long_fast_hash: "channel_hash default_primary (ascii ''LongFast'') = 8"
  using default_channel_hash by (simp add: LONG_FAST_def ascii_def)

lemma primary_found: "find_by_hash h (ascii ''LongFast'') channel_set_new = (if h = 8 then Some default_primary else None)"
proof -
  have "ch_role default_primary = Primary" by (simp add: default_primary_def)
  then show ?thesis
    using long_fast_hash by (auto simp: find_by_hash_def channel_set_new_def const_defs numeral_eq_Suc)
qed

lemma pair_channel: "direct_index toy_peer_device = 0" "answers_on_shared_channel toy_peer_device toy_device"
proof -
  show i: "direct_index toy_peer_device = 0" by (simp add: direct_index_def toy_peer_simps primary_found)
  have "tx_channel toy_peer_device (ack_builder 0 0 0) = Some default_primary"
    by (simp add: tx_channel_def ack_builder_def toy_peer_simps chan_get_def channel_set_new_def const_defs numeral_eq_Suc)
  moreover have "length (effective_psk default_primary) = 16" by (simp add: effective_psk_def default_primary_def DEFAULT_PSK_def)
  ultimately show "answers_on_shared_channel toy_peer_device toy_device"
    by (simp add: answers_on_shared_channel_def i toy_peer_simps toy_device_simps long_fast_hash primary_found)
qed

lemma pair_fits:
  "fits_frame wire_env (tx_data toy_device (ble_builder greeting_packet greeting 0 True))"
  "fits_frame wire_env (tx_data toy_peer_device (ack_builder 9 77 0))"
  by (simp_all add: fits_frame_def data_roundtrips_def wire_env_def tx_data_def ble_builder_def ack_builder_def greeting_def
      greeting_packet_def tx_default_def data_default_def bool_u32_def portnum_defs toy_device_simps toy_peer_simps
      const_defs le32_def of_le32_def Let_def)

theorem direct_text_confirmed_witness:
  "\<exists>f g b' a'. cx_to_lora (mesh_dispatch air_host 0 (BleRx [1]) sender_ctx) = [f] \<and> crosses_air f
     \<and> mesh_dispatch air_host 1 (LoraRx f example_meta) addressee_ctx = b' \<and> length (cx_to_ble b') \<le> 2 \<and> cx_to_ble b' \<noteq> []
     \<and> last (cx_to_lora b') = g
     \<and> mesh_dispatch air_host 2 (LoraRx g example_meta) (mesh_dispatch air_host 0 (BleRx [1]) sender_ctx) = a'
     \<and> cx_pending_packets a' = [] \<and> cx_to_ble a' \<noteq> []"
proof -
  have num: "my_node_num (cx_device sender_ctx) = 9" "my_node_num (cx_device addressee_ctx) = 0x0105"
    by (simp_all add: sender_ctx_def addressee_ctx_def example_ctx_def)
  have env: "h_env air_host = wire_env" "pc_to_radio_dec (h_codec air_host) [1] = Some (Some (TrPacket greeting_packet))"
    "pc_routing_dec (h_codec air_host) [] \<noteq> None"
    by (simp_all add: air_host_def example_host_def example_codec_def)
  have crypto: "prims_ok (env_pkc wire_env)" "stream_ok (env_keystream wire_env)"
    using toy_prims_ok toy_env_pkc toy_stream_ok by (simp_all add: wire_env_def)
  have pkt: "direct_text greeting_packet greeting" "mp_to greeting_packet = my_node_num (cx_device addressee_ctx)"
    "length (mp_public_key greeting_packet) \<noteq> 32" "mp_id greeting_packet = 77"
    by (simp_all add: direct_text_def greeting_packet_def greeting_def mesh_packet_default_def num)
  have dev: "cx_device sender_ctx = toy_device" "cx_device addressee_ctx = toy_peer_device"
    "cx_pending_packets sender_ctx = []" "cx_to_ble sender_ctx = []" "cx_to_ble addressee_ctx = []" "cx_to_lora sender_ctx = []"
    "seen (cx_router sender_ctx) = []" "seen (cx_router addressee_ctx) = []" "cx_ble_connected addressee_ctx"
    by (simp_all add: sender_ctx_def addressee_ctx_def example_ctx_def)
  have ready: "my_node_num (cx_device sender_ctx) \<noteq> my_node_num (cx_device addressee_ctx)"
    "my_node_num (cx_device addressee_ctx) \<notin> {0, BROADCAST_ADDR}"
    "answers_on_shared_channel (cx_device addressee_ctx) (cx_device sender_ctx)"
    "fits_frame wire_env (tx_data (cx_device sender_ctx) (ble_builder greeting_packet greeting 0 True))"
    "fits_frame wire_env (tx_data (cx_device addressee_ctx) (ack_builder (my_node_num (cx_device sender_ctx)) (mp_id greeting_packet)
       (direct_index (cx_device addressee_ctx))))"
    using pair_fits pair_channel by (simp_all add: num const_defs) (simp_all add: dev pkt(4) num [unfolded dev])
  have room: "length (cx_pending_packets sender_ctx) < PENDING_CAP" "\<forall>p \<in> set (cx_pending_packets sender_ctx). pp_packet_id p \<noteq> mp_id greeting_packet"
    "(my_node_num (cx_device sender_ctx), mp_id greeting_packet) \<notin> set (seen (cx_router addressee_ctx))"
    "\<forall>i \<in> next_two addressee_ctx. (my_node_num (cx_device addressee_ctx), i) \<notin> set (seen (cx_router sender_ctx))"
    "length (cx_to_ble sender_ctx) + 2 \<le> BLE_TX_QUEUE_SIZE" "length (cx_to_ble addressee_ctx) + 2 \<le> BLE_TX_QUEUE_SIZE"
    by (simp_all add: dev const_defs)
  from direct_text_confirmed [of sender_ctx addressee_ctx air_host air_host greeting_packet greeting "[1]" 0 1 example_meta 2 example_meta,
      unfolded env(1), OF pair_ok refl crypto pair_keys ready(1-3) pkt(1-3) _ env(2) ready(4,5) env(3) room(1-4) dev(9) room(5,6)]
  obtain f g lora pre fid p rep where run: "cx_to_lora (mesh_dispatch air_host 0 (BleRx [1]) sender_ctx) = [f]" "crosses_air f"
    "cx_to_ble (mesh_dispatch air_host 1 (LoraRx f example_meta) addressee_ctx) = pre @ [\<lparr>fm_data = encode_from_radio air_host fid (FrPacket p), fm_id = fid\<rparr>]"
    "length pre \<le> 1" "cx_to_lora (mesh_dispatch air_host 1 (LoraRx f example_meta) addressee_ctx) = lora @ [g]"
    "cx_pending_packets (mesh_dispatch air_host 2 (LoraRx g example_meta) (mesh_dispatch air_host 0 (BleRx [1]) sender_ctx)) = []"
    "rep \<in> set (cx_to_ble (mesh_dispatch air_host 2 (LoraRx g example_meta) (mesh_dispatch air_host 0 (BleRx [1]) sender_ctx)))"
    by (auto simp: dev(3-6))
  then show ?thesis by (intro exI conjI) (rule refl | assumption | simp | fastforce)+
qed

theorem relay_decided_witness:
  "\<exists>f hdr q. header f = Some hdr \<and> h_destination hdr = 0x0105
     \<and> cx_pending_rebroadcast (from_radio_dispatch example_host 0 f example_meta addressee_ctx) = q \<and> q \<noteq> []"
proof -
  obtain f where f: "tx_build toy_env toy_device toy_peers 77 (Some ([3], 8)) toy_text = Some f"
    using toy_seal by blast
  from sealed_authentic [OF f toy_delivery [OF f]] obtain hdr where h: "header f = Some hdr"
    "hdr = tx_header toy_device toy_peers 77 True toy_text"
    "try_decrypt_and_decode toy_env f hdr toy_peer_device toy_peers2 [5]
      = Authentic (decoded_as (tx_data toy_device toy_text) (heard_index hdr toy_peer_device))" by metis
  have ctx: "cx_device addressee_ctx = toy_peer_device" "cx_node_db addressee_ctx = toy_peers2" "cx_pkc_priv addressee_ctx = [5]"
    "cx_router addressee_ctx = router_new 0x0105" "cx_pending_rebroadcast addressee_ctx = []" "h_env example_host = toy_env"
    by (simp_all add: addressee_ctx_def example_ctx_def example_host_def)
  have fields: "h_sender hdr = 9" "h_destination hdr = 0x0105" "hop_limit hdr \<noteq> 0" "role toy_peer_device = Client"
    by (simp_all add: h(2) toy_peer_device_def device_new_def Let_def)
      (simp add: tx_header_def toy_text_def tx_default_def hop_limit_def make_flags_def toy_device_def device_new_def const_defs
        Let_def of_le32_def)
  have "dc_portnum (decoded_as (tx_data toy_device toy_text) (heard_index hdr toy_peer_device)) \<noteq> ADMIN_APP"
    by (simp add: decoded_as_def toy_text_def portnum_defs)
  moreover have "h_sender hdr \<noteq> my_node_num (cx_device addressee_ctx)"
    "(h_sender hdr, h_packet_id hdr) \<notin> set (seen (cx_router addressee_ctx))"
    "router_node_num (cx_router addressee_ctx) = my_node_num (cx_device addressee_ctx)"
    by (simp_all add: ctx fields router_new_def) (simp add: router_new_def [symmetric])
  ultimately show ?thesis
    using relay_decided [OF pair_ok(2) h(1), of example_host _ 0 example_meta, unfolded ctx, OF _ h(3)] h(1) fields
    by (intro exI [of _ f] exI [of _ hdr]) (auto simp: ctx enqueue_rebroadcast_def vec_push_def const_defs)
qed

end
