(* ===== verification/Power_Tasks.thy ===== *)
theory Power_Tasks
  imports Mesh_Context
begin

text \<open>
  \<open>domain/battery.rs\<close>, \<open>tasks/watchdog_task_body.rs\<close> and \<open>tasks/led_task.rs\<close>: the battery gauge, the
  task that feeds the hardware watchdog and decides when the node sleeps, and the blink patterns.
  What a task does is the list of its actions; what it takes from a signal is an input of the round.
\<close>

section \<open>Battery gauge\<close>

definition voltage_to_level :: "u16 \<Rightarrow> u8" where
  "voltage_to_level mvolts =
     (if OCV_TABLE ! 0 \<le> mvolts then 100
      else if mvolts \<le> OCV_TABLE ! 10 then 0
      else case find (\<lambda>i. OCV_TABLE ! (i + 1) \<le> mvolts) [0..<10] of
             Some i \<Rightarrow>
               (let v_high = ucast (OCV_TABLE ! i) :: u32;
                    v_low = ucast (OCV_TABLE ! (i + 1)) :: u32;
                    v = ucast mvolts :: u32;
                    pct_high = of_nat (100 - i * 10) :: u32;
                    pct_low = of_nat (100 - (i + 1) * 10) :: u32
                in ucast (pct_low + (v - v_low) * (pct_high - pct_low) div (v_high - v_low)))
           | None \<Rightarrow> 0)"

section \<open>Watchdog\<close>

definition WATCHDOG_FEED_INTERVAL_MS :: nat where [const_defs]: "WATCHDOG_FEED_INTERVAL_MS = 500"
definition SLEEP_GRACE_MS :: nat where [const_defs]: "SLEEP_GRACE_MS = 500"

datatype wd_action = Feed | Delay nat | Disconnect_Ble | Enter_Sleep

text \<open>One pass of the loop: how long the wait for activity took, what the signals held, and the time.\<close>

record wd_input =
  wi_waited :: nat
  wi_activity :: "instant option"
  wi_shutdown :: "u32 option"
  wi_battery :: "(u8 \<times> u16) option"
  wi_now :: instant

text \<open>The announced delay, waited out in chunks of a second with the watchdog fed after each.\<close>

function shutdown_wait :: "nat \<Rightarrow> wd_action list" where
  "shutdown_wait remaining_secs =
     (if 0 < remaining_secs then
        (let chunk = min remaining_secs (max (WATCHDOG_FEED_INTERVAL_MS div 1000) 1)
         in Delay (chunk * 1000) # Feed # shutdown_wait (remaining_secs - chunk))
      else [])"
  by pat_completeness auto
termination
  by (relation "measure id") (auto simp: const_defs)

declare shutdown_wait.simps [simp del]

definition low_battery :: "(u8 \<times> u16) option \<Rightarrow> bool" where
  "low_battery b = (case b of Some (level, _) \<Rightarrow> 0 < level \<and> level \<le> LOW_BATTERY_THRESHOLD | None \<Rightarrow> False)"

definition watchdog_round :: "bool \<Rightarrow> wd_input \<Rightarrow> instant \<Rightarrow> instant \<times> wd_action list \<times> bool" where
  "watchdog_round sleep_on_inactivity i last_activity =
     (let last_activity = (case wi_activity i of Some t \<Rightarrow> t | None \<Rightarrow> last_activity);
          start = [Feed, Delay (wi_waited i)];
          go_dark = [Disconnect_Ble, Delay SLEEP_GRACE_MS]
      in case wi_shutdown i of
           Some secs \<Rightarrow> (last_activity, start @ go_dark @ shutdown_wait (unat secs) @ [Enter_Sleep], True)
         | None \<Rightarrow>
             if low_battery (wi_battery i) then (last_activity, start @ go_dark @ [Enter_Sleep], True)
             else if sleep_on_inactivity \<and> INACTIVITY_TIMEOUT_MS \<le> wi_now i - last_activity
             then (last_activity, start @ go_dark @ [Enter_Sleep], True)
             else (last_activity, start, False))"

text \<open>The loop over a sequence of inputs; sleeping ends it.\<close>

fun watchdog_run :: "bool \<Rightarrow> wd_input list \<Rightarrow> instant \<Rightarrow> wd_action list \<times> bool" where
  "watchdog_run f [] t = ([], False)"
| "watchdog_run f (i # rest) t =
     (case watchdog_round f i t of
        (t, acts, True) \<Rightarrow> (acts, True)
      | (t, acts, False) \<Rightarrow> (case watchdog_run f rest t of (acts', slept) \<Rightarrow> (acts @ acts', slept)))"

section \<open>LED\<close>

datatype pin_action = Set_High | Set_Low | Hold nat

definition LED_ON_MS :: nat where [const_defs]: "LED_ON_MS = 50"
definition LED_BLINK_DELAY_MS :: nat where [const_defs]: "LED_BLINK_DELAY_MS = 200"
definition LED_HEARTBEAT_ON_MS :: nat where [const_defs]: "LED_HEARTBEAT_ON_MS = 5"

definition single_blink :: "pin_action list" where
  "single_blink = [Set_High, Hold LED_ON_MS, Set_Low, Hold LED_BLINK_DELAY_MS]"

fun execute_pattern :: "led_pattern \<Rightarrow> pin_action list" where
  "execute_pattern SingleBlink = single_blink"
| "execute_pattern DoubleBlink = single_blink @ single_blink"
| "execute_pattern Heartbeat = [Set_High, Hold LED_HEARTBEAT_ON_MS, Set_Low]"

section \<open>The gauge\<close>

text \<open>The same table as nested comparisons on naturals.\<close>

definition ramp :: "nat \<Rightarrow> nat \<Rightarrow> nat \<Rightarrow> nat \<Rightarrow> nat" where
  "ramp low span_mv pct v = pct + (v - low) * 10 div span_mv"

definition gauge :: "nat \<Rightarrow> nat" where
  "gauge = (\<lambda>v. if 4200 \<le> v then 100 else if 4050 \<le> v then ramp 4050 150 90 v
     else if 3900 \<le> v then ramp 3900 150 80 v else if 3800 \<le> v then ramp 3800 100 70 v
     else if 3730 \<le> v then ramp 3730 70 60 v else if 3680 \<le> v then ramp 3680 50 50 v
     else if 3630 \<le> v then ramp 3630 50 40 v else if 3570 \<le> v then ramp 3570 60 30 v
     else if 3500 \<le> v then ramp 3500 70 20 v else if 3400 \<le> v then ramp 3400 100 10 v
     else ramp 3100 300 0 v)"

lemma mono_piece:
  fixes f g :: "nat \<Rightarrow> nat"
  assumes "mono f" "mono g" "f (c - 1) \<le> g c"
  shows "mono (\<lambda>v. if c \<le> v then g v else f v)"
proof (rule monoI)
  fix v w :: nat assume "v \<le> w"
  have "f v \<le> g w" if "v < c" "c \<le> w"
  proof -
    have "f v \<le> f (c - 1)" using that(1) by (intro monoD [OF assms(1)]) simp
    also have "\<dots> \<le> g c" by (rule assms(3))
    also have "\<dots> \<le> g w" using that(2) by (rule monoD [OF assms(2)])
    finally show ?thesis .
  qed
  then show "(if c \<le> v then g v else f v) \<le> (if c \<le> w then g w else f w)"
    using \<open>v \<le> w\<close> assms(1,2) by (auto dest: monoD)
qed

lemma mono_ramp: "mono (ramp low w p)"
  by (auto intro!: monoI div_le_mono simp: ramp_def)

lemma gauge_mono: "v \<le> w \<Longrightarrow> gauge v \<le> gauge w"
proof -
  have "mono gauge"
    unfolding gauge_def by (intro mono_piece mono_ramp monoI [OF order_refl]) (simp_all add: ramp_def)
  then show "v \<le> w \<Longrightarrow> gauge v \<le> gauge w" by (rule monoD)
qed

lemma gauge_le: "gauge v \<le> 100"
  using gauge_mono [of v "max v 4200"] by (simp add: gauge_def)

lemma interpolate:
  fixes p l w x :: u32
  assumes "l \<le> x" "unat x \<le> unat l + unat w" "0 < unat w" "unat w < 1000" "unat p \<le> 90"
  shows "unat (ucast (p + (x - l) * 10 div w) :: u8) = unat p + (unat x - unat l) * 10 div unat w"
proof -
  let ?d = "unat x - unat l"
  have d: "unat (x - l) = ?d" using assms(1) by (simp add: unat_sub)
  have "?d \<le> unat w" using assms(2) by simp
  then have "?d * 10 div unat w \<le> unat w * 10 div unat w" by (intro div_le_mono mult_le_mono1)
  also have "\<dots> = 10" using assms(3) by simp
  finally have q: "?d * 10 div unat w \<le> 10" .
  have "unat ((x - l) * 10) = ?d * 10"
    using \<open>?d \<le> unat w\<close> assms(4) by (simp add: unat_word_ariths d del: left_diff_distrib_numeral)
  then have "unat ((x - l) * 10 div w) = ?d * 10 div unat w" by (simp add: unat_div)
  then have "unat (p + (x - l) * 10 div w) = unat p + ?d * 10 div unat w"
    using q assms(5) by (simp add: unat_word_ariths)
  then show ?thesis using q assms(5) by (simp add: unsigned_ucast_eq unsigned_take_bit_eq take_bit_nat_eq_self)
qed

lemma find_gauge: "find P [0..<10] = (if P 0 then Some 0 else if P 1 then Some 1 else if P 2 then Some 2 else if P 3 then Some 3
    else if P 4 then Some 4 else if P 5 then Some 5 else if P 6 then Some 6 else if P 7 then Some 7
    else if P 8 then Some 8 else if P (9 :: nat) then Some 9 else None)"
  by (simp add: upt_rec eval_nat_numeral)

lemma ucast_le_u32: "(ucast (x :: u16) :: u32) = of_nat (unat x)" "unat (of_nat (unat x) :: u32) = unat x"
  by (simp_all add: unsigned_ucast_eq)

lemma level_gauge: "unat (voltage_to_level v) = gauge (unat v)"
proof -
  have u: "unat (ucast v :: u32) = unat v" by (simp add: unsigned_ucast_eq unsigned_take_bit_eq take_bit_nat_eq_self)
  show ?thesis
    unfolding voltage_to_level_def gauge_def find_gauge OCV_TABLE_def ramp_def
    using interpolate [of 3100 "ucast v" 300 0]
    by (simp add: word_le_nat_alt interpolate u del: left_diff_distrib_numeral)
qed

section \<open>Properties\<close>

text \<open>The battery gauge is a monotone scale from 0 to 100.  A higher voltage never reads as a lower
  level; 100 is read exactly from the top of the table on, 0 at its bottom and below; and each of the
  eleven voltages of the table reads as its exact multiple of ten.\<close>
lemma battery_gauge:
  "(a \<le> b \<longrightarrow> voltage_to_level a \<le> voltage_to_level b) \<and> voltage_to_level a \<le> 100
    \<and> (voltage_to_level a = 100 \<longleftrightarrow> OCV_TABLE ! 0 \<le> a) \<and> (a \<le> OCV_TABLE ! 10 \<longrightarrow> voltage_to_level a = 0)
    \<and> map voltage_to_level OCV_TABLE = [100, 90, 80, 70, 60, 50, 40, 30, 20, 10, 0]"
proof (intro conjI)
  show "a \<le> b \<longrightarrow> voltage_to_level a \<le> voltage_to_level b"
    by (simp add: word_le_nat_alt level_gauge gauge_mono)
  show "voltage_to_level a \<le> 100" by (simp add: word_le_nat_alt level_gauge gauge_le)
  have "gauge 4199 = 99" by (simp add: gauge_def ramp_def)
  then have "gauge v \<le> 99" if "v < 4200" for v using gauge_mono [of v 4199] that by simp
  then have "gauge v = 100 \<longleftrightarrow> 4200 \<le> v" for v
    by (cases "v < 4200") (fastforce, simp add: gauge_def)
  then show "voltage_to_level a = 100 \<longleftrightarrow> OCV_TABLE ! 0 \<le> a"
    by (simp add: word_unat_eq_iff level_gauge OCV_TABLE_def word_le_nat_alt)
  show "a \<le> OCV_TABLE ! 10 \<longrightarrow> voltage_to_level a = 0"
    by (simp add: word_unat_eq_iff level_gauge OCV_TABLE_def word_le_nat_alt gauge_def ramp_def)
  show "map voltage_to_level OCV_TABLE = [100, 90, 80, 70, 60, 50, 40, 30, 20, 10, 0]"
    by (simp add: OCV_TABLE_def word_unat_eq_iff level_gauge gauge_def ramp_def)
qed

text \<open>Time since the last feeding never passes a limit.\<close>

fun fed_within :: "nat \<Rightarrow> nat \<Rightarrow> wd_action list \<Rightarrow> bool" where
  "fed_within m e [] \<longleftrightarrow> e \<le> m"
| "fed_within m e (Feed # acts) \<longleftrightarrow> e \<le> m \<and> fed_within m 0 acts"
| "fed_within m e (Delay d # acts) \<longleftrightarrow> fed_within m (e + d) acts"
| "fed_within m e (a # acts) \<longleftrightarrow> fed_within m e acts"

lemma fed_append: "fed_within m e (xs @ Feed # ys) \<longleftrightarrow> fed_within m e xs \<and> fed_within m 0 ys"
  by (induction m e xs rule: fed_within.induct) auto

fun delay_of :: "wd_action \<Rightarrow> nat" where
  "delay_of (Delay d) = d"
| "delay_of _ = 0"

lemma shutdown_wait_facts:
  "e + 1000 \<le> m \<Longrightarrow> fed_within m e (shutdown_wait n @ [Enter_Sleep])
    \<and> sum_list (map delay_of (shutdown_wait n)) = n * 1000"
proof (induction n arbitrary: e rule: less_induct)
  case (less n)
  show ?case
  proof (cases "0 < n")
    case True
    have chunk: "shutdown_wait n = Delay 1000 # Feed # shutdown_wait (n - 1)"
      using True by (subst shutdown_wait.simps) (simp add: const_defs Let_def)
    show ?thesis using less.IH [of "n - 1" 0] less.prems True unfolding chunk by (simp add: algebra_simps)
  qed (use less.prems in \<open>simp add: shutdown_wait.simps\<close>)
qed

lemma round_fed:
  assumes "wi_waited i \<le> WATCHDOG_FEED_INTERVAL_MS" "watchdog_round f i t = (t', acts, slept)"
  shows "\<exists>acts'. acts = Feed # acts' \<and> fed_within 2000 0 acts'"
  using assms shutdown_wait_facts [of "wi_waited i + 500" 2000]
  by (auto simp: watchdog_round_def Let_def const_defs split: option.splits if_splits)

text \<open>C28: the hardware watchdog is always fed in time.  Whatever the signals hold and however long the
  announced shutdown delay, no two feedings (and no feeding and the moment of sleep) are more than two
  seconds apart, far below the ninety seconds after which the chip resets the node, given that the task's wait
  for a signal ends by its timeout of 500 ms; and the waiting loop of a requested shutdown, taken by itself, waits
  exactly the announced number of seconds.\<close>
theorem watchdog_never_starves:
  assumes "\<forall>i \<in> set ins. wi_waited i \<le> WATCHDOG_FEED_INTERVAL_MS"
  shows "fed_within 2000 0 (fst (watchdog_run f ins t)) \<and> sum_list (map delay_of (shutdown_wait secs)) = secs * 1000"
proof
  have "fst (watchdog_run f ins t) = [] \<or> (\<exists>acts. fst (watchdog_run f ins t) = Feed # acts \<and> fed_within 2000 0 acts)"
    using assms
  proof (induction ins arbitrary: t)
    case (Cons i rest)
    obtain t' acts slept where r: "watchdog_round f i t = (t', acts, slept)" by (metis prod_cases3)
    obtain acts1 where a: "acts = Feed # acts1" "fed_within 2000 0 acts1" using round_fed [OF _ r] Cons.prems by auto
    have "fst (watchdog_run f rest t') = [] \<or> (\<exists>as. fst (watchdog_run f rest t') = Feed # as \<and> fed_within 2000 0 as)"
      using Cons by simp
    then show ?case using a by (cases slept) (auto simp: r fed_append split: prod.split)
  qed simp
  then show "fed_within 2000 0 (fst (watchdog_run f ins t))" by auto
  show "sum_list (map delay_of (shutdown_wait secs)) = secs * 1000" using shutdown_wait_facts [of 0 1000] by simp
qed

definition idle_input :: "instant \<Rightarrow> wd_input" where
  "idle_input now = \<lparr>wi_waited = 500, wi_activity = None, wi_shutdown = None, wi_battery = None, wi_now = now\<rparr>"

theorem watchdog_never_starves_witness:
  "fed_within 2000 0 (fst (watchdog_run True [idle_input 500, (idle_input 900)\<lparr>wi_shutdown := Some 3600\<rparr>] 0))"
  using watchdog_never_starves [of "[idle_input 500, (idle_input 900)\<lparr>wi_shutdown := Some 3600\<rparr>]" True 0]
  by (simp add: idle_input_def const_defs)

lemma low_battery_window: "low_battery (Some (voltage_to_level v, v)) \<longleftrightarrow> 3130 \<le> v \<and> v < 3280"
proof -
  have g: "gauge 3129 = 0" "gauge 3130 = 1" "gauge 3279 = 5" "gauge 3280 = 6" by (simp_all add: gauge_def ramp_def)
  have "gauge n = 0 \<or> 5 < gauge n" if "\<not> (3130 \<le> n \<and> n < 3280)" for n
  proof (cases "n < 3130")
    case True
    then show ?thesis using gauge_mono [of n 3129] g(1) by simp
  next
    case False
    then show ?thesis using that gauge_mono [of 3280 n] g(4) by simp
  qed
  moreover have "0 < gauge n \<and> gauge n \<le> 5" if "3130 \<le> n \<and> n < 3280" for n
    using that gauge_mono [of 3130 n] gauge_mono [of n 3279] g(2,3) by simp
  ultimately have "0 < gauge n \<and> gauge n \<le> 5 \<longleftrightarrow> 3130 \<le> n \<and> n < 3280" for n
    by (metis less_irrefl_nat not_le)
  then show ?thesis
    by (simp add: low_battery_def word_le_nat_alt word_less_nat_alt level_gauge LOW_BATTERY_THRESHOLD_def)
qed

text \<open>The node sleeps for one of three causes, and tells the phone first.  A round of the watchdog
  ends in sleep exactly when a shutdown was requested, the reported battery level is between 1 and 5,
  or, on boards that sleep when idle, there was no activity for five minutes; the radio task of a board
  that does not sleep when idle is never stopped for inactivity.  Before it sleeps it asks the BLE task
  to disconnect and grants it half a second, and the time of the latest activity is kept.  For a reading
  of the gauge the battery cause is a voltage from 3130 to 3279 mV: an emptier battery reads as level 0,
  which is not a cause.\<close>
lemma watchdog_sleeps:
  assumes "watchdog_round f i t = (t', acts, slept)"
  shows "t' = (case wi_activity i of Some a \<Rightarrow> a | None \<Rightarrow> t)
    \<and> (slept \<longleftrightarrow> wi_shutdown i \<noteq> None \<or> low_battery (wi_battery i) \<or> f \<and> INACTIVITY_TIMEOUT_MS \<le> wi_now i - t')
    \<and> (slept \<longrightarrow> (\<exists>mid. acts = [Feed, Delay (wi_waited i), Disconnect_Ble, Delay SLEEP_GRACE_MS] @ mid @ [Enter_Sleep]
         \<and> Enter_Sleep \<notin> set mid \<and> (wi_shutdown i = None \<longrightarrow> mid = [])))
    \<and> (\<not> slept \<longrightarrow> acts = [Feed, Delay (wi_waited i)])
    \<and> (\<forall>v. wi_battery i = Some (voltage_to_level v, v) \<longrightarrow> (low_battery (wi_battery i) \<longleftrightarrow> 3130 \<le> v \<and> v < 3280))"
proof -
  have "Enter_Sleep \<notin> set (shutdown_wait n)" for n
    by (induction n rule: shutdown_wait.induct) (subst shutdown_wait.simps, auto simp: Let_def)
  then show ?thesis
    using assms low_battery_window by (auto simp: watchdog_round_def Let_def split: option.splits if_splits)
qed

end
