(* ===== verification/Battery_Task.thy ===== *)
theory Battery_Task
  imports Power_Tasks Float32
begin

text \<open>
  \<open>boards/esp32/src/tasks/battery_task.rs\<close> and \<open>boards/nrf52/src/tasks/battery_task.rs\<close>: averaging the
  samples of the converter, the low-pass filter on the voltage, and the report to the watchdog, the
  phone and the mesh task.  The converter is an input: what each of its samples reads.  The filter is the
  same on both boards and its facts are proved once, in a locale over what a board makes of the samples.
\<close>

section \<open>Filter and report\<close>

definition BATTERY_SENSE_SAMPLES :: nat where [const_defs]: "BATTERY_SENSE_SAMPLES = 15"

record battery_state =
  bt_last_voltage :: rat
  bt_initial_read_done :: bool

definition battery_new :: battery_state where
  "battery_new = \<lparr>bt_last_voltage = 3700, bt_initial_read_done = False\<rparr>"

text \<open>The cast \<open>as u16\<close> of a float cuts the fraction off and saturates.\<close>

definition f32_as_u16 :: "rat \<Rightarrow> u16" where
  "f32_as_u16 x = (if x \<le> 0 then 0 else if 65535 \<le> x then 0xFFFF else of_nat (nat \<lfloor>x\<rfloor>))"

definition smooth :: "rat \<Rightarrow> battery_state \<Rightarrow> battery_state" where
  "smooth scaled_mv s =
     (if \<not> bt_initial_read_done s
      then (if bt_last_voltage s < scaled_mv then s\<lparr>bt_last_voltage := scaled_mv\<rparr> else s)\<lparr>bt_initial_read_done := True\<rparr>
      else s\<lparr>bt_last_voltage := fl (bt_last_voltage s + fl (fl (scaled_mv - bt_last_voltage s) * (1 / 2)))\<rparr>)"

definition battery_report :: "battery_state \<Rightarrow> u8 \<times> u16" where
  "battery_report s = (let voltage_mv = f32_as_u16 (bt_last_voltage s) in (voltage_to_level voltage_mv, voltage_mv))"

section \<open>The two boards\<close>

text \<open>Heltec V3: each sample is a calibrated reading in millivolts, or an error.\<close>

definition ESP_DIVIDER :: rat where
  "ESP_DIVIDER = fl (fl (49 / 10) * fl (1045 / 1000))"

definition esp_valid :: "(nat \<Rightarrow> u16 option) \<Rightarrow> u16 list" where
  "esp_valid adc = List.map_filter adc [0..<BATTERY_SENSE_SAMPLES]"

definition esp_scaled :: "u16 list \<Rightarrow> rat" where
  "esp_scaled valid =
     (let raw_sum = sum_list (map ucast valid) :: u32;
          pin_mv = ucast (raw_sum div of_nat (length valid)) :: u16
      in fl (fl (of_nat (unat pin_mv)) * ESP_DIVIDER))"

definition esp_read_battery_level :: "(nat \<Rightarrow> u16 option) \<Rightarrow> battery_state \<Rightarrow> u8 \<times> battery_state" where
  "esp_read_battery_level adc s =
     (let valid = esp_valid adc
      in if valid = [] then (voltage_to_level (f32_as_u16 (bt_last_voltage s)), s)
         else (let s = smooth (esp_scaled valid) s in (voltage_to_level (f32_as_u16 (bt_last_voltage s)), s)))"

definition esp_reading :: "(nat \<Rightarrow> u16 option) \<Rightarrow> battery_state \<Rightarrow> (u8 \<times> u16) \<times> battery_state" where
  "esp_reading adc s = (let (level, s) = esp_read_battery_level adc s in ((level, f32_as_u16 (bt_last_voltage s)), s))"

text \<open>XIAO nRF52840: signed counts of a 12-bit converter; negative ones count as zero.\<close>

definition ADC_MULTIPLIER :: rat where [const_defs]: "ADC_MULTIPLIER = 3"
definition ADC_FULL_SCALE_MV :: rat where [const_defs]: "ADC_FULL_SCALE_MV = 3600"
definition ADC_MAX_COUNT :: rat where [const_defs]: "ADC_MAX_COUNT = 4096"

definition nrf_scaled :: "(nat \<Rightarrow> 16 word) \<Rightarrow> rat" where
  "nrf_scaled adc =
     (let raw_sum = sum_list (map (\<lambda>i. max (sint (adc i)) 0) [0..<BATTERY_SENSE_SAMPLES]);
          raw_avg = fl (fl (of_int raw_sum) / fl (of_nat BATTERY_SENSE_SAMPLES));
          pin_mv = fl (fl (raw_avg * ADC_FULL_SCALE_MV) / ADC_MAX_COUNT)
      in fl (pin_mv * ADC_MULTIPLIER))"

definition nrf_read_battery_level :: "(nat \<Rightarrow> 16 word) \<Rightarrow> battery_state \<Rightarrow> (u8 \<times> u16) \<times> battery_state" where
  "nrf_read_battery_level adc s =
     (let s = smooth (nrf_scaled adc) s;
          voltage_mv = f32_as_u16 (bt_last_voltage s)
      in ((voltage_to_level voltage_mv, voltage_mv), s))"

text \<open>One round of the task, the first right after the start and one every minute: the latest report
  replaces the one in the signal, and goes to the mesh task if its queue has room.\<close>

record battery_task =
  bk_state :: battery_state
  bk_signal :: "(u8 \<times> u16) option"
  bk_mesh_in :: "mesh_event list"

definition battery_turn :: "('a \<Rightarrow> battery_state \<Rightarrow> (u8 \<times> u16) \<times> battery_state) \<Rightarrow> 'a \<Rightarrow> battery_task \<Rightarrow> battery_task" where
  "battery_turn reading adc t =
     (let (level, s) = reading adc (bk_state t)
      in t\<lparr>bk_state := s, bk_signal := Some level,
           bk_mesh_in := try_send MESH_IN_QUEUE_SIZE (bk_mesh_in t) (BatteryUpdate (fst level) (snd level))\<rparr>)"

definition battery_start :: "mesh_event list \<Rightarrow> battery_task" where
  "battery_start q = \<lparr>bk_state = battery_new, bk_signal = None, bk_mesh_in = q\<rparr>"

definition battery_task_run ::
  "('a \<Rightarrow> battery_state \<Rightarrow> (u8 \<times> u16) \<times> battery_state) \<Rightarrow> 'a list \<Rightarrow> battery_task \<Rightarrow> battery_task" where
  "battery_task_run reading adcs t = fold (battery_turn reading) adcs t"

section \<open>The filter\<close>

lemma fl_error_abs: "\<bar>fl x - x\<bar> \<le> \<bar>x\<bar> / 2 ^ 24"
proof -
  have *: "\<bar>fl y - y\<bar> \<le> y / 2 ^ 24" if "0 \<le> y" for y
    using fl_error [OF that] unfolding abs_le_iff by (simp add: field_simps)
  show ?thesis using * [of x] * [of "- x"] by (cases "0 \<le> x") (simp_all add: fl_minus)
qed

lemma half_step:
  fixes l c t u r :: rat
  assumes "\<bar>t - (c - l)\<bar> \<le> 1 / 32" "\<bar>u - t / 2\<bar> \<le> 1 / 32" "\<bar>r - (l + u)\<bar> \<le> 1 / 16"
  shows "\<bar>r - (l + c) / 2\<bar> \<le> 1 / 8"
  using assms by (auto simp: abs_if field_simps split: if_splits)

text \<open>One step of the filter is the mean of the old value and the reading, up to an eighth of a millivolt.\<close>

lemma smooth_close:
  assumes "0 \<le> l" "l \<le> 2 ^ 19" "0 \<le> c" "c \<le> 2 ^ 19"
  shows "\<bar>fl (l + fl (fl (c - l) * (1 / 2))) - (l + c) / 2\<bar> \<le> 1 / 8"
proof -
  let ?d = "c - l"
  have d: "\<bar>?d\<bar> \<le> 2 ^ 19" using assms by simp
  have 1: "\<bar>fl ?d - ?d\<bar> \<le> 1 / 32" using fl_error_abs [of ?d] d by (simp add: field_simps)
  have h: "\<bar>fl ?d * (1 / 2)\<bar> \<le> 2 ^ 19" using 1 d unfolding abs_le_iff by (intro conjI; simp; linarith)
  have 2: "\<bar>fl (fl ?d * (1 / 2)) - fl ?d * (1 / 2)\<bar> \<le> 1 / 32"
    using fl_error_abs [of "fl ?d * (1 / 2)"] h by (simp add: field_simps)
  have s: "\<bar>l + fl (fl ?d * (1 / 2))\<bar> \<le> 2 ^ 20" using 1 2 d assms unfolding abs_le_iff by (intro conjI; simp; linarith)
  have 3: "\<bar>fl (l + fl (fl ?d * (1 / 2))) - (l + fl (fl ?d * (1 / 2)))\<bar> \<le> 1 / 16"
    using fl_error_abs [of "l + fl (fl ?d * (1 / 2))"] s by (simp add: field_simps)
  show ?thesis by (rule half_step [OF 1 _ 3]) (use 2 in simp)
qed

text \<open>The board's side: which samples give a reading, what it is, and what the round then reports.\<close>

locale battery_board =
  fixes reading :: "'a \<Rightarrow> battery_state \<Rightarrow> (u8 \<times> u16) \<times> battery_state" and usable :: "'a \<Rightarrow> bool" and scaled :: "'a \<Rightarrow> rat"
  assumes usable: "usable adc \<Longrightarrow> reading adc s = (battery_report (smooth (scaled adc) s), smooth (scaled adc) s)"
    and unusable: "\<not> usable adc \<Longrightarrow> reading adc s = (battery_report s, s)"
begin

abbreviation run :: "'a list \<Rightarrow> battery_task \<Rightarrow> battery_task" where
  "run adcs t \<equiv> battery_task_run reading adcs t"

abbreviation seen :: "'a list \<Rightarrow> rat list" where
  "seen adcs \<equiv> map scaled (filter usable adcs)"

lemma run_state: "bk_state (run adcs t) = fold smooth (seen adcs) (bk_state t)"
proof (induction adcs arbitrary: t)
  case (Cons adc adcs)
  have "bk_state (battery_turn reading adc t) = (if usable adc then smooth (scaled adc) (bk_state t) else bk_state t)"
    by (simp add: battery_turn_def usable unusable)
  then show ?case using Cons [of "battery_turn reading adc t"] by (simp add: battery_task_run_def)
qed (simp add: battery_task_run_def)

lemma run_signal: "adcs \<noteq> [] \<Longrightarrow> bk_signal (run adcs t) = Some (battery_report (bk_state (run adcs t)))"
proof (induction adcs arbitrary: t rule: rev_induct)
  case (snoc adc adcs)
  show ?case by (cases "usable adc") (simp_all add: battery_task_run_def battery_turn_def usable unusable)
qed simp

end

interpretation esp: battery_board esp_reading "\<lambda>adc. esp_valid adc \<noteq> []" "\<lambda>adc. esp_scaled (esp_valid adc)"
  by unfold_locales (simp_all add: esp_reading_def esp_read_battery_level_def battery_report_def Let_def)

interpretation nrf: battery_board nrf_read_battery_level "\<lambda>_. True" nrf_scaled
  by unfold_locales (simp_all add: nrf_read_battery_level_def battery_report_def Let_def)

section \<open>A low battery is noticed, a dip is not\<close>

lemma as_u16_bounds:
  assumes "of_nat a \<le> x" "x < of_nat b" "0 < a" "b \<le> 65535"
  shows "a \<le> unat (f32_as_u16 x)" "unat (f32_as_u16 x) < b"
proof -
  have x: "0 < x" "x < 65535" using assms by (auto intro: less_le_trans order_less_le_trans)
  have f: "int a \<le> \<lfloor>x\<rfloor>" "\<lfloor>x\<rfloor> < int b" using assms by (simp_all add: le_floor_iff floor_less_iff)
  then have "nat \<lfloor>x\<rfloor> < 65536" using assms(4) by linarith
  then have "unat (of_nat (nat \<lfloor>x\<rfloor>) :: u16) = nat \<lfloor>x\<rfloor>"
    by (simp only: unsigned_of_nat of_nat_id) (intro take_bit_nat_eq_self, simp)
  then have "unat (f32_as_u16 x) = nat \<lfloor>x\<rfloor>"
    using x by (simp only: f32_as_u16_def not_le [symmetric] if_False simp_thms)
  then show "a \<le> unat (f32_as_u16 x)" "unat (f32_as_u16 x) < b" using f assms(3) by linarith+
qed

lemma as_u16_ge: "of_nat a \<le> x \<Longrightarrow> 0 < a \<Longrightarrow> a \<le> 65535 \<Longrightarrow> a \<le> unat (f32_as_u16 x)"
proof (cases "x < of_nat 65535")
  case True
  assume "of_nat a \<le> x" "0 < a" "a \<le> 65535"
  then show ?thesis using as_u16_bounds(1) [of a x 65535] True by simp
qed (simp add: f32_as_u16_def)

text \<open>Readings in an interval pull the filter into it, halving the distance each time.\<close>

lemma smooth_steady:
  assumes "\<forall>c \<in> set cs. a \<le> c \<and> c \<le> b" "1 \<le> a" "b \<le> 10000" "bt_initial_read_done s"
    and "a - 1 / 4 \<le> bt_last_voltage s" "bt_last_voltage s \<le> b + d + 1 / 4" "0 \<le> d" "d \<le> 10000"
  shows "bt_initial_read_done (fold smooth cs s) \<and> a - 1 / 4 \<le> bt_last_voltage (fold smooth cs s)
    \<and> bt_last_voltage (fold smooth cs s) \<le> b + d / 2 ^ length cs + 1 / 4"
  using assms
proof (induction cs arbitrary: s d)
  case (Cons c cs)
  let ?l = "bt_last_voltage s" and ?s = "smooth c s"
  have close: "\<bar>bt_last_voltage ?s - (?l + c) / 2\<bar> \<le> 1 / 8"
    using smooth_close [of ?l c] Cons.prems by (simp add: smooth_def)
  have "a - 1 / 4 \<le> bt_last_voltage ?s" "bt_last_voltage ?s \<le> b + d / 2 + 1 / 4"
    using close Cons.prems unfolding abs_le_iff by (simp_all add: field_simps)
  moreover have "bt_initial_read_done ?s" using Cons.prems by (simp add: smooth_def)
  ultimately show ?case using Cons.IH [of ?s "d / 2"] Cons.prems by (simp add: field_simps)
qed simp

lemma steady_low:
  assumes "\<forall>c \<in> set cs. 3131 \<le> c \<and> c \<le> 3279" "11 \<le> length cs"
  shows "low_battery (Some (battery_report (fold smooth cs battery_new)))"
proof -
  obtain c cs' where cs: "cs = c # cs'" using assms(2) by (cases cs) auto
  let ?s = "smooth c battery_new" and ?t = "fold smooth cs battery_new"
  have s: "bt_initial_read_done ?s" "bt_last_voltage ?s = 3700" using assms(1) cs by (auto simp: smooth_def battery_new_def)
  have "(421 :: rat) / 2 ^ length cs' \<le> 421 / 2 ^ 10"
    using assms(2) cs by (intro divide_left_mono power_increasing) simp_all
  moreover have "3131 - 1 / 4 \<le> bt_last_voltage ?t \<and> bt_last_voltage ?t \<le> 3279 + 421 / 2 ^ length cs' + 1 / 4"
    using smooth_steady [of cs' 3131 3279 ?s 421] assms(1) s cs by simp
  ultimately have "of_nat 3130 \<le> bt_last_voltage ?t" "bt_last_voltage ?t < of_nat 3280" by simp_all
  from as_u16_bounds [OF this] show ?thesis by (simp add: battery_report_def Let_def low_battery_window word_le_nat_alt word_less_nat_alt)
qed

text \<open>C22: a low battery is reported.  When every usable reading of a node that has just started lies between
  3131 and 3279 mV, then from the eleventh on, ten minutes after the start, the signal the watchdog reads
  holds a low-battery report right after each reading, on both boards; readings that fail in between only delay it.
  (What the signal's other consumer, the BLE loop of a connected phone, takes before the watchdog looks is not
  followed.)\<close>
theorem low_battery_noticed:
  assumes "\<forall>adc \<in> set adcs. esp_valid adc \<noteq> [] \<longrightarrow> 3131 \<le> esp_scaled (esp_valid adc) \<and> esp_scaled (esp_valid adc) \<le> 3279"
    and "11 \<le> length (filter (\<lambda>adc. esp_valid adc \<noteq> []) adcs)"
    and "\<forall>adc \<in> set adcs'. 3131 \<le> nrf_scaled adc \<and> nrf_scaled adc \<le> 3279" and "11 \<le> length adcs'"
  shows "low_battery (bk_signal (battery_task_run esp_reading adcs (battery_start q)))
    \<and> low_battery (bk_signal (battery_task_run nrf_read_battery_level adcs' (battery_start q)))"
proof
  have "adcs \<noteq> []" using assms(2) by auto
  then show "low_battery (bk_signal (battery_task_run esp_reading adcs (battery_start q)))"
    using assms(1,2) steady_low [of "map (\<lambda>adc. esp_scaled (esp_valid adc)) (filter (\<lambda>adc. esp_valid adc \<noteq> []) adcs)"]
    by (simp add: esp.run_signal esp.run_state battery_start_def)
  have "adcs' \<noteq> []" using assms(4) by auto
  then show "low_battery (bk_signal (battery_task_run nrf_read_battery_level adcs' (battery_start q)))"
    using assms(3,4) steady_low [of "map nrf_scaled adcs'"] by (simp add: nrf.run_signal nrf.run_state battery_start_def)
qed

lemma fl_of_nat:
  assumes "n < 2 ^ 24"
  shows "fl (of_nat n) = of_nat n"
proof (cases "n = 0")
  case False
  let ?e = "ilog2 n"
  have "2 ^ ?e \<le> n" using ilog2_bounds [of n] False by simp
  then have "(2 :: nat) ^ ?e < 2 ^ 24" using assms by linarith
  then have e: "?e < 24" by (rule power_less_imp_less_exp [rotated]) simp
  have u: "two_to (int ?e - 23) = 1 / 2 ^ (23 - ?e)"
    using e by (cases "?e = 23") (auto simp: two_to_def nat_diff_distrib intro!: arg_cong [where f = "\<lambda>k. 2 ^ k"])
  have x: "exp2 (of_nat n) = int ?e" using False by (simp add: exp2_def)
  have "fl (of_nat n) = of_int (round_even (of_nat n * 2 ^ (23 - ?e))) * (1 / 2 ^ (23 - ?e))"
    using fl_pos(1) [of "of_nat n"] False by (simp add: x u)
  also have "(of_nat n * 2 ^ (23 - ?e) :: rat) = of_int (int n * 2 ^ (23 - ?e))" by simp
  also have "round_even (of_int (int n * 2 ^ (23 - ?e))) = int n * 2 ^ (23 - ?e)" by (rule round_even_of_int)
  finally show ?thesis by simp
qed simp

lemma fl_within: "0 \<le> x \<Longrightarrow> a \<le> x * (1 - 1 / 2 ^ 24) \<Longrightarrow> x * (1 + 1 / 2 ^ 24) \<le> b \<Longrightarrow> a \<le> fl x \<and> fl x \<le> b"
  using fl_error [of x] by linarith

lemma fl_mult_within:
  assumes "0 \<le> a" "a \<le> x" "x \<le> b" "0 \<le> c" "c \<le> y" "y \<le> d"
    and "l \<le> a * c * (1 - 1 / 2 ^ 24)" "b * d * (1 + 1 / 2 ^ 24) \<le> u"
  shows "l \<le> fl (x * y) \<and> fl (x * y) \<le> u"
proof -
  have ac: "a * c \<le> x * y" "x * y \<le> b * d" using assms(1-6) by (auto intro!: mult_mono)
  then have "a * c * (1 - 1 / 2 ^ 24) \<le> x * y * (1 - 1 / 2 ^ 24)" "x * y * (1 + 1 / 2 ^ 24) \<le> b * d * (1 + 1 / 2 ^ 24)"
    by (auto intro!: mult_right_mono)
  then show ?thesis using assms by (intro fl_within) (auto intro: order_trans mult_nonneg_nonneg)
qed

lemma ESP_DIVIDER_bounds: "51 / 10 \<le> ESP_DIVIDER \<and> ESP_DIVIDER \<le> 514 / 100"
proof -
  have a: "489 / 100 \<le> fl (49 / 10) \<and> fl (49 / 10) \<le> 491 / 100" by (rule fl_within) simp_all
  have b: "1044 / 1000 \<le> fl (1045 / 1000) \<and> fl (1045 / 1000) \<le> 1046 / 1000" by (rule fl_within) simp_all
  show ?thesis unfolding ESP_DIVIDER_def
    by (rule fl_mult_within [OF _ conjunct1 [OF a] conjunct2 [OF a] _ conjunct1 [OF b] conjunct2 [OF b]]) simp_all
qed

lemma esp_sample: "esp_valid (\<lambda>_. Some 630) = replicate 15 630" "3131 \<le> esp_scaled (replicate 15 630)" "esp_scaled (replicate 15 630) \<le> 3279"
proof -
  show "esp_valid (\<lambda>_. Some 630) = replicate 15 630"
    by (simp add: esp_valid_def const_defs List.map_filter_def comp_def map_replicate_const)
  have "esp_scaled (replicate 15 630) = fl (630 * ESP_DIVIDER)"
    using fl_of_nat [of 630] by (simp add: esp_scaled_def sum_list_replicate)
  moreover have "3131 \<le> fl (630 * ESP_DIVIDER) \<and> fl (630 * ESP_DIVIDER) \<le> 3279"
    by (rule fl_mult_within [OF _ order_refl order_refl _ conjunct1 [OF ESP_DIVIDER_bounds] conjunct2 [OF ESP_DIVIDER_bounds]]) simp_all
  ultimately show "3131 \<le> esp_scaled (replicate 15 630)" "esp_scaled (replicate 15 630) \<le> 3279" by simp_all
qed

lemma nrf_sample: "3131 \<le> nrf_scaled (\<lambda>_. 1210) \<and> nrf_scaled (\<lambda>_. 1210) \<le> 3279"
proof -
  have sum: "sum_list (map (\<lambda>i. max (sint (1210 :: 16 word)) 0) [0..<BATTERY_SENSE_SAMPLES]) = 18150"
    by (simp add: const_defs map_replicate_const sum_list_replicate)
  have exact: "fl 18150 = 18150" "fl 15 = 15" "fl 1210 = 1210" "fl 4356000 = 4356000"
    using fl_of_nat [of 18150] fl_of_nat [of 15] fl_of_nat [of 1210] fl_of_nat [of 4356000] by simp_all
  have q: "1063 \<le> fl (136125 / 128) \<and> fl (136125 / 128) \<le> 1064" by (rule fl_within) simp_all
  have "3131 \<le> fl (fl (136125 / 128) * 3) \<and> fl (fl (136125 / 128) * 3) \<le> 3279"
    by (rule fl_mult_within [OF _ conjunct1 [OF q] conjunct2 [OF q] _ order_refl order_refl]) simp_all
  then show ?thesis unfolding nrf_scaled_def sum by (simp add: exact const_defs)
qed

theorem low_battery_noticed_witness:
  "low_battery (bk_signal (battery_task_run esp_reading (replicate 11 (\<lambda>_. Some 630)) (battery_start [])))"
  using low_battery_noticed [of "replicate 11 (\<lambda>_. Some 630)" "replicate 11 (\<lambda>_. 1210)" "[]"] by (simp add: esp_sample nrf_sample)

lemma mean_ge:
  fixes l c r :: rat
  assumes "\<bar>r - (l + c) / 2\<bar> \<le> 1 / 8" "3700 \<le> l" "2861 \<le> c"
  shows "3280 \<le> r"
  using assms by (auto simp: abs_if field_simps split: if_splits)

lemma esp_scaled_bounds: "0 \<le> esp_scaled valid \<and> esp_scaled valid \<le> 2 ^ 19"
proof -
  have "0 \<le> fl (of_nat (unat (p :: u16)) * ESP_DIVIDER) \<and> fl (of_nat (unat p) * ESP_DIVIDER) \<le> 2 ^ 19" for p
  proof -
    have "unat p \<le> 65535" using unat_u16_less [of p] by simp
    then have "(of_nat (unat p) :: rat) \<le> of_nat 65535" by (simp only: of_nat_le_iff)
    then have p: "(of_nat (unat p) :: rat) \<le> 65535" by simp
    show ?thesis
      by (rule fl_mult_within [OF order_refl of_nat_0_le_iff p _ conjunct1 [OF ESP_DIVIDER_bounds] conjunct2 [OF ESP_DIVIDER_bounds]]) simp_all
  qed
  moreover have "fl (of_nat (unat (p :: u16))) = of_nat (unat p)" for p
    using unat_u16_less [of p] by (intro fl_of_nat) simp
  ultimately show ?thesis by (simp add: esp_scaled_def Let_def)
qed

lemma nrf_scaled_bounds: "0 \<le> nrf_scaled adc \<and> nrf_scaled adc \<le> 2 ^ 19"
proof -
  let ?sum = "sum_list (map (\<lambda>i. max (sint (adc i)) 0) [0..<BATTERY_SENSE_SAMPLES])"
  have "max (sint (adc i)) 0 \<le> 32767" for i using sint_less [of "adc i"] by simp
  then have "?sum \<le> sum_list (map (\<lambda>_. 32767) [0..<BATTERY_SENSE_SAMPLES])" by (intro sum_list_mono)
  then have sum: "?sum \<le> 491505" by (simp add: const_defs map_replicate_const sum_list_replicate)
  have pos: "0 \<le> ?sum" by (rule sum_list_nonneg) auto
  have "fl (of_int n) \<le> 491505" if "n \<le> 491505" for n
  proof -
    have "(of_int n :: rat) \<le> of_int 491505" using that by (simp only: of_int_le_iff)
    from fl_mono [OF this] show ?thesis using fl_of_nat [of 491505] by simp
  qed
  from this [OF sum] have s: "0 \<le> fl (of_int ?sum)" "fl (of_int ?sum) \<le> 491505"
    using pos by (simp_all only: fl_nonneg of_int_0_le_iff)
  have "fl (of_nat BATTERY_SENSE_SAMPLES) = 15" using fl_of_nat [of 15] by (simp add: const_defs)
  then have def: "nrf_scaled adc = fl (fl (fl (fl (fl (of_int ?sum) / 15) * 3600) / 4096) * 3)"
    by (simp only: nrf_scaled_def Let_def ADC_FULL_SCALE_MV_def ADC_MAX_COUNT_def ADC_MULTIPLIER_def)
  have avg: "0 \<le> fl (fl (of_int ?sum) / 15) \<and> fl (fl (of_int ?sum) / 15) \<le> 32768" using s by (intro fl_within) simp_all
  have scaled: "0 \<le> fl (x * 3600) \<and> fl (x * 3600) \<le> 117970000" if "0 \<le> x \<and> x \<le> 32768" for x
    by (rule fl_mult_within [OF _ conjunct1 [OF that] conjunct2 [OF that] _ order_refl order_refl]) simp_all
  have mv: "0 \<le> fl (x / 4096) \<and> fl (x / 4096) \<le> 28802" if "0 \<le> x \<and> x \<le> 117970000" for x
    using that by (intro fl_within) simp_all
  have out: "0 \<le> fl (x * 3) \<and> fl (x * 3) \<le> 2 ^ 19" if "0 \<le> x \<and> x \<le> 28802" for x
    by (rule fl_mult_within [OF _ conjunct1 [OF that] conjunct2 [OF that] _ order_refl order_refl]) simp_all
  show ?thesis unfolding def by (rule out [OF mv [OF scaled [OF avg]]])
qed

lemma not_low: "3280 \<le> bt_last_voltage s \<Longrightarrow> \<not> low_battery (Some (battery_report s))"
  using as_u16_ge [of 3280 "bt_last_voltage s"]
  by (simp add: battery_report_def Let_def low_battery_window word_less_nat_alt)

lemma smooth_dip:
  assumes "bt_initial_read_done s" "3700 \<le> bt_last_voltage s" "bt_last_voltage s \<le> 2 ^ 19" "2861 \<le> scaled" "scaled \<le> 2 ^ 19"
  shows "\<not> low_battery (Some (battery_report (smooth scaled s)))"
proof -
  have "\<bar>bt_last_voltage (smooth scaled s) - (bt_last_voltage s + scaled) / 2\<bar> \<le> 1 / 8"
    using smooth_close [of "bt_last_voltage s" scaled] assms by (simp add: smooth_def)
  then show ?thesis using mean_ge [OF _ assms(2,4)] by (intro not_low) simp
qed

text \<open>A dip does not switch the node off.  From a filtered voltage of 3700 mV or more, one reading down to
  2861 mV, as a transmission may cause, or one that failed, leaves a report that is not a low battery, on
  both boards and for any rounding of the float arithmetic.\<close>
lemma dip_ignored:
  assumes "bt_initial_read_done s" "3700 \<le> bt_last_voltage s" "bt_last_voltage s \<le> 2 ^ 19"
    and "esp_valid adc \<noteq> [] \<longrightarrow> 2861 \<le> esp_scaled (esp_valid adc)" and "2861 \<le> nrf_scaled adc'"
  shows "\<not> low_battery (Some (fst (esp_reading adc s))) \<and> \<not> low_battery (Some (fst (nrf_read_battery_level adc' s)))"
proof
  show "\<not> low_battery (Some (fst (esp_reading adc s)))"
    using assms smooth_dip [OF assms(1-3) _ conjunct2 [OF esp_scaled_bounds]] not_low [of s]
    by (cases "esp_valid adc = []") (simp_all add: esp.usable esp.unusable)
  show "\<not> low_battery (Some (fst (nrf_read_battery_level adc' s)))"
    using smooth_dip [OF assms(1-3,5) conjunct2 [OF nrf_scaled_bounds]] by (simp add: nrf.usable)
qed

end
