(* ===== verification/Durable_State.thy ===== *)
theory Durable_State
  imports Mesh_Task
begin

text \<open>
  What outlives the power: the flash, and of the state in RAM the settings, the key pair and the identity
  it must agree with.  Most handlers leave all of it alone; the few that write to flash are judged by the
  laws of a locale, and every step of the event loop keeps whatever satisfies these laws.
\<close>

section \<open>What the handlers leave alone\<close>

definition settings :: "'f host \<Rightarrow> 'f ctx \<Rightarrow> saved_config" where
  "settings H c = saved_config_from_device (h_env H) (cx_device c)"

definition identity :: "'f ctx \<Rightarrow> (bytes \<times> bytes) \<times> u32 \<times> bytes" where
  "identity c = ((cx_pkc_priv c, cx_pkc_pub c), my_node_num (cx_device c), mac (cx_device c))"

definition lasting :: "'f host \<Rightarrow> 'f ctx \<Rightarrow>
    'f nvs \<times> saved_config \<times> node_db \<times> (bytes \<times> bytes) \<times> u32 \<times> bytes" where
  "lasting H c = (cx_storage c, settings H c, cx_node_db c, identity c)"

lemma settings_packet_id [simp]:
  "saved_config_from_device E (dev\<lparr>packet_id_counter := n\<rparr>) = saved_config_from_device E dev"
  by (simp add: saved_config_from_device_def)

lemma lasting_updates [simp]:
  "lasting H (c\<lparr>cx_led := q1\<rparr>) = lasting H c" "lasting H (c\<lparr>cx_to_lora := q2\<rparr>) = lasting H c"
  "lasting H (c\<lparr>cx_to_ble := q3\<rparr>) = lasting H c" "lasting H (c\<lparr>cx_disconn := q4\<rparr>) = lasting H c"
  "lasting H (c\<lparr>cx_router := r\<rparr>) = lasting H c" "lasting H (c\<lparr>cx_pending_packets := q5\<rparr>) = lasting H c"
  "lasting H (c\<lparr>cx_pending_rebroadcast := q6\<rparr>) = lasting H c" "lasting H (c\<lparr>cx_my_position_bytes := b1\<rparr>) = lasting H c"
  "lasting H (c\<lparr>cx_session_passkey := k\<rparr>) = lasting H c" "lasting H (c\<lparr>cx_from_radio_id := n1\<rparr>) = lasting H c"
  "lasting H (c\<lparr>cx_ble_connected := b2\<rparr>) = lasting H c" "lasting H (c\<lparr>cx_last_nodeinfo_tx := t1\<rparr>) = lasting H c"
  "lasting H (c\<lparr>cx_last_position_tx := t2\<rparr>) = lasting H c" "lasting H (c\<lparr>cx_last_lora_telemetry := t3\<rparr>) = lasting H c"
  "lasting H (c\<lparr>cx_last_neighborinfo_tx := t4\<rparr>) = lasting H c" "lasting H (c\<lparr>cx_metrics := m\<rparr>) = lasting H c"
  "lasting H (c\<lparr>cx_shutdown_after_secs := s\<rparr>) = lasting H c" "lasting H (c\<lparr>cx_drawn := n2\<rparr>) = lasting H c"
  "lasting H (c\<lparr>cx_reboot_after_secs := s\<rparr>) = lasting H c"
  by (simp_all add: lasting_def settings_def identity_def)

lemma push_with_lasting [simp]: "lasting H (push_with mk c) = lasting H c"
  by (simp add: push_with_def split_beta)

lemma push_lasting [simp]:
  "lasting H (push_from_radio H' v c) = lasting H c" "lasting H (forward_to_ble H' a c) = lasting H c"
  "lasting H (notify_ble_node_update H' n c) = lasting H c"
  by (simp_all add: push_from_radio_def forward_to_ble_def notify_ble_node_update_def split: option.split)

lemma queue_lora_lasting [simp]: "lasting H (queue_lora f c) = lasting H c"
  by (simp add: queue_lora_def)

lemma random_u32_lasting [simp]: "lasting H (fst (random_u32 H' c)) = lasting H c"
  by (simp add: random_u32_def)

lemma ctx_packet_id_lasting: "ctx_packet_id c = (c', pid) \<Longrightarrow> lasting H c' = lasting H c"
  by (auto simp: ctx_packet_id_def next_packet_id_def Let_def lasting_def settings_def identity_def)

lemma originate_lasting [simp]: "lasting H (fst (originate H' b c)) = lasting H c"
  by (auto simp: originate_def ctx_packet_id_lasting split: prod.split option.split)

lemma lora_send_lasting [simp]: "lasting H (fst (lora_send H' p pl d w c)) = lasting H c"
  by (simp add: lora_send_def)

lemma send_lasting [simp]:
  "lasting H (send_routing_error H' d r e c) = lasting H c" "lasting H (send_routing_ack H' d r i c) = lasting H c"
  "lasting H (send_nodeinfo H' d w c) = lasting H c"
  by (simp_all add: send_routing_error_def send_routing_ack_def send_nodeinfo_def)

lemma report_lasting [simp]:
  "lasting H (send_ble_routing_result H' d r e c) = lasting H c" "lasting H (send_ble_routing_ack H' d r c) = lasting H c"
  by (auto simp: send_ble_routing_ack_def send_ble_routing_result_def ctx_packet_id_lasting split: prod.split)

lemma ensure_session_passkey_lasting [simp]: "lasting H (ensure_session_passkey H' now c) = lasting H c"
  by (simp add: ensure_session_passkey_def random_u32_def Let_def)

lemma fold_lasting: "(\<And>x c. lasting H (f x c) = lasting H c) \<Longrightarrow> lasting H (fold f xs c) = lasting H c"
  by (induction xs arbitrary: c) simp_all

lemma replay_satellite_db_lasting [simp]: "lasting H (replay_satellite_db H' c) = lasting H c"
  by (simp add: replay_satellite_db_def Let_def fold_lasting split: prod.split)

lemma send_admin_response_lasting [simp]: "lasting H (send_admin_response H' now r q v l c) = lasting H c"
  by (auto simp: send_admin_response_def Let_def ctx_packet_id_lasting split: prod.split)

lemma get_lasting [simp]:
  "lasting H (get_config H' now r q ty l c) = lasting H c" "lasting H (get_module_config H' now r q m l c) = lasting H c"
  "lasting H (get_channel H' now r q i l c) = lasting H c" "lasting H (get_owner H' now r q l c) = lasting H c"
  by (simp_all add: get_config_def get_module_config_def get_channel_def get_owner_def Let_def split: option.split)

lemma relay_lasting [simp]:
  "lasting H (schedule_rebroadcast H' now frame meta l c) = lasting H c"
  "lasting H (maybe_relay_opaque H' now frame hdr meta c) = lasting H c"
  "lasting H (relay H' now frame hdr meta c) = lasting H c" "lasting H (handle_duplicate r frame hdr c) = lasting H c"
proof -
  show s: "lasting H (schedule_rebroadcast H' now frame meta l c) = lasting H c" for l c
    using schedule_rebroadcast_shape [of H' now frame meta l c] by fastforce
  show "lasting H (maybe_relay_opaque H' now frame hdr meta c) = lasting H c"
    by (simp add: maybe_relay_opaque_def s split: prod.split)
  show "lasting H (relay H' now frame hdr meta c) = lasting H c"
    by (simp add: relay_def s split: option.split)
qed (simp add: handle_duplicate_def split: filter_result.split)

lemma introduce_lasting [simp]:
  "lasting H (maybe_request_nodeinfo H' now n s l c) = lasting H c" "lasting H (introduce H' now hdr c) = lasting H c"
  by (simp_all add: introduce_def maybe_request_nodeinfo_def split: option.split)

lemma clear_pending_lasting [simp]: "lasting H (clear_pending H' rid c) = lasting H c"
  by (simp add: clear_pending_def Let_def split: option.split)

lemma traceroute_lasting [simp]: "lasting H (traceroute_handle H' pkt c) = lasting H c"
  by (simp add: traceroute_handle_def Let_def)

lemma send_tracked_lasting [simp]: "lasting H (send_tracked H' now pkt pid want frame c) = lasting H c"
  by (simp add: send_tracked_def Let_def split: option.split)

lemma send_built_lasting [simp]: "lasting H (send_built H' now pkt d i w pid k c) = lasting H c"
  by (simp add: send_built_def split: option.split)

lemma send_to_mesh_lasting [simp]: "lasting H (send_to_mesh H' now pkt d c) = lasting H c"
proof -
  obtain c1 pid where p: "(if mp_id pkt \<noteq> 0 then (c, mp_id pkt) else ctx_packet_id c) = (c1, pid)" by fastforce
  then have c1: "lasting H c1 = lasting H c" using ctx_packet_id_lasting [of c c1 pid] by (auto split: if_splits)
  obtain c2 x where r: "random_u32 H' c1 = (c2, x)" by fastforce
  then have c2: "lasting H c2 = lasting H c" using random_u32_lasting [of H H' c1] c1 by simp
  show ?thesis
    unfolding send_to_mesh_def Let_def p prod.case r
    by (rule refusal_cases [where P = "\<lambda>x. lasting H x = lasting H c"]) (simp_all add: c1 c2)
qed

lemma exchange_lasting [simp]:
  "lasting H (send_config_exchange H' n c) = lasting H c" "lasting H (send_nodeinfo_exchange H' n c) = lasting H c"
  "lasting H (heartbeat_reply H' n c) = lasting H c" "lasting H (replay_one H' f c) = lasting H c"
proof -
  have "lasting H (push_node_db H' c) = lasting H c" for c
    unfolding push_node_db_def by (rule fold_lasting) (simp split: option.split)
  then show "lasting H (send_nodeinfo_exchange H' n c) = lasting H c"
    by (simp add: send_nodeinfo_exchange_def push_own_node_info_def)
qed (simp_all add: send_config_exchange_def heartbeat_reply_def replay_one_def fold_lasting split: option.split)

lemma broadcast_lasting [simp]:
  "lasting H (broadcast_nodeinfo H' now c) = lasting H c" "lasting H (broadcast_position H' now c) = lasting H c"
  "lasting H (broadcast_neighborinfo H' now c) = lasting H c"
  using lora_send_lasting [of H H']
  by (auto simp: broadcast_nodeinfo_def broadcast_position_def broadcast_neighborinfo_def Let_def split_beta)

lemma periodic_lasting [simp]:
  "lasting H (periodic_dispatch H' now c) = lasting H c" "lasting H (send_device_telemetry H' now b v c) = lasting H c"
proof -
  have "lasting H (case ctx_packet_id c of (c, pid) \<Rightarrow> push_from_radio H' (m c pid) c) = lasting H c" for c m
    by (auto simp: ctx_packet_id_lasting split: prod.split)
  then show "lasting H (send_device_telemetry H' now b v c) = lasting H c"
    by (simp add: send_device_telemetry_def Let_def split_beta)
qed (simp add: periodic_dispatch_def Let_def)

lemma send_due_lasting [simp]: "lasting H (send_due_rebroadcast c) = lasting H c"
  by (simp add: send_due_rebroadcast_def split: option.split)

section \<open>Every public key in the table has 32 bytes\<close>

definition key_ok :: "node_entry \<Rightarrow> bool" where
  "key_ok n \<longleftrightarrow> (\<forall>k. n_pub_key n = Some k \<longrightarrow> length k = 32)"

definition keys_ok :: "node_db \<Rightarrow> bool" where
  "keys_ok db \<longleftrightarrow> (\<forall>n \<in> set (db_nodes db). key_ok n)"

lemma record_ok_keys: "\<lbrakk>db_ok db; keys_ok db\<rbrakk> \<Longrightarrow> \<forall>n \<in> set (db_nodes db). record_ok n"
  by (auto simp: db_ok_def keys_ok_def key_ok_def record_ok_def split: option.split)

lemma keys_ok_simps [simp]:
  "keys_ok (node_db_new our)" "keys_ok (mark_dirty db) = keys_ok db" "keys_ok (mark_clean db) = keys_ok db"
  "key_ok (n\<lparr>n_user := u\<rparr>) = key_ok n" "key_ok (n\<lparr>n_position := p\<rparr>) = key_ok n" "key_ok (n\<lparr>n_device_metrics := m\<rparr>) = key_ok n"
  "key_ok (n\<lparr>n_next_hop := h\<rparr>) = key_ok n" "key_ok (n\<lparr>n_hops_away := a\<rparr>) = key_ok n" "key_ok (n\<lparr>n_is_favorite := b\<rparr>) = key_ok n"
  "key_ok (n\<lparr>n_is_muted := b\<rparr>) = key_ok n" "key_ok n \<Longrightarrow> key_ok (ignore_entry b n)"
  "key_ok (heard_entry t s now n) = key_ok n"
  by (simp_all add: keys_ok_def key_ok_def node_db_new_def mark_dirty_def mark_clean_def ignore_entry_def heard_entry_def Let_def)

lemma keys_ok_modify: "keys_ok db \<Longrightarrow> (\<And>n. key_ok n \<Longrightarrow> key_ok (f n)) \<Longrightarrow> keys_ok (modify_at i f db)"
  by (cases "i < length (db_nodes db)")
    (auto simp: keys_ok_def modify_at_def list_update_beyond dest!: subsetD [OF set_update_subset_insert])

lemma keys_ok_get_or_create: "keys_ok db \<Longrightarrow> get_or_create num db = (db', r) \<Longrightarrow> keys_ok db'"
  by (rule get_or_create_cases [of num db]) (auto simp: keys_ok_def key_ok_def node_stub_def)

lemma keys_ok_with_node: "keys_ok db \<Longrightarrow> (\<And>n. key_ok n \<Longrightarrow> key_ok (f n)) \<Longrightarrow> keys_ok (with_node num f db)"
  by (simp add: with_node_def keys_ok_modify split: option.split)

lemma keys_ok_table [simp]:
  assumes "keys_ok db"
  shows "keys_ok (update_user num u db)" "keys_ok (update_device_metrics num m db)" "keys_ok (update_position num p db)"
    "length key = 32 \<Longrightarrow> keys_ok (update_pub_key num key db)"
    "keys_ok (set_favorite num b db)" "keys_ok (set_ignored num b db)" "keys_ok (toggle_muted num db)"
    "keys_ok (fst (remove_node num db))" "keys_ok (fst (learn_route db num hop))" "keys_ok (touch num time snr now db)"
    "keys_ok (fall_back_to_flood pkt db)"
proof -
  have upd: "keys_ok (modify_at i f db')" if "get_or_create num db0 = (db', Some i)" "keys_ok db0" "\<And>n. key_ok n \<Longrightarrow> key_ok (f n)"
    for i f db0 db' using keys_ok_get_or_create [OF that(2,1)] that(3) by (rule keys_ok_modify)
  note goc = keys_ok_get_or_create [OF assms]
  show "keys_ok (update_user num u db)" "keys_ok (update_device_metrics num m db)" "keys_ok (update_position num p db)"
    "length key = 32 \<Longrightarrow> keys_ok (update_pub_key num key db)"
    using assms by (auto simp: update_user_def update_device_metrics_def update_position_def update_pub_key_def key_ok_def
        intro: upd goc split: prod.split option.split)
  show "keys_ok (set_favorite num b db)" "keys_ok (set_ignored num b db)" "keys_ok (toggle_muted num db)"
    using assms by (auto simp: set_favorite_def set_ignored_def toggle_muted_def intro: keys_ok_modify split: option.split)
  show "keys_ok (fst (remove_node num db))"
    using assms by (auto simp: remove_node_def keys_ok_def split: option.split
        dest!: subsetD [OF set_swap_remove_subset] dest: position_SomeD)
  show "keys_ok (fst (learn_route db num hop))"
    using assms by (auto simp: learn_route_def Let_def intro: upd goc split: prod.split option.split)
  obtain pruned k where p: "prune_stale time STALE_AGE_SECS db = (pruned, k)" by fastforce
  then have "keys_ok pruned" using assms by (auto simp: prune_stale_def Let_def keys_ok_def)
  moreover have "keys_ok db1 \<Longrightarrow> keys_ok (case get_or_create num db1 of (db2, Some idx) \<Rightarrow> modify_at idx (heard_entry time snr now) db2
      | (db2, None) \<Rightarrow> db2)" for db1
    by (auto intro: upd keys_ok_get_or_create split: prod.split option.split)
  ultimately show "keys_ok (touch num time snr now db)" using assms by (simp add: touch_def Let_def p)
  show "keys_ok (fall_back_to_flood pkt db)" using assms by (auto simp: fall_back_to_flood_def intro: keys_ok_with_node)
qed

lemma shared_pub_key_length: "shared_pub_key u = Some key \<Longrightarrow> length key = 32"
  by (auto simp: shared_pub_key_def split: if_splits)

lemma keys_ok_add_contact:
  assumes "keys_ok db"
  shows "keys_ok (add_contact ct db)"
proof -
  obtain db1 r where g: "get_or_create (ct_node_num ct) db = (db1, r)" by fastforce
  have db1: "keys_ok db1" using keys_ok_get_or_create [OF assms g] .
  then have "keys_ok (modify_at i (\<lambda>n. n\<lparr>n_user := u\<rparr>) db1)" for i u by (rule keys_ok_modify) simp
  with assms db1 show ?thesis by (simp add: add_contact_def g Let_def shared_pub_key_length split: option.split)
qed

lemma keys_ok_fold_touch: "keys_ok db \<Longrightarrow> keys_ok (fold (\<lambda>nb. touch (nb_node_id nb) 0 None 0) nbs db)"
  by (induction nbs arbitrary: db) simp_all

lemma keys_ok_tick_loop: "keys_ok db \<Longrightarrow> tick_loop now i pending db res = (pending', db', res') \<Longrightarrow> keys_ok db'"
proof (induction now i pending db res arbitrary: pending' db' res' rule: tick_loop.induct)
  case (1 now i pending db res)
  note step = "1.prems"(2) [unfolded tick_loop.simps [of now i pending db res]]
  show ?case using step "1.prems"(1) "1.IH" keys_ok_table(11) [OF "1.prems"(1)]
    by (auto simp: Let_def not_le not_less split: if_splits)
qed

lemma keys_ok_restore: "keys_ok db \<Longrightarrow> keys_ok (fst (restore_snapshot buf db))"
proof -
  assume ok: "keys_ok db"
  have rec: "decode_record b = Some e \<Longrightarrow> length b = 96 \<Longrightarrow> key_ok e" for b e
    by (auto simp: decode_record_def decode_fields_def key_ok_def Let_def split: if_splits)
  have slots: "\<lbrakk>SNAPSHOT_BYTES \<le> length buf; \<forall>i \<in> set is. i < MAX_PERSISTED_NODES; \<forall>n \<in> set ns. key_ok n\<rbrakk>
      \<Longrightarrow> \<forall>n \<in> set (restore_slots our buf is ns). key_ok n" for our "is" ns
  proof (induction "is" arbitrary: ns)
    case (Cons i js)
    have i: "i < 42" using Cons.prems(2) by (simp add: const_defs)
    have "length (slice (SNAPSHOT_HEADER_SIZE + i * SNAPSHOT_RECORD_SIZE)
        (SNAPSHOT_HEADER_SIZE + i * SNAPSHOT_RECORD_SIZE + SNAPSHOT_RECORD_SIZE) buf) = 96"
      using Cons.prems(1) i by (simp add: const_defs)
    note key = rec [OF _ this]
    have push: "\<forall>n \<in> set ns'. key_ok n" if "vec_push MAX_NODES ns e = Some ns'" "key_ok e" for e ns'
      using that Cons.prems(3) by (auto simp: vec_push_def split: if_splits)
    have IH: "\<forall>n \<in> set xs. key_ok n \<Longrightarrow> \<forall>n \<in> set (restore_slots our buf js xs). key_ok n" for xs
      using Cons.prems(1,2) by (intro Cons.IH) simp_all
    show ?case
      unfolding restore_slots.simps Let_def
      using IH [OF Cons.prems(3)] IH [OF push] Cons.prems(3) by (simp add: key del: length_slice split: option.split)
  qed simp
  have "\<forall>n \<in> set (restore_slots our buf [0..<unat (buf ! 5)] ns). key_ok n"
    if "\<not> length buf < SNAPSHOT_BYTES" "\<not> MAX_PERSISTED_NODES < unat (buf ! 5)" "\<forall>n \<in> set ns. key_ok n" for our ns
    by (rule slots) (use that in auto)
  from this [of "filter (\<lambda>n. n_num n = db_our db) (db_nodes db)"] ok show ?thesis
    by (simp add: restore_snapshot_def Let_def keys_ok_def)
qed

section \<open>Laws of the writes to flash\<close>

text \<open>A host whose flash driver is \<^term>\<open>F\<close>: strings it decodes are UTF-8, its sort sorts.\<close>

definition host_ok :: "'f flash_ops \<Rightarrow> 'f host \<Rightarrow> bool" where
  "host_ok F H \<longleftrightarrow> h_flash H = F \<and> decodes_strings H \<and> sorts_descending (h_sort H)"

text \<open>What a property \<^term>\<open>S cfg fr st\<close> of the storage, for the settings in RAM and whether a factory reset was
  asked for since the boot, must keep; it then holds after every step.  Only the erasure of a factory reset
  may rely on the mark \<^term>\<open>fr\<close>, and only a factory reset sets it.\<close>

locale storage_law =
  fixes F :: "'f flash_ops" and S :: "saved_config \<Rightarrow> bool \<Rightarrow> 'f nvs \<Rightarrow> bool"
  assumes reset_marked: "S cfg r st \<Longrightarrow> S cfg True st"
    and settings_saved: "\<lbrakk>S cfg r st; device_ok dev\<rbrakk>
      \<Longrightarrow> S (saved_config_from_device E dev) r (fst (save_state E F dev st))"
    and nodes_saved: "\<lbrakk>S cfg r st; db_ok db; keys_ok db; sorts_descending srt\<rbrakk>
      \<Longrightarrow> S cfg r (fst (save_node_db srt F db st))"
    and bond_saved: "\<lbrakk>S cfg r st; length b = 48\<rbrakk> \<Longrightarrow> S cfg r (fst (save_bond F b st))"
    and bond_cleared: "S cfg r st \<Longrightarrow> S cfg r (clear_bond F st)"
    and erased: "S cfg r st \<Longrightarrow> S cfg True (erase_config F st)"
    and frame_added: "\<lbrakk>S cfg r st; nvs_ok st; frame_ok f\<rbrakk> \<Longrightarrow> S cfg r (nvs_add F f st)"
    and frame_popped: "\<lbrakk>S cfg r st; nvs_ok st\<rbrakk> \<Longrightarrow> S cfg r (fst (nvs_pop F st))"

definition durable :: "(saved_config \<Rightarrow> bool \<Rightarrow> 'f nvs \<Rightarrow> bool) \<Rightarrow> bool \<Rightarrow> (bytes \<times> bytes) \<times> u32 \<times> bytes \<Rightarrow> 'f host \<Rightarrow> 'f ctx \<Rightarrow> bool" where
  "durable S fr i H c \<longleftrightarrow> ctx_ok c \<and> keys_ok (cx_node_db c) \<and> identity c = i
     \<and> S (settings H c) fr (cx_storage c)"

lemma durable_frame: "\<lbrakk>durable S fr i H c; ctx_ok c'; lasting H c' = lasting H c\<rbrakk> \<Longrightarrow> durable S fr i H c'"
  by (simp add: durable_def lasting_def)

lemma durable_ctx: "durable S fr i H c \<Longrightarrow> ctx_ok c"
  by (simp add: durable_def)

lemma durable_sends [simp]:
  assumes "durable S fr i H c"
  shows "durable S fr i H (push_from_radio H' v c)" "durable S fr i H (forward_to_ble H' a c)"
    "durable S fr i H (notify_ble_node_update H' n c)" "durable S fr i H (send_routing_error H' d r e c)"
    "durable S fr i H (send_routing_ack H' d r j c)" "durable S fr i H (send_nodeinfo H' d w c)"
    "durable S fr i H (send_ble_routing_result H' d r e c)" "durable S fr i H (send_ble_routing_ack H' d r c)"
  using durable_ctx [OF assms] by (simp_all add: durable_frame [OF assms])

lemma with_db_durable:
  assumes "durable S fr i H c" and "db_ok (f (cx_node_db c))" and "keys_ok (f (cx_node_db c))"
  shows "durable S fr i H (with_db f c)"
proof -
  have "ctx_ok (with_db f c)" using durable_ctx [OF assms(1)] assms(2) by (intro with_db_ok)
  with assms show ?thesis by (simp add: durable_def with_db_def settings_def identity_def)
qed

lemma core_identity: "core c' = core c \<Longrightarrow> identity c' = identity c"
  by (simp add: core_def identity_def)

text \<open>A message to the administration that asks for a factory reset, and the events that bring one: from the
  phone, or from a peer in a packet that authenticates.\<close>

definition asks_reset :: "'f host \<Rightarrow> bytes \<Rightarrow> bool" where
  "asks_reset H bs \<longleftrightarrow>
     (case pc_admin_dec (h_codec H) bs of Some msg \<Rightarrow> am_variant msg = Some FactoryResetConfig | None \<Rightarrow> False)"

definition packet_asks_reset :: "'f host \<Rightarrow> mesh_packet \<Rightarrow> bool" where
  "packet_asks_reset H pkt \<longleftrightarrow>
     (case mp_payload pkt of Some (Decoded d) \<Rightarrow> d_portnum d = ADMIN_APP \<and> asks_reset H (d_payload d) | _ \<Rightarrow> False)"

definition frame_asks_reset :: "'f host \<Rightarrow> radio_frame \<Rightarrow> 'f ctx \<Rightarrow> bool" where
  "frame_asks_reset H frame c \<longleftrightarrow>
     (case header frame of
        None \<Rightarrow> False
      | Some hdr \<Rightarrow>
          (case try_decrypt_and_decode (h_env H) frame hdr (cx_device c) (cx_node_db c) (cx_pkc_priv c) of
             Authentic d \<Rightarrow> dc_portnum d = ADMIN_APP \<and> asks_reset H (dc_payload d) | _ \<Rightarrow> False))"

definition reset_event :: "'f host \<Rightarrow> mesh_event \<Rightarrow> 'f ctx \<Rightarrow> bool" where
  "reset_event H event c \<longleftrightarrow>
     (case event of
        LoraRx frame _ \<Rightarrow> frame_asks_reset H frame c
      | BleRx data \<Rightarrow>
          (case pc_to_radio_dec (h_codec H) data of Some (Some (TrPacket pkt)) \<Rightarrow> packet_asks_reset H pkt | _ \<Rightarrow> False)
      | _ \<Rightarrow> False)"

lemma reset_event_cong:
  "\<lbrakk>cx_device c' = cx_device c; cx_node_db c' = cx_node_db c; cx_pkc_priv c' = cx_pkc_priv c\<rbrakk>
    \<Longrightarrow> reset_event H event c' = reset_event H event c"
  by (simp add: reset_event_def frame_asks_reset_def cong: option.case_cong split: mesh_event.split)

text \<open>The steps of the event loop that bring no such request.\<close>

inductive plain_step :: "'f host \<Rightarrow> 'f mesh_state \<Rightarrow> 'f mesh_state \<Rightarrow> bool" for H where
  Plain_event: "ms_rebooting s = None \<Longrightarrow> event_ok event \<Longrightarrow> \<not> reset_event H event (ms_ctx s)
    \<Longrightarrow> plain_step H s (turn H now event (note_event now event s))"
| Plain_beat: "ms_rebooting s = None \<Longrightarrow> plain_step H s (turn H now Tick (s\<lparr>ms_ctx := heartbeat_led (ms_ctx s)\<rparr>))"
| Plain_rebroadcast: "ms_rebooting s = None \<Longrightarrow> p \<in> set (cx_pending_rebroadcast (ms_ctx s)) \<Longrightarrow> rb_deadline p \<le> now
    \<Longrightarrow> plain_step H s (s\<lparr>ms_ctx := send_due_rebroadcast (ms_ctx s)\<rparr>)"
| Plain_retransmit: "ms_rebooting s = None \<Longrightarrow> p \<in> set (cx_pending_packets (ms_ctx s)) \<Longrightarrow> pp_deadline p \<le> now
    \<Longrightarrow> plain_step H s (s\<lparr>ms_ctx := retransmit H now (ms_ctx s)\<rparr>)"
| Plain_radio: "cx_to_lora (ms_ctx s) = f # fs \<Longrightarrow> plain_step H s (s\<lparr>ms_ctx := (ms_ctx s)\<lparr>cx_to_lora := fs\<rparr>\<rparr>)"
| Plain_ble: "cx_to_ble (ms_ctx s) = x # xs \<Longrightarrow> plain_step H s (s\<lparr>ms_ctx := (ms_ctx s)\<lparr>cx_to_ble := xs\<rparr>\<rparr>)"
| Plain_led: "cx_led (ms_ctx s) = l # ls \<Longrightarrow> plain_step H s (s\<lparr>ms_ctx := (ms_ctx s)\<lparr>cx_led := ls\<rparr>\<rparr>)"
| Plain_disconnects: "cx_disconn (ms_ctx s) = u # us \<Longrightarrow> plain_step H s (s\<lparr>ms_ctx := (ms_ctx s)\<lparr>cx_disconn := us\<rparr>\<rparr>)"

text \<open>Every step is plain, or a turn on a request to reset.\<close>

lemma plain_step_mesh: "plain_step H s s' \<Longrightarrow> mesh_step H s s'"
  by (induction rule: plain_step.induct) (auto intro: mesh_step.intros)

lemma mesh_step_cases:
  assumes "mesh_step H s s'"
  obtains "plain_step H s s'"
  | event now where "ms_rebooting s = None" "event_ok event" "reset_event H event (ms_ctx s)"
      "s' = turn H now event (note_event now event s)"
  using assms by cases (auto intro: plain_step.intros)

context storage_law begin

lemma persisted:
  assumes "durable S fr i H c" and "h_flash H = F" and "ctx_ok (persist_device H x)" and "core x = core c"
    and "cx_storage x = cx_storage c" and "cx_node_db x = cx_node_db c"
  shows "durable S fr i H (persist_device H x)"
proof -
  have "ctx_ok x" using assms(3) by (simp only: persist_device_ok)
  then have "device_ok (cx_device x)" by (simp add: ctx_ok_def)
  moreover have "S (settings H c) fr (cx_storage c)" using assms(1) by (simp add: durable_def)
  ultimately have "S (saved_config_from_device (h_env H) (cx_device x)) fr
      (fst (save_state (h_env H) F (cx_device x) (cx_storage c)))" by (metis settings_saved)
  then show ?thesis
    using assms core_identity [OF assms(4)]
    by (simp add: durable_def persist_device_def settings_def identity_def)
qed

lemma set_durable:
  assumes "durable S fr i H c" and "h_flash H = F"
  shows "durable S fr i H (set_config H cfg c)" "admin_strings (SetChannel ch) \<Longrightarrow> durable S fr i H (set_channel H ch c)"
    "admin_strings (SetOwner u) \<Longrightarrow> durable S fr i H (set_owner H u c)"
proof -
  note ok = durable_ctx [OF assms(1)]
  note p = persisted [OF assms]
  have "core (c\<lparr>cx_device := (cx_device c)\<lparr>role := r\<rparr>\<rparr>) = core c"
    "core (c\<lparr>cx_device := apply_lora_config H l (cx_device c), cx_tx_enabled := b\<rparr>) = core c" for r l b
    by (simp_all add: core_def apply_lora_config_def)
  then show "durable S fr i H (set_config H cfg c)"
    using set_config_ok [OF ok, of H cfg] assms(1)
    by (auto simp: set_config_def intro!: p split: option.split option.splits config_variant.split config_variant.splits)
  show "durable S fr i H (set_channel H ch c)" if "admin_strings (SetChannel ch)"
    using set_channel_ok [OF ok that, of H] assms(1)
    by (auto simp: set_channel_def Let_def core_def intro!: p split: option.split option.splits if_splits)
  show "durable S fr i H (set_owner H u c)" if "admin_strings (SetOwner u)"
    using set_owner_ok [OF ok that, of H] by (auto simp: set_owner_def Let_def core_def intro!: p)
qed

lemma admin_perform_durable:
  assumes "durable S fr i H c" and "h_flash H = F" and "admin_strings v" and "v = FactoryResetConfig \<Longrightarrow> fr"
  shows "durable S fr i H (admin_perform H now r q l v c)"
proof -
  have c: "ctx_ok c" "db_ok (cx_node_db c)" "keys_ok (cx_node_db c)" "S (settings H c) fr (cx_storage c)"
    using assms(1) by (auto simp: durable_def ctx_ok_def)
  have reset: "fr \<Longrightarrow> durable S fr i H (handle_factory_reset H c)" "durable S fr i H (handle_nodedb_reset c)"
    using assms(1,2) c(1) bond_cleared [OF erased [OF c(4)]]
    by (simp_all add: durable_def handle_factory_reset_def handle_nodedb_reset_def settings_def identity_def ctx_ok_def)
  note frame = durable_frame [OF assms(1)] ctx_ok_fields ctx_ok_position
  note db = with_db_durable [OF assms(1)] c keys_ok_add_contact add_contact_ok set_flag_ok remove_node_ok
  show ?thesis
  proof (cases v)
    case (SetOwner u) with assms(3) show ?thesis using set_durable(3) [OF assms(1,2)] by (simp add: admin_perform_def)
  next
    case (SetConfig cfg) then show ?thesis using set_durable(1) [OF assms(1,2)] by (simp add: admin_perform_def)
  next
    case (SetChannel ch) with assms(3) show ?thesis using set_durable(2) [OF assms(1,2)] by (simp add: admin_perform_def)
  qed (use assms(1,4) reset in \<open>simp_all add: admin_perform_def admin_defs handle_set_fixed_position_def vec_extend_def db frame
      split: option.split\<close>)
qed

lemma admin_dispatch_durable:
  "\<lbrakk>durable S fr i H c; host_ok F H; asks_reset H bs \<Longrightarrow> fr\<rbrakk> \<Longrightarrow> durable S fr i H (admin_dispatch H now r q bs l c)"
  by (auto simp: admin_dispatch_def asks_reset_def host_ok_def decodes_strings_def intro!: admin_perform_durable split: option.split)

lemma port_durable:
  assumes "durable S fr i H c"
  shows "durable S fr i H (neighbor_info_handle H pkt c)" "durable S fr i H (node_info_handle H now pkt c)"
    "durable S fr i H (position_handle H pkt c)" "durable S fr i H (routing_handle H pkt c)"
    "durable S fr i H (telemetry_handle H pkt c)" "durable S fr i H (traceroute_handle H pkt c)"
proof -
  have ok: "ctx_ok x" "db_ok (cx_node_db x)" "keys_ok (cx_node_db x)" if "durable S fr i H x" for x
    using that by (auto simp: durable_def ctx_ok_def)
  note frame = durable_frame [OF assms]
  show "durable S fr i H (neighbor_info_handle H pkt c)"
    using assms by (simp add: neighbor_info_handle_def with_db_durable ok fold_touch_ok keys_ok_fold_touch split: option.split)
  show "durable S fr i H (position_handle H pkt c)" "durable S fr i H (telemetry_handle H pkt c)"
    using assms ok [OF assms] with_db_durable [OF assms]
    by (simp_all add: position_handle_def telemetry_handle_def split: option.split telemetry_variant.split)
  have "durable S fr i H (clear_pending H rid c)" for rid using ok(1) [OF assms] by (intro frame) (simp_all add: clear_pending_ok)
  then show "durable S fr i H (routing_handle H pkt c)"
    using assms by (simp add: routing_handle_def with_db_durable ok learn_route_ok split: option.split)
  show "durable S fr i H (traceroute_handle H pkt c)"
    using port_ok(6) [OF ok(1) [OF assms]] by (intro frame) simp_all
  have "durable S fr i H (with_db (update_user n u) (case shared_pub_key u of Some key \<Rightarrow> with_db (update_pub_key n key) c | None \<Rightarrow> c))"
    for n u using assms by (auto simp: with_db_durable ok shared_pub_key_length split: option.split)
  from durable_frame [OF this] durable_ctx [OF this] show "durable S fr i H (node_info_handle H now pkt c)"
    using assms by (simp add: node_info_handle_def Let_def ctx_ok_fields split: option.split)
qed

lemma handle_port_durable: "\<lbrakk>durable S fr i H c; host_ok F H; p = ADMIN_APP \<and> asks_reset H (ip_payload pkt) \<longrightarrow> fr\<rbrakk>
    \<Longrightarrow> durable S fr i H (handle_port H now p pkt c)"
  by (simp add: handle_port_def port_durable admin_dispatch_durable)

lemma record_sender_durable:
  assumes "durable S fr i H c"
  shows "durable S fr i H (record_sender H now hdr meta c)"
proof -
  let ?c = "c\<lparr>cx_led := try_send LED_QUEUE_SIZE (cx_led c) SingleBlink\<rparr>"
  have c: "durable S fr i H ?c" using durable_ctx [OF assms] by (intro durable_frame [OF assms]) (simp_all add: ctx_ok_led)
  have "db_ok (cx_node_db c)" "keys_ok (cx_node_db c)" using assms by (simp_all add: durable_def ctx_ok_def)
  then have "durable S fr i H (with_db (\<lambda>db. with_node (h_sender hdr) (\<lambda>n. n\<lparr>n_hops_away := hops\<rparr>)
      (touch (h_sender hdr) 0 (Some (rm_snr meta)) (of_nat now) db)) ?c)" for hops
    using c by (intro with_db_durable) (auto intro!: ndb.inv_update keys_ok_with_node)
  from this durable_frame [OF this] durable_ctx [OF this] show ?thesis by (simp add: record_sender_def Let_def)
qed

lemma buffer_text_durable:
  assumes "durable S fr i H c" and "h_flash H = F" and "frame_ok frame"
  shows "durable S fr i H (buffer_text H frame p c)"
proof -
  have "S (settings H c) fr (nvs_add F frame (cx_storage c))"
    using assms(1,3) by (intro frame_added) (simp_all add: durable_def ctx_ok_def)
  then show ?thesis
    using assms buffer_text_ok [OF durable_ctx [OF assms(1)] assms(3), of H p]
    by (simp add: durable_def buffer_text_def settings_def identity_def)
qed

lemma deliver_durable: "\<lbrakk>durable S fr i H c; host_ok F H; dc_portnum d = ADMIN_APP \<and> asks_reset H (dc_payload d) \<longrightarrow> fr\<rbrakk>
    \<Longrightarrow> durable S fr i H (deliver H now hdr d meta c)"
  by (simp add: deliver_def Let_def handle_port_durable)

lemma from_radio_durable:
  assumes "durable S fr i H c" and "host_ok F H" and "frame_ok frame" and "frame_asks_reset H frame c \<Longrightarrow> fr"
  shows "durable S fr i H (from_radio_dispatch H now frame meta c)"
proof -
  have H: "h_flash H = F" "decodes_strings H" using assms(2) by (simp_all add: host_ok_def)
  note ok = from_radio_dispatch_ok [OF durable_ctx [OF assms(1)] assms(3) H(2), of now meta]
  show ?thesis
  proof (cases "\<exists>hdr d r. header frame = Some hdr \<and> h_sender hdr \<noteq> my_node_num (cx_device c)
      \<and> try_decrypt_and_decode (h_env H) frame hdr (cx_device c) (cx_node_db c) (cx_pkc_priv c) = Authentic d
      \<and> should_filter_received (h_sender hdr) (h_packet_id hdr) (hop_limit hdr) (h_relay_node hdr)
          (pending_hop_limit hdr (cx_pending_rebroadcast c)) (role (cx_device c)) (cx_router c) = (r, New)")
    case True
    then obtain hdr d r where h: "header frame = Some hdr" "h_sender hdr \<noteq> my_node_num (cx_device c)"
      "try_decrypt_and_decode (h_env H) frame hdr (cx_device c) (cx_node_db c) (cx_pkc_priv c) = Authentic d"
      and f: "should_filter_received (h_sender hdr) (h_packet_id hdr) (hop_limit hdr) (h_relay_node hdr)
          (pending_hop_limit hdr (cx_pending_rebroadcast c)) (role (cx_device c)) (cx_router c) = (r, New)" by blast
    have "router_ok r" using filter_state(1) [of "cx_router c"] durable_ctx [OF assms(1)] f by (metis ctx_ok_def fst_conv)
    then have "durable S fr i H (c\<lparr>cx_router := r\<rparr>)"
      using durable_ctx [OF assms(1)] by (intro durable_frame [OF assms(1)]) (simp_all add: ctx_ok_relay)
    then have "durable S fr i H (record_sender H now hdr meta (c\<lparr>cx_router := r\<rparr>))" by (rule record_sender_durable)
    from durable_frame [OF this introduce_ok [OF durable_ctx [OF this]]]
    have "durable S fr i H (introduce H now hdr (record_sender H now hdr meta (c\<lparr>cx_router := r\<rparr>)))" by simp
    then have "durable S fr i H (deliver H now hdr d meta (buffer_text H frame (dc_portnum d)
        (introduce H now hdr (record_sender H now hdr meta (c\<lparr>cx_router := r\<rparr>)))))"
      using assms(2-4) H(1) h(1,3) by (intro deliver_durable buffer_text_durable) (simp_all add: frame_asks_reset_def)
    from durable_frame [OF this relay_ok [OF durable_ctx [OF this] assms(3)]] show ?thesis
      using h f by (simp add: from_radio_dispatch_def)
  next
    case False
    then have "lasting H (from_radio_dispatch H now frame meta c) = lasting H c"
      by (auto simp: from_radio_dispatch_def split: option.split decrypt_outcome.split prod.split filter_result.split)
    with ok show ?thesis using durable_frame [OF assms(1)] by simp
  qed
qed

lemma transmit_durable:
  assumes "durable S fr i H c" and "host_ok F H" and "packet_asks_reset H pkt \<Longrightarrow> fr"
  shows "durable S fr i H (transmit_from_ble_packet H now pkt c)"
proof -
  have H: "decodes_strings H" using assms(2) by (simp add: host_ok_def)
  have "durable S fr i H (send_to_mesh H now pkt d x)" if "durable S fr i H x" for d x
    using send_to_mesh_ok [OF durable_ctx [OF that]] by (intro durable_frame [OF that]) simp_all
  moreover have "durable S fr i H (c\<lparr>cx_my_position_bytes := vec_extend POSITION_CAP [] b\<rparr>)" for b
    using durable_ctx [OF assms(1)] by (intro durable_frame [OF assms(1)]) (simp_all add: ctx_ok_position vec_extend_def)
  ultimately show ?thesis
    using assms admin_dispatch_durable [OF assms(1,2)]
    by (simp add: transmit_from_ble_packet_def packet_asks_reset_def Let_def split: option.split packet_payload.split)
qed

lemma replay_loop_durable: "\<lbrakk>durable S fr i H c; h_flash H = F\<rbrakk> \<Longrightarrow> durable S fr i H (replay_loop H c)"
proof (induction H c rule: replay_loop.induct)
  case (1 H c)
  have ok: "nvs_ok (cx_storage c)" using "1.prems"(1) by (simp add: durable_def ctx_ok_def)
  show ?case
  proof (cases rule: nvs_port.peek_cases [OF ok, where F = "h_flash H"])
    case (2 f)
    let ?c = "c\<lparr>cx_storage := fst (nvs_pop (h_flash H) (cx_storage c))\<rparr>"
    have "S (settings H c) fr (fst (nvs_pop F (cx_storage c)))"
      using "1.prems"(1) ok by (intro frame_popped) (simp_all add: durable_def)
    moreover have "ctx_ok ?c" using durable_ctx [OF "1.prems"(1)] 2 by (simp add: ctx_ok_def)
    ultimately have c: "durable S fr i H ?c" using "1.prems" by (simp add: durable_def settings_def identity_def)
    have "durable S fr i H (replay_one H f ?c)"
      using replay_one_ok [OF durable_ctx [OF c]] by (intro durable_frame [OF c]) simp_all
    with 1(1) [of "Some f" f] 2 "1.prems"(2) show ?thesis by (subst replay_loop.simps) simp
  qed (use "1.prems" in \<open>subst replay_loop.simps, simp\<close>)
qed

lemma from_app_durable:
  assumes "durable S fr i H c" and "host_ok F H" and "reset_event H (BleRx data) c \<Longrightarrow> fr"
  shows "durable S fr i H (from_app_dispatch H now data c)"
proof -
  have F: "h_flash H = F" using assms(2) by (simp add: host_ok_def)
  note ok = durable_ctx [OF assms(1)]
  have ctx_ok_disc: "ctx_ok x \<Longrightarrow> ctx_ok (x\<lparr>cx_disconn := try_send 1 (cx_disconn x) ()\<rparr>)" for x :: "'f ctx"
    by (simp add: ctx_ok_def length_try_send)
  have "durable S fr i H (send_config_exchange H n c)" "durable S fr i H (send_nodeinfo_exchange H n c)" "durable S fr i H (heartbeat_reply H n c)"
    "durable S fr i H (c\<lparr>cx_disconn := try_send 1 (cx_disconn c) ()\<rparr>)" for n
    using ok ctx_ok_disc [of c] by (auto intro!: durable_frame [OF assms(1)] simp: exchange_ok heartbeat_ok)
  then have v: "durable S fr i H (case v of
        Some (TrPacket pkt) \<Rightarrow> transmit_from_ble_packet H now pkt c
      | Some (TrWantConfigId n) \<Rightarrow> replay_stored_frames H (if n = SPECIAL_NONCE_ONLY_NODES
          then send_nodeinfo_exchange H n c else send_config_exchange H n c)
      | Some (TrHeartbeat nonce) \<Rightarrow> heartbeat_reply H nonce c
      | Some TrDisconnect \<Rightarrow> c\<lparr>cx_disconn := try_send 1 (cx_disconn c) ()\<rparr>
      | _ \<Rightarrow> c)" if "pc_to_radio_dec (h_codec H) data = Some v" for v
    using assms(1,3) F transmit_durable [OF assms(1,2)] that
    by (simp add: reset_event_def replay_stored_frames_def replay_loop_durable split: option.split to_radio.split)
  have "durable S fr i H (x\<lparr>cx_led := try_send LED_QUEUE_SIZE (cx_led x) DoubleBlink\<rparr>)" if "durable S fr i H x" for x
    using durable_ctx [OF that] by (intro durable_frame [OF that]) (simp_all add: ctx_ok_led)
  from this [OF v] assms(1) show ?thesis by (simp add: from_app_dispatch_def Let_def split: option.split)
qed

lemma mesh_dispatch_durable:
  assumes "durable S fr i H c" and "host_ok F H" and "event_ok event" and "reset_event H event c \<Longrightarrow> fr"
  shows "durable S fr i H (mesh_dispatch H now event c)"
proof -
  have H: "h_flash H = F" "decodes_strings H" using assms(2) by (simp_all add: host_ok_def)
  note ok = mesh_dispatch_ok [OF durable_ctx [OF assms(1)] assms(3) H(2), of now]
  have st: "S (settings H c) fr (cx_storage c)" using assms(1) by (simp add: durable_def)
  show ?thesis
  proof (cases event)
    case (LoraRx f meta)
    with assms show ?thesis by (simp add: mesh_dispatch_def event_ok_def reset_event_def from_radio_durable)
  next
    case (BleRx data)
    with assms show ?thesis by (simp add: mesh_dispatch_def from_app_durable)
  next
    case (BondSave b)
    with assms(3) have "length b = 48" by (simp add: event_ok_def)
    with ok bond_saved [OF st] assms(1) H(1) BondSave show ?thesis
      by (simp add: mesh_dispatch_def durable_def settings_def identity_def)
  next
    case BondClear
    with ok bond_cleared [OF st] assms(1) H(1) show ?thesis
      by (simp add: mesh_dispatch_def durable_def settings_def identity_def)
  qed (use ok in \<open>auto intro!: durable_frame [OF assms(1)] simp: mesh_dispatch_def\<close>)
qed

lemma save_nodes_durable:
  assumes "durable S fr i H c" and "host_ok F H"
  shows "durable S fr i H (save_nodes H c)"
proof -
  have "S (settings H c) fr (fst (save_node_db (h_sort H) F (cx_node_db c) (cx_storage c)))"
    using assms by (intro nodes_saved) (simp_all add: durable_def ctx_ok_def host_ok_def)
  then show ?thesis
    using save_nodes_ok [OF durable_ctx [OF assms(1)], of H] assms
    by (auto simp: durable_def save_nodes_def host_ok_def settings_def identity_def split: prod.splits sum.splits)
qed

lemma finish_turn_durable:
  assumes "durable S fr i H (ms_ctx s)" and "host_ok F H"
  shows "durable S fr i H (ms_ctx (finish_turn H now s))"
proof -
  have f: "durable S fr i H (ms_ctx (flush_node_db H now s))"
    using assms by (simp add: flush_node_db_def save_nodes_durable)
  have "durable S fr i H (x\<lparr>cx_shutdown_after_secs := None\<rparr>)" if "durable S fr i H x" for x
    using durable_ctx [OF that] by (intro durable_frame [OF that]) (simp_all add: ctx_ok_fields)
  then have g: "durable S fr i H (ms_ctx (forward_shutdown H (flush_node_db H now s)))"
    using f assms(2) by (simp add: forward_shutdown_def Let_def save_nodes_durable split: option.split)
  have "durable S fr i H (x\<lparr>cx_reboot_after_secs := None\<rparr>)" if "durable S fr i H x" for x
    using durable_ctx [OF that] by (intro durable_frame [OF that]) (simp_all add: ctx_ok_fields)
  then have "durable S fr i H (ms_ctx (take_reboot t))" if "durable S fr i H (ms_ctx t)" for t
    using that by (simp add: take_reboot_def split: option.split)
  from this [OF g] show ?thesis by (simp add: finish_turn_def)
qed

lemma turn_durable:
  assumes "durable S fr i H (ms_ctx s)" and "host_ok F H" and "event_ok event" and "reset_event H event (ms_ctx s) \<Longrightarrow> fr"
  shows "durable S fr i H (ms_ctx (turn H now event s))"
  unfolding turn_def using mesh_dispatch_durable [OF assms] assms(2) by (intro finish_turn_durable) simp_all

lemma note_event_durable:
  assumes "durable S fr i H (ms_ctx s)"
  shows "durable S fr i H (ms_ctx (note_event now event s))"
    "reset_event H event (ms_ctx (note_event now event s)) = reset_event H event (ms_ctx s)"
proof -
  have "lasting H (ms_ctx (note_event now event s)) = lasting H (ms_ctx s)" by (cases event) (simp_all add: note_event_def Let_def)
  then show "durable S fr i H (ms_ctx (note_event now event s))"
    by (rule durable_frame [OF assms note_event_ok [OF durable_ctx [OF assms]]])
  show "reset_event H event (ms_ctx (note_event now event s)) = reset_event H event (ms_ctx s)"
    by (rule reset_event_cong) (cases event; simp add: note_event_def Let_def)+
qed

lemma retransmit_durable:
  assumes "durable S fr i H c"
  shows "durable S fr i H (retransmit H now c)"
proof -
  obtain pending db res where t: "tick_retransmissions now (cx_pending_packets c) (cx_node_db c) = (pending, db, res)"
    by (metis prod_cases3)
  have "keys_ok db" using keys_ok_tick_loop [OF _ t [unfolded tick_retransmissions_def]] assms by (simp add: durable_def)
  moreover have "lasting H (retransmit H now c) = lasting H (c\<lparr>cx_node_db := db\<rparr>)"
    unfolding retransmit_def t prod.case
    by (subst fold_lasting, simp split: prod.split)+ (simp add: lasting_def settings_def identity_def)
  ultimately show ?thesis
    using assms retransmit_ok [OF durable_ctx [OF assms], of H now]
    by (simp add: durable_def lasting_def settings_def identity_def)
qed

text \<open>A plain step keeps the law as it is.\<close>

lemma plain_step_durable:
  assumes "plain_step H s s'" and "durable S fr i H (ms_ctx s)" and "host_ok F H"
  shows "durable S fr i H (ms_ctx s')"
  using assms(1)
proof cases
  case (Plain_event event now)
  note n = note_event_durable [OF assms(2), where now = now and event = event]
  show ?thesis
    unfolding Plain_event(1) using n Plain_event(4) by (intro turn_durable [OF _ assms(3) Plain_event(3)]) simp_all
next
  case (Plain_beat now)
  have "durable S fr i H (heartbeat_led (ms_ctx s))"
    using durable_ctx [OF assms(2)] by (intro durable_frame [OF assms(2)]) (simp_all add: heartbeat_led_def ctx_ok_led)
  then show ?thesis
    unfolding Plain_beat(1) by (intro turn_durable [OF _ assms(3)]) (simp_all add: event_ok_def reset_event_def)
next
  case (Plain_rebroadcast p now)
  then show ?thesis using send_due_ok [OF durable_ctx [OF assms(2)]] by (auto intro: durable_frame [OF assms(2)])
next
  case (Plain_retransmit p now)
  then show ?thesis using assms(2) by (simp add: retransmit_durable)
qed (use assms(2) in \<open>auto simp: durable_def ctx_ok_def settings_def identity_def\<close>)

text \<open>Any step at all keeps it with the mark set.\<close>

lemma durable_marked: "durable S fr i H c \<Longrightarrow> durable S True i H c"
  by (auto simp: durable_def intro: reset_marked)

lemma mesh_step_durable:
  assumes "mesh_step H s s'" and "durable S True i H (ms_ctx s)" and "host_ok F H"
  shows "durable S True i H (ms_ctx s')"
  using assms(1)
proof (cases rule: mesh_step_cases)
  case (2 event now)
  show ?thesis
    unfolding 2(4) using note_event_durable [OF assms(2), where now = now and event = event] by (intro turn_durable [OF _ assms(3) 2(2)]) simp_all
qed (use assms(2,3) plain_step_durable in blast)

end

end
