(* ===== verification/Durable_Flash.thy ===== *)
theory Durable_Flash
  imports Durable_State Ring_Durability
begin

text \<open>
  The flash region of the node meets the laws of \<open>Durable_State\<close>: every write stays in its own sector, so
  the key pair is never touched and the configuration is only touched to bring it up to date.  Proved for
  any device whose writes change nothing but the bytes they name, and for both drivers.
\<close>

section \<open>Every operation stays in its sector\<close>

locale framed_device = flash_device +
  assumes write_frame: "\<And>a bs mem. unat a + length bs \<le> length (content mem)
      \<Longrightarrow> length (content (fst (fl_write F a bs mem))) = length (content mem)
        \<and> (\<forall>i j. j \<le> length (content mem) \<longrightarrow> j \<le> unat a \<or> unat a + length bs \<le> i
             \<longrightarrow> slice i j (content (fst (fl_write F a bs mem))) = slice i j (content mem))"

definition only_sector :: "'f flash_ops \<Rightarrow> ('f \<Rightarrow> bytes) \<Rightarrow> u32 \<Rightarrow> 'f nvs \<Rightarrow> 'f nvs \<Rightarrow> bool" where
  "only_sector F content sector st st' \<longleftrightarrow> nv_base st' = nv_base st \<and> room (nv_base st) (content (nv_flash st'))
     \<and> (\<forall>other n. unat other < 5 \<longrightarrow> other \<noteq> sector \<longrightarrow> n \<le> 4096 \<longrightarrow> load_sector F other n st' = load_sector F other n st)"

lemma only_sector_trans: "\<lbrakk>only_sector F C s a b; only_sector F C s b c\<rbrakk> \<Longrightarrow> only_sector F C s a c"
  by (simp add: only_sector_def)

lemma only_sector_room: "only_sector F C s a b \<Longrightarrow> room (nv_base b) (C (nv_flash b))"
  by (simp add: only_sector_def)

text \<open>Only the flash and the base address matter.\<close>

lemma load_sector_cong:
  "\<lbrakk>nv_flash st' = nv_flash st; nv_base st' = nv_base st\<rbrakk> \<Longrightarrow> load_sector F s n st' = load_sector F s n st"
  by (simp add: load_sector_def sector_offset_def)

lemma only_sector_cong:
  "\<lbrakk>nv_flash st' = nv_flash st; nv_base st' = nv_base st; room (nv_base st) (C (nv_flash st))\<rbrakk> \<Longrightarrow> only_sector F C s st st'"
  unfolding only_sector_def using load_sector_cong [of st' st F] by simp

lemma sectors_apart:
  assumes "unat (other :: u32) < 5" and "other \<noteq> STORAGE_SECTOR" and "n \<le> 4096"
  shows "unat other * 4096 + n \<le> 8192 \<or> 12288 \<le> unat other * 4096"
proof -
  have "unat STORAGE_SECTOR = 2" by (simp add: const_defs)
  with assms(2) have "unat other \<noteq> 2" by (metis word_unat_eq_iff)
  with assms(3) show ?thesis by arith
qed

context framed_device begin

lemma save_only:
  assumes "room (nv_base st) (content (nv_flash st))" "unat sector < 5" "length blob \<le> 4096"
  shows "only_sector F content sector st (fst (save_sector F sector blob st))"
proof -
  have "length (content (nv_flash (fst (save_sector F sector blob st)))) = length (content (nv_flash st))"
    using save_sector_content [OF assms] assms by (simp add: room_def const_defs)
  then show ?thesis
    using assms save_sector_content(2) [OF assms] save_then_load [OF assms(1,2) _ assms(3)]
    by (simp add: only_sector_def room_def)
qed

lemma erase_only:
  assumes "room (nv_base st) (content (nv_flash st))" "unat sector < 5"
  shows "only_sector F content sector st (erase_sector F sector st)"
  using erase_frame [OF assms] by (auto simp: only_sector_def erase_sector_def Let_def)

text \<open>A write inside the ring's sector.\<close>

lemma ring_write_only:
  assumes "room (nv_base st) (content (nv_flash st))" and "unat a = ring_at (nv_base st) + k" and "k + length bs \<le> 4096"
  shows "only_sector F content STORAGE_SECTOR st (st\<lparr>nv_flash := fst (fl_write F a bs (nv_flash st)), nv_dirty := d\<rparr>)"
proof -
  let ?img = "content (nv_flash st)" and ?st = "st\<lparr>nv_flash := fst (fl_write F a bs (nv_flash st)), nv_dirty := d\<rparr>"
  have fits: "unat a + length bs \<le> length ?img" using assms by (simp add: room_def ring_at_def const_defs)
  have len: "length (content (nv_flash ?st)) = length ?img" using write_frame [OF fits] by simp
  have "load_sector F other n ?st = load_sector F other n st" if o: "unat other < 5" "other \<noteq> STORAGE_SECTOR" "n \<le> 4096" for other n
  proof -
    let ?o = "unat (nv_base st) + unat other * 4096"
    have off: "unat (sector_offset st other) = ?o" using sector_offset_nat [OF assms(1) o(1)] by simp
    have end_: "?o + n \<le> length ?img" using assms(1) o by (simp add: room_def const_defs)
    have "?o + n \<le> unat a \<or> unat a + length bs \<le> ?o"
      using sectors_apart [OF o] assms(2,3) by (auto simp: ring_at_def)
    then have "slice ?o (?o + n) (content (nv_flash ?st)) = slice ?o (?o + n) ?img"
      using conjunct2 [OF write_frame [OF fits], rule_format, of "?o + n" ?o] end_ by simp
    then show ?thesis
      using read_content [of "sector_offset st other" n "nv_flash st"] read_content [of "sector_offset st other" n "nv_flash ?st"] end_ len
      by (simp add: load_sector_def off sector_offset_def [of ?st] sector_offset_def [of st, symmetric])
  qed
  then show ?thesis using assms(1) len by (simp add: only_sector_def room_def)
qed

lemma persist_header_only:
  assumes "room (nv_base st) (content (nv_flash st))"
  shows "only_sector F content STORAGE_SECTOR st (persist_header F st)"
  using ring_write_only [OF assms, of "sector_offset st STORAGE_SECTOR" 0 "encode_ring_header (header_of st)" False]
    ring_at_offset [OF assms]
  by (simp add: persist_header_def header_of_def Let_def)

lemma persist_slot_only:
  assumes "room (nv_base st) (content (nv_flash st))" and "j < 10" and "cs_len (nv_slots st ! j) \<le> 255"
  shows "only_sector F content STORAGE_SECTOR st (persist_slot F j st)"
  using ring_write_only [OF assms(1), of "slot_flash_offset st j" "64 + j * 260" "slot_image (nv_slots st ! j)" "nv_dirty st"]
    slot_at_offset [OF assms(1,2)] assms(2,3)
  by (simp add: persist_slot_def slot_at_def)

lemma write_through_only:
  assumes "room (nv_base st) (content (nv_flash st))" and "j < 10" and "cs_len (nv_slots st ! j) \<le> 255"
  shows "only_sector F content STORAGE_SECTOR st (persist_header F (persist_slot F j st))"
proof -
  note s = persist_slot_only [OF assms]
  show ?thesis by (rule only_sector_trans [OF s persist_header_only [OF only_sector_room [OF s]]])
qed

text \<open>The part in RAM of an addition or a removal leaves the flash, and then one slot and the header are written.\<close>

lemma ram_then_write:
  assumes "room (nv_base st) (content (nv_flash st))" and "nv_flash st1 = nv_flash st" and "nv_base st1 = nv_base st"
    and "j < 10" and "cs_len (nv_slots st1 ! j) \<le> 255"
  shows "only_sector F content STORAGE_SECTOR st (persist_header F (persist_slot F j st1))"
proof -
  have "room (nv_base st1) (content (nv_flash st1))" using assms by simp
  from write_through_only [OF this assms(4,5)] show ?thesis
    by (rule only_sector_trans [OF only_sector_cong [where C = content, OF assms(2,3,1)]])
qed

lemma nvs_add_only:
  assumes "room (nv_base st) (content (nv_flash st))" and "nvs_ok st" and "frame_ok frame"
  shows "only_sector F content STORAGE_SECTOR st (nvs_add F frame st)"
proof -
  have h: "nv_head st < 10" "length (nv_slots st) = 10" using assms(2) by (simp_all add: nvs_ok_def const_defs)
  then have "cs_len (nv_slots (add_ram frame st) ! nv_head st) \<le> 255"
    using assms(3) by (simp add: written_slot_def frame_ok_def const_defs)
  then show ?thesis unfolding nvs_add_split using h by (intro ram_then_write assms(1)) simp_all
qed

lemma nvs_pop_only:
  assumes "room (nv_base st) (content (nv_flash st))" and "nvs_ok st"
  shows "only_sector F content STORAGE_SECTOR st (fst (nvs_pop F st))"
proof (cases "nv_count st = 0")
  case True
  then show ?thesis using assms(1) by (simp add: nvs_pop_def only_sector_cong)
next
  case False
  have h: "nv_tail st < 10" "length (nv_slots st) = 10" using assms(2) by (simp_all add: nvs_ok_def const_defs)
  have "nv_tail st \<in> live_idx st" using live_idx_pop(2) [OF assms(2) False] .
  then have "nv_slots st ! nv_tail st \<in> set (live st)" unfolding live_set by (rule imageI)
  then have "cs_len (nv_slots st ! nv_tail st) \<le> 255" using assms(2) by (auto simp: nvs_ok_def live_ok_def const_defs)
  then have "cs_len (nv_slots (pop_ram st) ! nv_tail st) \<le> 255" using h by simp
  then show ?thesis unfolding nvs_pop_split [OF False] using h by (intro ram_then_write assms(1)) simp_all
qed

text \<open>Starting the adapter reads the ring, or writes the header of an empty one.\<close>

lemma init_empty_only:
  assumes "room (nv_base st) (content (nv_flash st))"
  shows "only_sector F content STORAGE_SECTOR st (init_empty F st)"
proof -
  let ?st = "st\<lparr>nv_head := 0, nv_tail := 0, nv_count := 0,
    nv_slots := replicate MAX_BUFFERED_MESSAGES cached_slot_default, nv_dirty := True\<rparr>"
  have "only_sector F content STORAGE_SECTOR st ?st" by (rule only_sector_cong) (simp_all add: assms)
  moreover have "only_sector F content STORAGE_SECTOR ?st (persist_header F ?st)"
    by (rule persist_header_only) (simp add: assms)
  ultimately show ?thesis unfolding init_empty_def by (rule only_sector_trans)
qed

lemma load_slots_only:
  assumes "room (nv_base st) (content (nv_flash st))"
  shows "only_sector F content STORAGE_SECTOR st (load_slots F st)"
proof -
  have "nv_flash (load_slots F st) = nv_flash st \<and> nv_base (load_slots F st) = nv_base st"
    unfolding load_slots_def by (rule fold_invariant [where Q = "\<lambda>_. True"]) simp_all
  then show ?thesis by (intro only_sector_cong assms) simp_all
qed

lemma load_or_init_only:
  assumes "room (nv_base st) (content (nv_flash st))"
  shows "only_sector F content STORAGE_SECTOR st (load_or_init F st)"
proof -
  have "only_sector F content STORAGE_SECTOR st (load_slots F (st\<lparr>nv_head := a, nv_tail := b, nv_count := c\<rparr>))" for a b c
    by (rule only_sector_trans [OF only_sector_cong load_slots_only]) (simp_all add: assms)
  with init_empty_only [OF assms] show ?thesis by (simp add: load_or_init_def split: option.split)
qed

lemma nvs_new_only:
  assumes "room base (content mem)" and "nv_flash st = mem" and "nv_base st = base"
  shows "only_sector F content STORAGE_SECTOR st (nvs_new F mem base)"
  unfolding nvs_new_def
  by (rule only_sector_trans [OF only_sector_cong load_or_init_only]) (simp_all add: assms)

end

section \<open>What the flash of a node holds\<close>

lemma layout_ok_lengths:
  "map (map_prod id length) fs = map (map_prod id length) gs \<Longrightarrow> layout_ok lo hi fs = layout_ok lo hi gs"
proof (induction fs arbitrary: gs lo)
  case (Cons f fs)
  then obtain g gs' where "gs = g # gs'" by (cases gs) auto
  with Cons show ?case by (cases f; cases g) auto
qed auto

text \<open>The blob has its size for every well-formed device, also when the channel number reads as unset.\<close>

lemma length_saved_blob:
  assumes "device_ok dev"
  shows "length (encode_config (saved_config_from_device E dev)) = CONFIG_SIZE"
proof -
  let ?cfg = "saved_config_from_device E dev" and ?dev = "dev\<lparr>channel_num := 0\<rparr>"
  have d: "saved_config_from_device E ?dev = ?cfg\<lparr>sv_channel_num := 0\<rparr>" by (simp add: saved_config_from_device_def Let_def)
  have "device_ok ?dev" using assms by (simp add: device_ok_def)
  then have "saved_ok (?cfg\<lparr>sv_channel_num := 0\<rparr>)" using saved_from_device_ok(1) [of ?dev E] by (simp add: d)
  from config_layout [OF this] have "layout_ok 0 (length (replicate CONFIG_SIZE (0xFF :: u8))) (config_fields ?cfg)"
    by (subst layout_ok_lengths [where gs = "config_fields (?cfg\<lparr>sv_channel_num := 0\<rparr>)"])
      (simp_all add: config_fields_def config_head_def config_tail_def channel_fields_def Let_def map_concat o_def)
  from length_writes [OF this] show ?thesis by (simp add: encode_config_def config_fields_def)
qed

text \<open>The key pair, and the settings in RAM; or, when nothing was written since the boot, the settings of the
  boot and the bytes found then; or, when a factory reset was asked for, an erased sector.\<close>

definition node_flash :: "'f flash_ops \<Rightarrow> ('f \<Rightarrow> bytes) \<Rightarrow> bytes \<times> bytes \<Rightarrow> u32 \<Rightarrow> saved_config \<times> bytes option
    \<Rightarrow> saved_config \<Rightarrow> bool \<Rightarrow> 'f nvs \<Rightarrow> bool" where
  "node_flash F content keys base boot cfg r st \<longleftrightarrow>
     nv_base st = base \<and> room base (content (nv_flash st)) \<and> load_pkc_keypair F st = Some keys
     \<and> (load_sector F CONFIG_SECTOR CONFIG_SIZE st = Some (encode_config cfg)
        \<or> (cfg, load_sector F CONFIG_SECTOR CONFIG_SIZE st) = boot
        \<or> r \<and> load_sector F CONFIG_SECTOR CONFIG_SIZE st = Some (replicate CONFIG_SIZE 0xFF))"

lemma sector_numbers:
  "unat CONFIG_SECTOR = 0" "unat BOND_SECTOR = 1" "unat STORAGE_SECTOR = 2" "unat NODEDB_SECTOR = 3" "unat PKC_SECTOR = 4"
  "CONFIG_SECTOR \<noteq> BOND_SECTOR" "CONFIG_SECTOR \<noteq> STORAGE_SECTOR" "CONFIG_SECTOR \<noteq> NODEDB_SECTOR" "PKC_SECTOR \<noteq> CONFIG_SECTOR"
  "PKC_SECTOR \<noteq> BOND_SECTOR" "PKC_SECTOR \<noteq> STORAGE_SECTOR" "PKC_SECTOR \<noteq> NODEDB_SECTOR"
  by (simp_all add: const_defs)

lemma blob_sizes: "CONFIG_SIZE \<le> 4096" "PKC_BLOB_SIZE \<le> 4096" "SNAPSHOT_BYTES \<le> 4096" "CONFIG_SIZE = 512"
  by (simp_all add: const_defs)

text \<open>A write to another sector than those of the keys and the configuration changes nothing of it.\<close>

lemma node_flash_elsewhere:
  assumes "only_sector F C s st st'" and "s \<in> {BOND_SECTOR, STORAGE_SECTOR, NODEDB_SECTOR}"
    and "node_flash F C keys base boot cfg r st"
  shows "node_flash F C keys base boot cfg r st'"
proof -
  have "load_sector F PKC_SECTOR PKC_BLOB_SIZE st' = load_sector F PKC_SECTOR PKC_BLOB_SIZE st"
    "load_sector F CONFIG_SECTOR CONFIG_SIZE st' = load_sector F CONFIG_SECTOR CONFIG_SIZE st"
    using assms(1,2) sector_numbers blob_sizes by (auto simp: only_sector_def)
  with assms(1,3) show ?thesis by (simp add: node_flash_def only_sector_def load_pkc_keypair_def)
qed

text \<open>A write to the configuration's sector leaves the keys, and must leave the blob of the new settings.\<close>

lemma node_flash_config:
  assumes "only_sector F C CONFIG_SECTOR st st'" and "node_flash F C keys base boot cfg r st"
    and "load_sector F CONFIG_SECTOR CONFIG_SIZE st' = Some (encode_config cfg')
      \<or> r' \<and> load_sector F CONFIG_SECTOR CONFIG_SIZE st' = Some (replicate CONFIG_SIZE 0xFF)"
  shows "node_flash F C keys base boot cfg' r' st'"
proof -
  have "load_sector F PKC_SECTOR PKC_BLOB_SIZE st' = load_sector F PKC_SECTOR PKC_BLOB_SIZE st"
    using assms(1) sector_numbers blob_sizes by (auto simp: only_sector_def)
  with assms show ?thesis by (auto simp: node_flash_def only_sector_def load_pkc_keypair_def)
qed

lemma node_flash_room: "node_flash F C keys base boot cfg r st \<Longrightarrow> room (nv_base st) (C (nv_flash st))"
  by (simp add: node_flash_def)

sublocale framed_device < node: storage_law F "node_flash F content keys base boot" for keys base boot
proof
  fix cfg r st
  assume st: "node_flash F content keys base boot cfg r st"
  note room = node_flash_room [OF st]
  show "node_flash F content keys base boot cfg True st" using st by (auto simp: node_flash_def)
  show "node_flash F content keys base boot cfg True (erase_config F st)"
  proof -
    have c: "only_sector F content CONFIG_SECTOR st (erase_sector F CONFIG_SECTOR st)"
      using erase_only [OF room] by (simp add: sector_numbers)
    have "load_sector F CONFIG_SECTOR CONFIG_SIZE (erase_sector F CONFIG_SECTOR st) = Some (replicate CONFIG_SIZE 0xFF)"
      using blob_sizes(1) by (intro erase_then_load [OF room]) (simp_all add: sector_numbers)
    then have "node_flash F content keys base boot cfg True (erase_sector F CONFIG_SECTOR st)"
      by (intro node_flash_config [OF c st]) simp
    moreover have "only_sector F content NODEDB_SECTOR (erase_sector F CONFIG_SECTOR st) (erase_config F st)"
      unfolding erase_config_def by (rule erase_only [OF only_sector_room [OF c]]) (simp add: sector_numbers)
    ultimately show ?thesis using node_flash_elsewhere by blast
  qed
  show "node_flash F content keys base boot cfg r (clear_bond F st)"
    unfolding clear_bond_def by (rule node_flash_elsewhere [OF erase_only [OF room] _ st]) (simp_all add: sector_numbers)
  show "node_flash F content keys base boot cfg r (fst (save_bond F b st))" if "length b = 48" for b
    unfolding save_bond_def by (rule node_flash_elsewhere [OF save_only [OF room] _ st]) (simp_all add: sector_numbers that)
  show "node_flash F content keys base boot cfg r (nvs_add F f st)" if "nvs_ok st" "frame_ok f" for f
    by (rule node_flash_elsewhere [OF nvs_add_only [OF room that] _ st]) simp
  show "node_flash F content keys base boot cfg r (fst (nvs_pop F st))" if "nvs_ok st"
    by (rule node_flash_elsewhere [OF nvs_pop_only [OF room that] _ st]) simp
  show "node_flash F content keys base boot cfg r (fst (save_node_db srt F db st))"
    if "db_ok db" "keys_ok db" "sorts_descending srt" for srt db
  proof -
    have "length (to_snapshot srt db) \<le> 4096"
      using to_snapshot_facts(1) [OF that(1) record_ok_keys [OF that(1,2)] that(3)] blob_sizes by simp
    then show ?thesis
      unfolding save_node_db_def by (intro node_flash_elsewhere [OF save_only [OF room] _ st]) (simp_all add: sector_numbers)
  qed
  show "node_flash F content keys base boot (saved_config_from_device E dev) r (fst (save_state E F dev st))"
    if "device_ok dev" for E dev
  proof -
    have len: "length (encode_config (saved_config_from_device E dev)) = 512"
      using length_saved_blob [OF that, of E] blob_sizes by simp
    have sec: "unat CONFIG_SECTOR < 5" by (simp add: sector_numbers)
    show ?thesis
      unfolding save_state_def save_config_def
      using save_then_load [OF room sec sec, of "encode_config (saved_config_from_device E dev)" CONFIG_SIZE] len blob_sizes
      by (intro node_flash_config [OF save_only [OF room sec] st]) simp_all
  qed
qed

interpretation rmw: framed_device rmw_ops id
  by unfold_locales (auto simp: rmw_ops_def in_range_def slice_write_other)

interpretation nor: framed_device nor_ops id
  by unfold_locales (auto simp: nor_ops_def in_range_def slice_write_other)

end
