(* ===== verification/Boot.thy ===== *)
theory Boot
  imports Durable_Flash Lifecycle
begin

text \<open>
  The start of a node: \<open>main\<close> of both boards up to the event loop, with the node's identity from the
  chip.  Several lives, separated by power cycles, are sequences of boots and steps of the event loop
  over the same flash; what a node is to its peers and how it is configured outlive all of them.
\<close>

section \<open>Identity\<close>

text \<open>\<open>nrf_identity_adapter.rs\<close>: six bytes of the chip's number, with the bits of a random static address.\<close>

definition nrf_mac :: "u32 \<Rightarrow> u32 \<Rightarrow> bytes" where
  "nrf_mac low high =
     (let id = push_bit 32 (ucast high) OR ucast low :: u64;
          m = take 6 (le64 id)
      in m[0 := (m ! 0 OR 0xC0) AND 0xFE])"

text \<open>\<open>ports/identity.rs\<close>: the node number is the last four bytes.\<close>

definition node_num_of :: "bytes \<Rightarrow> u32" where
  "node_num_of m = of_le32 (m ! 5) (m ! 4) (m ! 3) (m ! 2)"

text \<open>\<open>ble_task\<close>: the address on air, least significant byte first.\<close>

definition ble_address :: "bytes \<Rightarrow> bytes" where
  "ble_address m = [m ! 5, m ! 4, m ! 3, m ! 2, m ! 1, m ! 0 OR 0xC0]"

section \<open>Boot\<close>

text \<open>A key pair that cannot be saved stops the boot: \<^term>\<open>None\<close>.\<close>

definition load_or_make_keypair :: "pkc_prims \<Rightarrow> 'f flash_ops \<Rightarrow> bytes \<Rightarrow> 'f nvs \<Rightarrow> ('f nvs \<times> bytes \<times> bytes) option" where
  "load_or_make_keypair P F seed storage =
     (case load_pkc_keypair F storage of
        Some pair \<Rightarrow> Some (storage, pair)
      | None \<Rightarrow>
          (let (priv_bytes, pub_bytes) = keypair_from_seed P seed
           in case save_pkc_keypair F priv_bytes pub_bytes storage of
                (storage, saved) \<Rightarrow> (case saved of Inr _ \<Rightarrow> Some (storage, priv_bytes, pub_bytes) | Inl _ \<Rightarrow> None)))"

text \<open>What the tasks are started with.\<close>

record 'f booted =
  bt_is_wakeup :: bool
  bt_tx_enabled :: bool
  bt_modem_cfg :: modem_config
  bt_frequency_hz :: u32
  bt_node_num :: u32
  bt_initial_bond :: "bytes option"
  bt_ble_address :: bytes
  bt_device_name :: bytes
  bt_mesh :: "'f mesh_state"

definition esp_boot :: "'f host \<Rightarrow> bool \<Rightarrow> bytes option \<Rightarrow> 'f \<Rightarrow> u32 \<Rightarrow> bytes \<Rightarrow> instant \<Rightarrow> 'f booted option" where
  "esp_boot H is_lora_wakeup mac_address mem nvs_offset seed now =
     (case mac_address of
        None \<Rightarrow> None
      | Some m \<Rightarrow>
          (let storage = nvs_new (h_flash H) mem nvs_offset;
               initial_bond = load_bond (h_flash H) storage;
               device = load_state (h_env H) (h_flash H) storage (device_new m);
               tx_gate = tx_enabled device
           in case load_or_make_keypair (env_pkc (h_env H)) (h_flash H) seed storage of
                None \<Rightarrow> None
              | Some (storage, pkc_keypair) \<Rightarrow>
                  (let (modem_cfg, frequency_hz) = lora_params (h_env H) device;
                       node_num = node_num_of m;
                       device_name = build_ble_device_name m
                   in Some \<lparr>bt_is_wakeup = is_lora_wakeup, bt_tx_enabled = tx_gate, bt_modem_cfg = modem_cfg,
                        bt_frequency_hz = frequency_hz, bt_node_num = node_num, bt_initial_bond = initial_bond,
                        bt_ble_address = ble_address m, bt_device_name = device_name,
                        bt_mesh = mesh_state_new H m storage pkc_keypair now\<rparr>)))"

definition NVS_BASE :: u32 where [const_defs]: "NVS_BASE = 0xEF000"

text \<open>The nRF52 draws a seed for the key pair at every start, because the controller keeps the generator.\<close>

definition nrf_boot :: "'f host \<Rightarrow> u32 \<Rightarrow> u32 \<Rightarrow> 'f \<Rightarrow> bytes \<Rightarrow> instant \<Rightarrow> 'f booted option" where
  "nrf_boot H device_id_low device_id_high mem pkc_seed now =
     (let m = nrf_mac device_id_low device_id_high;
          storage = nvs_new (h_flash H) mem NVS_BASE;
          initial_bond = load_bond (h_flash H) storage;
          device = load_state (h_env H) (h_flash H) storage (device_new m);
          (modem_cfg, frequency_hz) = lora_params (h_env H) device
      in case load_or_make_keypair (env_pkc (h_env H)) (h_flash H) pkc_seed storage of
           None \<Rightarrow> None
         | Some (storage, pkc_keypair) \<Rightarrow>
             Some \<lparr>bt_is_wakeup = False, bt_tx_enabled = tx_enabled device, bt_modem_cfg = modem_cfg,
                bt_frequency_hz = frequency_hz, bt_node_num = node_num_of m, bt_initial_bond = initial_bond,
                bt_ble_address = ble_address m, bt_device_name = build_ble_device_name m,
                bt_mesh = mesh_state_new H m storage pkc_keypair now\<rparr>)"

text \<open>The event loop begins with the node's introduction.\<close>

definition started :: "'f host \<Rightarrow> 'f booted \<Rightarrow> 'f mesh_state" where
  "started H b = announce H (cx_boot_time (ms_ctx (bt_mesh b)) + NODEINFO_BOOT_DELAY_MS) (bt_mesh b)"

section \<open>Both boards start alike\<close>

lemma boards_boot_alike:
  "nrf_boot H low high mem seed now = esp_boot H False (Some (nrf_mac low high)) mem NVS_BASE seed now"
  by (simp add: nrf_boot_def esp_boot_def Let_def split_beta split: option.split)

lemma length_nrf_mac [simp]: "length (nrf_mac low high) = 6"
  by (simp add: nrf_mac_def Let_def le64_def)

text \<open>What every boot yields.\<close>

lemma esp_boot_cases:
  assumes "esp_boot H w (Some m) mem base seed t = Some b"
  obtains st0 st priv_key pub_key where "st0 = nvs_new (h_flash H) mem base"
    "load_or_make_keypair (env_pkc (h_env H)) (h_flash H) seed st0 = Some (st, priv_key, pub_key)"
    "bt_mesh b = mesh_state_new H m st (priv_key, pub_key) t"
    "bt_tx_enabled b = tx_enabled (load_state (h_env H) (h_flash H) st0 (device_new m))"
    "(bt_modem_cfg b, bt_frequency_hz b) = lora_params (h_env H) (load_state (h_env H) (h_flash H) st0 (device_new m))"
    "bt_node_num b = node_num_of m" "bt_initial_bond b = load_bond (h_flash H) st0" "bt_device_name b = build_ble_device_name m"
  using assms by (auto simp: esp_boot_def Let_def split: option.splits prod.splits)

lemma mesh_state_new_fields:
  "cx_storage (ms_ctx (mesh_state_new H m st keys t)) = st" "cx_pkc_priv (ms_ctx (mesh_state_new H m st keys t)) = fst keys"
  "cx_pkc_pub (ms_ctx (mesh_state_new H m st keys t)) = snd keys" "cx_reboot_after_secs (ms_ctx (mesh_state_new H m st keys t)) = None"
  "cx_device (ms_ctx (mesh_state_new H m st keys t)) = load_state (h_env H) (h_flash H) st (device_new m)"
  "cx_node_db (ms_ctx (mesh_state_new H m st keys t)) = load_node_db (h_flash H) st (node_db_new (my_node_num (device_new m)))"
  "ms_rebooting (mesh_state_new H m st keys t) = None"
  by (simp_all add: mesh_state_new_def Let_def)

lemma load_state_identity:
  "my_node_num (load_state E F st dev) = my_node_num dev" "mac (load_state E F st dev) = mac dev"
  by (simp_all add: load_state_def apply_saved_config_def Let_def split: option.split)

lemma device_new_identity: "my_node_num (device_new m) = node_num_of m" "mac (device_new m) = m"
  by (simp_all add: device_new_def node_num_of_def Let_def)

lemma booted_identity:
  "identity (ms_ctx (mesh_state_new H m st keys t)) = (keys, node_num_of m, m)"
  by (simp add: identity_def mesh_state_new_fields load_state_identity device_new_identity)

lemma announce_lasting: "lasting H (ms_ctx (announce H' t s)) = lasting H (ms_ctx s)" "ms_rebooting (announce H' t s) = ms_rebooting s"
  by (simp_all add: announce_def)

section \<open>A boot establishes what the flash must hold\<close>

definition booted_device :: "'f host \<Rightarrow> bytes \<Rightarrow> bytes option \<Rightarrow> device_state" where
  "booted_device H m blob =
     (case Option.bind blob decode_config of
        None \<Rightarrow> device_new m | Some saved \<Rightarrow> apply_saved_config (h_env H) saved (device_new m))"

lemma booted_device_load:
  "load_state (h_env H) F st (device_new m) = booted_device H m (load_sector F CONFIG_SECTOR CONFIG_SIZE st)"
  by (simp add: load_state_def booted_device_def load_config_def)

definition boot_settings :: "'f host \<Rightarrow> bytes \<Rightarrow> bytes option \<Rightarrow> saved_config \<times> bytes option" where
  "boot_settings H m blob = (saved_config_from_device (h_env H) (booted_device H m blob), blob)"

definition seed_ok :: "'f host \<Rightarrow> bytes \<Rightarrow> bool" where
  "seed_ok H seed \<longleftrightarrow> keypair_ok (keypair_from_seed (env_pkc (h_env H)) seed)"

context framed_device begin

lemma keypair_made:
  assumes "room (nv_base st0) (content (nv_flash st0))" and "load_pkc_keypair F st0 = None \<Longrightarrow> keypair_ok (keypair_from_seed P seed)"
    and "load_or_make_keypair P F seed st0 = Some (st, keys)"
  shows "only_sector F content PKC_SECTOR st0 st" and "load_pkc_keypair F st = Some keys"
proof -
  have "only_sector F content PKC_SECTOR st0 st \<and> load_pkc_keypair F st = Some keys"
  proof (cases "load_pkc_keypair F st0")
    case None
    obtain p q where k: "keypair_from_seed P seed = (p, q)" by fastforce
    with assms(2) [OF None] have ok: "keypair_ok (p, q)" by simp
    let ?blob = "encode_pkc_keypair p q"
    have blob: "length ?blob = PKC_BLOB_SIZE" "decode_pkc_keypair ?blob = Some (p, q)"
      using pkc_blob.enc_length [OF ok] pkc_blob.dec_enc [OF ok] by simp_all
    have sec: "unat PKC_SECTOR < 5" "length ?blob \<le> 4096" using blob(1) blob_sizes by (simp_all add: sector_numbers)
    obtain st1 r where sv: "save_sector F PKC_SECTOR ?blob st0 = (st1, r)" by fastforce
    have "r = Inr ()" using save_sector_content(1) [OF assms(1) sec] by (simp add: sv)
    then have st: "st = fst (save_sector F PKC_SECTOR ?blob st0)" "keys = (p, q)"
      using assms(3) by (simp_all add: load_or_make_keypair_def None k save_pkc_keypair_def sv)
    have "load_sector F PKC_SECTOR PKC_BLOB_SIZE st = Some ?blob"
      using save_then_load [OF assms(1) sec(1,1,2) blob_sizes(2)] blob(1) by (simp add: st(1))
    then show ?thesis using save_only [OF assms(1) sec] blob(2) by (simp add: st load_pkc_keypair_def)
  next
    case (Some k)
    then have "st = st0" "keys = k" using assms(3) by (simp_all add: load_or_make_keypair_def)
    then show ?thesis using Some assms(1) by (simp add: only_sector_cong)
  qed
  then show "only_sector F content PKC_SECTOR st0 st" "load_pkc_keypair F st = Some keys" by simp_all
qed

lemma room_new:
  assumes "room base (content mem)"
  shows "nv_base (nvs_new F mem base) = base" "room base (content (nv_flash (nvs_new F mem base)))"
  using nvs_new_only [OF assms, of "undefined\<lparr>nv_flash := mem, nv_base := base\<rparr>"] by (simp_all add: only_sector_def)

text \<open>On a flash that keeps the contract the first boot always succeeds.\<close>

lemma boot_succeeds:
  assumes "room base (content mem)" and "seed_ok H seed" and "h_flash H = F"
  shows "\<exists>b. esp_boot H w (Some m) mem base seed t = Some b"
proof -
  let ?st0 = "nvs_new F mem base"
  obtain p q where k: "keypair_from_seed (env_pkc (h_env H)) seed = (p, q)" by fastforce
  then have ok: "keypair_ok (p, q)" using assms(2) by (simp add: seed_ok_def)
  have sec: "unat PKC_SECTOR < 5" "length (encode_pkc_keypair p q) \<le> 4096"
    using pkc_blob.enc_length [OF ok] blob_sizes by (simp_all add: sector_numbers)
  obtain st1 r where sv: "save_sector F PKC_SECTOR (encode_pkc_keypair p q) ?st0 = (st1, r)" by fastforce
  have "room (nv_base ?st0) (content (nv_flash ?st0))" using room_new [OF assms(1)] by simp
  from save_sector_content(1) [OF this sec] have "r = Inr ()" by (simp add: sv)
  then have "load_or_make_keypair (env_pkc (h_env H)) F seed ?st0 \<noteq> None"
    by (cases "load_pkc_keypair F ?st0") (simp_all add: load_or_make_keypair_def k save_pkc_keypair_def sv)
  then show ?thesis using assms(3) by (auto simp: esp_boot_def Let_def split: prod.split)
qed

lemma boot_durable:
  assumes "esp_boot H w (Some m) mem base seed t = Some b" and "host_ok F H" and "room base (content mem)" and "length m = 6"
    and "boot_ok H (cx_storage (ms_ctx (bt_mesh b)))" and "load_pkc_keypair F (nvs_new F mem base) = None \<Longrightarrow> seed_ok H seed"
  shows "\<exists>keys blob. identity (ms_ctx (bt_mesh b)) = (keys, node_num_of m, m)
    \<and> durable (node_flash F content keys base (boot_settings H m blob)) False (keys, node_num_of m, m) H (ms_ctx (started H b))"
proof -
  have H: "h_flash H = F" using assms(2) by (simp add: host_ok_def)
  obtain st priv_key pub_key where b: "load_or_make_keypair (env_pkc (h_env H)) F seed (nvs_new F mem base) = Some (st, priv_key, pub_key)"
    "bt_mesh b = mesh_state_new H m st (priv_key, pub_key) t" using esp_boot_cases [OF assms(1)] unfolding H by metis
  let ?keys = "(priv_key, pub_key)" and ?c = "ms_ctx (bt_mesh b)" and ?blob = "load_sector F CONFIG_SECTOR CONFIG_SIZE st"
  note st0 = room_new [OF assms(3)]
  have made: "only_sector F content PKC_SECTOR (nvs_new F mem base) st" "load_pkc_keypair F st = Some ?keys"
    using keypair_made [OF _ _ b(1)] st0 assms(6) by (auto simp: seed_ok_def)
  have c: "ctx_ok ?c" using mesh_state_new_ok [OF assms(4)] assms(5) by (simp add: b(2) mesh_state_new_fields)
  have i: "identity ?c = (?keys, node_num_of m, m)" by (simp add: b(2) booted_identity)
  have f: "cx_storage ?c = st" "settings H ?c = fst (boot_settings H m ?blob)" "keys_ok (cx_node_db ?c)"
    by (simp_all add: b(2) mesh_state_new_fields settings_def boot_settings_def H booted_device_load load_node_db_def
        keys_ok_restore split: option.split)
  have "node_flash F content ?keys base (boot_settings H m ?blob) (settings H ?c) False st"
    using made st0 by (simp add: node_flash_def only_sector_def f(2)) (simp add: boot_settings_def)
  then have "durable (node_flash F content ?keys base (boot_settings H m ?blob)) False (?keys, node_num_of m, m) H ?c"
    using c i f by (simp add: durable_def)
  from durable_frame [OF this, of "broadcast_nodeinfo H t' ?c" for t'] have
    "durable (node_flash F content ?keys base (boot_settings H m ?blob)) False (?keys, node_num_of m, m) H (ms_ctx (started H b))"
    using broadcast_ok(1) [OF c] by (simp add: started_def announce_def)
  then show ?thesis using i by blast
qed

end

section \<open>Lives of a node\<close>

text \<open>A first boot with a usable seed, steps of the event loop, and power cycles between two steps, with or
  without a wish to restart.  The indices are the node's own hardware address, the place of its storage in flash, and the
  identity it got at first.\<close>

inductive lives :: "'f host \<Rightarrow> ('f \<Rightarrow> bytes) \<Rightarrow> bytes \<Rightarrow> u32 \<Rightarrow> (bytes \<times> bytes) \<times> u32 \<times> bytes \<Rightarrow> 'f mesh_state \<Rightarrow> bool"
  for H content m base where
  First_boot: "esp_boot H w (Some m) mem base seed t = Some b \<Longrightarrow> length m = 6 \<Longrightarrow> room base (content mem) \<Longrightarrow> seed_ok H seed
    \<Longrightarrow> boot_ok H (cx_storage (ms_ctx (bt_mesh b))) \<Longrightarrow> lives H content m base (identity (ms_ctx (bt_mesh b))) (started H b)"
| Runs: "lives H content m base i s \<Longrightarrow> mesh_step H s s' \<Longrightarrow> lives H content m base i s'"
| Power_cycle: "lives H content m base i s \<Longrightarrow> esp_boot H w (Some m) (nv_flash (cx_storage (ms_ctx s))) base seed t = Some b
    \<Longrightarrow> boot_ok H (cx_storage (ms_ctx (bt_mesh b))) \<Longrightarrow> lives H content m base i (started H b)"

text \<open>The states of these lives that no factory reset lies behind, as far as the last boot: a boot, at the beginning
  or after any life, whatever happened in it, and the plain steps that follow it.\<close>

inductive settled :: "'f host \<Rightarrow> ('f \<Rightarrow> bytes) \<Rightarrow> bytes \<Rightarrow> u32 \<Rightarrow> (bytes \<times> bytes) \<times> u32 \<times> bytes \<Rightarrow> 'f mesh_state \<Rightarrow> bool"
  for H content m base where
  Settled_first: "esp_boot H w (Some m) mem base seed t = Some b \<Longrightarrow> length m = 6 \<Longrightarrow> room base (content mem) \<Longrightarrow> seed_ok H seed
    \<Longrightarrow> boot_ok H (cx_storage (ms_ctx (bt_mesh b))) \<Longrightarrow> settled H content m base (identity (ms_ctx (bt_mesh b))) (started H b)"
| Settled_again: "lives H content m base i s \<Longrightarrow> esp_boot H w (Some m) (nv_flash (cx_storage (ms_ctx s))) base seed t = Some b
    \<Longrightarrow> boot_ok H (cx_storage (ms_ctx (bt_mesh b))) \<Longrightarrow> settled H content m base i (started H b)"
| Settled_runs: "settled H content m base i s \<Longrightarrow> plain_step H s s' \<Longrightarrow> settled H content m base i s'"

lemma settled_lives: "settled H content m base i s \<Longrightarrow> lives H content m base i s"
  by (induction rule: settled.induct) (blast intro: lives.intros plain_step_mesh)+

context framed_device begin

lemma restarted:
  assumes "node_flash F content keys base bt cfg r st" and "h_flash H = F"
  shows "room base (content (nv_flash st))" "load_pkc_keypair F (nvs_new F (nv_flash st) base) = Some keys"
    "load_sector F CONFIG_SECTOR CONFIG_SIZE (nvs_new F (nv_flash st) base) = load_sector F CONFIG_SECTOR CONFIG_SIZE st"
    "\<exists>b. esp_boot H w (Some m) (nv_flash st) base seed t = Some b
       \<and> bt_mesh b = mesh_state_new H m (nvs_new F (nv_flash st) base) keys t"
proof -
  show room: "room base (content (nv_flash st))" using assms by (auto simp: node_flash_def)
  have "nv_base st = base" using assms by (simp add: node_flash_def)
  note only = nvs_new_only [OF room refl this]
  show "load_sector F CONFIG_SECTOR CONFIG_SIZE (nvs_new F (nv_flash st) base) = load_sector F CONFIG_SECTOR CONFIG_SIZE st"
    using only sector_numbers blob_sizes by (simp add: only_sector_def)
  show keys: "load_pkc_keypair F (nvs_new F (nv_flash st) base) = Some keys"
    using only sector_numbers blob_sizes assms(1) by (simp add: only_sector_def load_pkc_keypair_def node_flash_def)
  show "\<exists>b. esp_boot H w (Some m) (nv_flash st) base seed t = Some b
       \<and> bt_mesh b = mesh_state_new H m (nvs_new F (nv_flash st) base) keys t"
    by (simp add: esp_boot_def load_or_make_keypair_def keys assms(2) Let_def split: prod.split)
qed

text \<open>A stored key pair has the right form.\<close>

lemma stored_keys:
  assumes "node_flash F content keys base bt cfg r st"
  shows "keypair_ok keys"
proof -
  have room: "room (nv_base st) (content (nv_flash st))" "load_pkc_keypair F st = Some keys" using assms by (auto simp: node_flash_def)
  have "unat (sector_offset st PKC_SECTOR) + PKC_BLOB_SIZE \<le> length (content (nv_flash st))"
    using sector_offset_nat [OF room(1), of PKC_SECTOR] room(1) by (simp add: sector_numbers room_def const_defs)
  from read_content [OF this] obtain buf where "load_sector F PKC_SECTOR PKC_BLOB_SIZE st = Some buf" "length buf = PKC_BLOB_SIZE"
    using \<open>unat (sector_offset st PKC_SECTOR) + PKC_BLOB_SIZE \<le> length (content (nv_flash st))\<close> by (simp add: load_sector_def)
  with room(2) show ?thesis
    by (auto simp: load_pkc_keypair_def decode_pkc_keypair_def keypair_ok_def const_defs Let_def split: if_splits)
qed

text \<open>After a boot in any life the law of the flash holds unmarked.\<close>

lemma reboot_durable:
  assumes "durable (node_flash F content keys base (boot_settings H m blob)) fr i H (ms_ctx s)" and "i = (keys, node_num_of m, m)"
    and "length m = 6" and "host_ok F H" and "esp_boot H w (Some m) (nv_flash (cx_storage (ms_ctx s))) base seed t = Some b"
    and "boot_ok H (cx_storage (ms_ctx (bt_mesh b)))"
  shows "\<exists>blob'. durable (node_flash F content keys base (boot_settings H m blob')) False i H (ms_ctx (started H b))"
proof -
  have H: "h_flash H = F" using assms(4) by (simp add: host_ok_def)
  obtain cfg where f: "node_flash F content keys base (boot_settings H m blob) cfg fr (cx_storage (ms_ctx s))"
    using assms(1) by (auto simp: durable_def)
  have "identity (ms_ctx (bt_mesh b)) = i"
    using restarted(4) [OF f H, of w m seed t] assms(5) by (auto simp: booted_identity assms(2))
  then show ?thesis
    using boot_durable [OF assms(5,4) restarted(1) [OF f H] assms(3,6)] restarted(2) [OF f H] assms(2) by auto
qed

lemma lives_durable:
  assumes "lives H content m base i s" and "host_ok F H"
  shows "length m = 6 \<and> (\<exists>keys blob. i = (keys, node_num_of m, m)
    \<and> durable (node_flash F content keys base (boot_settings H m blob)) True i H (ms_ctx s))"
  using assms(1)
proof induction
  case (First_boot w mem seed t b)
  then show ?case
    using boot_durable [OF First_boot(1) assms(2) First_boot(3,2,5)] node.durable_marked by (metis fst_conv)
next
  case (Runs i s s')
  then show ?case using node.mesh_step_durable [OF _ _ assms(2)] by blast
next
  case (Power_cycle i s w seed t b)
  then show ?case using reboot_durable [OF _ _ _ assms(2) Power_cycle.hyps(2,3)] node.durable_marked by blast
qed

lemma settled_durable:
  assumes "settled H content m base i s" and "host_ok F H"
  shows "\<exists>keys blob. durable (node_flash F content keys base (boot_settings H m blob)) False i H (ms_ctx s)"
  using assms(1)
proof induction
  case (Settled_first w mem seed t b)
  then show ?case using boot_durable [OF Settled_first(1) assms(2) Settled_first(3,2,5)] by metis
next
  case (Settled_again i s w seed t b)
  then show ?case
    using lives_durable [OF Settled_again.hyps(1) assms(2)] reboot_durable [OF _ _ _ assms(2) Settled_again.hyps(2,3)] by blast
next
  case (Settled_runs i s s')
  then show ?case using node.plain_step_durable [OF _ _ assms(2)] by blast
qed

text \<open>A power cycle at any moment succeeds, and the node is who it was.\<close>

lemma lives_again:
  assumes "lives H content m base i s" and "host_ok F H"
  shows "identity (ms_ctx s) = i" "snd i = (node_num_of m, m)"
    "\<exists>b. esp_boot H w (Some m) (nv_flash (cx_storage (ms_ctx s))) base seed t = Some b \<and> identity (ms_ctx (bt_mesh b)) = i"
proof -
  have H: "h_flash H = F" using assms(2) by (simp add: host_ok_def)
  obtain keys blob where i: "i = (keys, node_num_of m, m)"
    and d: "durable (node_flash F content keys base (boot_settings H m blob)) True i H (ms_ctx s)" using lives_durable [OF assms] by blast
  then obtain cfg where f: "node_flash F content keys base (boot_settings H m blob) cfg True (cx_storage (ms_ctx s))"
    by (auto simp: durable_def)
  show "identity (ms_ctx s) = i" using d by (simp add: durable_def)
  show "snd i = (node_num_of m, m)" by (simp add: i)
  show "\<exists>b. esp_boot H w (Some m) (nv_flash (cx_storage (ms_ctx s))) base seed t = Some b \<and> identity (ms_ctx (bt_mesh b)) = i"
    using restarted(4) [OF f H, of w m seed t] by (auto simp: booted_identity i)
qed

text \<open>What the next boot makes of the configuration in flash.\<close>

lemma restarted_settings:
  assumes "settled H content m base i s" and "host_ok F H"
    and "esp_boot H w (Some m) (nv_flash (cx_storage (ms_ctx s))) base seed t = Some b"
  shows "device_ok (cx_device (ms_ctx s))"
    "cx_device (ms_ctx (bt_mesh b)) = booted_device H m (Some (encode_config (settings H (ms_ctx s))))
    \<or> settings H (ms_ctx (bt_mesh b)) = settings H (ms_ctx s)"
proof -
  have H: "h_flash H = F" using assms(2) by (simp add: host_ok_def)
  let ?st = "cx_storage (ms_ctx s)" and ?cfg = "settings H (ms_ctx s)"
  obtain keys blob where d: "durable (node_flash F content keys base (boot_settings H m blob)) False i H (ms_ctx s)"
    using settled_durable [OF assms(1,2)] by blast
  then show "device_ok (cx_device (ms_ctx s))" by (simp add: durable_def ctx_ok_def)
  have f: "node_flash F content keys base (boot_settings H m blob) ?cfg False ?st" using d by (simp add: durable_def)
  have dev: "cx_device (ms_ctx (bt_mesh b)) = booted_device H m (load_sector F CONFIG_SECTOR CONFIG_SIZE ?st)"
    using restarted(3) [OF f H] restarted(4) [OF f H, of w m seed t] assms(3) by (auto simp: mesh_state_new_fields H booted_device_load)
  from f consider "load_sector F CONFIG_SECTOR CONFIG_SIZE ?st = Some (encode_config ?cfg)"
    | "(?cfg, load_sector F CONFIG_SECTOR CONFIG_SIZE ?st) = boot_settings H m blob" by (auto simp: node_flash_def)
  then show "cx_device (ms_ctx (bt_mesh b)) = booted_device H m (Some (encode_config (settings H (ms_ctx s))))
    \<or> settings H (ms_ctx (bt_mesh b)) = settings H (ms_ctx s)"
    using dev by cases (simp_all add: boot_settings_def settings_def)
qed

end

section \<open>Settings that the blob can express\<close>

definition keepable :: "env \<Rightarrow> device_state \<Rightarrow> bool" where
  "keepable E dev \<longleftrightarrow> preset_roundtrips E (modem_preset dev)
     \<and> bw_code_to_hz (bw_hz_to_code (custom_bw_hz dev)) = custom_bw_hz dev \<and> unat (channel_num dev) < 0xFFFF
     \<and> long_name dev \<noteq> [] \<and> short_name dev \<noteq> []
     \<and> (case channels dev ! 0 of Some c \<Rightarrow> ch_role c \<noteq> Disabled | None \<Rightarrow> False)"

lemma active_restored:
  "filter (\<lambda>c. ch_role c \<noteq> Disabled) (flatten (map2 restored_slot cs (replicate (length cs) None)))
    = filter (\<lambda>c. ch_role c \<noteq> Disabled) (flatten cs)"
  by (induction cs rule: flatten.induct) (simp_all add: restored_slot_def)

lemma active_channels_restored:
  assumes "length cs = MAX_CHANNELS" and "case cs ! 0 of Some c \<Rightarrow> ch_role c \<noteq> Disabled | None \<Rightarrow> False"
  shows "active_channels (map2 restored_slot cs channel_set_new) = active_channels cs"
proof -
  obtain c rest where cs: "cs = Some c # rest" "ch_role c \<noteq> Disabled" "length rest = 7"
    using assms by (cases cs) (auto simp: const_defs split: option.splits)
  have new: "channel_set_new = Some default_primary # replicate (length rest) None"
    by (simp add: channel_set_new_def cs(3) const_defs eval_nat_numeral)
  show ?thesis unfolding new cs(1) using active_restored [of rest] cs(2) by (simp add: active_channels_def restored_slot_def [of "Some c"])
qed

lemma settings_restored:
  assumes "device_ok dev" and "keepable (h_env H) dev"
  shows "saved_config_from_device (h_env H) (booted_device H m (Some (encode_config (saved_config_from_device (h_env H) dev))))
    = saved_config_from_device (h_env H) dev"
proof -
  let ?fresh = "device_new m"
  have ch: "channels ?fresh = channel_set_new" "length (channels ?fresh) = MAX_CHANNELS" "length (channels dev) = MAX_CHANNELS"
    using assms(1) by (simp_all add: device_new_def Let_def channel_set_new_def device_ok_def channels_ok_def)
  have k: "preset_roundtrips (h_env H) (modem_preset dev)" "bw_code_to_hz (bw_hz_to_code (custom_bw_hz dev)) = custom_bw_hz dev"
    "unat (channel_num dev) < 0xFFFF" "long_name dev \<noteq> []" "short_name dev \<noteq> []"
    "case channels dev ! 0 of Some c \<Rightarrow> ch_role c \<noteq> Disabled | None \<Rightarrow> False"
    using assms(2) by (simp_all add: keepable_def)
  from config_restored [OF assms(1) k(1-3) ch(2)] k(4,5)
  obtain cfg where c: "decode_config (encode_config (saved_config_from_device (h_env H) dev)) = Some cfg"
    "apply_saved_config (h_env H) cfg ?fresh =
        dev\<lparr>my_node_num := my_node_num ?fresh, mac := mac ?fresh, hw_model := hw_model ?fresh,
            packet_id_counter := packet_id_counter ?fresh, long_name := long_name dev, short_name := short_name dev,
            channels := map2 restored_slot (channels dev) channel_set_new\<rparr>" by (auto simp: ch(1))
  show ?thesis
    unfolding booted_device_def bind.simps c option.case
    using active_channels_restored [OF ch(3) k(6)] by (simp add: saved_config_from_device_def)
qed

section \<open>An example\<close>

definition life_host :: "bytes host" where
  "life_host = example_host\<lparr>h_flash := rmw_ops, h_sort := stable_desc\<rparr>"

definition life_mac :: bytes where
  "life_mac = [1, 2, 3, 4, 5, 6]"

lemma life_host_ok: "host_ok rmw_ops life_host"
  using decodes_strings_example by (simp add: host_ok_def life_host_def decodes_strings_def stable_desc_sorts)

lemma life_seed_ok: "seed_ok life_host (replicate 32 7)"
  by (simp add: seed_ok_def life_host_def example_host_def toy_env_def toy_prims_def keypair_from_seed_def keypair_ok_def Let_def)

text \<open>The first boot on an erased region.\<close>

lemma erased_load:
  assumes "unat sector < 5" and "sector \<noteq> STORAGE_SECTOR" and "n \<le> 4096"
  shows "load_sector rmw_ops sector n (nvs_new rmw_ops (replicate 20480 0xFF) 0) = Some (replicate n 0xFF)"
proof -
  let ?st = "blank_ring (replicate 20480 (0xFF :: u8)) 0"
  have r: "room 0 (id (replicate 20480 0xFF))" using room_example by simp
  have "load_sector rmw_ops sector n ?st = Some (replicate n 0xFF)"
    using rmw.read_content [of "sector_offset ?st sector" n "replicate 20480 0xFF"] sector_offset_nat [of ?st "replicate 20480 0xFF" sector]
      assms room_example by (simp add: load_sector_def erased_slice)
  then show ?thesis using rmw.nvs_new_only [OF r, of ?st] assms by (simp add: only_sector_def)
qed

lemma life_boot:
  "\<exists>b. esp_boot life_host False (Some life_mac) (replicate 20480 0xFF) 0 (replicate 32 7) 0 = Some b
     \<and> boot_ok life_host (cx_storage (ms_ctx (bt_mesh b))) \<and> cx_device (ms_ctx (bt_mesh b)) = device_new life_mac
     \<and> identity (ms_ctx (bt_mesh b)) = ((replicate 32 7, replicate 32 7), node_num_of life_mac, life_mac)"
proof -
  let ?st0 = "nvs_new rmw_ops (replicate 20480 0xFF) 0" and ?P = "env_pkc (h_env life_host)" and ?k = "replicate 32 7 :: bytes"
  have room: "room (nv_base ?st0) (id (nv_flash ?st0))" using rmw.room_new [of 0 "replicate 20480 0xFF"] room_example by simp
  have none: "load_pkc_keypair rmw_ops ?st0 = None"
    using erased_load [of PKC_SECTOR PKC_BLOB_SIZE] by (simp add: load_pkc_keypair_def sector_numbers blob_sizes decode_pkc_keypair_def of_le32_def const_defs)
  have kp: "keypair_from_seed ?P ?k = (?k, ?k)"
    by (simp add: keypair_from_seed_def life_host_def example_host_def toy_env_def toy_prims_def Let_def)
  let ?blob = "encode_pkc_keypair ?k ?k"
  have ok: "keypair_ok (?k, ?k)" by (simp add: keypair_ok_def)
  have sec: "unat PKC_SECTOR < 5" "length ?blob \<le> 4096" using pkc_blob.enc_length [OF ok] blob_sizes by (simp_all add: sector_numbers)
  obtain st r where sv: "save_sector rmw_ops PKC_SECTOR ?blob ?st0 = (st, r)" by fastforce
  have "r = Inr ()" using rmw.save_sector_content(1) [OF room sec] by (simp add: sv)
  then have made: "load_or_make_keypair ?P rmw_ops ?k ?st0 = Some (st, ?k, ?k)"
    by (simp add: load_or_make_keypair_def none kp save_pkc_keypair_def sv)
  have "only_sector rmw_ops id PKC_SECTOR ?st0 st" using rmw.save_only [OF room sec] by (simp add: sv)
  then have cfg: "load_config rmw_ops st = None"
    using erased_load [of CONFIG_SECTOR CONFIG_SIZE] sector_numbers blob_sizes decode_erased(1) by (simp add: only_sector_def load_config_def)
  have "nvs_ok ?st0"
    using first_boot [OF room_example erased_no_ring [OF room_example]] nvs_port.inv_clear by metis
  then have "nvs_ok st" using save_sector_ram [of rmw_ops PKC_SECTOR ?blob ?st0] by (simp add: sv)
  with cfg have "boot_ok life_host st" by (simp add: boot_ok_def life_host_def)
  moreover have "load_state (h_env life_host) (h_flash life_host) st (device_new life_mac) = device_new life_mac"
    by (simp add: load_state_def cfg life_host_def)
  moreover have "h_flash life_host = rmw_ops" by (simp add: life_host_def)
  ultimately show ?thesis
    using made by (simp add: esp_boot_def Let_def mesh_state_new_fields booted_identity split: prod.split)
qed

lemma announce_device:
  "\<exists>n. cx_device (ms_ctx (announce H t s)) = (cx_device (ms_ctx s))\<lparr>packet_id_counter := n\<rparr>"
proof -
  have same: "\<exists>n. dev = dev\<lparr>packet_id_counter := n\<rparr>" for dev :: device_state
    by (rule exI [of _ "packet_id_counter dev"]) simp
  then show ?thesis
    by (auto simp: announce_def broadcast_nodeinfo_def lora_send_def originate_def ctx_packet_id_def next_packet_id_def
        queue_lora_def Let_def split: option.split)
qed

lemma life_example:
  obtains b where "esp_boot life_host False (Some life_mac) (replicate 20480 0xFF) 0 (replicate 32 7) 0 = Some b"
    "settled life_host id life_mac 0 ((replicate 32 7, replicate 32 7), node_num_of life_mac, life_mac) (started life_host b)"
    "keepable (h_env life_host) (cx_device (ms_ctx (started life_host b)))" "ms_rebooting (started life_host b) = None"
proof -
  let ?k = "replicate 32 7 :: bytes" and ?mem = "replicate 20480 0xFF :: bytes"
  obtain b where b: "esp_boot life_host False (Some life_mac) ?mem 0 ?k 0 = Some b" "boot_ok life_host (cx_storage (ms_ctx (bt_mesh b)))"
    and d: "cx_device (ms_ctx (bt_mesh b)) = device_new life_mac" and i: "identity (ms_ctx (bt_mesh b)) = ((?k, ?k), node_num_of life_mac, life_mac)"
    using life_boot by blast
  have "room 0 (id ?mem)" using room_example by simp
  moreover have "length life_mac = 6" by (simp add: life_mac_def)
  ultimately have lv: "settled life_host id life_mac 0 (identity (ms_ctx (bt_mesh b))) (started life_host b)"
    using b life_seed_ok by (intro settled.Settled_first)
  have "keepable (h_env life_host) ((device_new life_mac)\<lparr>packet_id_counter := n\<rparr>)" for n
    by (simp add: keepable_def life_host_def example_host_def toy_env_def preset_roundtrips_def device_new_def Let_def life_mac_def
        bw_code_to_hz_def bw_hz_to_code_def slice_def hex_byte_def vec_extend_def channel_set_new_def default_primary_def ascii_def const_defs)
  then have "keepable (h_env life_host) (cx_device (ms_ctx (started life_host b)))"
    using announce_device [of life_host _ "bt_mesh b"] by (metis started_def d)
  moreover have "ms_rebooting (bt_mesh b) = None" by (rule esp_boot_cases [OF b(1)]) (simp add: mesh_state_new_fields)
  ultimately show thesis using b(1) lv i that by (metis started_def announce_lasting(2))
qed

section \<open>Properties\<close>

text \<open>C7: a node is the same to its peers for ever.  Through any run of the event loop and any number of
  power cycles, on both boards' flash, the X25519 key pair made at the first boot, the node number and the
  hardware address stay what they were, a factory reset included; a power cycle after any step boots again, and
  the fresh seed it may draw makes no difference.\<close>
theorem identity_kept:
  assumes "lives H id m base i s" and "host_ok F H" and "F = rmw_ops \<or> F = nor_ops"
  shows "identity (ms_ctx s) = i \<and> snd i = (node_num_of m, m)
    \<and> (\<exists>b. esp_boot H w (Some m) (nv_flash (cx_storage (ms_ctx s))) base seed t = Some b \<and> identity (ms_ctx (bt_mesh b)) = i)"
  using assms rmw.lives_again(1,2) [of H m base i s] nor.lives_again(1,2) [of H m base i s] rmw.lives_again(3) [of H m base i s w seed t]
    nor.lives_again(3) [of H m base i s w seed t] by auto

theorem identity_kept_witness:
  "\<exists>(s :: bytes mesh_state) b. esp_boot life_host True (Some life_mac) (nv_flash (cx_storage (ms_ctx s))) 0 [] 9 = Some b
     \<and> fst (identity (ms_ctx (bt_mesh b))) = (replicate 32 7, replicate 32 7)"
proof -
  obtain b where "lives life_host id life_mac 0 ((replicate 32 7, replicate 32 7), node_num_of life_mac, life_mac) (started life_host b)"
    using life_example settled_lives by metis
  from identity_kept [OF this life_host_ok disjI1 [OF refl], of True "[]" 9] show ?thesis by fastforce
qed

text \<open>C8: a loss of power between two steps keeps the configuration.  Take any boot of a node, its first or one
  after whatever lives it had, and any run of the event loop since then in which no message asked for a factory
  reset: settings changed over the mesh or by the phone, reboots asked for, bonds, texts and node tables saved.
  The next boot ends up with exactly the settings the node had in RAM, on both boards' flash.  (The names must
  not be empty and slot 0 not disabled, the preset one the code can name, the channel number below 65535 and a
  custom bandwidth one that the blob can express.  A loss of power within one write, between the erasure of a
  sector and the writing of it, is not among the steps.)\<close>
theorem settings_kept:
  assumes "settled H id m base i s" and "host_ok F H" and "F = rmw_ops \<or> F = nor_ops"
    and "esp_boot H w (Some m) (nv_flash (cx_storage (ms_ctx s))) base seed t = Some b"
    and "keepable (h_env H) (cx_device (ms_ctx s))"
  shows "settings H (ms_ctx (bt_mesh b)) = settings H (ms_ctx s)"
proof -
  have d: "device_ok (cx_device (ms_ctx s))"
    "cx_device (ms_ctx (bt_mesh b)) = booted_device H m (Some (encode_config (settings H (ms_ctx s))))
      \<or> settings H (ms_ctx (bt_mesh b)) = settings H (ms_ctx s)"
    using assms(2,3) rmw.restarted_settings [OF assms(1) _ assms(4)] nor.restarted_settings [OF assms(1) _ assms(4)] by blast+
  from settings_restored [OF d(1) assms(5), of m] d(2) show ?thesis by (auto simp: settings_def)
qed

theorem settings_kept_witness:
  "\<exists>b0 b. let s = turn life_host 7 BleConnected (note_event 7 BleConnected (started life_host b0)) in
     ms_activity s = Some 7 \<and> cx_ble_connected (ms_ctx s)
     \<and> esp_boot life_host False (Some life_mac) (nv_flash (cx_storage (ms_ctx s))) 0 [] 9 = Some b
     \<and> settings life_host (ms_ctx (bt_mesh b)) = settings life_host (ms_ctx s)"
proof -
  let ?i = "((replicate 32 7, replicate 32 7), node_num_of life_mac, life_mac)"
  obtain b0 where b0: "settled life_host id life_mac 0 ?i (started life_host b0)"
    "keepable (h_env life_host) (cx_device (ms_ctx (started life_host b0)))" "ms_rebooting (started life_host b0) = None"
    using life_example by blast
  let ?s = "turn life_host 7 BleConnected (note_event 7 BleConnected (started life_host b0))"
  have s: "settled life_host id life_mac 0 ?i ?s"
    by (intro settled.Settled_runs [OF b0(1)] plain_step.Plain_event [OF b0(3)]) (simp_all add: event_ok_def reset_event_def)
  have f: "cx_device (ms_ctx ?s) = cx_device (ms_ctx (started life_host b0))" "ms_activity ?s = Some 7" "cx_ble_connected (ms_ctx ?s)"
    by (simp_all add: turn_def mesh_dispatch_def note_event_def finish_turn_def take_reboot_def forward_shutdown_def flush_node_db_def
        save_nodes_def Let_def split: option.split prod.split sum.split)
  obtain b where b: "esp_boot life_host False (Some life_mac) (nv_flash (cx_storage (ms_ctx ?s))) 0 [] 9 = Some b"
    using rmw.lives_again(3) [OF settled_lives [OF s] life_host_ok, of False "[]" 9] by blast
  from settings_kept [OF s life_host_ok disjI1 [OF refl] b] b0(2) b f show ?thesis by (auto simp: Let_def)
qed

text \<open>C13: every key has its 32 bytes.  In every life of a node, its own two keys and the public keys in its node table are
  32 bytes long, as the cryptographic library's types demand, the private key is not zero, and the state is
  well-formed.\<close>
theorem keys_have_32_bytes:
  assumes "lives H id m base i s" and "host_ok F H" and "F = rmw_ops \<or> F = nor_ops"
  shows "keypair_ok (cx_pkc_priv (ms_ctx s), cx_pkc_pub (ms_ctx s))
    \<and> (\<forall>n \<in> set (db_nodes (cx_node_db (ms_ctx s))). \<forall>k. n_pub_key n = Some k \<longrightarrow> length k = 32)
    \<and> ctx_ok (ms_ctx s) \<and> length (mac (cx_device (ms_ctx s))) = 6"
proof -
  obtain keys bt where d: "i = (keys, node_num_of m, m)" "length m = 6" "durable (node_flash F id keys base bt) True i H (ms_ctx s)"
    using rmw.lives_durable [of H m base i s] nor.lives_durable [of H m base i s] assms by metis
  then have f: "node_flash F id keys base bt (settings H (ms_ctx s)) True (cx_storage (ms_ctx s))" by (simp add: durable_def)
  have "keypair_ok keys" using assms(3) rmw.stored_keys nor.stored_keys f by blast
  with d show ?thesis by (auto simp: durable_def identity_def keys_ok_def key_ok_def)
qed

theorem keys_have_32_bytes_witness:
  "\<exists>s :: bytes mesh_state. length (cx_pkc_pub (ms_ctx s)) = 32 \<and> identity (ms_ctx s) = ((replicate 32 7, replicate 32 7), node_num_of life_mac, life_mac)"
proof -
  let ?i = "((replicate 32 7, replicate 32 7), node_num_of life_mac, life_mac)"
  obtain b where b: "lives life_host id life_mac 0 ?i (started life_host b)" using life_example settled_lives by metis
  from keys_have_32_bytes [OF b life_host_ok disjI1 [OF refl]] rmw.lives_again(1) [OF b life_host_ok] show ?thesis by (auto simp: keypair_ok_def)
qed

lemma map2_xor_cancel:
  assumes "length xs = length ks" and "length ys = length ks"
  shows "map2 (XOR) (map2 (\<lambda>b k. b XOR k) xs ks) (map2 (\<lambda>b k. b XOR k) ys ks) = map2 (XOR) xs (ys :: bytes)"
proof -
  have "(a XOR k) XOR (b XOR k) = a XOR b" for a b k :: u8 by (rule bit_word_eqI) (auto simp: bit_xor_iff)
  with assms show ?thesis by (intro nth_equalityI) simp_all
qed

lemma fresh_packet_id:
  assumes "esp_boot H w (Some m) mem base seed t = Some b"
  shows "snd (ctx_packet_id (ms_ctx (bt_mesh b))) = node_num_of m + 1"
proof -
  have c: "packet_id_counter (load_state E F st dev) = packet_id_counter dev" for E F st dev
    by (simp add: load_state_def apply_saved_config_def Let_def split: option.split)
  have "packet_id_counter (cx_device (ms_ctx (bt_mesh b))) = node_num_of m"
    by (rule esp_boot_cases [OF assms]) (simp add: c mesh_state_new_fields device_new_def Let_def node_num_of_def)
  then show ?thesis by (simp add: ctx_packet_id_def next_packet_id_def Let_def)
qed

text \<open>C20: the keystream repeats after every power cycle.  The packet number restarts from the node number, so the
  first packets of two lives of a node carry the same number whatever happened between them, and the counter block
  of the channel cipher is made of this number and the node's: two texts of equal length that the node encrypts
  with them under one channel key leak their exclusive or.\<close>
theorem keystream_repeats:
  assumes "esp_boot H w (Some m) mem base seed t = Some b" and "esp_boot H w' (Some m) mem' base' seed' t' = Some b'"
    and "stream_ok ks" and "length d = length d'"
    and "crypt_packet ks key (snd (ctx_packet_id (ms_ctx (bt_mesh b)))) (bt_node_num b) d = Inr e"
    and "crypt_packet ks key (snd (ctx_packet_id (ms_ctx (bt_mesh b')))) (bt_node_num b') d' = Inr e'"
  shows "map2 (XOR) e e' = map2 (XOR) d d'"
proof -
  have n: "bt_node_num b = node_num_of m" by (rule esp_boot_cases [OF assms(1)]) simp
  have n': "bt_node_num b' = node_num_of m" by (rule esp_boot_cases [OF assms(2)]) simp
  let ?k = "ks key (build_nonce (node_num_of m + 1) (node_num_of m)) (length d)"
  have k: "length ?k = length d" using assms(3) by (simp add: stream_ok_def)
  show ?thesis
  proof (cases "d = []")
    case True
    then show ?thesis using assms(4-6) by (simp add: crypt_packet_def)
  next
    case False
    then have d': "d' \<noteq> []" using assms(4) by auto
    have e: "e = map2 (\<lambda>b k. b XOR k) d ?k"
      using False assms(5) by (simp add: crypt_packet_def apply_keystream_def n fresh_packet_id [OF assms(1)] Let_def split: if_splits)
    have e': "e' = map2 (\<lambda>b k. b XOR k) d' ?k"
      using d' assms(4,6) by (simp add: crypt_packet_def apply_keystream_def n' fresh_packet_id [OF assms(2)] Let_def split: if_splits)
    show ?thesis unfolding e e' using k assms(4) by (intro map2_xor_cancel) simp_all
  qed
qed

theorem keystream_repeats_witness:
  "\<exists>e e'. crypt_packet toy_stream (replicate 16 1) (node_num_of life_mac + 1) (node_num_of life_mac) [1, 2] = Inr e
     \<and> crypt_packet toy_stream (replicate 16 1) (node_num_of life_mac + 1) (node_num_of life_mac) [5, 5] = Inr e'
     \<and> map2 (XOR) e e' = [4, 7]"
proof -
  obtain b where b: "esp_boot life_host False (Some life_mac) (replicate 20480 0xFF) 0 (replicate 32 7) 0 = Some b"
    using life_example by blast
  have n: "bt_node_num b = node_num_of life_mac" by (rule esp_boot_cases [OF b]) simp
  have "\<exists>e. crypt_packet toy_stream (replicate 16 1) p q d = Inr e" for p q d by (simp add: crypt_packet_def Let_def)
  then obtain e e' where e: "crypt_packet toy_stream (replicate 16 1) (node_num_of life_mac + 1) (node_num_of life_mac) [1, 2] = Inr e"
    "crypt_packet toy_stream (replicate 16 1) (node_num_of life_mac + 1) (node_num_of life_mac) [5, 5] = Inr e'" by blast
  have "stream_ok toy_stream" using toy_stream_ok by (simp add: toy_env_def)
  with e keystream_repeats [OF b b, of toy_stream "[1, 2]" "[5, 5]" "replicate 16 1" e e'] fresh_packet_id [OF b]
  have m: "map2 (XOR) e e' = [4, 7]" by (simp add: n)
  show ?thesis by (rule exI [of _ e], rule exI [of _ e']) (simp only: e m)
qed

text \<open>The boards start alike and their tasks agree.  With the same chip number in the same place of flash the
  nRF52 starts exactly as the ESP32 does; and on both flash drivers the radio task is started with the parameters and the
  transmit switch of the device state that the mesh task has, under the node number the mesh task answers to, the
  link with the bond in flash.\<close>
lemma tasks_agree_at_boot:
  assumes "nrf_boot H low high mem seed t = Some b" and "h_flash H = rmw_ops \<or> h_flash H = nor_ops" and "room NVS_BASE mem"
    and "seed_ok H seed"
  shows "esp_boot H False (Some (nrf_mac low high)) mem NVS_BASE seed t = Some b
    \<and> (bt_modem_cfg b, bt_frequency_hz b) = lora_params (h_env H) (cx_device (ms_ctx (bt_mesh b)))
    \<and> bt_tx_enabled b = cx_tx_enabled (ms_ctx (bt_mesh b)) \<and> bt_node_num b = my_node_num (cx_device (ms_ctx (bt_mesh b)))
    \<and> bt_initial_bond b = load_bond (h_flash H) (cx_storage (ms_ctx (bt_mesh b)))"
proof -
  let ?m = "nrf_mac low high" and ?st0 = "nvs_new (h_flash H) mem NVS_BASE"
  have boot: "esp_boot H False (Some ?m) mem NVS_BASE seed t = Some b" using assms(1) by (simp only: boards_boot_alike)
  obtain st0 st p q where b0: "st0 = ?st0" and b1: "load_or_make_keypair (env_pkc (h_env H)) (h_flash H) seed st0 = Some (st, p, q)"
    "bt_mesh b = mesh_state_new H ?m st (p, q) t"
    "bt_tx_enabled b = tx_enabled (load_state (h_env H) (h_flash H) st0 (device_new ?m))"
    "(bt_modem_cfg b, bt_frequency_hz b) = lora_params (h_env H) (load_state (h_env H) (h_flash H) st0 (device_new ?m))"
    "bt_node_num b = node_num_of ?m" "bt_initial_bond b = load_bond (h_flash H) st0" "bt_device_name b = build_ble_device_name ?m"
    by (rule esp_boot_cases [OF boot])
  note b = b1 [unfolded b0]
  have room: "room NVS_BASE (id mem)" using assms(3) by simp
  have "only_sector (h_flash H) id PKC_SECTOR ?st0 st"
    using assms(2) rmw.room_new [OF room] nor.room_new [OF room] rmw.keypair_made(1) [of ?st0 "env_pkc (h_env H)" seed st "(p, q)"]
      nor.keypair_made(1) [of ?st0 "env_pkc (h_env H)" seed st "(p, q)"] b(1) assms(4) by (auto simp: seed_ok_def)
  then have same: "load_sector (h_flash H) CONFIG_SECTOR CONFIG_SIZE st = load_sector (h_flash H) CONFIG_SECTOR CONFIG_SIZE ?st0"
    "load_sector (h_flash H) BOND_SECTOR BOND_SIZE st = load_sector (h_flash H) BOND_SECTOR BOND_SIZE ?st0"
    using sector_numbers blob_sizes by (simp_all add: only_sector_def BOND_SIZE_def)
  then have dev: "load_state (h_env H) (h_flash H) ?st0 (device_new ?m) = cx_device (ms_ctx (bt_mesh b))"
    by (simp add: b(2) mesh_state_new_fields load_state_def load_config_def)
  have "cx_tx_enabled (ms_ctx (bt_mesh b)) = tx_enabled (cx_device (ms_ctx (bt_mesh b)))" by (simp add: b(2) mesh_state_new_def Let_def)
  moreover have "my_node_num (cx_device (ms_ctx (bt_mesh b))) = node_num_of ?m"
    by (simp add: b(2) mesh_state_new_fields load_state_identity device_new_identity)
  moreover have "load_bond (h_flash H) (cx_storage (ms_ctx (bt_mesh b))) = load_bond (h_flash H) ?st0"
    by (simp add: b(2) mesh_state_new_fields load_bond_def same(2))
  ultimately show ?thesis using boot b dev by simp
qed

end
