(* ===== verification/Spec2Isabelle.thy ===== *)
theory Spec2Isabelle
  imports Radio_Config Node_Snapshot Relay_Delay Tx Persistence Ring_Durability Direct_Messages Radio_Safety
    Ble_Boards Admin_Safety Lifecycle Over_The_Air Battery_Task Boot
begin

text \<open>
  \<^bold>\<open>A Meshtastic-compatible mesh node\<close> (\<open>meshtastenstein-core\<close>, Rust, \<open>no_std\<close>).

  The firmware joins a LoRa mesh: the radio task delivers raw frames to the mesh task, which parses
  the header, drops duplicates, decrypts with a channel key or a pairwise key, hands the payload to
  a handler per port number, and relays the frame with one hop less when its role allows it.  A
  phone talks to the same handlers over BLE.  Node records, channel settings and undelivered
  messages are kept in flash.

  \<^bold>\<open>Theories, bottom up.\<close>
  \<^item> \<open>Mesh_Prelude\<close>: machine integers, little-endian codecs, bounded vectors and list lemmas.
  \<^item> \<open>Mesh_Constants\<close>: \<open>constants.rs\<close>.  \<open>Codec\<close>: the interfaces of the byte codecs.
  \<^item> \<open>Radio_Config\<close>: \<open>domain/radio_config.rs\<close>, presets, regions and the frequency plan.
  \<^item> \<open>Packet\<close>: \<open>domain/packet.rs\<close>, the over-the-air header and frame.
  \<^item> \<open>Proto\<close>: the protobuf messages the code handles, as records of the fields it uses.
  \<^item> \<open>Node_Map\<close>, \<open>Node_DB\<close>, \<open>Node_Snapshot\<close>: \<open>domain/node_db.rs\<close>, the node table as an
    implementation of a finite map, its eviction and its flash snapshot.
  \<^item> \<open>Seen_Ring\<close>, \<open>Mesh_Router\<close>, \<open>Float32\<close>, \<open>Relay_Delay\<close>: \<open>domain/router.rs\<close>, duplicate
    detection, relaying, routes, retransmission and contention windows.
  \<^item> \<open>Channels\<close>, \<open>Crypto_PSK\<close>, \<open>Crypto_PKC\<close>: channel table and both encryption schemes.
  \<^item> \<open>Device\<close>, \<open>Tx\<close>: device state and the construction of outgoing frames.
  \<^item> \<open>Layout\<close>, \<open>Persistence\<close>: \<open>domain/persistence.rs\<close>, the flash blobs as fields at fixed offsets.
  \<^item> \<open>Frame_Store\<close>, \<open>Nvs_Storage\<close>: the contract of \<open>ports/storage.rs\<close> and
    \<open>adapters/generic_nvs_storage.rs\<close>, which meets it.
  \<^item> \<open>Nvs_Flash\<close>, \<open>Ring_Durability\<close>: two flash devices (one that erases before it writes,
    one that only programs) and what of the message ring and the settings outlives a power cycle.

  \<^item> \<open>Phone_Proto\<close>, \<open>Mesh_Context\<close>: the messages exchanged with the phone; \<open>domain/context.rs\<close> and
    \<open>inter_task/channels.rs\<close>, the state all handlers share, with the queues as lists.
  \<^item> \<open>Handler_Util\<close>: \<open>handlers/util.rs\<close>, and \<open>ctx_ok\<close>, the invariant of the shared state.
  \<^item> \<open>Admin\<close>, \<open>Admin_Safety\<close>: \<open>handlers/admin/\<close>, the session-key gate and the settings.
  \<^item> \<open>From_Radio\<close>, \<open>Direct_Messages\<close>, \<open>Radio_Safety\<close>: \<open>handlers/from_radio/\<close>, the way of a frame
    from the radio: decryption, port handlers, relaying.
  \<^item> \<open>From_App\<close>, \<open>Phone_Link\<close>: \<open>handlers/from_app/\<close>, transmission on behalf of the phone, the two
    download stages and the replay of stored frames.
  \<^item> \<open>Periodic\<close>: \<open>handlers/periodic.rs\<close> and the telemetry payload.
  \<^item> \<open>Mesh_Task\<close>, \<open>Lifecycle\<close>: \<open>tasks/mesh_task.rs\<close>, the event loop as a step relation with its
    reachable states, and what shutdown, reboot and factory reset leave for the next boot.
  \<^item> \<open>Ble_Link\<close>: \<open>boards/esp32/src/tasks/ble_task.rs\<close>, the connection loop between the phone and the
    queues, and the bond kept in flash.
  \<^item> \<open>Ble_Boards\<close>: the same connections while the mesh task queues messages, the restart of the ESP32's
    Bluetooth stack in place, and \<open>boards/nrf52/src/tasks/ble_task.rs\<close>, the copy for the other board.
  \<^item> \<open>Lora_Task\<close>: \<open>drivers/lora_task_body.rs\<close>, listen-before-talk, the receive duty cycle, and the
    frames handed to and taken from the mesh task.
  \<^item> \<open>Sx1262\<close>: \<open>drivers/sx1262_direct.rs\<close> and the start of the radio task in
    \<open>boards/esp32/src/tasks/lora_task.rs\<close>: routines over a log of bus actions, each of which may fail.
  \<^item> \<open>Radio_Task\<close>: the set-up of \<open>lora_task_body::run\<close>, the radio task over a whole run beside the other users
    of the mesh task's queue, and the start of the nRF52's task.
  \<^item> \<open>Over_The_Air\<close>: two nodes, phone to phone and the acknowledgement back, and which frames are relayed.
  \<^item> \<open>Battery_Task\<close>: \<open>battery_task.rs\<close> of both boards, averaging, filter and report.
  \<^item> \<open>Power_Tasks\<close>: \<open>domain/battery.rs\<close>, \<open>tasks/watchdog_task_body.rs\<close>, \<open>tasks/led_task.rs\<close>.
  \<^item> \<open>Durable_State\<close>, \<open>Durable_Flash\<close>: what every step of the event loop leaves of the settings, the key pair and
    the identity in RAM and in flash: the laws of the writes as a locale, met by both flash drivers.
  \<^item> \<open>Boot\<close>: \<open>boards/esp32/src/main.rs\<close>, \<open>boards/nrf52/src/main.rs\<close> and the identity adapters, and the
    lives of a node: boots, runs of the event loop and power cycles over one flash.
  \<^item> \<open>Example_Node\<close>: a concrete node on which the hypotheses are shown to hold.

  \<^bold>\<open>How they fit.\<close>  \<open>turn\<close> is one pass of the loop: \<open>mesh_dispatch\<close> hands the event to
  \<open>from_radio_dispatch\<close>, \<open>from_app_dispatch\<close> or \<open>periodic_dispatch\<close>, which act on one context record
  and append to its queues; \<open>mesh_step\<close> adds the timers and the tasks that take from the queues.
  Every handler preserves \<open>ctx_ok\<close>, so every reachable state satisfies it.
  \<open>lives\<close> (in \<open>Boot\<close>) strings such runs together: a power cycle falls between two steps, and \<open>esp_boot\<close> or \<open>nrf_boot\<close>
  starts again from what \<open>nvs_new\<close>, \<open>load_state\<close> and \<open>load_pkc_keypair\<close> find in the flash; \<open>settled\<close> are those states
  since whose last boot no factory reset was asked for (\<open>plain_step\<close>).  \<open>cx_to_ble\<close> is the queue
  \<open>Ble_Link\<close> reads from, \<open>cx_to_lora\<close> the one \<open>Lora_Task\<close> transmits from; what these append to their
  \<open>mesh_in\<close> are the events of the mesh task.

  \<^bold>\<open>Conventions.\<close>  Words wrap as in the release profile; \<open>usize\<close> and \<open>Instant\<close> (milliseconds)
  are naturals; \<open>f32\<close> is a rational rounded to 24 bits after each operation; strings are UTF-8
  byte lists; \<open>heapless\<close> vectors are lists with their capacity checked by every push.  AES,
  X25519, SHA-256, the protobuf codec, the generated integer-to-enum conversions and the
  library's unstable sort are arguments, as are the calls of the radio library and the answers of the
  bus and of the converter; what is assumed of them stands in the theorems and is discharged for
  concrete instances in the witnesses.

  \<^bold>\<open>Bounds.\<close>  No fuel is used: every loop is a structural recursion or has a measure.

  \<^bold>\<open>Time and queues.\<close>  A handler reads the clock several times in one call; the model uses one
  instant per call.  A blocking send always appends (the task would wait for room), a \<open>try_send\<close>
  drops when the queue is full.

  \<^bold>\<open>Interfaces.\<close>  A locale states what a client relies on and is interpreted on the model: the blob
  codecs, the finite map of nodes, the bounded queue of stored frames, the flash device (two drivers), the
  laws of the writes that keep settings and keys, and the phone's side of the link.

  \<^bold>\<open>Not modelled.\<close>  Pins, clocks, interrupt bindings and the spawning of tasks, advertising, the BLE stack
  itself, the adapters for sleep, restart and random numbers (peripheral access through libraries), a loss of
  power in the middle of one write to flash, logging, generated code.  The
  handlers for text, waypoint and remote-hardware packets only log.
\<close>

end
